(* ===== verification/Prelude.thy ===== *)
theory Prelude
  imports Main
begin

text \<open>
  Shared vocabulary of the development: the JavaScript string and list operations
  the sources use, as functions on \<^typ>\<open>string\<close>, with the lemmas the component
  theories rely on.

  A \<^typ>\<open>char\<close> stands for one byte of the UTF-8 encoding of the text, so
  \<open>length\<close> is \<^verbatim>\<open>Buffer.byteLength\<close>. The operations used here
  (prefix tests, searching and splitting at ASCII characters, trimming ASCII white
  space) give the same result on bytes and on UTF-16 code units.
\<close>

named_theorems js_defs \<open>definitions of the string operations, to be unfolded\<close>
named_theorems char_facts \<open>facts that a class of characters excludes a given one\<close>

section \<open>Prefixes\<close>

definition starts_with :: "'a list \<Rightarrow> 'a list \<Rightarrow> bool" where
  "starts_with s p \<longleftrightarrow> take (length p) s = p"

lemma starts_with_append [simp]: "starts_with (p @ s) p"
  by (simp add: starts_with_def)

lemma starts_with_Nil [simp]: "starts_with s []"
  by (simp add: starts_with_def)

lemma starts_with_Cons [simp]:
  "starts_with (x # s) (y # p) \<longleftrightarrow> x = y \<and> starts_with s p"
  by (auto simp: starts_with_def)

lemma starts_with_Nil_Cons [simp]: "\<not> starts_with [] (y # p)"
  by (simp add: starts_with_def)

lemma starts_with_iff: "starts_with s p \<longleftrightarrow> (\<exists>r. s = p @ r)"
proof
  assume "starts_with s p"
  then have "s = p @ drop (length p) s"
    by (metis append_take_drop_id starts_with_def)
  then show "\<exists>r. s = p @ r" ..
qed auto

section \<open>Searching: indexOf\<close>

text \<open>
  \<^verbatim>\<open>s.indexOf(p)\<close> is the position of the first occurrence, or \<^term>\<open>None\<close>
  for \<^verbatim>\<open>-1\<close>; \<open>index_from\<close> is the two-argument form.
\<close>

fun index_of :: "'a list \<Rightarrow> 'a list \<Rightarrow> nat option" where
  "index_of p [] = (if p = [] then Some 0 else None)"
| "index_of p (c # s) =
     (if starts_with (c # s) p then Some 0 else map_option Suc (index_of p s))"

definition index_from :: "'a list \<Rightarrow> 'a list \<Rightarrow> nat \<Rightarrow> nat option" where
  "index_from p s k = map_option (\<lambda>i. k + i) (index_of p (drop k s))"

definition contains :: "'a list \<Rightarrow> 'a list \<Rightarrow> bool" where
  "contains s p \<longleftrightarrow> (\<exists>u v. s = u @ p @ v)"

lemma index_of_None: "index_of p s = None \<longleftrightarrow> \<not> contains s p"
proof (induction s)
  case Nil
  then show ?case by (simp add: contains_def)
next
  case (Cons c s)
  have "contains (c # s) p \<longleftrightarrow> starts_with (c # s) p \<or> contains s p"
    unfolding contains_def starts_with_iff by (metis append_Cons append_eq_Cons_conv append_self_conv2)
  with Cons.IH show ?case by auto
qed

lemma index_of_Some:
  "index_of p s = Some i \<Longrightarrow> i + length p \<le> length s \<and> take (length p) (drop i s) = p"
proof (induction s arbitrary: i)
  case Nil
  then show ?case by (simp split: if_splits)
next
  case (Cons c s)
  show ?case
  proof (cases "starts_with (c # s) p")
    case True
    with Cons.prems have "i = 0" by simp
    moreover from True have "length p \<le> length (c # s)"
      by (metis starts_with_iff length_append le_add1)
    ultimately show ?thesis using True by (simp add: starts_with_def)
  next
    case False
    with Cons.prems obtain j where "index_of p s = Some j" and "i = Suc j"
      by auto
    with Cons.IH show ?thesis by fastforce
  qed
qed

lemma index_from_None: "index_from p s k = None \<longleftrightarrow> \<not> contains (drop k s) p"
  by (simp add: index_from_def index_of_None)

lemma index_from_Some:
  assumes "index_from p s k = Some i" and "k \<le> length s"
  shows "k \<le> i \<and> i + length p \<le> length s \<and> take (length p) (drop i s) = p"
proof -
  from assms(1) obtain j where j: "index_of p (drop k s) = Some j" and i: "i = k + j"
    by (auto simp: index_from_def)
  from index_of_Some [OF j] have "j + length p \<le> length s - k"
    and "take (length p) (drop (j + k) s) = p"
    by (simp_all add: add.commute)
  with i assms(2) show ?thesis by (simp add: add.commute)
qed

lemma contains_trans: "contains s t \<Longrightarrow> contains t p \<Longrightarrow> contains s p"
  unfolding contains_def by (metis append.assoc)

lemma contains_append [intro]: "contains (u @ p @ v) p"
  by (auto simp: contains_def)

section \<open>Splitting and joining\<close>

fun split_on :: "'a \<Rightarrow> 'a list \<Rightarrow> 'a list list" where
  "split_on c [] = [[]]"
| "split_on c (x # xs) =
     (if x = c then [] # split_on c xs
      else (case split_on c xs of [] \<Rightarrow> [[x]] | y # ys \<Rightarrow> (x # y) # ys))"

fun join_with :: "'a list \<Rightarrow> 'a list list \<Rightarrow> 'a list" where
  "join_with sep [] = []"
| "join_with sep [x] = x"
| "join_with sep (x # y # ys) = x @ sep @ join_with sep (y # ys)"

lemma split_on_not_Nil [simp]: "split_on c s \<noteq> []"
  by (induction s) (auto split: list.splits)

lemma split_on_no_sep: "c \<notin> set s \<Longrightarrow> split_on c s = [s]"
  by (induction s) auto

lemma split_on_append:
  "c \<notin> set s \<Longrightarrow> split_on c (s @ c # t) = s # split_on c t"
  by (induction s) auto

lemma split_on_parts: "x \<in> set (split_on c s) \<Longrightarrow> c \<notin> set x"
  by (induction s arbitrary: x) (auto split: if_splits list.splits)

lemma join_split_on: "join_with [c] (split_on c s) = s"
proof (induction s)
  case Nil
  then show ?case by simp
next
  case (Cons x s)
  obtain y ys where "split_on c s = y # ys"
    by (cases "split_on c s") auto
  with Cons show ?case by (cases ys) auto
qed

lemma join_with_Cons: "xs \<noteq> [] \<Longrightarrow> join_with sep (x # xs) = x @ sep @ join_with sep xs"
  by (cases xs) auto

section \<open>White space and line ends\<close>

definition is_ws :: "char \<Rightarrow> bool" where
  "is_ws c \<longleftrightarrow> c \<in> {CHR '' '', CHR 0x09, CHR 0x0A, CHR 0x0B, CHR 0x0C, CHR 0x0D}"

definition js_trim :: "string \<Rightarrow> string" where
  "js_trim s = rev (dropWhile is_ws (rev (dropWhile is_ws s)))"

lemma js_trim_ends_id:
  assumes "s \<noteq> []" and "\<not> is_ws (hd s)" and "\<not> is_ws (last s)"
  shows "js_trim s = s"
proof -
  from assms have "dropWhile is_ws s = s"
    by (cases s) auto
  moreover from assms have "dropWhile is_ws (rev s) = rev s"
    by (cases s rule: rev_cases) auto
  ultimately show ?thesis by (simp add: js_trim_def)
qed

text \<open>\<^verbatim>\<open>s.replace(/X$/, '')\<close>: drop one trailing character if it is there.\<close>

definition strip_last :: "'a \<Rightarrow> 'a list \<Rightarrow> 'a list" where
  "strip_last c s = (if s \<noteq> [] \<and> last s = c then butlast s else s)"

lemma strip_last_snoc [simp]: "strip_last c (s @ [c]) = s"
  by (simp add: strip_last_def)

lemma strip_last_id: "c \<notin> set s \<Longrightarrow> strip_last c s = s"
  by (auto simp: strip_last_def)

lemma strip_last_length: "length (strip_last c s) \<le> length s"
  by (simp add: strip_last_def)

section \<open>Decimal digits\<close>

definition digit_char :: "nat \<Rightarrow> char" where
  "digit_char d = char_of (48 + d)"

definition is_digit :: "char \<Rightarrow> bool" where
  "is_digit c \<longleftrightarrow> 48 \<le> (of_char c :: nat) \<and> (of_char c :: nat) \<le> 57"

definition digit_val :: "char \<Rightarrow> nat" where
  "digit_val c = of_char c - 48"

fun nat_str :: "nat \<Rightarrow> string" where
  "nat_str n = (if n < 10 then [digit_char n] else nat_str (n div 10) @ [digit_char (n mod 10)])"

declare nat_str.simps [simp del]

text \<open>The value of a digit string, most significant digit first.\<close>

definition digits_val :: "string \<Rightarrow> nat" where
  "digits_val ds = foldl (\<lambda>n c. 10 * n + digit_val c) 0 ds"

lemma of_char_digit_char: "d < 10 \<Longrightarrow> of_char (digit_char d) = (48 + d :: nat)"
  by (simp add: digit_char_def)

lemma is_digit_digit_char [simp]: "d < 10 \<Longrightarrow> is_digit (digit_char d)"
  by (simp add: is_digit_def of_char_digit_char)

lemma digit_val_digit_char [simp]: "d < 10 \<Longrightarrow> digit_val (digit_char d) = d"
  by (simp add: digit_val_def of_char_digit_char)

lemma nat_str_not_Nil [simp]: "nat_str n \<noteq> []"
  by (subst nat_str.simps) simp

lemma nat_str_digits: "c \<in> set (nat_str n) \<Longrightarrow> is_digit c"
proof (induction n rule: nat_str.induct)
  case (1 n)
  then show ?case
    by (cases "n < 10") (auto simp: nat_str.simps [of n])
qed

lemma digits_val_snoc [simp]: "digits_val (ds @ [c]) = 10 * digits_val ds + digit_val c"
  by (simp add: digits_val_def)

lemma digits_val_nat_str [simp]: "digits_val (nat_str n) = n"
proof (induction n rule: nat_str.induct)
  case (1 n)
  show ?case
  proof (cases "n < 10")
    case True
    then show ?thesis by (simp add: nat_str.simps [of n] digits_val_def)
  next
    case False
    with 1 show ?thesis by (simp add: nat_str.simps [of n])
  qed
qed

lemma nat_str_inj: "nat_str m = nat_str n \<Longrightarrow> m = n"
  by (metis digits_val_nat_str)

text \<open>No leading zero, except in \<^verbatim>\<open>"0"\<close> itself.\<close>

lemma nat_str_hd: "hd (nat_str n) = CHR ''0'' \<Longrightarrow> n = 0"
proof (induction n rule: nat_str.induct)
  case (1 n)
  show ?case
  proof (cases "n < 10")
    case True
    with 1 have "digit_char n = CHR ''0''" by (simp add: nat_str.simps [of n])
    then have "of_char (digit_char n) = (48 :: nat)" by simp
    with True show ?thesis by (simp add: of_char_digit_char)
  next
    case False
    from False 1(2) have "hd (nat_str (n div 10)) = CHR ''0''"
      by (simp add: nat_str.simps [of n])
    with False 1(1) have "n div 10 = 0" by simp
    with False show ?thesis by simp
  qed
qed

lemma nat_str_0: "nat_str 0 = ''0''"
  by code_simp

lemma is_digit_excludes [char_facts]:
  "is_digit c \<Longrightarrow> c \<noteq> CHR ''-'' \<and> c \<noteq> CHR ''.'' \<and> c \<noteq> CHR ''e'' \<and> c \<noteq> CHR ''E''
     \<and> c \<noteq> CHR 0x22 \<and> c \<noteq> CHR ''['' \<and> c \<noteq> CHR ''{'' \<and> c \<noteq> CHR '']'' \<and> c \<noteq> CHR ''}''
     \<and> c \<noteq> CHR ''n'' \<and> c \<noteq> CHR ''t'' \<and> c \<noteq> CHR ''f'' \<and> c \<noteq> CHR 0x0A \<and> c \<noteq> CHR 0x0D
     \<and> c \<noteq> CHR '','' \<and> c \<noteq> CHR '':'' \<and> \<not> is_ws c"
  by (auto simp: is_digit_def is_ws_def)

section \<open>Option and list helpers\<close>

lemma takeWhile_all_append:
  "(\<And>x. x \<in> set xs \<Longrightarrow> P x) \<Longrightarrow> (ys = [] \<or> \<not> P (hd ys)) \<Longrightarrow>
     takeWhile P (xs @ ys) = xs \<and> dropWhile P (xs @ ys) = ys"
  by (cases ys) (auto simp: takeWhile_append dropWhile_append)

lemma filter_append_if:
  "filter P (xs @ [x]) = filter P xs @ (if P x then [x] else [])"
  by simp

lemma map_upd_Some_iff: "(m(k \<mapsto> v)) k' = Some w \<longleftrightarrow> (if k' = k then w = v else m k' = Some w)"
  by auto

end
