(* ===== verification/JsNumber.thy ===== *)
theory JsNumber
  imports Prelude
begin

text \<open>
  JavaScript numbers as far as the sources use them: the three non-finite values and
  finite decimals \<open>m * 10 ^ -d\<close>. \<open>Decimal m d\<close> is kept in normal form
  (\<open>d = 0\<close> or the last digit of \<open>m\<close> is not zero), so equal numbers are
  equal terms and an integer is a \<open>Decimal\<close> with \<open>d = 0\<close>. Decimals are
  exact: the rounding to 53 bits of mantissa, the sign of zero and the exponent form
  that JavaScript prints from \<open>10 ^ 21\<close> on are not modelled.
\<close>

datatype num =
  NotANumber
| Infinite bool \<comment> \<open>\<open>True\<close> for plus infinity\<close>
| Decimal int nat

abbreviation num_of_int :: "int \<Rightarrow> num" where
  "num_of_int i \<equiv> Decimal i 0"

abbreviation num_of_nat :: "nat \<Rightarrow> num" where
  "num_of_nat n \<equiv> Decimal (int n) 0"

fun norm_dec :: "int \<Rightarrow> nat \<Rightarrow> num" where
  "norm_dec m 0 = Decimal m 0"
| "norm_dec m (Suc d) = (if m mod 10 = 0 then norm_dec (m div 10) d else Decimal m (Suc d))"

fun normal_num :: "num \<Rightarrow> bool" where
  "normal_num (Decimal m d) \<longleftrightarrow> d = 0 \<or> m mod 10 \<noteq> 0"
| "normal_num _ \<longleftrightarrow> True"

lemma norm_dec_normal: "normal_num (norm_dec m d)"
  by (induction m d rule: norm_dec.induct) auto

lemma norm_dec_id: "normal_num (Decimal m d) \<Longrightarrow> norm_dec m d = Decimal m d"
  by (cases d) auto

text \<open>\<^verbatim>\<open>Number.isInteger\<close>, \<^verbatim>\<open>Number.isFinite\<close> and the comparisons the
  sources make.\<close>

fun is_integer :: "num \<Rightarrow> bool" where
  "is_integer (Decimal m d) \<longleftrightarrow> d = 0"
| "is_integer _ \<longleftrightarrow> False"

fun is_finite :: "num \<Rightarrow> bool" where
  "is_finite (Decimal m d) \<longleftrightarrow> True"
| "is_finite _ \<longleftrightarrow> False"

fun num_nonneg :: "num \<Rightarrow> bool" where
  "num_nonneg NotANumber \<longleftrightarrow> False"
| "num_nonneg (Infinite p) \<longleftrightarrow> p"
| "num_nonneg (Decimal m d) \<longleftrightarrow> 0 \<le> m"

text \<open>\<open>n > x\<close> for a sequence number \<open>n\<close>: every comparison with \<^verbatim>\<open>NaN\<close>
  is false.\<close>

fun nat_gt_num :: "nat \<Rightarrow> num \<Rightarrow> bool" where
  "nat_gt_num n NotANumber \<longleftrightarrow> False"
| "nat_gt_num n (Infinite p) \<longleftrightarrow> \<not> p"
| "nat_gt_num n (Decimal m d) \<longleftrightarrow> m < int n * 10 ^ d"

lemma nat_gt_num_mono:
  assumes "nat_gt_num n x" and "n \<le> k"
  shows "nat_gt_num k x"
proof (cases x)
  case (Decimal m d)
  have "int n * 10 ^ d \<le> int k * 10 ^ d"
    using assms(2) by (intro mult_right_mono) auto
  moreover from assms(1) Decimal have "m < int n * 10 ^ d" by simp
  ultimately have "m < int k * 10 ^ d" by (rule less_le_trans [rotated])
  then show ?thesis using Decimal by simp
qed (use assms in auto)

lemma nat_gt_num_of_nat [simp]: "nat_gt_num n (num_of_nat k) \<longleftrightarrow> k < n"
  by simp

lemma nat_gt_minus_one [simp]: "nat_gt_num n (num_of_int (- 1))"
  by simp

section \<open>Scanning numerals\<close>

text \<open>\<open>span_digits s\<close> is the longest prefix of digits and the rest.\<close>

definition span_digits :: "string \<Rightarrow> string \<times> string" where
  "span_digits s = (takeWhile is_digit s, dropWhile is_digit s)"

lemma span_digits_append:
  assumes "\<And>c. c \<in> set ds \<Longrightarrow> is_digit c" and "r = [] \<or> \<not> is_digit (hd r)"
  shows "span_digits (ds @ r) = (ds, r)"
  using takeWhile_all_append [of ds is_digit r] assms by (simp add: span_digits_def)

text \<open>The optional exponent part; \<open>None\<close> when \<^verbatim>\<open>e\<close> is not followed by digits.\<close>

definition scan_exp :: "string \<Rightarrow> (int \<times> string) option" where
  "scan_exp s =
     (case s of
        [] \<Rightarrow> Some (0, [])
      | c # r \<Rightarrow>
          if c = CHR ''e'' \<or> c = CHR ''E'' then
            (let (neg, r') = (case r of
                 [] \<Rightarrow> (False, [])
               | x # xs \<Rightarrow> if x = CHR ''-'' then (True, xs)
                          else if x = CHR ''+'' then (False, xs) else (False, r));
               (ds, r'') = span_digits r'
             in if ds = [] then None
                else Some ((if neg then - int (digits_val ds) else int (digits_val ds)), r''))
          else Some (0, s))"

text \<open>The number with digits \<open>ds\<close> before the point, \<open>fs\<close> after it and exponent \<open>e\<close>.\<close>

definition dec_value :: "bool \<Rightarrow> string \<Rightarrow> string \<Rightarrow> int \<Rightarrow> num" where
  "dec_value neg ds fs e =
     (let m = int (digits_val (ds @ fs)); m' = (if neg then - m else m); k = int (length fs) - e
      in if 0 \<le> k then norm_dec m' (nat k) else Decimal (m' * 10 ^ nat (- k)) 0)"

text \<open>
  \<^verbatim>\<open>Number(s)\<close> on a string: white space is trimmed, the empty string is 0, the
  radix prefixes and \<^verbatim>\<open>Infinity\<close> are recognised, and what is not a numeral from
  end to end is \<^verbatim>\<open>NaN\<close>.
\<close>

definition radix_digit :: "nat \<Rightarrow> char \<Rightarrow> nat option" where
  "radix_digit b c =
     (let n = of_char c :: nat;
          v = (if 48 \<le> n \<and> n \<le> 57 then n - 48
               else if 97 \<le> n \<and> n \<le> 102 then n - 87
               else if 65 \<le> n \<and> n \<le> 70 then n - 55 else 99)
      in if v < b then Some v else None)"

fun radix_val :: "nat \<Rightarrow> nat \<Rightarrow> string \<Rightarrow> nat option" where
  "radix_val b acc [] = Some acc"
| "radix_val b acc (c # cs) =
     (case radix_digit b c of None \<Rightarrow> None | Some v \<Rightarrow> radix_val b (b * acc + v) cs)"

definition radix_number :: "nat \<Rightarrow> string \<Rightarrow> num" where
  "radix_number b ds =
     (if ds = [] then NotANumber
      else (case radix_val b 0 ds of None \<Rightarrow> NotANumber | Some n \<Rightarrow> num_of_nat n))"

definition unsigned_number :: "bool \<Rightarrow> string \<Rightarrow> num" where
  "unsigned_number neg s =
     (if s = ''Infinity'' then Infinite (\<not> neg)
      else
        (let (ds, r) = span_digits s;
             (fs, r') = (case r of [] \<Rightarrow> ([], []) | c # cs \<Rightarrow>
                           if c = CHR ''.'' then span_digits cs else ([], r))
         in if ds = [] \<and> fs = [] then NotANumber
            else (case scan_exp r' of
                    Some (e, []) \<Rightarrow> dec_value neg ds fs e
                  | _ \<Rightarrow> NotANumber)))"

definition js_Number :: "string \<Rightarrow> num" where
  "js_Number s0 =
     (let s = js_trim s0 in
      case s of
        [] \<Rightarrow> num_of_int 0
      | c # r \<Rightarrow>
          if c = CHR ''-'' then unsigned_number True r
          else if c = CHR ''+'' then unsigned_number False r
          else if starts_with s ''0x'' \<or> starts_with s ''0X'' then radix_number 16 (drop 2 s)
          else if starts_with s ''0o'' \<or> starts_with s ''0O'' then radix_number 8 (drop 2 s)
          else if starts_with s ''0b'' \<or> starts_with s ''0B'' then radix_number 2 (drop 2 s)
          else unsigned_number False s)"

lemma span_digits_nat_str: "span_digits (nat_str n) = (nat_str n, [])"
  using span_digits_append [of "nat_str n" "[]"] nat_str_digits by simp

text \<open>\<^verbatim>\<open>String(n)\<close> of a natural number reads back as that number.\<close>

lemma js_Number_nat_str [simp]: "js_Number (nat_str n) = num_of_nat n"
proof -
  obtain c r where s: "nat_str n = c # r"
    using nat_str_not_Nil by (metis neq_Nil_conv)
  have dig: "is_digit c" and "is_digit (last (nat_str n))"
    using nat_str_digits [of c n] nat_str_digits [of "last (nat_str n)" n] s by auto
  then have trim: "js_trim (nat_str n) = nat_str n"
    using char_facts by (intro js_trim_ends_id) (auto simp: s)
  have nopre: "\<not> starts_with (nat_str n) [CHR ''0'', x]" if "\<not> is_digit x" for x
    using that nat_str_digits [of x n] s
    by (cases r) (auto simp: starts_with_def)
  have "nat_str n \<noteq> ''Infinity''"
    using dig s by (auto simp: is_digit_def)
  then have un: "unsigned_number False (nat_str n) = num_of_nat n"
    by (simp add: unsigned_number_def span_digits_nat_str scan_exp_def dec_value_def)
  have nd: "\<not> is_digit CHR ''x''" "\<not> is_digit CHR ''X''" "\<not> is_digit CHR ''o''"
    "\<not> is_digit CHR ''O''" "\<not> is_digit CHR ''b''" "\<not> is_digit CHR ''B''"
    "\<not> is_digit CHR ''-''" "\<not> is_digit CHR ''+''"
    by (simp_all add: is_digit_def)
  have "c \<noteq> CHR ''-''" "c \<noteq> CHR ''+''" using dig nd by auto
  then show ?thesis
    using trim un s nd (1-6) [THEN nopre] by (auto simp: js_Number_def Let_def)
qed

lemma js_Number_examples:
  "js_Number '''' = num_of_int 0"
  "js_Number ''abc'' = NotANumber"
  "js_Number '' -12.50 '' = Decimal (- 125) 1"
  "js_Number ''1e3'' = num_of_int 1000"
  "js_Number ''0x1F'' = num_of_int 31"
  by code_simp+

section \<open>Printing\<close>

text \<open>\<^verbatim>\<open>String(x)\<close> of a finite decimal: the fraction is padded with zeros to
  \<open>d\<close> digits.\<close>

definition pad_zeros :: "nat \<Rightarrow> string \<Rightarrow> string" where
  "pad_zeros k s = replicate (k - length s) (CHR ''0'') @ s"

definition dec_str :: "int \<Rightarrow> nat \<Rightarrow> string" where
  "dec_str m d =
     (let n = nat \<bar>m\<bar>
      in (if m < 0 then ''-'' else []) @ nat_str (n div 10 ^ d) @
         (if d = 0 then [] else CHR ''.'' # pad_zeros d (nat_str (n mod 10 ^ d))))"

end
