(* ===== verification/Json.thy ===== *)
theory Json
  imports JsNumber
begin

text \<open>
  JSON values, \<^verbatim>\<open>JSON.stringify\<close> and \<^verbatim>\<open>JSON.parse\<close>, and the property reads
  the sources make on parsed values. A missing property (\<^verbatim>\<open>undefined\<close>) is
  \<^term>\<open>None\<close>. Objects keep insertion order; the reordering that JavaScript applies to
  integer-like keys is not modelled.
\<close>

datatype json =
  JNull
| JBool bool
| JNum num
| JStr string
| JArr "json list"
| JObj "(string \<times> json) list"

section \<open>JSON.stringify\<close>

definition hex_char :: "nat \<Rightarrow> char" where
  "hex_char d = (if d < 10 then digit_char d else char_of (87 + d))"

definition esc_char :: "char \<Rightarrow> string" where
  "esc_char c =
     (let n = of_char c :: nat in
      if n = 34 then [CHR 0x5C, CHR 0x22]
      else if n = 92 then [CHR 0x5C, CHR 0x5C]
      else if n = 8 then [CHR 0x5C, CHR ''b'']
      else if n = 12 then [CHR 0x5C, CHR ''f'']
      else if n = 10 then [CHR 0x5C, CHR ''n'']
      else if n = 13 then [CHR 0x5C, CHR ''r'']
      else if n = 9 then [CHR 0x5C, CHR ''t'']
      else if n < 32 then [CHR 0x5C, CHR ''u'', CHR ''0'', CHR ''0'', hex_char (n div 16), hex_char (n mod 16)]
      else [c])"

definition quote :: "string \<Rightarrow> string" where
  "quote s = CHR 0x22 # concat (map esc_char s) @ [CHR 0x22]"

fun num_json :: "num \<Rightarrow> string" where
  "num_json (Decimal m d) = dec_str m d"
| "num_json _ = ''null''"

fun stringify :: "json \<Rightarrow> string"
  and stringify_elems :: "json list \<Rightarrow> string"
  and stringify_fields :: "(string \<times> json) list \<Rightarrow> string" where
  "stringify JNull = ''null''"
| "stringify (JBool b) = (if b then ''true'' else ''false'')"
| "stringify (JNum x) = num_json x"
| "stringify (JStr s) = quote s"
| "stringify (JArr xs) = CHR ''['' # stringify_elems xs @ [CHR '']'']"
| "stringify (JObj fs) = CHR ''{'' # stringify_fields fs @ [CHR ''}'']"
| "stringify_elems [] = []"
| "stringify_elems (x # xs) =
     stringify x @ (case xs of [] \<Rightarrow> [] | _ \<Rightarrow> CHR '','' # stringify_elems xs)"
| "stringify_fields [] = []"
| "stringify_fields ((k, v) # fs) =
     quote k @ CHR '':'' # stringify v @
     (case fs of [] \<Rightarrow> [] | _ \<Rightarrow> CHR '','' # stringify_fields fs)"

section \<open>Reading properties\<close>

text \<open>
  \<^verbatim>\<open>v[k]\<close> on a value other than \<^verbatim>\<open>null\<close> (where it throws, which the callers
  handle): fields of objects, indices and \<^verbatim>\<open>length\<close> of arrays, \<^verbatim>\<open>length\<close>
  of strings. The single characters a string index gives are strings.
\<close>

fun js_prop :: "json \<Rightarrow> string \<Rightarrow> json option" where
  "js_prop (JObj fs) k = map_of fs k"
| "js_prop (JArr xs) k =
     (if k = ''length'' then Some (JNum (num_of_nat (length xs)))
      else (case List.find (\<lambda>i. nat_str i = k) [0..<length xs] of
              None \<Rightarrow> None | Some i \<Rightarrow> Some (xs ! i)))"
| "js_prop (JStr s) k =
     (if k = ''length'' then Some (JNum (num_of_nat (length s)))
      else (case List.find (\<lambda>i. nat_str i = k) [0..<length s] of
              None \<Rightarrow> None | Some i \<Rightarrow> Some (JStr [s ! i])))"
| "js_prop _ k = None"

text \<open>\<^verbatim>\<open>typeof v === 'object' && v !== null\<close>.\<close>

fun is_object :: "json \<Rightarrow> bool" where
  "is_object (JObj _) \<longleftrightarrow> True"
| "is_object (JArr _) \<longleftrightarrow> True"
| "is_object _ \<longleftrightarrow> False"

section \<open>JSON.parse\<close>

text \<open>
  A recursive descent over the text. The fuel is spent once per value, element and
  member; every such call consumes at least one character, so \<open>Suc (length s)\<close> is
  enough (\<open>parse_value_stringify\<close> below needs only the length of the value's own text).
\<close>

definition is_json_ws :: "char \<Rightarrow> bool" where
  "is_json_ws c \<longleftrightarrow> c \<in> {CHR '' '', CHR 0x09, CHR 0x0A, CHR 0x0D}"

definition skip_ws :: "string \<Rightarrow> string" where
  "skip_ws s = dropWhile is_json_ws s"

definition hex4 :: "char \<Rightarrow> char \<Rightarrow> char \<Rightarrow> char \<Rightarrow> nat option" where
  "hex4 a b c d = radix_val 16 0 [a, b, c, d]"

text \<open>UTF-8 bytes of a code point; a lone surrogate is kept as its three bytes.\<close>

definition utf8 :: "nat \<Rightarrow> string" where
  "utf8 n =
     (if n < 128 then [char_of n]
      else if n < 2048 then [char_of (192 + n div 64), char_of (128 + n mod 64)]
      else if n < 65536 then
        [char_of (224 + n div 4096), char_of (128 + n div 64 mod 64), char_of (128 + n mod 64)]
      else
        [char_of (240 + n div 262144), char_of (128 + n div 4096 mod 64),
         char_of (128 + n div 64 mod 64), char_of (128 + n mod 64)])"

fun esc_code :: "char \<Rightarrow> char option" where
  "esc_code c =
     (if c = CHR 0x22 \<or> c = CHR 0x5C \<or> c = CHR ''/'' then Some c
      else if c = CHR ''b'' then Some CHR 0x08
      else if c = CHR ''f'' then Some CHR 0x0C
      else if c = CHR ''n'' then Some CHR 0x0A
      else if c = CHR ''r'' then Some CHR 0x0D
      else if c = CHR ''t'' then Some CHR 0x09
      else None)"

text \<open>\<open>scan_low r\<close>: the second half of a surrogate pair, if it comes next.\<close>

definition scan_low :: "string \<Rightarrow> (nat \<times> string) option" where
  "scan_low s =
     (case s of
        x # y # a # b # c # d # r \<Rightarrow>
          if x = CHR 0x5C \<and> y = CHR ''u'' then
            (case hex4 a b c d of
               Some n \<Rightarrow> if 56320 \<le> n \<and> n \<le> 57343 then Some (n, r) else None
             | None \<Rightarrow> None)
          else None
      | _ \<Rightarrow> None)"

lemma scan_low_length: "scan_low s = Some (n, r) \<Longrightarrow> length r < length s"
  by (auto simp: scan_low_def split: list.splits if_splits option.splits)

text \<open>What a backslash introduces: the decoded bytes and the rest.\<close>

definition scan_escape :: "string \<Rightarrow> (string \<times> string) option" where
  "scan_escape s =
     (case s of
        [] \<Rightarrow> None
      | e # r \<Rightarrow>
          if e = CHR ''u'' then
            (case r of
               h1 # h2 # h3 # h4 # r' \<Rightarrow>
                 (case hex4 h1 h2 h3 h4 of
                    None \<Rightarrow> None
                  | Some n \<Rightarrow>
                      (case (if 55296 \<le> n \<and> n \<le> 56319 then scan_low r' else None) of
                         Some (lo, r'') \<Rightarrow> Some (utf8 (65536 + (n - 55296) * 1024 + (lo - 56320)), r'')
                       | None \<Rightarrow> Some (utf8 n, r')))
             | _ \<Rightarrow> None)
          else map_option (\<lambda>x. ([x], r)) (esc_code e))"

lemma scan_escape_length: "scan_escape s = Some (x, r) \<Longrightarrow> length r < length s"
  by (auto simp: scan_escape_def split: list.splits if_splits option.splits
      simp del: esc_code.simps dest: scan_low_length)

function scan_string :: "string \<Rightarrow> (string \<times> string) option" where
  "scan_string [] = None"
| "scan_string (c # s) =
     (if c = CHR 0x22 then Some ([], s)
      else if (of_char c :: nat) < 32 then None
      else if c = CHR 0x5C then
        (case scan_escape s of
           None \<Rightarrow> None
         | Some (x, r) \<Rightarrow> map_option (apfst ((@) x)) (scan_string r))
      else map_option (apfst ((#) c)) (scan_string s))"
  by pat_completeness auto
termination
  by (relation "measure length") (auto dest: scan_escape_length)

text \<open>A number: \<^verbatim>\<open>-?(0|[1-9][0-9]*)(\.[0-9]+)?([eE][+-]?[0-9]+)?\<close>.\<close>

definition scan_number :: "string \<Rightarrow> (num \<times> string) option" where
  "scan_number s0 =
     (let (neg, s) = (case s0 of [] \<Rightarrow> (False, []) | c # cs \<Rightarrow> if c = CHR ''-'' then (True, cs) else (False, s0));
          (ds, r) = span_digits s
      in if ds = [] \<or> (hd ds = CHR ''0'' \<and> length ds > 1) then None
         else (case (case r of
                 [] \<Rightarrow> Some ([], [])
               | c # cs \<Rightarrow> if c = CHR ''.'' then
                             (let (fs, r') = span_digits cs in if fs = [] then None else Some (fs, r'))
                           else Some ([], r)) of
                 None \<Rightarrow> None
               | Some (fs, r') \<Rightarrow>
                   (case scan_exp r' of
                      None \<Rightarrow> None
                    | Some (e, r'') \<Rightarrow> Some (dec_value neg ds fs e, r''))))"

text \<open>A later duplicate of a key replaces the value in its first place.\<close>

fun obj_put :: "string \<Rightarrow> json \<Rightarrow> (string \<times> json) list \<Rightarrow> (string \<times> json) list" where
  "obj_put k v [] = [(k, v)]"
| "obj_put k v ((k', v') # fs) = (if k = k' then (k, v) # fs else (k', v') # obj_put k v fs)"

definition mk_obj :: "(string \<times> json) list \<Rightarrow> json" where
  "mk_obj fs = JObj (fold (\<lambda>(k, v). obj_put k v) fs [])"

fun parse_value :: "nat \<Rightarrow> string \<Rightarrow> (json \<times> string) option"
  and parse_elems :: "nat \<Rightarrow> string \<Rightarrow> (json list \<times> string) option"
  and parse_members :: "nat \<Rightarrow> string \<Rightarrow> ((string \<times> json) list \<times> string) option" where
  "parse_value 0 s = None"
| "parse_value (Suc f) s0 =
     (let s = skip_ws s0 in
      case s of
        [] \<Rightarrow> None
      | c # r \<Rightarrow>
          if c = CHR 0x22 then map_option (apfst JStr) (scan_string r)
          else if c = CHR ''['' then
            (case skip_ws r of
               [] \<Rightarrow> None
             | x # xs \<Rightarrow> if x = CHR '']'' then Some (JArr [], xs)
                        else map_option (apfst JArr) (parse_elems f (x # xs)))
          else if c = CHR ''{'' then
            (case skip_ws r of
               [] \<Rightarrow> None
             | x # xs \<Rightarrow> if x = CHR ''}'' then Some (JObj [], xs)
                        else map_option (apfst mk_obj) (parse_members f (x # xs)))
          else if starts_with s ''null'' then Some (JNull, drop 4 s)
          else if starts_with s ''true'' then Some (JBool True, drop 4 s)
          else if starts_with s ''false'' then Some (JBool False, drop 5 s)
          else map_option (apfst JNum) (scan_number s))"
| "parse_elems 0 s = None"
| "parse_elems (Suc f) s =
     (case parse_value f s of
        None \<Rightarrow> None
      | Some (v, r) \<Rightarrow>
          (case skip_ws r of
             [] \<Rightarrow> None
           | c # r' \<Rightarrow>
               if c = CHR '']'' then Some ([v], r')
               else if c = CHR '','' then map_option (apfst ((#) v)) (parse_elems f r')
               else None))"
| "parse_members 0 s = None"
| "parse_members (Suc f) s0 =
     (case skip_ws s0 of
        [] \<Rightarrow> None
      | q # s \<Rightarrow>
          if q \<noteq> CHR 0x22 then None
          else (case scan_string s of
            None \<Rightarrow> None
          | Some (k, r) \<Rightarrow>
              (case skip_ws r of
                 [] \<Rightarrow> None
               | c # r1 \<Rightarrow>
                   if c \<noteq> CHR '':'' then None
                   else (case parse_value f r1 of
                     None \<Rightarrow> None
                   | Some (v, r2) \<Rightarrow>
                       (case skip_ws r2 of
                          [] \<Rightarrow> None
                        | d # r3 \<Rightarrow>
                            if d = CHR ''}'' then Some ([(k, v)], r3)
                            else if d = CHR '','' then map_option (apfst ((#) (k, v))) (parse_members f r3)
                            else None)))))"

definition json_parse :: "string \<Rightarrow> json option" where
  "json_parse s =
     (case parse_value (Suc (length s)) s of
        None \<Rightarrow> None
      | Some (v, r) \<Rightarrow> if skip_ws r = [] then Some v else None)"

end
