(* ===== verification/JsonLaws.thy ===== *)
theory JsonLaws
  imports Json
begin

text \<open>
  Laws of the JSON codec: what \<^verbatim>\<open>stringify\<close> writes, \<^verbatim>\<open>parse\<close> reads
  back (\<open>json_roundtrip\<close>); the text holds no control character (so it is one line
  of an SSE frame); the parser's fuel is enough (\<open>parse_fuel_irrelevant\<close>).
\<close>

section \<open>Numbers\<close>

lemma digits_val_append: "digits_val (ds @ fs) = digits_val ds * 10 ^ length fs + digits_val fs"
proof (induction fs rule: rev_induct)
  case Nil
  then show ?case by (simp add: digits_val_def)
next
  case (snoc c fs)
  have "digits_val (ds @ fs @ [c]) = 10 * digits_val (ds @ fs) + digit_val c"
    using digits_val_snoc [of "ds @ fs" c] by simp
  with snoc show ?case by (simp add: algebra_simps)
qed

lemma digits_val_zeros: "digits_val (replicate k (CHR ''0'') @ s) = digits_val s"
  by (induction k) (simp_all add: digits_val_def digit_val_def)

lemma nat_str_length: "n < 10 ^ d \<Longrightarrow> 0 < d \<Longrightarrow> length (nat_str n) \<le> d"
proof (induction n arbitrary: d rule: nat_str.induct)
  case (1 n)
  show ?case
  proof (cases "n < 10")
    case True
    with 1(3) show ?thesis by (simp add: nat_str.simps [of n])
  next
    case False
    then have "d \<noteq> 1" using 1(2) by auto
    with 1(3) obtain e where e: "d = Suc e" "0 < e" by (cases d) auto
    from 1(2) e have "n div 10 < 10 ^ e" by (simp add: less_mult_imp_div_less mult.commute)
    with 1(1) False e(2) have "length (nat_str (n div 10)) \<le> e" by blast
    with False e show ?thesis by (simp add: nat_str.simps [of n])
  qed
qed

lemma pad_zeros_digits: "c \<in> set (pad_zeros k (nat_str n)) \<Longrightarrow> is_digit c"
  using nat_str_digits by (auto simp: pad_zeros_def is_digit_def)

lemma length_pad_zeros: "n < 10 ^ d \<Longrightarrow> 0 < d \<Longrightarrow> length (pad_zeros d (nat_str n)) = d"
  using nat_str_length [of n d] by (simp add: pad_zeros_def)

lemma digits_val_pad_zeros [simp]: "digits_val (pad_zeros k s) = digits_val s"
  by (simp add: pad_zeros_def digits_val_zeros)

text \<open>What may follow a number without being read as part of it.\<close>

definition num_stop :: "string \<Rightarrow> bool" where
  "num_stop r \<longleftrightarrow> r = [] \<or> (\<not> is_digit (hd r) \<and> hd r \<noteq> CHR ''.'' \<and> hd r \<noteq> CHR ''e'' \<and> hd r \<noteq> CHR ''E'')"

lemma scan_exp_stop: "num_stop r \<Longrightarrow> scan_exp r = Some (0, r)"
  by (auto simp: num_stop_def scan_exp_def split: list.splits)

lemma dec_value_str:
  assumes "n = nat \<bar>m\<bar>" and "normal_num (Decimal m d)"
    and "fs = (if d = 0 then [] else pad_zeros d (nat_str (n mod 10 ^ d)))"
  shows "dec_value (m < 0) (nat_str (n div 10 ^ d)) fs 0 = Decimal m d"
proof -
  have len: "length fs = d"
    using assms(3) length_pad_zeros [of "n mod 10 ^ d" d] by simp
  have "digits_val (nat_str (n div 10 ^ d) @ fs) = n div 10 ^ d * 10 ^ d + (if d = 0 then 0 else n mod 10 ^ d)"
    using len assms(3) by (simp add: digits_val_append) (simp add: digits_val_def)
  then have "digits_val (nat_str (n div 10 ^ d) @ fs) = n"
    using div_mult_mod_eq [of n "10 ^ d"] by (cases "d = 0") simp_all
  then show ?thesis
    using assms(1,2) len norm_dec_id by (simp add: dec_value_def Let_def)
qed

lemma scan_number_pos:
  assumes "ds \<noteq> []" and "\<And>c. c \<in> set ds \<Longrightarrow> is_digit c" and "hd ds = CHR ''0'' \<Longrightarrow> length ds = 1"
    and "\<And>c. c \<in> set fs \<Longrightarrow> is_digit c" and "num_stop r"
  shows "scan_number (ds @ (if fs = [] then [] else CHR ''.'' # fs) @ r) = Some (dec_value False ds fs 0, r)"
    and "scan_number (CHR ''-'' # ds @ (if fs = [] then [] else CHR ''.'' # fs) @ r) = Some (dec_value True ds fs 0, r)"
proof -
  let ?t = "(if fs = [] then [] else CHR ''.'' # fs) @ r"
  have "?t = [] \<or> \<not> is_digit (hd ?t)"
    using assms(5) by (auto simp: num_stop_def is_digit_def)
  then have sp: "span_digits (ds @ ?t) = (ds, ?t)"
    using assms(2) by (intro span_digits_append)
  have sf: "span_digits (fs @ r) = (fs, r)"
    using assms(4,5) by (intro span_digits_append) (auto simp: num_stop_def)
  have frac: "(case ?t of [] \<Rightarrow> Some ([], []) | c # cs \<Rightarrow> if c = CHR ''.'' then
                 (let (fs, r') = span_digits cs in if fs = [] then None else Some (fs, r'))
               else Some ([], ?t)) = Some (fs, r)"
    using sf assms(5) by (auto simp: num_stop_def split: list.splits)
  obtain c cs where ds: "ds = c # cs" using assms(1) by (cases ds) auto
  with assms(2) have "is_digit c" by simp
  then have "c \<noteq> CHR ''-''" using char_facts by blast
  then show "scan_number (ds @ ?t) = Some (dec_value False ds fs 0, r)"
    using sp frac assms(3) ds scan_exp_stop [OF assms(5)]
    by (simp add: scan_number_def Let_def)
  show "scan_number (CHR ''-'' # ds @ ?t) = Some (dec_value True ds fs 0, r)"
    using sp frac assms(3) ds scan_exp_stop [OF assms(5)]
    by (simp add: scan_number_def Let_def)
qed

lemma scan_number_dec_str:
  assumes "normal_num (Decimal m d)" and "num_stop r"
  shows "scan_number (dec_str m d @ r) = Some (Decimal m d, r)"
proof -
  let ?n = "nat \<bar>m\<bar>"
  define ds where "ds = nat_str (?n div 10 ^ d)"
  define fs where "fs = (if d = 0 then [] else pad_zeros d (nat_str (?n mod 10 ^ d)))"
  have fs_Nil: "fs = [] \<longleftrightarrow> d = 0"
    using length_pad_zeros [of "?n mod 10 ^ d" d] by (auto simp: fs_def)
  have str: "dec_str m d @ r = (if m < 0 then ''-'' else []) @ ds @ (if fs = [] then [] else CHR ''.'' # fs) @ r"
    using fs_Nil by (simp add: dec_str_def Let_def ds_def fs_def)
  have val: "dec_value (m < 0) ds fs 0 = Decimal m d"
    unfolding ds_def using assms(1) by (intro dec_value_str) (simp_all add: fs_def)
  have d1: "ds \<noteq> []" and d2: "\<And>c. c \<in> set ds \<Longrightarrow> is_digit c"
    using nat_str_digits by (auto simp: ds_def)
  have d3: "hd ds = CHR ''0'' \<Longrightarrow> length ds = 1"
    using nat_str_hd [of "?n div 10 ^ d"] nat_str_0 by (simp add: ds_def)
  have d4: "\<And>c. c \<in> set fs \<Longrightarrow> is_digit c"
    using pad_zeros_digits by (auto simp: fs_def split: if_splits)
  from scan_number_pos [OF d1 d2 d3 d4 assms(2)] show ?thesis
    using str val by (cases "m < 0") auto
qed

section \<open>Strings\<close>

lemma radix_digit_hex_char: "d < 16 \<Longrightarrow> radix_digit 16 (hex_char d) = Some d"
  by (auto simp: radix_digit_def hex_char_def of_char_digit_char Let_def)

lemma hex4_low: "n < 256 \<Longrightarrow> hex4 CHR ''0'' CHR ''0'' (hex_char (n div 16)) (hex_char (n mod 16)) = Some n"
proof -
  assume "n < 256"
  then have "radix_digit 16 (hex_char (n div 16)) = Some (n div 16)"
    and "radix_digit 16 (hex_char (n mod 16)) = Some (n mod 16)"
    by (simp_all add: radix_digit_hex_char)
  moreover have "radix_digit 16 CHR ''0'' = Some 0" by code_simp
  ultimately show ?thesis by (simp add: hex4_def)
qed

lemma scan_string_plain:
  assumes "c \<noteq> CHR 0x22" and "32 \<le> (of_char c :: nat)" and "c \<noteq> CHR 0x5C"
  shows "scan_string (c # s) = map_option (apfst ((#) c)) (scan_string s)"
  using assms by simp

lemma Cons_append_fun: "(@) [c] = (#) c"
  by auto

lemma scan_string_escape:
  assumes "esc_code e = Some x" and "e \<noteq> CHR ''u''"
  shows "scan_string (CHR 0x5C # e # s) = map_option (apfst ((#) x)) (scan_string s)"
  using assms by (simp add: scan_escape_def Cons_append_fun del: esc_code.simps)

lemma scan_string_hex:
  assumes "(of_char c :: nat) < 128"
  shows "scan_string (CHR 0x5C # CHR ''u'' # CHR ''0'' # CHR ''0'' # hex_char (of_char c div 16) #
           hex_char (of_char c mod 16) # s) = map_option (apfst ((#) c)) (scan_string s)"
proof -
  have "utf8 (of_char c) = [c]" using assms by (simp add: utf8_def)
  moreover have "hex4 CHR ''0'' CHR ''0'' (hex_char (of_char c div 16)) (hex_char (of_char c mod 16))
                   = Some (of_char c)"
    using assms by (intro hex4_low) simp
  ultimately show ?thesis using assms by (simp add: scan_escape_def Cons_append_fun)
qed

lemma scan_string_esc_char:
  "scan_string (esc_char c @ s) = map_option (apfst ((#) c)) (scan_string s)"
proof (cases "(of_char c :: nat) \<in> {8, 9, 10, 12, 13, 34, 92}")
  case True
  then have "(of_char c :: nat) \<in> of_char ` {CHR 0x08, CHR 0x09, CHR 0x0A, CHR 0x0C, CHR 0x0D, CHR 0x22, CHR 0x5C}"
    by simp
  then have "c \<in> {CHR 0x08, CHR 0x09, CHR 0x0A, CHR 0x0C, CHR 0x0D, CHR 0x22, CHR 0x5C}"
    by (simp only: image_iff of_char_eq_iff) blast
  then show ?thesis
    by (auto simp: esc_char_def Let_def scan_string_escape simp del: scan_string.simps)
next
  case False
  show ?thesis
  proof (cases "(of_char c :: nat) < 32")
    case True
    with False have "esc_char c @ s = CHR 0x5C # CHR ''u'' # CHR ''0'' # CHR ''0'' #
                 hex_char (of_char c div 16) # hex_char (of_char c mod 16) # s"
      by (simp add: esc_char_def Let_def)
    then show ?thesis using scan_string_hex [of c s] True by simp
  next
    case high: False
    with False have "esc_char c @ s = c # s" by (simp add: esc_char_def Let_def)
    moreover have "c \<noteq> CHR 0x22" "c \<noteq> CHR 0x5C" using False by auto
    ultimately show ?thesis using scan_string_plain high by simp
  qed
qed

lemma scan_string_quoted:
  "scan_string (concat (map esc_char s) @ CHR 0x22 # r) = Some (s, r)"
  by (induction s) (simp_all add: scan_string_esc_char del: scan_string.simps(2), simp)

section \<open>Values\<close>

declare stringify_elems.simps(2) [simp del] stringify_fields.simps(2) [simp del]

text \<open>What a parsed value satisfies: finite normal numbers, distinct keys.\<close>

fun wf_json :: "json \<Rightarrow> bool" where
  "wf_json (JNum x) \<longleftrightarrow> is_finite x \<and> normal_num x"
| "wf_json (JArr xs) \<longleftrightarrow> (\<forall>x \<in> set xs. wf_json x)"
| "wf_json (JObj fs) \<longleftrightarrow> distinct (map fst fs) \<and> (\<forall>p \<in> set fs. wf_json (snd p))"
| "wf_json _ \<longleftrightarrow> True"

lemma obj_put_new: "k \<notin> fst ` set fs \<Longrightarrow> obj_put k v fs = fs @ [(k, v)]"
  by (induction fs) auto

lemma fold_obj_put:
  "distinct (map fst (acc @ fs)) \<Longrightarrow> fold (\<lambda>(k, v). obj_put k v) fs acc = acc @ fs"
proof (induction fs arbitrary: acc)
  case Nil
  then show ?case by simp
next
  case (Cons p fs)
  obtain k v where p: "p = (k, v)" by (cases p)
  with Cons.prems have "obj_put k v acc = acc @ [(k, v)]"
    by (intro obj_put_new) auto
  with Cons.IH [of "acc @ [(k, v)]"] Cons.prems p show ?case by simp
qed

lemma mk_obj_distinct: "distinct (map fst fs) \<Longrightarrow> mk_obj fs = JObj fs"
  using fold_obj_put [of "[]" fs] by (simp add: mk_obj_def)

lemma skip_ws_head: "s = c # r \<Longrightarrow> \<not> is_json_ws c \<Longrightarrow> skip_ws s = s"
  by (simp add: skip_ws_def)

text \<open>The first character of a value is not white space and not a closing bracket.\<close>

definition value_head :: "char \<Rightarrow> bool" where
  "value_head c \<longleftrightarrow> \<not> is_json_ws c \<and> c \<noteq> CHR '']'' \<and> c \<noteq> CHR ''}''"

lemma dec_str_head: "\<exists>c r. dec_str m d = c # r \<and> (is_digit c \<or> c = CHR ''-'')"
proof -
  obtain c r where "nat_str (nat \<bar>m\<bar> div 10 ^ d) = c # r"
    using nat_str_not_Nil by (metis neq_Nil_conv)
  moreover from this have "is_digit c"
    using nat_str_digits [of c] by (metis list.set_intros(1))
  ultimately show ?thesis by (auto simp: dec_str_def Let_def)
qed

lemma num_json_head: "is_finite x \<Longrightarrow> \<exists>c r. num_json x = c # r \<and> (is_digit c \<or> c = CHR ''-'')"
  using dec_str_head by (cases x) auto

lemma digit_value_head: "is_digit c \<Longrightarrow> value_head c"
  using char_facts by (auto simp: value_head_def is_json_ws_def is_ws_def)

lemma stringify_head:
  assumes "wf_json j"
  shows "\<exists>c r. stringify j = c # r \<and> value_head c"
proof (cases j)
  case (JNum x)
  with assms num_json_head [of x] obtain c r where "num_json x = c # r" and "is_digit c \<or> c = CHR ''-''"
    by auto
  then show ?thesis using JNum digit_value_head
    by (auto simp: value_head_def is_json_ws_def)
qed (auto simp: value_head_def is_json_ws_def quote_def)

lemma skip_ws_stringify: "wf_json j \<Longrightarrow> skip_ws (stringify j @ r) = stringify j @ r"
  using stringify_head [of j] by (auto simp: value_head_def skip_ws_def)

lemma num_stop_delims [simp]:
  "num_stop (CHR '','' # r)" "num_stop (CHR '']'' # r)" "num_stop (CHR ''}'' # r)" "num_stop []"
  by (simp_all add: num_stop_def is_digit_def)

lemma skip_ws_delims [simp]:
  "skip_ws (CHR '','' # r) = CHR '','' # r" "skip_ws (CHR '']'' # r) = CHR '']'' # r"
  "skip_ws (CHR ''}'' # r) = CHR ''}'' # r" "skip_ws (CHR '':'' # r) = CHR '':'' # r"
  "skip_ws (CHR 0x22 # r) = CHR 0x22 # r" "skip_ws [] = []"
  by (simp_all add: skip_ws_def is_json_ws_def)

lemma num_head_excludes:
  assumes "is_digit c \<or> c = CHR ''-''"
  shows "\<not> is_json_ws c" and "c \<noteq> CHR 0x22" and "c \<noteq> CHR ''[''" and "c \<noteq> CHR ''{''"
    and "c \<noteq> CHR ''n''" and "c \<noteq> CHR ''t''" and "c \<noteq> CHR ''f''"
proof -
  have "\<not> is_json_ws c" if "is_digit c"
    using is_digit_excludes [OF that] by (simp add: is_json_ws_def is_ws_def)
  then show "\<not> is_json_ws c" using assms by (auto simp: is_json_ws_def)
qed (use assms in \<open>auto simp: is_digit_def\<close>)

lemma parse_value_num:
  assumes "is_finite x" and "normal_num x" and "num_stop r"
  shows "parse_value (Suc f) (num_json x @ r) = Some (JNum x, r)"
proof -
  obtain m d where x: "x = Decimal m d" using assms(1) by (cases x) auto
  obtain c cs where c: "num_json x = c # cs" and dm: "is_digit c \<or> c = CHR ''-''"
    using num_json_head [OF assms(1)] by blast
  note num_head_excludes [OF dm]
  moreover have "scan_number (num_json x @ r) = Some (x, r)"
    using scan_number_dec_str assms x by simp
  ultimately show ?thesis using c by (simp add: skip_ws_def)
qed

lemma stringify_elems_Cons:
  "stringify_elems (x # xs) = stringify x @ (if xs = [] then [] else CHR '','' # stringify_elems xs)"
  by (cases xs) (auto simp: stringify_elems.simps(2))

lemma stringify_fields_Cons:
  "stringify_fields (p # fs) = quote (fst p) @ CHR '':'' # stringify (snd p) @
     (if fs = [] then [] else CHR '','' # stringify_fields fs)"
  by (cases p; cases fs) (auto simp: stringify_fields.simps(2))

lemma stringify_elems_head:
  assumes "xs \<noteq> []" and "\<forall>x \<in> set xs. wf_json x"
  shows "\<exists>c r. stringify_elems xs = c # r \<and> value_head c"
proof -
  obtain x ys where "xs = x # ys" using assms(1) by (cases xs) auto
  with assms(2) stringify_head [of x] show ?thesis
    by (auto simp: stringify_elems_Cons)
qed

lemma stringify_fields_head: "fs \<noteq> [] \<Longrightarrow> \<exists>r. stringify_fields fs = CHR 0x22 # r"
  by (cases fs) (auto simp: stringify_fields_Cons quote_def)

lemma parse_value_stringify:
  "wf_json j \<Longrightarrow> num_stop r \<Longrightarrow> length (stringify j) \<le> f \<Longrightarrow>
     parse_value f (stringify j @ r) = Some (j, r)"
  "\<forall>x \<in> set xs. wf_json x \<Longrightarrow> xs \<noteq> [] \<Longrightarrow> length (stringify_elems xs) < f \<Longrightarrow>
     parse_elems f (stringify_elems xs @ CHR '']'' # r) = Some (xs, r)"
  "\<forall>p \<in> set fs. wf_json (snd p) \<Longrightarrow> fs \<noteq> [] \<Longrightarrow> length (stringify_fields fs) < f \<Longrightarrow>
     parse_members f (stringify_fields fs @ CHR ''}'' # r) = Some (fs, r)"
proof (induction j and xs and fs arbitrary: f r and f r and f r rule: stringify_stringify_elems_stringify_fields.induct)
  case 1
  then show ?case by (cases f) (simp_all add: skip_ws_def is_json_ws_def)
next
  case (2 b)
  then show ?case by (cases f; cases b) (simp_all add: skip_ws_def is_json_ws_def)
next
  case (3 x)
  then show ?case using parse_value_num num_json_head [of x] by (cases f) auto
next
  case (4 s)
  then show ?case by (cases f) (simp_all add: quote_def scan_string_quoted)
next
  case (5 xs)
  from "5.prems"(3) obtain g where f: "f = Suc g" by (cases f) auto
  show ?case
  proof (cases "xs = []")
    case True
    with f show ?thesis by (simp add: skip_ws_def is_json_ws_def)
  next
    case False
    with "5.prems" f have IH: "parse_elems g (stringify_elems xs @ CHR '']'' # r) = Some (xs, r)"
      by (intro "5.IH") auto
    obtain c cs where c: "stringify_elems xs = c # cs" and "value_head c"
      using stringify_elems_head [OF False] "5.prems"(1) by auto
    then have "skip_ws (c # cs @ CHR '']'' # r) = c # cs @ CHR '']'' # r" and "c \<noteq> CHR '']''"
      by (simp_all add: skip_ws_def value_head_def)
    with IH c f show ?thesis by (simp add: skip_ws_def [of "CHR ''['' # _"] is_json_ws_def)
  qed
next
  case (6 fs)
  from "6.prems"(3) obtain g where f: "f = Suc g" by (cases f) auto
  show ?case
  proof (cases "fs = []")
    case True
    with f show ?thesis by (simp add: skip_ws_def is_json_ws_def)
  next
    case False
    with "6.prems" f have IH: "parse_members g (stringify_fields fs @ CHR ''}'' # r) = Some (fs, r)"
      by (intro "6.IH") auto
    obtain cs where c: "stringify_fields fs = CHR 0x22 # cs"
      using stringify_fields_head [OF False] by blast
    have "mk_obj fs = JObj fs" using "6.prems"(1) mk_obj_distinct by simp
    with IH c f show ?thesis by (simp add: skip_ws_def [of "CHR ''{'' # _"] is_json_ws_def)
  qed
next
  case 7
  then show ?case by simp
next
  case (8 x xs)
  from "8.prems"(3) obtain g where f: "f = Suc g" by (cases f) auto
  let ?t = "if xs = [] then CHR '']'' # r else CHR '','' # stringify_elems xs @ CHR '']'' # r"
  have shape: "stringify_elems (x # xs) @ CHR '']'' # r = stringify x @ ?t"
    by (simp add: stringify_elems_Cons)
  have v: "parse_value g (stringify x @ ?t) = Some (x, ?t)"
    using "8.prems" f by (intro "8.IH"(1)) (auto simp: stringify_elems_Cons split: if_splits)
  have "parse_elems g (stringify_elems xs @ CHR '']'' # r) = Some (xs, r)" if "xs \<noteq> []"
  proof -
    from that obtain y ys where "xs = y # ys" by (cases xs) auto
    with "8.prems" f show ?thesis
      by (intro "8.IH"(2)) (auto simp: stringify_elems_Cons [of x "y # ys"])
  qed
  with v f show ?case unfolding shape by (cases "xs = []") auto
next
  case 9
  then show ?case by simp
next
  case (10 k v fs)
  from "10.prems"(3) obtain g where f: "f = Suc g" by (cases f) auto
  let ?t = "if fs = [] then CHR ''}'' # r else CHR '','' # stringify_fields fs @ CHR ''}'' # r"
  have shape: "stringify_fields ((k, v) # fs) @ CHR ''}'' # r
                = CHR 0x22 # concat (map esc_char k) @ CHR 0x22 # CHR '':'' # stringify v @ ?t"
    by (simp add: stringify_fields_Cons quote_def)
  have v: "parse_value g (stringify v @ ?t) = Some (v, ?t)"
    using "10.prems" f by (intro "10.IH"(1)) (auto simp: stringify_fields_Cons split: if_splits)
  have "parse_members g (stringify_fields fs @ CHR ''}'' # r) = Some (fs, r)" if "fs \<noteq> []"
  proof -
    from that obtain y ys where "fs = y # ys" by (cases fs) auto
    with "10.prems" f show ?thesis
      by (intro "10.IH"(2)) (auto simp: stringify_fields_Cons [of _ "y # ys"])
  qed
  with v f show ?case unfolding shape by (cases "fs = []") (auto simp: scan_string_quoted)
qed

theorem json_roundtrip: "wf_json j \<Longrightarrow> json_parse (stringify j) = Some j"
  using parse_value_stringify(1) [of j "[]" "Suc (length (stringify j))"]
  by (simp add: json_parse_def)

section \<open>The text has no control characters\<close>

definition printable :: "string \<Rightarrow> bool" where
  "printable s \<longleftrightarrow> (\<forall>c \<in> set s. 32 \<le> (of_char c :: nat))"

lemma printable_simps [simp]:
  "printable []" "printable (c # s) \<longleftrightarrow> 32 \<le> (of_char c :: nat) \<and> printable s"
  "printable (s @ t) \<longleftrightarrow> printable s \<and> printable t"
  by (auto simp: printable_def)

lemma printable_digits: "(\<And>c. c \<in> set s \<Longrightarrow> is_digit c) \<Longrightarrow> printable s"
  by (force simp: printable_def is_digit_def)

lemma printable_num_json: "printable (num_json x)"
proof (cases x)
  case (Decimal m d)
  have "printable (nat_str n)" for n
    using nat_str_digits by (rule printable_digits)
  moreover have "printable (pad_zeros k (nat_str n))" for k n
    using pad_zeros_digits by (rule printable_digits)
  ultimately show ?thesis using Decimal by (simp add: dec_str_def Let_def)
qed simp_all

lemma of_char_hex_char: "d < 16 \<Longrightarrow> 32 \<le> (of_char (hex_char d) :: nat)"
  by (simp add: hex_char_def of_char_digit_char)

lemma printable_esc_char: "printable (esc_char c)"
  using of_char_hex_char [of "of_char c div 16"] of_char_hex_char [of "of_char c mod 16"]
  by (auto simp: esc_char_def Let_def)

lemma printable_quote: "printable (quote s)"
proof -
  have "printable (concat (map esc_char s))"
    by (induction s) (simp_all add: printable_esc_char)
  then show ?thesis by (simp add: quote_def)
qed

lemma printable_stringify:
  "printable (stringify j)" "printable (stringify_elems xs)" "printable (stringify_fields fs)"
proof (induction j and xs and fs rule: stringify_stringify_elems_stringify_fields.induct)
  case (8 x xs)
  then show ?case by (cases xs) (simp_all add: stringify_elems_Cons [of x])
next
  case (10 k v fs)
  then show ?case by (cases fs) (simp_all add: stringify_fields_Cons [of "(k, v)"] printable_quote)
qed (simp_all add: printable_num_json printable_quote)

lemma stringify_no_line_end:
  "CHR 0x0A \<notin> set (stringify j)" "CHR 0x0D \<notin> set (stringify j)"
  using printable_stringify(1) [of j] by (force simp: printable_def)+

section \<open>The parser's fuel\<close>

text \<open>
  A call that succeeds with some fuel succeeds with the same result for any fuel not
  below the number of characters it consumed. So \<open>json_parse\<close>, whose fuel is more
  than the length of the text, fails only where no fuel would help.
\<close>

lemma skip_ws_length: "length (skip_ws s) \<le> length s"
  by (simp add: skip_ws_def length_dropWhile_le)

lemma scan_string_consumes: "scan_string s = Some (v, r) \<Longrightarrow> length r < length s"
proof (induction s arbitrary: v rule: scan_string.induct)
  case (2 c s)
  show ?case
  proof (cases "c = CHR 0x22 \<or> (of_char c :: nat) < 32")
    case True
    with "2.prems" show ?thesis by (auto split: if_splits)
  next
    case plain: False
    show ?thesis
    proof (cases "c = CHR 0x5C")
      case True
      with plain "2.prems" obtain x r' v' where x: "scan_escape s = Some (x, r')"
        and "scan_string r' = Some (v', r)"
        by (auto split: option.splits)
      with "2.IH"(1) plain True have "length r < length r'" by auto
      with scan_escape_length [OF x] show ?thesis by simp
    next
      case False
      with plain "2.prems" obtain v' where "scan_string s = Some (v', r)"
        by (auto split: if_splits)
      with "2.IH"(2) [of v'] plain False show ?thesis by simp
    qed
  qed
qed simp

lemma span_digits_length: "span_digits s = (ds, r) \<Longrightarrow> length s = length ds + length r"
  by (metis Pair_inject length_append span_digits_def takeWhile_dropWhile_id)

lemma scan_exp_length: "scan_exp s = Some (e, r) \<Longrightarrow> length r \<le> length s"
  by (auto simp: scan_exp_def Let_def split: list.splits if_splits prod.splits dest!: span_digits_length)

lemma scan_number_consumes: "scan_number s = Some (x, r) \<Longrightarrow> length r < length s"
  by (auto simp: scan_number_def Let_def simp flip: length_greater_0_conv
      split: list.splits if_splits prod.splits option.splits dest!: span_digits_length scan_exp_length)

lemma drop_literal: "starts_with s p \<Longrightarrow> p \<noteq> [] \<Longrightarrow> length (drop (length p) s) < length s"
  by (auto simp: starts_with_iff)

text \<open>A successful element or member list, taken apart.\<close>

lemma parse_elems_Suc_iff:
  "parse_elems (Suc f) s = Some (vs, r) \<longleftrightarrow>
     (\<exists>v t. parse_value f s = Some (v, t) \<and>
        (skip_ws t = CHR '']'' # r \<and> vs = [v] \<or>
         (\<exists>t' vs'. skip_ws t = CHR '','' # t' \<and> parse_elems f t' = Some (vs', r) \<and> vs = v # vs')))"
  by (auto split: option.splits list.splits)

lemma parse_members_Suc_iff:
  "parse_members (Suc f) s = Some (ms, r) \<longleftrightarrow>
     (\<exists>s' k s1 s2 v t. skip_ws s = CHR 0x22 # s' \<and> scan_string s' = Some (k, s1) \<and>
        skip_ws s1 = CHR '':'' # s2 \<and> parse_value f s2 = Some (v, t) \<and>
        (skip_ws t = CHR ''}'' # r \<and> ms = [(k, v)] \<or>
         (\<exists>t' ms'. skip_ws t = CHR '','' # t' \<and> parse_members f t' = Some (ms', r) \<and> ms = (k, v) # ms')))"
  by (auto split: option.splits list.splits if_splits)

text \<open>A value is an array, an object, or text whose reading needs no fuel.\<close>

definition scalar :: "string \<Rightarrow> (json \<times> string) option" where
  "scalar s =
     (if starts_with s [CHR 0x22] then map_option (apfst JStr) (scan_string (tl s))
      else if starts_with s ''null'' then Some (JNull, drop 4 s)
      else if starts_with s ''true'' then Some (JBool True, drop 4 s)
      else if starts_with s ''false'' then Some (JBool False, drop 5 s)
      else map_option (apfst JNum) (scan_number s))"

lemma scalar_consumes: "scalar s = Some (v, r) \<Longrightarrow> length r < length s"
  using drop_literal [of s "''null''"] drop_literal [of s "''true''"] drop_literal [of s "''false''"]
  by (cases s) (auto simp: scalar_def split: if_splits dest: scan_number_consumes scan_string_consumes)

lemma parse_value_Suc_eq:
  "parse_value (Suc f) s =
     (case skip_ws s of
        [] \<Rightarrow> None
      | c # t \<Rightarrow>
          if c = CHR ''['' then
            (case skip_ws t of [] \<Rightarrow> None
             | x # xs \<Rightarrow> if x = CHR '']'' then Some (JArr [], xs)
                        else map_option (apfst JArr) (parse_elems f (x # xs)))
          else if c = CHR ''{'' then
            (case skip_ws t of [] \<Rightarrow> None
             | x # xs \<Rightarrow> if x = CHR ''}'' then Some (JObj [], xs)
                        else map_option (apfst mk_obj) (parse_members f (x # xs)))
          else scalar (c # t))"
  by (auto simp: Let_def scalar_def split: list.splits)

lemma parse_value_Suc_iff:
  "parse_value (Suc f) s = Some (v, r) \<longleftrightarrow>
     (\<exists>c t. skip_ws s = c # t \<and>
        (c = CHR ''['' \<and> skip_ws t = CHR '']'' # r \<and> v = JArr [] \<or>
         c = CHR ''['' \<and> (\<exists>x xs vs. skip_ws t = x # xs \<and> x \<noteq> CHR '']'' \<and>
            parse_elems f (x # xs) = Some (vs, r) \<and> v = JArr vs) \<or>
         c = CHR ''{'' \<and> skip_ws t = CHR ''}'' # r \<and> v = JObj [] \<or>
         c = CHR ''{'' \<and> (\<exists>x xs ms. skip_ws t = x # xs \<and> x \<noteq> CHR ''}'' \<and>
            parse_members f (x # xs) = Some (ms, r) \<and> v = mk_obj ms) \<or>
         c \<noteq> CHR ''['' \<and> c \<noteq> CHR ''{'' \<and> scalar (c # t) = Some (v, r)))"
  unfolding parse_value_Suc_eq by (cases "skip_ws s") (auto split: list.splits)

lemma skip_ws_Cons_length: "skip_ws s = c # t \<Longrightarrow> Suc (length t) \<le> length s"
  using skip_ws_length [of s] by simp

declare parse_value.simps(2) [simp del] parse_elems.simps(2) [simp del] parse_members.simps(2) [simp del]

lemma parse_more_fuel:
  "parse_value f s = Some (v, r) \<Longrightarrow>
     length r < length s \<and> (\<forall>g. length s - length r \<le> g \<longrightarrow> parse_value g s = Some (v, r))"
  "parse_elems f s = Some (vs, r) \<Longrightarrow>
     length r < length s \<and> (\<forall>g. length s - length r \<le> g \<longrightarrow> parse_elems g s = Some (vs, r))"
  "parse_members f s = Some (ms, r) \<Longrightarrow>
     length r < length s \<and> (\<forall>g. length s - length r \<le> g \<longrightarrow> parse_members g s = Some (ms, r))"
proof (induction f arbitrary: s v vs ms r)
  case (Suc f)
  {
    case 1
    then obtain c t where ws: "skip_ws s = c # t" and alt:
      "c = CHR ''['' \<and> skip_ws t = CHR '']'' # r \<and> v = JArr [] \<or>
       c = CHR ''['' \<and> (\<exists>x xs vs. skip_ws t = x # xs \<and> x \<noteq> CHR '']'' \<and>
            parse_elems f (x # xs) = Some (vs, r) \<and> v = JArr vs) \<or>
       c = CHR ''{'' \<and> skip_ws t = CHR ''}'' # r \<and> v = JObj [] \<or>
       c = CHR ''{'' \<and> (\<exists>x xs ms. skip_ws t = x # xs \<and> x \<noteq> CHR ''}'' \<and>
            parse_members f (x # xs) = Some (ms, r) \<and> v = mk_obj ms) \<or>
       c \<noteq> CHR ''['' \<and> c \<noteq> CHR ''{'' \<and> scalar (c # t) = Some (v, r)"
      unfolding parse_value_Suc_iff by blast
    note len = skip_ws_Cons_length [OF ws]
    have ok: "length r < length s \<and> (\<forall>g. length s - length r \<le> Suc g \<longrightarrow> parse_value (Suc g) s = Some (v, r))"
      using alt
    proof (elim disjE conjE exE)
      assume "c = CHR ''[''" and e: "skip_ws t = CHR '']'' # r" and "v = JArr []"
      with ws len skip_ws_Cons_length [OF e] show ?thesis by (auto simp: parse_value_Suc_iff)
    next
      assume "c = CHR ''{''" and e: "skip_ws t = CHR ''}'' # r" and "v = JObj []"
      with ws len skip_ws_Cons_length [OF e] show ?thesis by (auto simp: parse_value_Suc_iff)
    next
      assume "c \<noteq> CHR ''[''" "c \<noteq> CHR ''{''" and e: "scalar (c # t) = Some (v, r)"
      with ws len scalar_consumes [OF e] show ?thesis by (auto simp: parse_value_Suc_iff)
    next
      fix x xs vs
      assume *: "c = CHR ''[''" "skip_ws t = x # xs" "x \<noteq> CHR '']''" "v = JArr vs"
        and e: "parse_elems f (x # xs) = Some (vs, r)"
      have "length (x # xs) < length s" using len skip_ws_Cons_length [OF *(2)] by simp
      with Suc.IH(2) [OF e] have "length r < length s"
        and "parse_elems g (x # xs) = Some (vs, r)" if "length s - length r \<le> Suc g" for g
        using that by auto
      with ws * show ?thesis using Suc.IH(2) [OF e] len skip_ws_Cons_length [OF *(2)]
        by (auto simp: parse_value_Suc_iff)
    next
      fix x xs ms
      assume *: "c = CHR ''{''" "skip_ws t = x # xs" "x \<noteq> CHR ''}''" "v = mk_obj ms"
        and e: "parse_members f (x # xs) = Some (ms, r)"
      have "length (x # xs) < length s" using len skip_ws_Cons_length [OF *(2)] by simp
      with Suc.IH(3) [OF e] have "length r < length s"
        and "parse_members g (x # xs) = Some (ms, r)" if "length s - length r \<le> Suc g" for g
        using that by auto
      with ws * show ?thesis using Suc.IH(3) [OF e] len skip_ws_Cons_length [OF *(2)]
        by (auto simp: parse_value_Suc_iff)
    qed
    then show ?case by (metis Suc_pred diff_is_0_eq gr0I not_less le_zero_eq)
  next
    case 2
    then obtain v t where v: "parse_value f s = Some (v, t)" and
      rest: "skip_ws t = CHR '']'' # r \<and> vs = [v] \<or>
         (\<exists>t' vs'. skip_ws t = CHR '','' # t' \<and> parse_elems f t' = Some (vs', r) \<and> vs = v # vs')"
      unfolding parse_elems_Suc_iff by blast
    from Suc.IH(1) [OF v] have t: "length t < length s"
      and vg: "\<And>g. length s - length t \<le> g \<Longrightarrow> parse_value g s = Some (v, t)" by auto
    have ok: "length r < length s \<and> (\<forall>g. length s - length r \<le> Suc g \<longrightarrow> parse_elems (Suc g) s = Some (vs, r))"
      using rest
    proof (elim disjE conjE exE)
      assume e: "skip_ws t = CHR '']'' # r" and "vs = [v]"
      with t vg skip_ws_Cons_length [OF e] show ?thesis by (auto simp: parse_elems_Suc_iff)
    next
      fix t' vs'
      assume e: "skip_ws t = CHR '','' # t'" "parse_elems f t' = Some (vs', r)" "vs = v # vs'"
      with t vg skip_ws_Cons_length [OF e(1)] Suc.IH(2) [OF e(2)] show ?thesis
        by (auto simp: parse_elems_Suc_iff)
    qed
    then show ?case by (metis Suc_pred diff_is_0_eq gr0I not_less le_zero_eq)
  next
    case 3
    then obtain s' k s1 s2 v t where h: "skip_ws s = CHR 0x22 # s'" "scan_string s' = Some (k, s1)"
        "skip_ws s1 = CHR '':'' # s2" and v: "parse_value f s2 = Some (v, t)" and
      rest: "skip_ws t = CHR ''}'' # r \<and> ms = [(k, v)] \<or>
         (\<exists>t' ms'. skip_ws t = CHR '','' # t' \<and> parse_members f t' = Some (ms', r) \<and> ms = (k, v) # ms')"
      unfolding parse_members_Suc_iff by blast
    note len = skip_ws_Cons_length [OF h(1)] scan_string_consumes [OF h(2)] skip_ws_Cons_length [OF h(3)]
    from Suc.IH(1) [OF v] have t: "length t < length s2"
      and vg: "\<And>g. length s2 - length t \<le> g \<Longrightarrow> parse_value g s2 = Some (v, t)" by auto
    have ok: "length r < length s \<and> (\<forall>g. length s - length r \<le> Suc g \<longrightarrow> parse_members (Suc g) s = Some (ms, r))"
      using rest
    proof (elim disjE conjE exE)
      assume e: "skip_ws t = CHR ''}'' # r" and "ms = [(k, v)]"
      with h len t vg skip_ws_Cons_length [OF e] show ?thesis by (auto simp: parse_members_Suc_iff)
    next
      fix t' ms'
      assume e: "skip_ws t = CHR '','' # t'" "parse_members f t' = Some (ms', r)" "ms = (k, v) # ms'"
      with h len t vg skip_ws_Cons_length [OF e(1)] Suc.IH(3) [OF e(2)] show ?thesis
        by (auto simp: parse_members_Suc_iff)
    qed
    then show ?case by (metis Suc_pred diff_is_0_eq gr0I not_less le_zero_eq)
  }
qed simp_all

theorem json_parse_fuel:
  "json_parse s = Some v \<longleftrightarrow> (\<exists>f r. parse_value f s = Some (v, r) \<and> skip_ws r = [])"
proof
  assume "json_parse s = Some v"
  then obtain r where "parse_value (Suc (length s)) s = Some (v, r)" and "skip_ws r = []"
    by (auto simp: json_parse_def split: option.splits if_splits)
  then show "\<exists>f r. parse_value f s = Some (v, r) \<and> skip_ws r = []" by blast
next
  assume "\<exists>f r. parse_value f s = Some (v, r) \<and> skip_ws r = []"
  then obtain f r where p: "parse_value f s = Some (v, r)" and "skip_ws r = []" by blast
  moreover have "parse_value (Suc (length s)) s = Some (v, r)"
    using parse_more_fuel(1) [OF p] by auto
  ultimately show "json_parse s = Some v"
    by (simp add: json_parse_def)
qed

section \<open>What the parser returns is well formed\<close>

lemma dec_value_wf: "wf_json (JNum (dec_value neg ds fs e))"
proof -
  have "is_finite (norm_dec m d)" for m d by (induction m d rule: norm_dec.induct) auto
  then show ?thesis using norm_dec_normal by (simp add: dec_value_def Let_def)
qed

lemma scan_number_wf: "scan_number s = Some (x, r) \<Longrightarrow> wf_json (JNum x)"
  using dec_value_wf by (auto simp: scan_number_def Let_def split: prod.splits if_splits option.splits)

lemma scalar_wf: "scalar s = Some (v, r) \<Longrightarrow> wf_json v"
  by (auto simp: scalar_def split: if_splits dest: scan_number_wf)

lemma obj_put_wf:
  "distinct (map fst fs) \<Longrightarrow> distinct (map fst (obj_put k v fs)) \<and> fst ` set (obj_put k v fs) = insert k (fst ` set fs)"
  by (induction fs rule: obj_put.induct) auto

lemma obj_put_values: "snd ` set (obj_put k v fs) \<subseteq> insert v (snd ` set fs)"
  by (induction fs rule: obj_put.induct) auto

lemma fold_obj_put_wf:
  assumes "distinct (map fst fs)" and "\<forall>v \<in> snd ` set fs \<union> snd ` set ms. wf_json v"
  shows "wf_json (JObj (fold (\<lambda>(k, v). obj_put k v) ms fs))"
  using assms
proof (induction ms arbitrary: fs)
  case (Cons m ms)
  obtain k v where m: "m = (k, v)" by (cases m)
  have "wf_json (JObj (fold (\<lambda>(k, v). obj_put k v) ms (obj_put k v fs)))"
  proof (rule Cons.IH)
    show "distinct (map fst (obj_put k v fs))" using obj_put_wf [OF Cons.prems(1)] by simp
    have "wf_json x" if "x \<in> insert v (snd ` set fs) \<union> snd ` set ms" for x
      using that Cons.prems(2) m by auto
    with obj_put_values [of k v fs] show "\<forall>x \<in> snd ` set (obj_put k v fs) \<union> snd ` set ms. wf_json x" by blast
  qed
  then show ?case by (simp add: m)
qed auto

lemma parsed_wf:
  "parse_value f s = Some (v, r) \<Longrightarrow> wf_json v"
  "parse_elems f s = Some (vs, r) \<Longrightarrow> \<forall>v \<in> set vs. wf_json v"
  "parse_members f s = Some (ms, r) \<Longrightarrow> \<forall>v \<in> snd ` set ms. wf_json v"
proof (induction f arbitrary: s v vs ms r)
  case (Suc f)
  {
    case 1
    then show ?case
      unfolding parse_value_Suc_iff
      using Suc.IH fold_obj_put_wf [of "[]"] scalar_wf by (fastforce simp: mk_obj_def)
  next
    case 2
    then show ?case unfolding parse_elems_Suc_iff using Suc.IH by fastforce
  next
    case 3
    then show ?case unfolding parse_members_Suc_iff using Suc.IH by fastforce
  }
qed simp_all

lemma json_parse_wf: "json_parse s = Some v \<Longrightarrow> wf_json v"
  by (auto simp: json_parse_def split: option.splits if_splits intro: parsed_wf)

lemma js_prop_wf: "wf_json v \<Longrightarrow> js_prop v k = Some x \<Longrightarrow> wf_json x"
  by (cases v) (auto split: if_splits option.splits dest: map_of_SomeD find_Some_iff [THEN iffD1])

text \<open>So every text that parses can be printed and parsed again.\<close>

lemma reparse: "json_parse s = Some v \<Longrightarrow> json_parse (stringify v) = Some v"
  using json_parse_wf json_roundtrip by blast

end
