(* ===== verification/RunCore.thy ===== *)
theory RunCore
  imports JsonLaws
begin

text \<open>
  What the two reference hosts (\<^verbatim>\<open>examples/hosts/in-memory/src/server.ts\<close> and
  \<^verbatim>\<open>examples/hosts/sqlite/src/server.ts\<close>) have in common: run statuses, workflows,
  run events, the input resolution of the delay node, HTTP requests and replies, bearer
  authentication and the path patterns of the router. The second half is the abstract
  specification of a run's event log, against which both executors are proved.
\<close>

section \<open>Run statuses and events\<close>

datatype run_status =
  Pending | Running | Cancelling | Completed | Failed | Cancelled | WaitingApproval

fun status_str :: "run_status \<Rightarrow> string" where
  "status_str Pending = ''pending''"
| "status_str Running = ''running''"
| "status_str Cancelling = ''cancelling''"
| "status_str Completed = ''completed''"
| "status_str Failed = ''failed''"
| "status_str Cancelled = ''cancelled''"
| "status_str WaitingApproval = ''waiting-approval''"

text \<open>The test \<^verbatim>\<open>status === 'completed' || status === 'failed' || status === 'cancelled'\<close>.\<close>

definition is_terminal :: "run_status \<Rightarrow> bool" where
  "is_terminal s \<longleftrightarrow> s = Completed \<or> s = Failed \<or> s = Cancelled"

lemma is_terminal_simps [simp]:
  "is_terminal Completed" "is_terminal Failed" "is_terminal Cancelled"
  "\<not> is_terminal Running" "\<not> is_terminal Pending" "\<not> is_terminal Cancelling"
  "\<not> is_terminal WaitingApproval"
  by (simp_all add: is_terminal_def)

text \<open>The event types the hosts write, and their names on the wire.\<close>

datatype ev_type =
  RunStarted | RunResumed | RunCompleted | RunFailed | RunCancelled
| NodeStarted | NodeCompleted | NodeFailed | NodeCancelled

fun type_str :: "ev_type \<Rightarrow> string" where
  "type_str RunStarted = ''run.started''"
| "type_str RunResumed = ''run.resumed''"
| "type_str RunCompleted = ''run.completed''"
| "type_str RunFailed = ''run.failed''"
| "type_str RunCancelled = ''run.cancelled''"
| "type_str NodeStarted = ''node.started''"
| "type_str NodeCompleted = ''node.completed''"
| "type_str NodeFailed = ''node.failed''"
| "type_str NodeCancelled = ''node.cancelled''"

text \<open>The test the SSE handlers make before they close the stream.\<close>

definition ends_stream :: "ev_type \<Rightarrow> bool" where
  "ends_stream ty \<longleftrightarrow> ty = RunCompleted \<or> ty = RunFailed \<or> ty = RunCancelled"

lemma ends_stream_simps [simp]:
  "ends_stream RunCompleted" "ends_stream RunFailed" "ends_stream RunCancelled"
  "\<not> ends_stream RunStarted" "\<not> ends_stream RunResumed" "\<not> ends_stream NodeStarted"
  "\<not> ends_stream NodeCompleted" "\<not> ends_stream NodeFailed" "\<not> ends_stream NodeCancelled"
  by (simp_all add: ends_stream_def)

record run_event =
  e_seq :: nat
  e_runId :: string
  e_type :: ev_type
  e_nodeId :: "string option"
  e_data :: "json option"
  e_timestamp :: string

record run_error =
  err_code :: string
  err_message :: string

definition error_json :: "run_error \<Rightarrow> json" where
  "error_json e = JObj [(''code'', JStr (err_code e)), (''message'', JStr (err_message e))]"

definition error_or_null :: "run_error option \<Rightarrow> json" where
  "error_or_null e = (case e of None \<Rightarrow> JNull | Some e \<Rightarrow> error_json e)"

lemma wf_error_json [simp]: "wf_json (error_json e)"
  by (simp add: error_json_def)

section \<open>Workflows\<close>

record node =
  n_id :: string
  n_typeId :: string
  n_name :: string
  n_inputs :: "(string \<times> json) list"

record workflow =
  wf_id :: string
  wf_name :: string
  wf_version :: string
  wf_nodes :: "node list"

text \<open>
  \<^verbatim>\<open>loadFixtures\<close> walks up at most ten directories and takes the first that has a
  readable \<^verbatim>\<open>conformance/fixtures\<close>; the file system is the parameter \<open>fs\<close>: what
  \<^verbatim>\<open>readdirSync\<close> and \<^verbatim>\<open>readFileSync\<close> give for a directory (\<open>None\<close> where
  they throw, also on a file that does not parse: the handler of the exception then goes
  on upwards, with the workflows read so far kept). \<open>dir_up\<close> is \<^verbatim>\<open>dirname\<close>.
\<close>

type_synonym dir_entry = "string \<times> workflow option"
type_synonym file_system = "string \<Rightarrow> dir_entry list option"

definition ends_with :: "string \<Rightarrow> string \<Rightarrow> bool" where
  "ends_with s p \<longleftrightarrow> starts_with (rev s) (rev p)"

definition synthetic_noop :: workflow where
  "synthetic_noop = \<lparr>wf_id = ''conformance-noop'', wf_name = ''Synthetic Noop'', wf_version = ''1.0.0'',
     wf_nodes = [\<lparr>n_id = ''noop'', n_typeId = ''core.noop'', n_name = ''Noop'', n_inputs = []\<rparr>]\<rparr>"

text \<open>One directory: the workflows with its files added, and whether all of them parsed.\<close>

fun load_dir :: "(string \<rightharpoonup> workflow) \<Rightarrow> dir_entry list \<Rightarrow> (string \<rightharpoonup> workflow) \<times> bool" where
  "load_dir ws [] = (ws, True)"
| "load_dir ws ((name, c) # es) =
     (if \<not> ends_with name ''.json'' then load_dir ws es
      else (case c of None \<Rightarrow> (ws, False) | Some w \<Rightarrow> load_dir (ws(wf_id w \<mapsto> w)) es))"

fun load_from :: "file_system \<Rightarrow> (string \<Rightarrow> string) \<Rightarrow> nat \<Rightarrow> string \<Rightarrow>
    (string \<rightharpoonup> workflow) \<Rightarrow> (string \<rightharpoonup> workflow)" where
  "load_from fs dir_up 0 probe ws = ws(wf_id synthetic_noop \<mapsto> synthetic_noop)"
| "load_from fs dir_up (Suc i) probe ws =
     (case fs (probe @ ''/conformance/fixtures'') of
        None \<Rightarrow> load_from fs dir_up i (dir_up probe) ws
      | Some es \<Rightarrow>
          (case load_dir ws es of
             (ws', True) \<Rightarrow> ws'
           | (ws', False) \<Rightarrow> load_from fs dir_up i (dir_up probe) ws'))"

definition loadFixtures :: "file_system \<Rightarrow> (string \<Rightarrow> string) \<Rightarrow> string \<Rightarrow> (string \<rightharpoonup> workflow)" where
  "loadFixtures fs dir_up dirname = load_from fs dir_up 10 dirname Map.empty"

section \<open>The delay node's input\<close>

definition resolveInputAsNumber :: "json option \<Rightarrow> json \<Rightarrow> num \<Rightarrow> num" where
  "resolveInputAsNumber declared variables fallback =
     (let var = (case declared of
          Some d \<Rightarrow>
            (if is_object d \<and> js_prop d ''type'' = Some (JStr ''variable'') then
               (case js_prop d ''variableName'' of
                  Some (JStr name) \<Rightarrow> (case js_prop variables name of Some (JNum x) \<Rightarrow> Some x | _ \<Rightarrow> None)
                | _ \<Rightarrow> None)
             else None)
        | None \<Rightarrow> None)
      in case var of
           Some x \<Rightarrow> x
         | None \<Rightarrow> (case declared of Some (JNum x) \<Rightarrow> x | _ \<Rightarrow> fallback))"

section \<open>HTTP requests and replies\<close>

text \<open>
  A request as the handlers see it: \<open>rq_path\<close> is \<^verbatim>\<open>url.pathname\<close>, \<open>None\<close>
  when the \<^verbatim>\<open>URL\<close> constructor throws; \<open>rq_query\<close> the decoded query
  parameters; header names are lower case, as Node delivers them; \<open>rq_body\<close> is the
  whole body, as \<^verbatim>\<open>readBody\<close> resolves.
\<close>

record request =
  rq_method :: string
  rq_path :: "string option"
  rq_query :: "(string \<times> string) list"
  rq_headers :: "string \<rightharpoonup> string"
  rq_body :: string

text \<open>
  What a handler reads from outside in one synchronous stretch of code:
  \<^verbatim>\<open>Date.now()\<close>, \<^verbatim>\<open>new Date().toISOString()\<close> and \<^verbatim>\<open>randomUUID()\<close>.
\<close>

record env =
  now_ms :: int
  iso :: string
  uuid :: string

text \<open>\<^verbatim>\<open>`run-${randomUUID()}`\<close>.\<close>

definition new_run_id :: "env \<Rightarrow> string" where
  "new_run_id en = ''run-'' @ uuid en"

record response =
  rs_status :: nat
  rs_headers :: "(string \<times> string) list"
  rs_body :: string

text \<open>A reply is a complete response, or an event stream left open or already ended.\<close>

datatype reply = Full response | Stream "(string \<times> string) list"

definition sendText :: "nat \<Rightarrow> string \<Rightarrow> string \<Rightarrow> (string \<times> string) list \<Rightarrow> reply" where
  "sendText status ctype payload extra =
     Full \<lparr>rs_status = status,
           rs_headers = [(''Content-Type'', ctype), (''Content-Length'', nat_str (length payload))] @ extra,
           rs_body = payload\<rparr>"

definition sendJSON :: "nat \<Rightarrow> json \<Rightarrow> (string \<times> string) list \<Rightarrow> reply" where
  "sendJSON status body extra = sendText status ''application/json'' (stringify body) extra"

definition error_body :: "string \<Rightarrow> string \<Rightarrow> json" where
  "error_body code message = JObj [(''error'', JStr code), (''message'', JStr message)]"

definition sendError :: "nat \<Rightarrow> string \<Rightarrow> string \<Rightarrow> reply" where
  "sendError status code message = sendJSON status (error_body code message) []"

fun reply_status :: "reply \<Rightarrow> nat" where
  "reply_status (Full r) = rs_status r"
| "reply_status (Stream _) = 200"

fun reply_body :: "reply \<Rightarrow> string" where
  "reply_body (Full r) = rs_body r"
| "reply_body (Stream _) = []"

fun reply_headers :: "reply \<Rightarrow> (string \<times> string) list" where
  "reply_headers (Full r) = rs_headers r"
| "reply_headers (Stream h) = h"

lemma reply_simps [simp]:
  "reply_status (sendText st ct p ex) = st" "reply_body (sendText st ct p ex) = p"
  "reply_status (sendJSON st b ex) = st" "reply_body (sendJSON st b ex) = stringify b"
  "reply_status (sendError st c m) = st" "reply_body (sendError st c m) = stringify (error_body c m)"
  by (simp_all add: sendText_def sendJSON_def sendError_def)

lemma wf_error_body [simp]: "wf_json (error_body c m)"
  by (simp add: error_body_def)

text \<open>\<^verbatim>\<open>checkAuth\<close>: \<open>None\<close> for \<^verbatim>\<open>true\<close>, else the 401 it sent.\<close>

definition checkAuth :: "string \<Rightarrow> request \<Rightarrow> reply option" where
  "checkAuth api_key rq =
     (case rq_headers rq ''authorization'' of
        None \<Rightarrow> Some (sendError 401 ''unauthenticated'' ''Missing or malformed Authorization header.'')
      | Some auth \<Rightarrow>
          if \<not> starts_with auth ''Bearer '' then
            Some (sendError 401 ''unauthenticated'' ''Missing or malformed Authorization header.'')
          else if js_trim (drop (length ''Bearer '') auth) \<noteq> api_key then
            Some (sendError 401 ''invalid_credential'' ''Bearer token rejected.'')
          else None)"

definition authorized :: "string \<Rightarrow> request \<Rightarrow> bool" where
  "authorized api_key rq \<longleftrightarrow>
     (\<exists>t. rq_headers rq ''authorization'' = Some (''Bearer '' @ t) \<and> js_trim t = api_key)"

lemma checkAuth_None: "checkAuth k rq = None \<longleftrightarrow> authorized k rq"
  by (auto simp: checkAuth_def authorized_def starts_with_iff split: option.splits)

lemma checkAuth_Some: "checkAuth k rq = Some r \<Longrightarrow> reply_status r = 401 \<and> \<not> authorized k rq"
  using checkAuth_None [of k rq] by (auto simp: checkAuth_def split: option.splits if_splits)

text \<open>
  \<^verbatim>\<open>hashBody\<close> and \<^verbatim>\<open>buildIdempotencyCacheKey\<close>: \<open>sha256\<close> is the hex
  digest function of \<^verbatim>\<open>node:crypto\<close>, a parameter.
\<close>

definition hashBody :: "(string \<Rightarrow> string) \<Rightarrow> string \<Rightarrow> string" where
  "hashBody sha256 body = sha256 body"

definition buildIdempotencyCacheKey :: "(string \<Rightarrow> string) \<Rightarrow> string \<Rightarrow> string \<Rightarrow> string" where
  "buildIdempotencyCacheKey sha256 endpoint key = sha256 (''single-tenant:'' @ endpoint @ '':'' @ key)"

definition IDEMPOTENCY_TTL_MS :: int where
  "IDEMPOTENCY_TTL_MS = 24 * 60 * 60 * 1000"

section \<open>The checks of a create request\<close>

text \<open>
  The first half of \<^verbatim>\<open>handleCreateRun\<close>, the same in both hosts: authentication, the
  body, its \<^verbatim>\<open>workflowId\<close>, the lookup of the workflow. Reading
  \<^verbatim>\<open>parsed.workflowId\<close> throws when the body is the JSON text \<^verbatim>\<open>null\<close>.
\<close>

datatype create_check =
  Throws string
| Rejects reply
| Accepts string json \<comment> \<open>the workflow id and \<^verbatim>\<open>parsed.inputs ?? {}\<close>\<close>

definition null_workflowId_message :: string where
  "null_workflowId_message = ''Cannot read properties of null (reading '' @ [CHR 0x27] @ ''workflowId'' @ [CHR 0x27] @ '')''"

definition inputs_or_empty :: "json option \<Rightarrow> json" where
  "inputs_or_empty v = (case v of None \<Rightarrow> JObj [] | Some j \<Rightarrow> if j = JNull then JObj [] else j)"

definition check_create :: "string \<Rightarrow> (string \<rightharpoonup> workflow) \<Rightarrow> request \<Rightarrow> create_check" where
  "check_create api_key ws rq =
     (case checkAuth api_key rq of
        Some err \<Rightarrow> Rejects err
      | None \<Rightarrow>
     (case json_parse (rq_body rq) of
        None \<Rightarrow> Rejects (sendError 400 ''validation_error'' ''Request body MUST be valid JSON.'')
      | Some parsed \<Rightarrow>
          if parsed = JNull then Throws null_workflowId_message
          else (case js_prop parsed ''workflowId'' of
             Some (JStr wid) \<Rightarrow>
               if ws wid = None then Rejects (sendError 404 ''workflow_not_found'' ''Unknown workflowId.'')
               else Accepts wid (inputs_or_empty (js_prop parsed ''inputs''))
           | _ \<Rightarrow> Rejects (sendError 400 ''validation_error'' ''workflowId MUST be a string.''))))"

lemma check_create_Accepts:
  "check_create k ws rq = Accepts wid inputs \<longleftrightarrow>
     authorized k rq \<and> ws wid \<noteq> None \<and>
     (\<exists>v. json_parse (rq_body rq) = Some v \<and> v \<noteq> JNull \<and> js_prop v ''workflowId'' = Some (JStr wid) \<and>
          inputs = inputs_or_empty (js_prop v ''inputs''))"
  by (auto simp: check_create_def checkAuth_None [symmetric] split: option.splits json.splits if_splits)

lemma check_create_inputs: "check_create k ws rq = Accepts wid inputs \<Longrightarrow> wf_json inputs"
  unfolding check_create_Accepts inputs_or_empty_def
  by (auto split: option.splits dest!: json_parse_wf dest: js_prop_wf)

lemma check_create_Rejects:
  "check_create k ws rq = Rejects rep \<Longrightarrow> reply_status rep \<in> {400, 401, 404}"
  by (auto simp: check_create_def split: option.splits json.splits if_splits dest: checkAuth_Some)

lemma check_create_Throws:
  "check_create k ws rq = Throws msg \<longleftrightarrow>
     authorized k rq \<and> json_parse (rq_body rq) = Some JNull \<and> msg = null_workflowId_message"
  by (auto simp: check_create_def checkAuth_None [symmetric] split: option.splits json.splits if_splits)

lemma check_create_unauthorized: "\<not> authorized k rq \<Longrightarrow> \<exists>rep. check_create k ws rq = Rejects rep \<and> reply_status rep = 401"
  by (cases "checkAuth k rq") (auto simp: checkAuth_None check_create_def dest: checkAuth_Some)

section \<open>Path patterns\<close>

text \<open>
  The patterns \<^verbatim>\<open>/^\/v1\/runs\/([^/]+)\/...$/\<close>: the path split at its slashes is
  \<^verbatim>\<open>["", "v1", "runs", id, ...]\<close> with a non-empty \<^verbatim>\<open>id\<close>, the capture.
\<close>

definition run_path :: "string list \<Rightarrow> string \<Rightarrow> string option" where
  "run_path suffix path =
     (case split_on (CHR ''/'') path of
        a # b # c # x # rest \<Rightarrow>
          if a = [] \<and> b = ''v1'' \<and> c = ''runs'' \<and> x \<noteq> [] \<and> rest = suffix then Some x else None
      | _ \<Rightarrow> None)"

definition RUN_ID_PATTERN :: "string \<Rightarrow> string option" where
  "RUN_ID_PATTERN = run_path []"

definition RUN_CANCEL_PATTERN :: "string \<Rightarrow> string option" where
  "RUN_CANCEL_PATTERN = run_path [''cancel'']"

definition RUN_EVENTS_POLL_PATTERN :: "string \<Rightarrow> string option" where
  "RUN_EVENTS_POLL_PATTERN = run_path [''events'', ''poll'']"

definition RUN_EVENTS_SSE_PATTERN :: "string \<Rightarrow> string option" where
  "RUN_EVENTS_SSE_PATTERN = run_path [''events'']"

definition RUN_DEBUG_BUNDLE_PATTERN :: "string \<Rightarrow> string option" where
  "RUN_DEBUG_BUNDLE_PATTERN = run_path [''debug-bundle'']"

lemmas path_patterns = RUN_ID_PATTERN_def RUN_CANCEL_PATTERN_def RUN_EVENTS_POLL_PATTERN_def
  RUN_EVENTS_SSE_PATTERN_def RUN_DEBUG_BUNDLE_PATTERN_def

text \<open>The path a client builds, with the suffix's segments.\<close>

definition path_of :: "string \<Rightarrow> string list \<Rightarrow> string" where
  "path_of x suffix = join_with ''/'' ([''/v1/runs'', x] @ suffix)"

lemma split_path_of:
  assumes "CHR ''/'' \<notin> set x" and "\<forall>y \<in> set suffix. CHR ''/'' \<notin> set y"
  shows "split_on (CHR ''/'') (path_of x suffix) = [[], ''v1'', ''runs'', x] @ suffix"
proof -
  have tail: "split_on (CHR ''/'') (join_with ''/'' (x # suffix)) = x # suffix" using assms
  proof (induction suffix arbitrary: x)
    case Nil
    then show ?case by (simp add: split_on_no_sep)
  next
    case (Cons y ys)
    then show ?case by (simp add: split_on_append)
  qed
  have "path_of x suffix = ''/v1/runs/'' @ join_with ''/'' (x # suffix)"
    by (simp add: path_of_def)
  then show ?thesis using tail by simp
qed

lemma run_path_of:
  assumes "CHR ''/'' \<notin> set x" and "x \<noteq> []" and "\<forall>y \<in> set suffix. CHR ''/'' \<notin> set y"
  shows "run_path suffix' (path_of x suffix) = (if suffix' = suffix then Some x else None)"
  using split_path_of [OF assms(1,3)] assms(2) by (auto simp: run_path_def)

lemma run_path_Some:
  "run_path suffix p = Some x \<Longrightarrow> p = path_of x suffix \<and> x \<noteq> [] \<and> CHR ''/'' \<notin> set x"
proof -
  assume a: "run_path suffix p = Some x"
  then have s: "split_on (CHR ''/'') p = [[], ''v1'', ''runs'', x] @ suffix" and "x \<noteq> []"
    by (auto simp: run_path_def split: list.splits if_splits)
  have "p = join_with ''/'' ([[], ''v1'', ''runs'', x] @ suffix)"
    using join_split_on [of "CHR ''/''" p] s by simp
  moreover have "CHR ''/'' \<notin> set x"
    using split_on_parts [of x "CHR ''/''" p] s by simp
  ultimately show ?thesis using \<open>x \<noteq> []\<close> by (simp add: path_of_def)
qed

section \<open>The specification of a run's event log\<close>

text \<open>
  The part of an event that the order of execution determines. \<open>log_upto ns i\<close> is the
  log of a run that has executed its first \<open>i\<close> nodes.
\<close>

type_synonym shape = "ev_type \<times> string option"

definition ev_shape :: "run_event \<Rightarrow> shape" where
  "ev_shape e = (e_type e, e_nodeId e)"

definition node_done :: "node \<Rightarrow> shape list" where
  "node_done n = [(NodeStarted, Some (n_id n)), (NodeCompleted, Some (n_id n))]"

definition log_upto :: "node list \<Rightarrow> nat \<Rightarrow> shape list" where
  "log_upto ns i = (RunStarted, None) # concat (map node_done (take i ns))"

definition supported :: "node \<Rightarrow> bool" where
  "supported n \<longleftrightarrow> n_typeId n = ''core.noop'' \<or> n_typeId n = ''core.delay''"

definition is_delay :: "node \<Rightarrow> bool" where
  "is_delay n \<longleftrightarrow> n_typeId n = ''core.delay''"

definition all_supported :: "node list \<Rightarrow> nat \<Rightarrow> bool" where
  "all_supported ns i \<longleftrightarrow> list_all supported (take i ns)"

text \<open>The complete logs, one kind per terminal status.\<close>

definition completed_log :: "node list \<Rightarrow> shape list \<Rightarrow> bool" where
  "completed_log ns l \<longleftrightarrow>
     all_supported ns (length ns) \<and> l = log_upto ns (length ns) @ [(RunCompleted, None)]"

definition failed_log :: "node list \<Rightarrow> shape list \<Rightarrow> bool" where
  "failed_log ns l \<longleftrightarrow>
     (\<exists>i < length ns. all_supported ns i \<and> \<not> supported (ns ! i) \<and>
        l = log_upto ns i @ [(NodeStarted, Some (n_id (ns ! i))), (NodeFailed, Some (n_id (ns ! i))),
                             (RunFailed, None)])"

definition cancelled_log :: "node list \<Rightarrow> shape list \<Rightarrow> bool" where
  "cancelled_log ns l \<longleftrightarrow>
     (\<exists>i \<le> length ns. all_supported ns i \<and>
        (l = log_upto ns i @ [(RunCancelled, None)] \<or>
         i < length ns \<and> is_delay (ns ! i) \<and>
         l = log_upto ns i @ [(NodeStarted, Some (n_id (ns ! i))), (NodeCancelled, Some (n_id (ns ! i))),
                              (RunCancelled, None)]))"

definition final_log :: "node list \<Rightarrow> run_status \<Rightarrow> shape list \<Rightarrow> bool" where
  "final_log ns s l \<longleftrightarrow>
     (case s of Completed \<Rightarrow> completed_log ns l | Failed \<Rightarrow> failed_log ns l
      | Cancelled \<Rightarrow> cancelled_log ns l | _ \<Rightarrow> False)"

lemma log_upto_0 [simp]: "log_upto ns 0 = [(RunStarted, None)]"
  by (simp add: log_upto_def)

lemma log_upto_Suc:
  "i < length ns \<Longrightarrow> log_upto ns (Suc i) = log_upto ns i @ node_done (ns ! i)"
  by (simp add: log_upto_def take_Suc_conv_app_nth)

lemma all_supported_0 [simp]: "all_supported ns 0"
  by (simp add: all_supported_def)

lemma all_supported_Suc:
  "i < length ns \<Longrightarrow> all_supported ns (Suc i) \<longleftrightarrow> all_supported ns i \<and> supported (ns ! i)"
  by (simp add: all_supported_def take_Suc_conv_app_nth)

text \<open>Only the last event of a complete log ends the stream, and it names the status.\<close>

definition open_log :: "shape list \<Rightarrow> bool" where
  "open_log l \<longleftrightarrow> (\<forall>x \<in> set l. \<not> ends_stream (fst x))"

lemma open_log_append [simp]: "open_log (l @ m) \<longleftrightarrow> open_log l \<and> open_log m"
  by (auto simp: open_log_def)

lemma open_log_Cons [simp]: "open_log (x # l) \<longleftrightarrow> \<not> ends_stream (fst x) \<and> open_log l"
  by (auto simp: open_log_def)

lemma open_log_Nil [simp]: "open_log []"
  by (simp add: open_log_def)

lemma open_log_upto [simp]: "open_log (log_upto ns i)"
  by (auto simp: open_log_def log_upto_def node_done_def)

fun terminal_type :: "run_status \<Rightarrow> ev_type" where
  "terminal_type Completed = RunCompleted"
| "terminal_type Failed = RunFailed"
| "terminal_type _ = RunCancelled"

lemma final_log_last:
  "final_log ns s l \<Longrightarrow> is_terminal s \<and> l \<noteq> [] \<and> last l = (terminal_type s, None) \<and> open_log (butlast l)"
  by (cases s) (auto simp: final_log_def completed_log_def failed_log_def cancelled_log_def butlast_append)

end
