(* ===== verification/Interfaces.thy ===== *)
theory Interfaces
  imports RunCore
begin

text \<open>
  The interfaces between the parts of a host, as locales. Both hosts provide an event log
  (an array of a run object; the \<^verbatim>\<open>events\<close> table) and an idempotency store (a
  \<^verbatim>\<open>Map\<close>; the \<^verbatim>\<open>idempotency\<close> table); what the handlers need of them
  is stated and used here once, and each host's theory interprets the locales on its own
  definitions.
\<close>

section \<open>Event logs\<close>

text \<open>Reading a log from a resume point, and the resume point a reader has afterwards.\<close>

definition events_after :: "num \<Rightarrow> run_event list \<Rightarrow> run_event list" where
  "events_after since evs = filter (\<lambda>e. nat_gt_num (e_seq e) since) evs"

definition last_seq :: "num \<Rightarrow> run_event list \<Rightarrow> num" where
  "last_seq since evs = (if evs = [] then since else num_of_nat (e_seq (last evs)))"

definition numbered :: "run_event list \<Rightarrow> bool" where
  "numbered evs \<longleftrightarrow> map e_seq evs = [0..<length evs]"

lemma numbered_nth: "numbered evs \<Longrightarrow> i < length evs \<Longrightarrow> e_seq (evs ! i) = i"
  by (metis add_0 length_map nth_map nth_upt numbered_def)

lemma numbered_Nil [simp]: "numbered []"
  by (simp add: numbered_def)

lemma numbered_snoc: "numbered evs \<Longrightarrow> e_seq e = length evs \<Longrightarrow> numbered (evs @ [e])"
  by (simp add: numbered_def)

lemma numbered_append: "numbered (evs @ m) \<Longrightarrow> numbered evs"
proof -
  assume "numbered (evs @ m)"
  then have "take (length evs) (map e_seq evs @ map e_seq m) = take (length evs) [0..<length evs + length m]"
    by (simp add: numbered_def)
  then show ?thesis by (simp add: numbered_def)
qed

lemma events_after_start [simp]: "events_after (num_of_int (- 1)) evs = evs"
  by (simp add: events_after_def)

lemma events_after_nat:
  "numbered evs \<Longrightarrow> events_after (num_of_nat n) evs = drop (Suc n) evs"
proof (induction evs rule: rev_induct)
  case (snoc e evs)
  from snoc.prems have "numbered evs" "e_seq e = length evs"
    by (auto simp: numbered_append) (simp add: numbered_def)
  with snoc.IH show ?case by (auto simp: events_after_def)
qed (simp add: events_after_def)

lemma last_numbered: "numbered evs \<Longrightarrow> evs \<noteq> [] \<Longrightarrow> e_seq (last evs) = length evs - 1"
  by (simp add: last_conv_nth numbered_nth)

text \<open>
  A provider of event logs: appending numbers the new event by the length of the log,
  reading gives the events after the resume point, in order.
\<close>

locale event_log =
  fixes log :: "'s \<Rightarrow> run_event list"
    and append :: "'s \<Rightarrow> ev_type \<Rightarrow> string option \<Rightarrow> json option \<Rightarrow> string \<Rightarrow> 's"
    and read_after :: "'s \<Rightarrow> num \<Rightarrow> run_event list"
    and run_name :: string
    and inv :: "'s \<Rightarrow> bool"
    and storable :: "json option \<Rightarrow> bool"
  assumes log_append: "inv s \<Longrightarrow> storable d \<Longrightarrow> log (append s ty nid d t) = log s @
      [\<lparr>e_seq = length (log s), e_runId = run_name, e_type = ty, e_nodeId = nid, e_data = d, e_timestamp = t\<rparr>]"
    and inv_append: "inv s \<Longrightarrow> storable d \<Longrightarrow> inv (append s ty nid d t)"
    and read_after: "inv s \<Longrightarrow> read_after s x = events_after x (log s)"
    and inv_numbered: "inv s \<Longrightarrow> numbered (log s)"
begin

text \<open>A list of appends (of the storable ones), and a reader that polls between them: pages and resume points.\<close>

fun appends :: "'s \<Rightarrow> (ev_type \<times> string option \<times> json option \<times> string) list \<Rightarrow> 's" where
  "appends s [] = s"
| "appends s ((ty, nid, d, t) # as) = (if storable d then appends (append s ty nid d t) as else appends s as)"

lemma appends_inv: "inv s \<Longrightarrow> inv (appends s as)"
  by (induction s as rule: appends.induct) (simp_all add: inv_append)

lemma appends_log: "inv s \<Longrightarrow> \<exists>l. log (appends s as) = log s @ l"
proof (induction s as rule: appends.induct)
  case (2 s ty nid d t as)
  then show ?case by (cases "storable d") (fastforce simp: inv_append log_append)+
qed simp

fun poll_all :: "num \<Rightarrow> 's \<Rightarrow> (ev_type \<times> string option \<times> json option \<times> string) list list \<Rightarrow> run_event list \<times> 's" where
  "poll_all since s [] = ([], s)"
| "poll_all since s (as # rest) =
     (let s1 = appends s as; page = read_after s1 since;
          (more, s2) = poll_all (last_seq since page) s1 rest
      in (page @ more, s2))"

text \<open>The events a reader is missing after having read the first \<open>n\<close>.\<close>

definition resumes_at :: "num \<Rightarrow> nat \<Rightarrow> bool" where
  "resumes_at x n \<longleftrightarrow> (if n = 0 then x = num_of_int (- 1) else x = num_of_nat (n - 1))"

lemma page_after:
  assumes "inv s" and "resumes_at x n" and "n \<le> length (log s)"
  shows "read_after s x = drop n (log s)"
  using assms by (cases n) (auto simp: resumes_at_def read_after events_after_nat inv_numbered)

lemma resumes_next:
  assumes "inv s" and "resumes_at x n" and "n \<le> length (log s)"
  shows "resumes_at (last_seq x (drop n (log s))) (length (log s))"
proof (cases "n = length (log s)")
  case False
  with assms(3) have "n < length (log s)" by simp
  then show ?thesis
    using inv_numbered [OF assms(1)]
    by (auto simp: resumes_at_def last_seq_def last_numbered)
qed (use assms(2) in \<open>simp add: last_seq_def\<close>)

lemma poll_all_log: "inv s \<Longrightarrow> poll_all x s ass = (pages, s') \<Longrightarrow> \<exists>m. log s' = log s @ m"
proof (induction ass arbitrary: x s pages)
  case (Cons as rest)
  from appends_log [OF Cons.prems(1)] obtain l where "log (appends s as) = log s @ l" by blast
  moreover obtain y more where "poll_all y (appends s as) rest = (more, s')"
    using Cons.prems(2) by (auto simp: Let_def split: prod.splits)
  ultimately show ?case using Cons.IH appends_inv [OF Cons.prems(1)] by fastforce
qed simp

lemma poll_all_resumes:
  assumes "inv s" and "resumes_at x n" and "n \<le> length (log s)"
    and "poll_all x s ass = (pages, s')" and "ass \<noteq> []"
  shows "pages = drop n (log s')"
  using assms
proof (induction ass arbitrary: x s n pages)
  case (Cons as rest)
  let ?s1 = "appends s as"
  have i1: "inv ?s1" using Cons.prems(1) by (rule appends_inv)
  obtain l where l: "log ?s1 = log s @ l" using appends_log [OF Cons.prems(1)] by blast
  with Cons.prems(3) have n: "n \<le> length (log ?s1)" by simp
  note page = page_after [OF i1 Cons.prems(2) n]
  from Cons.prems(4) page obtain more
    where p: "poll_all (last_seq x (drop n (log ?s1))) ?s1 rest = (more, s')"
      and r: "pages = drop n (log ?s1) @ more"
    by (auto simp: Let_def split: prod.splits)
  show ?case
  proof (cases "rest = []")
    case True
    with p r show ?thesis by simp
  next
    case False
    have "more = drop (length (log ?s1)) (log s')"
      by (rule Cons.IH [OF i1 resumes_next [OF i1 Cons.prems(2) n] _ p False]) simp
    moreover obtain m where "log s' = log ?s1 @ m"
      using poll_all_log [OF i1 p] by blast
    ultimately show ?thesis using r n by simp
  qed
qed simp

text \<open>Polling from the start loses nothing and repeats nothing, whatever is appended meanwhile.\<close>

lemma poll_all_complete:
  assumes "inv s" and "ass \<noteq> []" and "poll_all (num_of_int (- 1)) s ass = (pages, s')"
  shows "pages = log s'"
  using poll_all_resumes [OF assms(1) _ _ assms(3,2), of 0] by (simp add: resumes_at_def)

end

section \<open>Idempotency stores\<close>

text \<open>What a create request with an \<^verbatim>\<open>Idempotency-Key\<close> meets.\<close>

datatype 'e idem_decision = Fresh | Replay 'e | Conflict

locale idem_store =
  fixes lookup :: "'s \<Rightarrow> string \<Rightarrow> 'e option"
    and put :: "string \<Rightarrow> 'e \<Rightarrow> 's \<Rightarrow> 's"
    and prune :: "int \<Rightarrow> 's \<Rightarrow> 's"
    and stored_at :: "'e \<Rightarrow> int"
    and body_hash :: "'e \<Rightarrow> string"
    and inv :: "'s \<Rightarrow> bool"
  assumes lookup_put: "lookup s k = None \<Longrightarrow> lookup (put k e s) k' = (if k' = k then Some e else lookup s k')"
    and inv_put: "inv s \<Longrightarrow> inv (put k e s)"
    and lookup_prune: "inv s \<Longrightarrow> lookup (prune now s) k =
      (case lookup s k of None \<Rightarrow> None | Some e \<Rightarrow> if stored_at e < now - IDEMPOTENCY_TTL_MS then None else Some e)"
    and inv_prune: "inv s \<Longrightarrow> inv (prune now s)"
begin

definition decide :: "int \<Rightarrow> string \<Rightarrow> string \<Rightarrow> 's \<Rightarrow> 'e idem_decision" where
  "decide now k hash s =
     (case lookup (prune now s) k of
        None \<Rightarrow> Fresh
      | Some e \<Rightarrow> if body_hash e \<noteq> hash then Conflict else Replay e)"

text \<open>How the store evolves while the clock stays below \<open>T\<close>: prunes, and inserts of absent keys.\<close>

inductive evolves :: "int \<Rightarrow> 's \<Rightarrow> 's \<Rightarrow> bool" for T where
  evolves_refl: "evolves T s s"
| evolves_prune: "evolves T s s1 \<Longrightarrow> now \<le> T \<Longrightarrow> evolves T s (prune now s1)"
| evolves_put: "evolves T s s1 \<Longrightarrow> lookup s1 k = None \<Longrightarrow> evolves T s (put k e s1)"

lemma evolves_trans: "evolves T s1 s2 \<Longrightarrow> evolves T s2 s3 \<Longrightarrow> evolves T s1 s3"
  by (rotate_tac 1, induction rule: evolves.induct) (auto intro: evolves.intros)

lemma evolves_inv: "evolves T s s' \<Longrightarrow> inv s \<Longrightarrow> inv s'"
  by (induction rule: evolves.induct) (auto intro: inv_put inv_prune)

lemma evolves_keeps:
  assumes "evolves T s s'" and "lookup s k = Some e" and "T \<le> stored_at e + IDEMPOTENCY_TTL_MS" and "inv s"
  shows "lookup s' k = Some e"
  using assms
proof (induction rule: evolves.induct)
  case (evolves_prune s s1 now)
  with evolves_inv [OF evolves_prune.hyps(1)] show ?case by (simp add: lookup_prune)
qed (auto simp: lookup_put)

text \<open>Within its lifetime an entry is replayed to the same body and refused to any other.\<close>

lemma decide_kept:
  assumes "evolves T s s'" and "lookup s k = Some e" and "T \<le> stored_at e + IDEMPOTENCY_TTL_MS" and "now \<le> T"
    and "inv s"
  shows "decide now k hash s' = (if body_hash e = hash then Replay e else Conflict)"
  using evolves_keeps [OF assms(1-3,5)] assms(3,4) evolves_inv [OF assms(1,5)] by (simp add: decide_def lookup_prune)

text \<open>A key is fresh again exactly when its entry has expired.\<close>

lemma decide_fresh_iff:
  "inv s \<Longrightarrow> decide now k hash s = Fresh \<longleftrightarrow>
     (\<forall>e. lookup s k = Some e \<longrightarrow> stored_at e + IDEMPOTENCY_TTL_MS < now)"
  by (auto simp: decide_def lookup_prune split: option.split)

end

section \<open>Transition systems with runs\<close>

text \<open>The finite executions of a step relation.\<close>

inductive trace :: "('h \<Rightarrow> 'a \<Rightarrow> 'h \<Rightarrow> bool) \<Rightarrow> 'h \<Rightarrow> 'a list \<Rightarrow> 'h \<Rightarrow> bool" for step where
  trace_nil: "trace step h [] h"
| trace_cons: "step h a h1 \<Longrightarrow> trace step h1 as h2 \<Longrightarrow> trace step h (a # as) h2"

inductive_cases trace_NilE [elim!]: "trace step h [] h'"
inductive_cases trace_ConsE [elim!]: "trace step h (a # as) h'"

inductive_simps trace_Cons_iff: "trace step h (a # as) h'"

lemma trace_append:
  "trace step h as h1 \<Longrightarrow> trace step h1 bs h2 \<Longrightarrow> trace step h (as @ bs) h2"
  by (induction rule: trace.induct) (auto intro: trace.intros)

lemma trace_single: "step h a h' \<Longrightarrow> trace step h [a] h'"
  by (rule trace_cons [OF _ trace_nil])

text \<open>
  A host: its steps keep an invariant, never lose a run, and let each run evolve only
  along a reflexive and transitive relation.
\<close>

locale run_system =
  fixes step :: "'h \<Rightarrow> 'a \<Rightarrow> 'h \<Rightarrow> bool"
    and ok :: "'h \<Rightarrow> bool"
    and run_of :: "'h \<Rightarrow> string \<Rightarrow> 'r option"
    and evolves_to :: "'r \<Rightarrow> 'r \<Rightarrow> bool"
  assumes evolves_to_refl: "evolves_to r r"
    and evolves_to_trans: "evolves_to r1 r2 \<Longrightarrow> evolves_to r2 r3 \<Longrightarrow> evolves_to r1 r3"
    and step_ok: "step h a h' \<Longrightarrow> ok h \<Longrightarrow> ok h'"
    and step_run: "step h a h' \<Longrightarrow> ok h \<Longrightarrow> run_of h rid = Some r \<Longrightarrow>
      \<exists>r'. run_of h' rid = Some r' \<and> evolves_to r r'"
begin

lemma trace_ok: "trace step h as h' \<Longrightarrow> ok h \<Longrightarrow> ok h'"
  by (induction rule: trace.induct) (auto intro: step_ok)

lemma trace_run:
  assumes "trace step h as h'" and "ok h" and "run_of h rid = Some r"
  shows "\<exists>r'. run_of h' rid = Some r' \<and> evolves_to r r'"
  using assms
proof (induction arbitrary: r rule: trace.induct)
  case (trace_cons h a h1 as h2)
  then obtain r1 where "run_of h1 rid = Some r1" "evolves_to r r1"
    using step_run by blast
  with trace_cons.IH step_ok [OF trace_cons.hyps(1) trace_cons.prems(1)] show ?case
    using evolves_to_trans by blast
qed (auto intro: evolves_to_refl)

text \<open>A property of runs that every evolution keeps, holds from its first time on.\<close>

lemma trace_stable:
  assumes "trace step h as h'" and "ok h" and "run_of h rid = Some r" and "P r"
    and "\<And>r r'. evolves_to r r' \<Longrightarrow> P r \<Longrightarrow> P r'" and "run_of h' rid = Some r'"
  shows "P r'"
  using trace_run [OF assms(1-3)] assms(4-6) by fastforce

end

end
