(* ===== verification/SqlDb.thy ===== *)
theory SqlDb
  imports Interfaces
begin

text \<open>
  The database of the SQLite host (\<^verbatim>\<open>examples/hosts/sqlite/src/server.ts\<close>): its
  three tables with their keys, and every prepared statement as a function. A table is the
  list of its rows in insertion order. A write that violates a key returns the error of the
  engine; an update returns the new table and, where the code reads it, the number of rows
  it changed. Text columns that hold JSON hold the text.
\<close>

named_theorems sql_simps \<open>what the statements do to the tables\<close>

section \<open>Tables\<close>

record run_row =
  q_run_id :: string
  q_workflow_id :: string
  q_status :: run_status
  q_inputs_json :: string
  q_started_at :: string
  q_ended_at :: "string option"
  q_error_json :: "string option"
  q_claim_holder :: "string option"
  q_claim_expires :: "int option"

record event_row =
  v_run_id :: string
  v_seq :: nat
  v_type :: ev_type
  v_node_id :: "string option"
  v_data_json :: "string option"
  v_timestamp :: string

record idem_cols =
  d_status :: nat
  d_body :: string
  d_body_hash :: string
  d_stored_at :: int

text \<open>The \<^verbatim>\<open>idempotency\<close> table by its primary key.\<close>

record sql_db =
  t_runs :: "run_row list"
  t_events :: "event_row list"
  t_idem :: "(string \<times> idem_cols) list"

definition empty_db :: sql_db where
  "empty_db = \<lparr>t_runs = [], t_events = [], t_idem = []\<rparr>"

section \<open>Statements on runs\<close>

definition find_run :: "string \<Rightarrow> run_row list \<Rightarrow> run_row option" where
  "find_run rid rs = List.find (\<lambda>r. q_run_id r = rid) rs"

text \<open>\<^verbatim>\<open>UPDATE runs SET ... WHERE run_id = ?\<close>.\<close>

definition update_run :: "string \<Rightarrow> (run_row \<Rightarrow> run_row) \<Rightarrow> sql_db \<Rightarrow> sql_db" where
  "update_run rid f db = db\<lparr>t_runs := map (\<lambda>r. if q_run_id r = rid then f r else r) (t_runs db)\<rparr>"

definition insertRun :: "string \<Rightarrow> string \<Rightarrow> run_status \<Rightarrow> string \<Rightarrow> string \<Rightarrow> sql_db \<Rightarrow> string + sql_db" where
  "insertRun rid wid st inputs_json started_at db =
     (if find_run rid (t_runs db) \<noteq> None then Inl ''UNIQUE constraint failed: runs.run_id''
      else Inr (db\<lparr>t_runs := t_runs db @ [\<lparr>q_run_id = rid, q_workflow_id = wid, q_status = st,
             q_inputs_json = inputs_json, q_started_at = started_at, q_ended_at = None, q_error_json = None,
             q_claim_holder = None, q_claim_expires = None\<rparr>]\<rparr>))"

definition getRun :: "string \<Rightarrow> sql_db \<Rightarrow> run_row option" where
  "getRun rid db = find_run rid (t_runs db)"

definition updateRunStatus :: "run_status \<Rightarrow> string option \<Rightarrow> string option \<Rightarrow> string \<Rightarrow> sql_db \<Rightarrow> sql_db" where
  "updateRunStatus st ended err rid =
     update_run rid (\<lambda>r. r\<lparr>q_status := st, q_ended_at := ended, q_error_json := err\<rparr>)"

definition setCancelRequested :: "string \<Rightarrow> sql_db \<Rightarrow> sql_db" where
  "setCancelRequested rid =
     update_run rid (\<lambda>r. r\<lparr>q_status := (if is_terminal (q_status r) then q_status r else Cancelling)\<rparr>)"

text \<open>
  \<^verbatim>\<open>claim_holder_id IS NULL OR claim_expires_at < ?\<close>; a comparison with NULL is not true.
\<close>

definition claim_free :: "int \<Rightarrow> run_row \<Rightarrow> bool" where
  "claim_free now r \<longleftrightarrow>
     q_claim_holder r = None \<or> (case q_claim_expires r of None \<Rightarrow> False | Some e \<Rightarrow> e < now)"

definition claimable :: "int \<Rightarrow> run_row \<Rightarrow> bool" where
  "claimable now r \<longleftrightarrow> claim_free now r \<and> \<not> is_terminal (q_status r)"

definition acquireClaim :: "string \<Rightarrow> int \<Rightarrow> string \<Rightarrow> int \<Rightarrow> sql_db \<Rightarrow> sql_db \<times> nat" where
  "acquireClaim holder expires rid now db =
     (update_run rid (\<lambda>r. if claimable now r then r\<lparr>q_claim_holder := Some holder, q_claim_expires := Some expires\<rparr> else r) db,
      length (filter (\<lambda>r. q_run_id r = rid \<and> claimable now r) (t_runs db)))"

definition releaseClaim :: "string \<Rightarrow> string \<Rightarrow> sql_db \<Rightarrow> sql_db" where
  "releaseClaim rid holder =
     update_run rid (\<lambda>r. if q_claim_holder r = Some holder then r\<lparr>q_claim_holder := None, q_claim_expires := None\<rparr> else r)"

definition renewClaimStmt :: "int \<Rightarrow> string \<Rightarrow> string \<Rightarrow> sql_db \<Rightarrow> sql_db" where
  "renewClaimStmt expires rid holder =
     update_run rid (\<lambda>r. if q_claim_holder r = Some holder then r\<lparr>q_claim_expires := Some expires\<rparr> else r)"

definition findOrphansStmt :: "int \<Rightarrow> sql_db \<Rightarrow> string list" where
  "findOrphansStmt now db =
     map q_run_id (filter (\<lambda>r. (q_status r = Pending \<or> q_status r = Running \<or> q_status r = Cancelling) \<and>
                             claim_free now r) (t_runs db))"

text \<open>The statement of \<^verbatim>\<open>shutdown\<close>: it leaves \<^verbatim>\<open>claim_expires_at\<close> as it is.\<close>

definition releaseAllClaims :: "string \<Rightarrow> sql_db \<Rightarrow> sql_db" where
  "releaseAllClaims holder db = db\<lparr>t_runs := map (\<lambda>r. if q_claim_holder r = Some holder
     then r\<lparr>q_claim_holder := None\<rparr> else r) (t_runs db)\<rparr>"

section \<open>Statements on events\<close>

definition rows_of :: "string \<Rightarrow> sql_db \<Rightarrow> event_row list" where
  "rows_of rid db = filter (\<lambda>v. v_run_id v = rid) (t_events db)"

definition insertEvent :: "event_row \<Rightarrow> sql_db \<Rightarrow> string + sql_db" where
  "insertEvent v db =
     (if find_run (v_run_id v) (t_runs db) = None then Inl ''FOREIGN KEY constraint failed''
      else if list_ex (\<lambda>u. v_seq u = v_seq v) (rows_of (v_run_id v) db)
      then Inl ''UNIQUE constraint failed: events.run_id, events.seq''
      else Inr (db\<lparr>t_events := t_events db @ [v]\<rparr>))"

definition getEventsAfter :: "string \<Rightarrow> num \<Rightarrow> sql_db \<Rightarrow> event_row list" where
  "getEventsAfter rid x db = sort_key v_seq (filter (\<lambda>v. nat_gt_num (v_seq v) x) (rows_of rid db))"

definition countEvents :: "string \<Rightarrow> sql_db \<Rightarrow> nat" where
  "countEvents rid db = length (rows_of rid db)"

section \<open>Statements on idempotency entries\<close>

definition getIdempotency :: "string \<Rightarrow> (string \<times> idem_cols) list \<Rightarrow> idem_cols option" where
  "getIdempotency k rows = map_of rows k"

definition insertIdempotency :: "string \<Rightarrow> idem_cols \<Rightarrow> (string \<times> idem_cols) list \<Rightarrow> string + (string \<times> idem_cols) list" where
  "insertIdempotency k e rows =
     (if map_of rows k \<noteq> None then Inl ''UNIQUE constraint failed: idempotency.cache_key''
      else Inr (rows @ [(k, e)]))"

definition pruneIdempotency :: "int \<Rightarrow> (string \<times> idem_cols) list \<Rightarrow> (string \<times> idem_cols) list" where
  "pruneIdempotency now rows = filter (\<lambda>p. \<not> d_stored_at (snd p) < now - IDEMPOTENCY_TTL_MS) rows"

section \<open>Laws\<close>

lemma find_run_map:
  "(\<And>r. q_run_id (f r) = q_run_id r) \<Longrightarrow> find_run rid (map f rs) = map_option f (find_run rid rs)"
  by (induction rs) (simp_all add: find_run_def)

lemma find_run_id: "find_run rid rs = Some r \<Longrightarrow> q_run_id r = rid"
  by (auto simp: find_run_def find_Some_iff)

lemma getRun_id: "getRun rid db = Some r \<Longrightarrow> q_run_id r = rid"
  by (simp add: getRun_def find_run_id)

lemma getRun_update_run:
  assumes "\<And>r. q_run_id (f r) = q_run_id r"
  shows "getRun rid' (update_run rid f db) = (if rid' = rid then map_option f (getRun rid db) else getRun rid' db)"
proof -
  have "getRun rid' (update_run rid f db) = map_option (\<lambda>r. if q_run_id r = rid then f r else r) (getRun rid' db)"
    unfolding getRun_def update_run_def using find_run_map [of "\<lambda>r. if q_run_id r = rid then f r else r"] assms by simp
  then show ?thesis
    using getRun_id [of rid' db] by (cases "getRun rid' db") auto
qed

lemma getRun_statements [sql_simps]:
  "getRun rid' (updateRunStatus st en er rid db) =
     (if rid' = rid then map_option (\<lambda>r. r\<lparr>q_status := st, q_ended_at := en, q_error_json := er\<rparr>) (getRun rid db) else getRun rid' db)"
  "getRun rid' (setCancelRequested rid db) =
     (if rid' = rid then map_option (\<lambda>r. r\<lparr>q_status := (if is_terminal (q_status r) then q_status r else Cancelling)\<rparr>) (getRun rid db)
      else getRun rid' db)"
  "getRun rid' (fst (acquireClaim h ex rid now db)) =
     (if rid' = rid then map_option (\<lambda>r. if claimable now r then r\<lparr>q_claim_holder := Some h, q_claim_expires := Some ex\<rparr> else r) (getRun rid db)
      else getRun rid' db)"
  "getRun rid' (releaseClaim rid h db) =
     (if rid' = rid then map_option (\<lambda>r. if q_claim_holder r = Some h then r\<lparr>q_claim_holder := None, q_claim_expires := None\<rparr> else r) (getRun rid db)
      else getRun rid' db)"
  "getRun rid' (renewClaimStmt ex rid h db) =
     (if rid' = rid then map_option (\<lambda>r. if q_claim_holder r = Some h then r\<lparr>q_claim_expires := Some ex\<rparr> else r) (getRun rid db)
      else getRun rid' db)"
  by (simp_all add: updateRunStatus_def setCancelRequested_def acquireClaim_def releaseClaim_def
      renewClaimStmt_def getRun_update_run)

lemma getRun_releaseAll [sql_simps]:
  "getRun rid (releaseAllClaims h db) =
     map_option (\<lambda>r. if q_claim_holder r = Some h then r\<lparr>q_claim_holder := None\<rparr> else r) (getRun rid db)"
  by (simp add: releaseAllClaims_def getRun_def find_run_map)

lemma tables_update_run [sql_simps]:
  "t_events (update_run rid f db) = t_events db" "t_idem (update_run rid f db) = t_idem db"
  by (simp_all add: update_run_def)

lemma tables_statements [sql_simps]:
  "t_events (updateRunStatus st en er rid db) = t_events db" "t_idem (updateRunStatus st en er rid db) = t_idem db"
  "t_events (setCancelRequested rid db) = t_events db" "t_idem (setCancelRequested rid db) = t_idem db"
  "t_events (fst (acquireClaim h ex rid now db)) = t_events db" "t_idem (fst (acquireClaim h ex rid now db)) = t_idem db"
  "t_events (releaseClaim rid h db) = t_events db" "t_idem (releaseClaim rid h db) = t_idem db"
  "t_events (renewClaimStmt ex rid h db) = t_events db" "t_idem (renewClaimStmt ex rid h db) = t_idem db"
  "t_events (releaseAllClaims h db) = t_events db" "t_idem (releaseAllClaims h db) = t_idem db"
  by (simp_all add: updateRunStatus_def setCancelRequested_def acquireClaim_def releaseClaim_def
      renewClaimStmt_def releaseAllClaims_def sql_simps)

lemma ids_statements [sql_simps]:
  "map q_run_id (t_runs (updateRunStatus st en er rid db)) = map q_run_id (t_runs db)"
  "map q_run_id (t_runs (setCancelRequested rid db)) = map q_run_id (t_runs db)"
  "map q_run_id (t_runs (fst (acquireClaim h ex rid now db))) = map q_run_id (t_runs db)"
  "map q_run_id (t_runs (releaseClaim rid h db)) = map q_run_id (t_runs db)"
  "map q_run_id (t_runs (renewClaimStmt ex rid h db)) = map q_run_id (t_runs db)"
  by (simp_all add: updateRunStatus_def setCancelRequested_def acquireClaim_def releaseClaim_def
      renewClaimStmt_def update_run_def)

lemma getRun_ids: "getRun rid db \<noteq> None \<longleftrightarrow> rid \<in> set (map q_run_id (t_runs db))"
  by (auto simp: getRun_def find_run_def find_None_iff)

lemma rows_of_events: "t_events db' = t_events db \<Longrightarrow> rows_of rid db' = rows_of rid db"
  by (simp add: rows_of_def)

text \<open>The rows the claim statement can change: with the primary key, at most one.\<close>

definition keys_ok :: "sql_db \<Rightarrow> bool" where
  "keys_ok db \<longleftrightarrow>
     distinct (map q_run_id (t_runs db)) \<and>
     (\<forall>rid. map v_seq (rows_of rid db) = [0..<length (rows_of rid db)]) \<and>
     (\<forall>v \<in> set (t_events db). getRun (v_run_id v) db \<noteq> None) \<and>
     distinct (map fst (t_idem db))"

lemma filter_run_id: "distinct (map q_run_id rs) \<Longrightarrow>
    filter (\<lambda>r. q_run_id r = rid \<and> P r) rs = (case find_run rid rs of None \<Rightarrow> [] | Some r \<Rightarrow> if P r then [r] else [])"
proof (induction rs)
  case (Cons r rs)
  have "filter (\<lambda>r. q_run_id r = rid \<and> P r) rs = []" if "q_run_id r = rid"
    using Cons.prems that by (fastforce simp: filter_empty_conv image_iff)
  with Cons show ?case by (auto simp: find_run_def)
qed (simp add: find_run_def)

lemma acquireClaim_changes:
  "keys_ok db \<Longrightarrow> snd (acquireClaim h ex rid now db) =
     (case getRun rid db of None \<Rightarrow> 0 | Some r \<Rightarrow> if claimable now r then 1 else 0)"
  by (auto simp: acquireClaim_def keys_ok_def filter_run_id getRun_def split: option.split)

lemma find_run_in: "distinct (map q_run_id rs) \<Longrightarrow> find_run rid rs = Some r \<longleftrightarrow> r \<in> set rs \<and> q_run_id r = rid"
  by (induction rs) (force simp: find_run_def)+

lemma findOrphans_iff:
  "keys_ok db \<Longrightarrow> rid \<in> set (findOrphansStmt now db) \<longleftrightarrow>
     (\<exists>r. getRun rid db = Some r \<and> (q_status r = Pending \<or> q_status r = Running \<or> q_status r = Cancelling) \<and>
          claim_free now r)"
  by (auto simp: findOrphansStmt_def keys_ok_def getRun_def find_run_in)

lemma distinct_findOrphans: "keys_ok db \<Longrightarrow> distinct (findOrphansStmt now db)"
  by (simp add: keys_ok_def findOrphansStmt_def distinct_map_filter)

text \<open>Numbered rows: the statements on events read and extend a list.\<close>

lemma insertEvent_next:
  assumes "keys_ok db" and "getRun rid db \<noteq> None" and "v_run_id v = rid" and "v_seq v = countEvents rid db"
  shows "insertEvent v db = Inr (db\<lparr>t_events := t_events db @ [v]\<rparr>)"
proof -
  have "v_seq u < length (rows_of rid db)" if "u \<in> set (rows_of rid db)" for u
  proof -
    have "v_seq u \<in> set (map v_seq (rows_of rid db))" using that by simp
    also have "\<dots> = {0..<length (rows_of rid db)}"
      using assms(1) by (metis keys_ok_def set_upt)
    finally show ?thesis by simp
  qed
  then show ?thesis
    using assms(2-4) by (fastforce simp: insertEvent_def countEvents_def getRun_def list_ex_iff)
qed

lemma getEventsAfter_filter:
  assumes "keys_ok db"
  shows "getEventsAfter rid x db = filter (\<lambda>v. nat_gt_num (v_seq v) x) (rows_of rid db)"
proof -
  have "sorted (map v_seq (rows_of rid db))"
    using assms by (metis keys_ok_def sorted_upt)
  then have "sorted (map v_seq (filter (\<lambda>v. nat_gt_num (v_seq v) x) (rows_of rid db)))"
    by (rule sorted_filter)
  then show ?thesis unfolding getEventsAfter_def by (rule sort_key_id_if_sorted)
qed

end
