(* ===== verification/MemHost.thy ===== *)
theory MemHost
  imports Interfaces
begin

text \<open>
  The executor of the in-memory host (\<^verbatim>\<open>examples/hosts/in-memory/src/server.ts\<close>).

  A run is the object the code keeps in \<^verbatim>\<open>runs\<close>, together with what the
  JavaScript runtime keeps for it: \<open>pc\<close>, where its \<^verbatim>\<open>runWorkflow\<close> is suspended
  at an \<^verbatim>\<open>await\<close>, and \<open>subs\<close>, the SSE responses subscribed to the channel
  \<^verbatim>\<open>events:<runId>\<close> of the event bus. JavaScript runs the code between two
  \<^verbatim>\<open>await\<close>s without interruption, so each such segment is one function here; the
  segments of different runs and the HTTP handlers interleave (theory \<open>MemSafety\<close>). The
  clock is read once per segment.
\<close>

section \<open>State\<close>

datatype node_outcome = NCompleted | NCancelled | NFailed

text \<open>
  \<open>Sleeping\<close>: the timer of node \<open>i\<close> is running (for the given number of ms);
  \<open>Woken\<close> / \<open>Aborted\<close>: its promise is resolved / rejected and \<^verbatim>\<open>executeNode\<close>
  is about to go on; \<open>Outcome\<close>: \<^verbatim>\<open>executeNode\<close> has returned and
  \<^verbatim>\<open>runWorkflow\<close> is about to go on; \<open>Halted\<close>: \<^verbatim>\<open>runWorkflow\<close> has
  returned, or was not called yet.
\<close>

datatype pc =
  Sleeping nat num | Woken nat | Aborted nat | Outcome nat node_outcome | Halted

text \<open>An SSE response: the resume point its handler computed, the events written, whether
  \<^verbatim>\<open>res.end()\<close> was called and whether its listener is registered.\<close>

record sub =
  s_after :: num
  s_out :: "run_event list"
  s_ended :: bool
  s_listening :: bool

record run =
  r_runId :: string
  r_workflowId :: string
  r_status :: run_status
  r_inputs :: json
  r_events :: "run_event list"
  r_startedAt :: string
  r_endedAt :: "string option"
  r_error :: "run_error option"
  r_cancelRequested :: bool
  r_aborted :: bool
  r_pc :: pc
  r_subs :: "sub list"

section \<open>Events\<close>

text \<open>The listener of an SSE response.\<close>

definition onEvent :: "run_event \<Rightarrow> sub \<Rightarrow> sub" where
  "onEvent e s =
     (if s_listening s then
        (let s' = s\<lparr>s_out := s_out s @ [e]\<rparr>
         in if ends_stream (e_type e) then s'\<lparr>s_listening := False, s_ended := True\<rparr> else s')
      else s)"

definition appendEvent :: "run \<Rightarrow> ev_type \<Rightarrow> string option \<Rightarrow> json option \<Rightarrow> string \<Rightarrow> run" where
  "appendEvent r ty nid dat t =
     (let e = \<lparr>e_seq = length (r_events r), e_runId = r_runId r, e_type = ty, e_nodeId = nid,
               e_data = dat, e_timestamp = t\<rparr>
      in r\<lparr>r_events := r_events r @ [e], r_subs := map (onEvent e) (r_subs r)\<rparr>)"

section \<open>Executing a node\<close>

text \<open>\<^verbatim>\<open>sleep(ms, signal)\<close>: rejects at once when the signal is already aborted.\<close>

definition sleep :: "nat \<Rightarrow> num \<Rightarrow> bool \<Rightarrow> pc" where
  "sleep i ms signal_aborted = (if signal_aborted then Aborted i else Sleeping i ms)"

definition unsupported_message :: "string \<Rightarrow> string" where
  "unsupported_message ty = ''In-memory host does not implement node type '' @ [CHR 0x22] @ ty @ [CHR 0x22] @
     ''. This host supports core.noop and core.delay only.''"

text \<open>\<^verbatim>\<open>executeNode\<close> up to its first \<^verbatim>\<open>await\<close> or its return.\<close>

definition executeNode :: "run \<Rightarrow> node \<Rightarrow> nat \<Rightarrow> string \<Rightarrow> run" where
  "executeNode r n i t =
     (if r_cancelRequested r then
        (appendEvent r NodeCancelled (Some (n_id n)) None t)\<lparr>r_pc := Outcome i NCancelled\<rparr>
      else
        (let r1 = appendEvent r NodeStarted (Some (n_id n)) None t in
         if n_typeId n = ''core.noop'' then
           (appendEvent r1 NodeCompleted (Some (n_id n)) None t)\<lparr>r_pc := Outcome i NCompleted\<rparr>
         else if n_typeId n = ''core.delay'' then
           (let delayMs = resolveInputAsNumber (map_of (n_inputs n) ''delayMs'') (r_inputs r1) (num_of_int 100)
            in r1\<lparr>r_pc := sleep i delayMs (r_aborted r1)\<rparr>)
         else
           (let r2 = r1\<lparr>r_error := Some \<lparr>err_code = ''unsupported_node_type'',
                                        err_message = unsupported_message (n_typeId n)\<rparr>\<rparr>
            in (appendEvent r2 NodeFailed (Some (n_id n))
                  (Some (JObj [(''code'', JStr ''unsupported_node_type''), (''typeId'', JStr (n_typeId n))])) t)
                 \<lparr>r_pc := Outcome i NFailed\<rparr>)))"

text \<open>\<^verbatim>\<open>executeNode\<close> after the \<^verbatim>\<open>await\<close> of the delay: the timer fired, or
  the \<^verbatim>\<open>catch\<close> of an abort.\<close>

definition executeNode_woken :: "run \<Rightarrow> node \<Rightarrow> nat \<Rightarrow> string \<Rightarrow> run" where
  "executeNode_woken r n i t =
     (appendEvent r NodeCompleted (Some (n_id n)) None t)\<lparr>r_pc := Outcome i NCompleted\<rparr>"

definition executeNode_aborted :: "run \<Rightarrow> node \<Rightarrow> nat \<Rightarrow> string \<Rightarrow> run" where
  "executeNode_aborted r n i t =
     (appendEvent r NodeCancelled (Some (n_id n)) None t)\<lparr>r_pc := Outcome i NCancelled\<rparr>"

section \<open>Executing a workflow\<close>

text \<open>The tail every return of \<^verbatim>\<open>runWorkflow\<close> shares: status, event, end time.\<close>

definition finish :: "run \<Rightarrow> run_status \<Rightarrow> ev_type \<Rightarrow> json option \<Rightarrow> string \<Rightarrow> run" where
  "finish r st ty dat t =
     (appendEvent (r\<lparr>r_status := st\<rparr>) ty None dat t)\<lparr>r_endedAt := Some t, r_pc := Halted\<rparr>"

text \<open>The \<^verbatim>\<open>for\<close> loop of \<^verbatim>\<open>runWorkflow\<close> from the top of iteration \<open>i\<close>,
  and what follows the loop when there is no node \<open>i\<close>.\<close>

definition workflow_loop :: "run \<Rightarrow> workflow \<Rightarrow> nat \<Rightarrow> string \<Rightarrow> run" where
  "workflow_loop r w i t =
     (if i < length (wf_nodes w) then
        (if r_cancelRequested r then finish r Cancelled RunCancelled None t
         else executeNode r (wf_nodes w ! i) i t)
      else if r_cancelRequested r then finish r Cancelled RunCancelled None t
      else finish r Completed RunCompleted None t)"

text \<open>\<^verbatim>\<open>runWorkflow\<close> up to its first \<^verbatim>\<open>await\<close> or its return.\<close>

definition runWorkflow :: "(string \<rightharpoonup> workflow) \<Rightarrow> run \<Rightarrow> string \<Rightarrow> run" where
  "runWorkflow ws r t =
     (case ws (r_workflowId r) of
        None \<Rightarrow>
          (let e = \<lparr>err_code = ''workflow_not_found'',
                    err_message = ''Unknown workflowId: '' @ r_workflowId r\<rparr>
           in finish (r\<lparr>r_error := Some e\<rparr>) Failed RunFailed (Some (error_json e)) t)
      | Some w \<Rightarrow> workflow_loop (appendEvent (r\<lparr>r_status := Running\<rparr>) RunStarted None None t) w 0 t)"

text \<open>\<^verbatim>\<open>runWorkflow\<close> after the \<^verbatim>\<open>await executeNode(...)\<close> of node \<open>i\<close>.\<close>

definition runWorkflow_outcome :: "run \<Rightarrow> workflow \<Rightarrow> nat \<Rightarrow> node_outcome \<Rightarrow> string \<Rightarrow> run" where
  "runWorkflow_outcome r w i oc t =
     (case oc of
        NFailed \<Rightarrow> finish r Failed RunFailed (Some (error_or_null (r_error r))) t
      | NCancelled \<Rightarrow> finish r Cancelled RunCancelled None t
      | NCompleted \<Rightarrow> workflow_loop r w (Suc i) t)"

text \<open>
  The next segment of a run's executor. A run that sleeps or has halted has none: a
  sleeping run waits for \<open>timer_fires\<close> or for the abort.
\<close>

definition exec_segment :: "run \<Rightarrow> workflow \<Rightarrow> string \<Rightarrow> run option" where
  "exec_segment r w t =
     (case r_pc r of
        Woken i \<Rightarrow> Some (executeNode_woken r (wf_nodes w ! i) i t)
      | Aborted i \<Rightarrow> Some (executeNode_aborted r (wf_nodes w ! i) i t)
      | Outcome i oc \<Rightarrow> Some (runWorkflow_outcome r w i oc t)
      | _ \<Rightarrow> None)"

definition timer_fires :: "run \<Rightarrow> run option" where
  "timer_fires r = (case r_pc r of Sleeping i ms \<Rightarrow> Some (r\<lparr>r_pc := Woken i\<rparr>) | _ \<Rightarrow> None)"

text \<open>\<^verbatim>\<open>run.cancelRequested = true; run.abortController.abort()\<close>: the abort listener of a
  running \<^verbatim>\<open>sleep\<close> clears the timer and rejects its promise.\<close>

definition request_cancel :: "run \<Rightarrow> run" where
  "request_cancel r =
     r\<lparr>r_cancelRequested := True, r_aborted := True,
       r_pc := (case r_pc r of Sleeping i ms \<Rightarrow> Aborted i | p \<Rightarrow> p)\<rparr>"

end
