(* ===== verification/MemExec.thy ===== *)
theory MemExec
  imports MemHost
begin

text \<open>
  The executor of the in-memory host against the specification of the event log: the
  invariant \<open>run_ok\<close> of a run between two segments, its preservation by every segment,
  and the termination measure of a run.
\<close>

named_theorems run_simps \<open>what the executor's primitives do to the fields of a run\<close>

section \<open>Field lemmas\<close>

definition shapes :: "run \<Rightarrow> shape list" where
  "shapes r = map ev_shape (r_events r)"

lemma appendEvent_fields [run_simps]:
  "r_runId (appendEvent r ty nid d t) = r_runId r"
  "r_workflowId (appendEvent r ty nid d t) = r_workflowId r"
  "r_status (appendEvent r ty nid d t) = r_status r"
  "r_inputs (appendEvent r ty nid d t) = r_inputs r"
  "r_startedAt (appendEvent r ty nid d t) = r_startedAt r"
  "r_endedAt (appendEvent r ty nid d t) = r_endedAt r"
  "r_error (appendEvent r ty nid d t) = r_error r"
  "r_cancelRequested (appendEvent r ty nid d t) = r_cancelRequested r"
  "r_aborted (appendEvent r ty nid d t) = r_aborted r"
  "r_pc (appendEvent r ty nid d t) = r_pc r"
  "shapes (appendEvent r ty nid d t) = shapes r @ [(ty, nid)]"
  by (simp_all add: appendEvent_def Let_def shapes_def ev_shape_def)

lemma shapes_update [run_simps]:
  "shapes (r\<lparr>r_status := s\<rparr>) = shapes r" "shapes (r\<lparr>r_pc := p\<rparr>) = shapes r"
  "shapes (r\<lparr>r_endedAt := x\<rparr>) = shapes r" "shapes (r\<lparr>r_error := e\<rparr>) = shapes r"
  "shapes (r\<lparr>r_cancelRequested := b\<rparr>) = shapes r" "shapes (r\<lparr>r_aborted := a\<rparr>) = shapes r"
  "shapes (r\<lparr>r_subs := ss\<rparr>) = shapes r"
  by (simp_all add: shapes_def)

lemma finish_fields [run_simps]:
  "r_runId (finish r st ty d t) = r_runId r"
  "r_workflowId (finish r st ty d t) = r_workflowId r"
  "r_inputs (finish r st ty d t) = r_inputs r"
  "r_startedAt (finish r st ty d t) = r_startedAt r"
  "r_status (finish r st ty d t) = st"
  "r_endedAt (finish r st ty d t) = Some t"
  "r_error (finish r st ty d t) = r_error r"
  "r_cancelRequested (finish r st ty d t) = r_cancelRequested r"
  "r_aborted (finish r st ty d t) = r_aborted r"
  "r_pc (finish r st ty d t) = Halted"
  "shapes (finish r st ty d t) = shapes r @ [(ty, None)]"
  by (simp_all add: finish_def run_simps)

section \<open>Sequence numbers and subscribers\<close>

definition seqs_ok :: "run \<Rightarrow> bool" where
  "seqs_ok r \<longleftrightarrow> (\<forall>i < length (r_events r). e_seq (r_events r ! i) = i \<and> e_runId (r_events r ! i) = r_runId r)"

text \<open>
  What a subscriber has been sent, when the log is \<open>evs\<close>: from some position \<open>k\<close> of the
  log (the length it had at the subscription) the events themselves, before it those
  after the resume point; all of them as long as it is served, a prefix when the client
  has gone. A stream is ended exactly by the run's end.
\<close>

definition sub_sent :: "run_event list \<Rightarrow> sub \<Rightarrow> nat \<Rightarrow> nat \<Rightarrow> bool" where
  "sub_sent evs s k m \<longleftrightarrow>
     s_out s = filter (\<lambda>e. nat_gt_num (e_seq e) (s_after s)) (take k evs) @ take m (drop k evs)"

definition sub_ok :: "run_event list \<Rightarrow> bool \<Rightarrow> sub \<Rightarrow> bool" where
  "sub_ok evs halted s \<longleftrightarrow>
     (\<exists>k m. k \<le> length evs \<and> sub_sent evs s k m \<and> (s_listening s \<or> s_ended s \<longrightarrow> length evs \<le> k + m)) \<and>
     (s_listening s \<longrightarrow> \<not> s_ended s \<and> \<not> halted) \<and> (s_ended s \<longrightarrow> halted)"

lemma onEvent_after [simp]: "s_after (onEvent e s) = s_after s"
  by (simp add: onEvent_def Let_def)

lemma sub_ok_onEvent:
  assumes "sub_ok evs False s"
  shows "sub_ok (evs @ [e]) (ends_stream (e_type e)) (onEvent e s)"
proof -
  from assms obtain k m where k: "k \<le> length evs" "sub_sent evs s k m"
    "s_listening s \<longrightarrow> length evs \<le> k + m" and "\<not> s_ended s"
    by (auto simp: sub_ok_def)
  show ?thesis
  proof (cases "s_listening s")
    case True
    with k have "length evs \<le> k + m" by simp
    then have "sub_sent (evs @ [e]) (onEvent e s) k (Suc (length evs))"
      using k True by (simp add: sub_sent_def onEvent_def Let_def)
    with k True \<open>\<not> s_ended s\<close> show ?thesis
      unfolding sub_ok_def
      by (intro conjI exI [of _ k] exI [of _ "Suc (length evs)"]) (auto simp: onEvent_def Let_def)
  next
    case False
    have "sub_sent (evs @ [e]) s k (min m (length evs - k))"
      using k by (simp add: sub_sent_def min_def)
    with k False \<open>\<not> s_ended s\<close> show ?thesis
      unfolding sub_ok_def
      by (intro conjI exI [of _ k] exI [of _ "min m (length evs - k)"]) (auto simp: onEvent_def)
  qed
qed

lemma sub_ok_closed: "sub_ok evs b s \<Longrightarrow> sub_ok evs b (s\<lparr>s_listening := False\<rparr>)"
  by (auto simp: sub_ok_def sub_sent_def)

definition subs_ok :: "run \<Rightarrow> bool \<Rightarrow> bool" where
  "subs_ok r halted \<longleftrightarrow> (\<forall>s \<in> set (r_subs r). sub_ok (r_events r) halted s)"

lemma subs_ok_update [run_simps]:
  "subs_ok (r\<lparr>r_status := s\<rparr>) h = subs_ok r h" "subs_ok (r\<lparr>r_pc := p\<rparr>) h = subs_ok r h"
  "subs_ok (r\<lparr>r_endedAt := x\<rparr>) h = subs_ok r h" "subs_ok (r\<lparr>r_error := e\<rparr>) h = subs_ok r h"
  "subs_ok (r\<lparr>r_cancelRequested := b\<rparr>) h = subs_ok r h" "subs_ok (r\<lparr>r_aborted := a\<rparr>) h = subs_ok r h"
  by (simp_all add: subs_ok_def)

lemma seqs_ok_update [run_simps]:
  "seqs_ok (r\<lparr>r_status := s\<rparr>) = seqs_ok r" "seqs_ok (r\<lparr>r_pc := p\<rparr>) = seqs_ok r"
  "seqs_ok (r\<lparr>r_endedAt := x\<rparr>) = seqs_ok r" "seqs_ok (r\<lparr>r_error := e\<rparr>) = seqs_ok r"
  "seqs_ok (r\<lparr>r_cancelRequested := b\<rparr>) = seqs_ok r" "seqs_ok (r\<lparr>r_aborted := a\<rparr>) = seqs_ok r"
  "seqs_ok (r\<lparr>r_subs := ss\<rparr>) = seqs_ok r"
  by (simp_all add: seqs_ok_def)

lemma seqs_ok_append [run_simps, intro]: "seqs_ok r \<Longrightarrow> seqs_ok (appendEvent r ty nid d t)"
  by (auto simp: seqs_ok_def appendEvent_def Let_def nth_append less_Suc_eq)

lemma subs_ok_append [run_simps, intro]:
  "subs_ok r False \<Longrightarrow> subs_ok (appendEvent r ty nid d t) (ends_stream ty)"
  by (auto simp: subs_ok_def appendEvent_def Let_def intro: sub_ok_onEvent dest: bspec)
     (metis run_event.select_convs(3) sub_ok_onEvent)

section \<open>The invariant of a run\<close>

definition pc_ok :: "node list \<Rightarrow> run \<Rightarrow> bool" where
  "pc_ok ns r \<longleftrightarrow>
     (case r_pc r of
        Sleeping i ms \<Rightarrow> i < length ns \<and> all_supported ns i \<and> is_delay (ns ! i) \<and> \<not> r_cancelRequested r \<and>
          shapes r = log_upto ns i @ [(NodeStarted, Some (n_id (ns ! i)))]
      | Woken i \<Rightarrow> i < length ns \<and> all_supported ns i \<and> is_delay (ns ! i) \<and>
          shapes r = log_upto ns i @ [(NodeStarted, Some (n_id (ns ! i)))]
      | Aborted i \<Rightarrow> i < length ns \<and> all_supported ns i \<and> is_delay (ns ! i) \<and> r_cancelRequested r \<and>
          shapes r = log_upto ns i @ [(NodeStarted, Some (n_id (ns ! i)))]
      | Outcome i NCompleted \<Rightarrow> i < length ns \<and> all_supported ns (Suc i) \<and> shapes r = log_upto ns (Suc i)
      | Outcome i NCancelled \<Rightarrow> i < length ns \<and> all_supported ns i \<and> is_delay (ns ! i) \<and> r_cancelRequested r \<and>
          shapes r = log_upto ns i @ [(NodeStarted, Some (n_id (ns ! i))), (NodeCancelled, Some (n_id (ns ! i)))]
      | Outcome i NFailed \<Rightarrow> i < length ns \<and> all_supported ns i \<and> \<not> supported (ns ! i) \<and> r_error r \<noteq> None \<and>
          shapes r = log_upto ns i @ [(NodeStarted, Some (n_id (ns ! i))), (NodeFailed, Some (n_id (ns ! i)))]
      | Halted \<Rightarrow> final_log ns (r_status r) (shapes r) \<and>
          (r_status r = Completed \<longrightarrow> \<not> r_cancelRequested r) \<and>
          (r_status r = Cancelled \<longrightarrow> r_cancelRequested r) \<and>
          (r_status r = Failed \<longrightarrow> r_error r \<noteq> None))"

text \<open>The subscribers are not part of it.\<close>

lemma pc_ok_subs [run_simps]: "pc_ok ns (r\<lparr>r_subs := ss\<rparr>) = pc_ok ns r"
  by (cases "r_pc r") (auto simp: pc_ok_def shapes_def split: node_outcome.split)

definition run_ok :: "node list \<Rightarrow> run \<Rightarrow> bool" where
  "run_ok ns r \<longleftrightarrow>
     pc_ok ns r \<and> seqs_ok r \<and> subs_ok r (r_pc r = Halted) \<and>
     (r_aborted r \<longleftrightarrow> r_cancelRequested r) \<and>
     (r_pc r = Halted \<longleftrightarrow> r_endedAt r \<noteq> None) \<and>
     (r_pc r \<noteq> Halted \<longrightarrow> r_status r = Running)"

text \<open>The state at the top of the loop: nodes \<open>0 .. i - 1\<close> are done.\<close>

definition loop_ok :: "node list \<Rightarrow> nat \<Rightarrow> run \<Rightarrow> bool" where
  "loop_ok ns i r \<longleftrightarrow>
     i \<le> length ns \<and> all_supported ns i \<and> shapes r = log_upto ns i \<and> seqs_ok r \<and> subs_ok r False \<and>
     (r_aborted r \<longleftrightarrow> r_cancelRequested r) \<and> r_endedAt r = None \<and> r_status r = Running"

lemma run_ok_finish:
  assumes "seqs_ok r" and "subs_ok r False" and "r_aborted r \<longleftrightarrow> r_cancelRequested r"
    and "final_log ns st (shapes r @ [(ty, None)])" and "ends_stream ty"
    and "st = Completed \<Longrightarrow> \<not> r_cancelRequested r" and "st = Cancelled \<Longrightarrow> r_cancelRequested r"
    and "st = Failed \<Longrightarrow> r_error r \<noteq> None"
  shows "run_ok ns (finish r st ty d t)"
proof -
  have "seqs_ok (finish r st ty d t)"
    using assms(1) by (simp add: finish_def run_simps)
  moreover have "subs_ok (finish r st ty d t) True"
    using subs_ok_append [of "r\<lparr>r_status := st\<rparr>" ty None d t] assms(2,5)
    by (simp add: finish_def run_simps)
  ultimately show ?thesis
    using assms by (auto simp: run_ok_def pc_ok_def run_simps)
qed

section \<open>Every segment preserves the invariant\<close>

lemma supported_cases: "supported n \<Longrightarrow> \<not> is_delay n \<Longrightarrow> n_typeId n = ''core.noop''"
  by (auto simp: supported_def is_delay_def)

lemma executeNode_run_ok:
  assumes "loop_ok ns i r" and "i < length ns" and "\<not> r_cancelRequested r"
  shows "run_ok ns (executeNode r (ns ! i) i t)"
proof -
  let ?n = "ns ! i"
  let ?r1 = "appendEvent r NodeStarted (Some (n_id ?n)) None t"
  note ok = assms(1) [unfolded loop_ok_def]
  have s1: "seqs_ok ?r1" "subs_ok ?r1 False"
    using ok subs_ok_append [of r NodeStarted] by (auto simp: run_simps)
  consider (noop) "n_typeId ?n = ''core.noop''" | (delay) "n_typeId ?n = ''core.delay''"
    | (other) "\<not> supported ?n"
    by (auto simp: supported_def)
  then show ?thesis
  proof cases
    case noop
    then show ?thesis
      using ok s1 assms subs_ok_append [of ?r1 NodeCompleted]
      by (auto simp: executeNode_def Let_def run_ok_def pc_ok_def run_simps all_supported_Suc
          supported_def log_upto_Suc node_done_def)
  next
    case delay
    then show ?thesis
      using ok s1 assms
      by (auto simp: executeNode_def Let_def run_ok_def pc_ok_def run_simps sleep_def is_delay_def)
  next
    case other
    let ?r2 = "?r1\<lparr>r_error := Some \<lparr>err_code = ''unsupported_node_type'',
                                     err_message = unsupported_message (n_typeId ?n)\<rparr>\<rparr>"
    from other have "n_typeId ?n \<noteq> ''core.noop''" "n_typeId ?n \<noteq> ''core.delay''"
      by (auto simp: supported_def)
    then show ?thesis
      using ok s1 assms other subs_ok_append [of ?r2 NodeFailed]
      by (auto simp: executeNode_def Let_def run_ok_def pc_ok_def run_simps)
  qed
qed

lemma workflow_loop_run_ok:
  assumes "loop_ok (wf_nodes w) i r"
  shows "run_ok (wf_nodes w) (workflow_loop r w i t)"
proof (cases "i < length (wf_nodes w) \<and> \<not> r_cancelRequested r")
  case True
  with executeNode_run_ok [OF assms] show ?thesis by (simp add: workflow_loop_def)
next
  case False
  note ok = assms [unfolded loop_ok_def]
  show ?thesis
  proof (cases "r_cancelRequested r")
    case True
    with ok have "run_ok (wf_nodes w) (finish r Cancelled RunCancelled None t)"
      by (intro run_ok_finish) (auto simp: final_log_def cancelled_log_def)
    with True show ?thesis by (simp add: workflow_loop_def)
  next
    case not: False
    with False ok have "i = length (wf_nodes w)" by simp
    with not ok have "run_ok (wf_nodes w) (finish r Completed RunCompleted None t)"
      by (intro run_ok_finish) (auto simp: final_log_def completed_log_def)
    with not \<open>i = _\<close> show ?thesis by (simp add: workflow_loop_def)
  qed
qed

lemma exec_segment_run_ok:
  assumes "run_ok (wf_nodes w) r" and "exec_segment r w t = Some r'"
  shows "run_ok (wf_nodes w) r'"
proof -
  let ?ns = "wf_nodes w"
  note inv = assms(1) [unfolded run_ok_def pc_ok_def]
  show ?thesis
  proof (cases "r_pc r")
    case (Sleeping i ms)
    with assms(2) show ?thesis by (simp add: exec_segment_def)
  next
    case (Woken i)
    with inv assms(2) subs_ok_append [of r NodeCompleted "Some (n_id (?ns ! i))" None t] show ?thesis
      by (auto simp: exec_segment_def executeNode_woken_def run_ok_def pc_ok_def run_simps
          all_supported_Suc log_upto_Suc node_done_def supported_def is_delay_def)
  next
    case (Aborted i)
    with inv assms(2) subs_ok_append [of r NodeCancelled "Some (n_id (?ns ! i))" None t] show ?thesis
      by (auto simp: exec_segment_def executeNode_aborted_def run_ok_def pc_ok_def run_simps)
  next
    case (Outcome i oc)
    with inv have base: "seqs_ok r" "subs_ok r False" "r_aborted r \<longleftrightarrow> r_cancelRequested r"
      and open_run: "r_endedAt r = None" "r_status r = Running" by auto
    show ?thesis
    proof (cases oc)
      case NCompleted
      with Outcome inv base open_run have "loop_ok ?ns (Suc i) r"
        by (simp add: loop_ok_def)
      with Outcome NCompleted assms(2) workflow_loop_run_ok show ?thesis
        by (auto simp: exec_segment_def runWorkflow_outcome_def)
    next
      case NCancelled
      with Outcome inv base have "run_ok ?ns (finish r Cancelled RunCancelled None t)"
        by (intro run_ok_finish) (auto simp: final_log_def cancelled_log_def intro!: exI [of _ i])
      with Outcome NCancelled assms(2) show ?thesis
        by (auto simp: exec_segment_def runWorkflow_outcome_def)
    next
      case NFailed
      with Outcome inv base
      have "run_ok ?ns (finish r Failed RunFailed (Some (error_or_null (r_error r))) t)"
        by (intro run_ok_finish) (auto simp: final_log_def failed_log_def)
      with Outcome NFailed assms(2) show ?thesis
        by (auto simp: exec_segment_def runWorkflow_outcome_def)
    qed
  next
    case Halted
    with assms(2) show ?thesis by (simp add: exec_segment_def)
  qed
qed

lemma timer_fires_run_ok: "run_ok ns r \<Longrightarrow> timer_fires r = Some r' \<Longrightarrow> run_ok ns r'"
  by (cases "r_pc r") (auto simp: timer_fires_def run_ok_def pc_ok_def run_simps)

lemma request_cancel_run_ok:
  "run_ok ns r \<Longrightarrow> \<not> is_terminal (r_status r) \<Longrightarrow> run_ok ns (request_cancel r)"
  by (cases "r_pc r")
     (auto simp: request_cancel_def run_ok_def pc_ok_def run_simps final_log_def
        split: node_outcome.splits run_status.splits)

text \<open>A new run, as \<^verbatim>\<open>handleCreateRun\<close> makes it, through its first segment.\<close>

definition fresh_run :: "run \<Rightarrow> bool" where
  "fresh_run r \<longleftrightarrow>
     r_events r = [] \<and> r_subs r = [] \<and> \<not> r_cancelRequested r \<and> \<not> r_aborted r \<and>
     r_endedAt r = None \<and> r_error r = None"

lemma runWorkflow_run_ok:
  assumes "fresh_run r" and "ws (r_workflowId r) = Some w"
  shows "run_ok (wf_nodes w) (runWorkflow ws r t)"
proof -
  let ?r = "appendEvent (r\<lparr>r_status := Running\<rparr>) RunStarted None None t"
  have "seqs_ok (r\<lparr>r_status := Running\<rparr>)" and "subs_ok (r\<lparr>r_status := Running\<rparr>) False"
    using assms(1) by (auto simp: fresh_run_def seqs_ok_def subs_ok_def)
  then have "seqs_ok ?r" and "subs_ok ?r False"
    using subs_ok_append [of "r\<lparr>r_status := Running\<rparr>" RunStarted] by (auto simp: run_simps)
  then have "loop_ok (wf_nodes w) 0 ?r"
    using assms(1) by (simp add: loop_ok_def run_simps fresh_run_def) (simp add: shapes_def)
  with workflow_loop_run_ok assms(2) show ?thesis
    by (simp add: runWorkflow_def)
qed

section \<open>Consequences of the invariant\<close>

lemma run_ok_status: "run_ok ns r \<Longrightarrow> r_status r \<in> {Running, Completed, Failed, Cancelled}"
  by (cases "r_pc r = Halted") (auto simp: run_ok_def pc_ok_def final_log_def split: run_status.splits)

lemma run_ok_terminal_iff: "run_ok ns r \<Longrightarrow> is_terminal (r_status r) \<longleftrightarrow> r_pc r = Halted"
  using final_log_last [of ns "r_status r" "shapes r"]
  by (cases "r_pc r = Halted") (auto simp: run_ok_def pc_ok_def)

lemma run_ok_open_log:
  assumes "run_ok ns r" and "\<not> is_terminal (r_status r)"
  shows "open_log (shapes r)"
  using assms run_ok_terminal_iff [OF assms(1)]
  by (cases "r_pc r") (auto simp: run_ok_def pc_ok_def split: node_outcome.splits)

lemma run_ok_final_log: "run_ok ns r \<Longrightarrow> is_terminal (r_status r) \<Longrightarrow> final_log ns (r_status r) (shapes r)"
proof -
  assume ok: "run_ok ns r" and "is_terminal (r_status r)"
  with run_ok_terminal_iff have "r_pc r = Halted" by blast
  with ok show ?thesis by (simp add: run_ok_def pc_ok_def)
qed

section \<open>Termination\<close>

text \<open>
  Each node takes at most three steps of its run: the timer, the continuation of
  \<^verbatim>\<open>executeNode\<close> and that of \<^verbatim>\<open>runWorkflow\<close>. \<open>steps_left\<close> bounds the steps
  to the end; a run that is not terminal always has a step.
\<close>

definition run_step :: "run \<Rightarrow> workflow \<Rightarrow> string \<Rightarrow> run option" where
  "run_step r w t = (case timer_fires r of Some r' \<Rightarrow> Some r' | None \<Rightarrow> exec_segment r w t)"

definition steps_left :: "node list \<Rightarrow> run \<Rightarrow> nat" where
  "steps_left ns r =
     (case r_pc r of
        Sleeping i ms \<Rightarrow> 3 * (length ns - i)
      | Woken i \<Rightarrow> 3 * (length ns - i) - 1
      | Aborted i \<Rightarrow> 3 * (length ns - i) - 1
      | Outcome i oc \<Rightarrow> 3 * (length ns - i) - 2
      | Halted \<Rightarrow> 0)"

lemma run_step_enabled: "r_pc r \<noteq> Halted \<Longrightarrow> run_step r w t \<noteq> None"
  by (cases "r_pc r") (auto simp: run_step_def timer_fires_def exec_segment_def)

lemma run_step_run_ok:
  "run_ok (wf_nodes w) r \<Longrightarrow> run_step r w t = Some r' \<Longrightarrow> run_ok (wf_nodes w) r'"
  by (auto simp: run_step_def split: option.splits intro: timer_fires_run_ok exec_segment_run_ok)

lemma executeNode_pc:
  "r_pc (executeNode r n i t) \<in> {Aborted i} \<union> range (Sleeping i) \<union> range (Outcome i)"
  by (auto simp: executeNode_def Let_def sleep_def)

lemma steps_left_workflow_loop:
  "steps_left (wf_nodes w) (workflow_loop r w i t) \<le> 3 * (length (wf_nodes w) - i)"
  using executeNode_pc [of r "wf_nodes w ! i" i t]
  by (auto simp: workflow_loop_def steps_left_def run_simps)

lemma steps_left_decreases:
  assumes "run_ok (wf_nodes w) r" and "run_step r w t = Some r'"
  shows "steps_left (wf_nodes w) r' < steps_left (wf_nodes w) r"
proof (cases "r_pc r")
  case (Outcome i oc)
  with assms(1) have i: "i < length (wf_nodes w)"
    by (cases oc) (auto simp: run_ok_def pc_ok_def)
  have "steps_left (wf_nodes w) (workflow_loop r w (Suc i) t) < 3 * (length (wf_nodes w) - i) - 2"
    using steps_left_workflow_loop [of w r "Suc i" t] i by linarith
  with Outcome assms(2) i show ?thesis
    by (cases oc) (auto simp: run_step_def timer_fires_def exec_segment_def runWorkflow_outcome_def
        steps_left_def run_simps)
qed (use assms in \<open>auto simp: run_step_def timer_fires_def exec_segment_def steps_left_def
       executeNode_woken_def executeNode_aborted_def run_ok_def pc_ok_def\<close>)

section \<open>What a segment may change\<close>

text \<open>
  A run keeps its identity, its log only grows, a cancel request is never withdrawn, and
  after it no further node is started; the data of every event can be printed as JSON.
\<close>

definition data_wf :: "json option \<Rightarrow> bool" where
  "data_wf d \<longleftrightarrow> (case d of None \<Rightarrow> True | Some j \<Rightarrow> wf_json j)"

lemma data_wf_simps [simp]: "data_wf None" "data_wf (Some j) = wf_json j"
  by (simp_all add: data_wf_def)

lemma wf_error_or_null [simp]: "wf_json (error_or_null e)"
  by (cases e) (simp_all add: error_or_null_def)

definition grows :: "run \<Rightarrow> run \<Rightarrow> bool" where
  "grows r r' \<longleftrightarrow>
     r_runId r' = r_runId r \<and> r_workflowId r' = r_workflowId r \<and> r_inputs r' = r_inputs r \<and>
     r_startedAt r' = r_startedAt r \<and> (r_cancelRequested r \<longrightarrow> r_cancelRequested r') \<and>
     (\<exists>l. r_events r' = r_events r @ l \<and> (r_cancelRequested r \<longrightarrow> NodeStarted \<notin> e_type ` set l) \<and>
        (\<forall>e \<in> set l. data_wf (e_data e)))"

lemma grows_refl [simp, intro]: "grows r r"
  by (simp add: grows_def)

lemma grows_trans [trans]: "grows r1 r2 \<Longrightarrow> grows r2 r3 \<Longrightarrow> grows r1 r3"
  by (auto simp: grows_def)

lemma grows_append: "ty \<noteq> NodeStarted \<or> \<not> r_cancelRequested r \<Longrightarrow> data_wf d \<Longrightarrow> grows r (appendEvent r ty nid d t)"
  by (auto simp: grows_def appendEvent_def Let_def)

lemma grows_update [simp]:
  "grows r (r'\<lparr>r_status := s\<rparr>) = grows r r'" "grows r (r'\<lparr>r_pc := p\<rparr>) = grows r r'"
  "grows r (r'\<lparr>r_endedAt := x\<rparr>) = grows r r'" "grows r (r'\<lparr>r_error := e\<rparr>) = grows r r'"
  "grows r (r'\<lparr>r_subs := ss\<rparr>) = grows r r'" "grows r (r'\<lparr>r_aborted := a\<rparr>) = grows r r'"
  by (simp_all add: grows_def)

lemma grows_append2 [simp, intro]:
  assumes "grows r r'" and "ty \<noteq> NodeStarted \<or> \<not> r_cancelRequested r" and "data_wf d"
  shows "grows r (appendEvent r' ty nid d t)"
  using assms by (auto simp: grows_def appendEvent_def Let_def)

lemma grows_finish [simp, intro]: "ty \<noteq> NodeStarted \<Longrightarrow> data_wf d \<Longrightarrow> grows r (finish r st ty d t)"
  by (simp add: finish_def)

lemma grows_executeNode [simp, intro]: "grows r (executeNode r n i t)"
  by (auto simp: executeNode_def Let_def)

lemma grows_workflow_loop [simp, intro]: "grows r (workflow_loop r w i t)"
  by (simp add: workflow_loop_def)

lemma grows_exec_segment: "exec_segment r w t = Some r' \<Longrightarrow> grows r r'"
  by (auto simp: exec_segment_def executeNode_woken_def executeNode_aborted_def runWorkflow_outcome_def
      split: pc.splits node_outcome.splits)

lemma grows_timer_fires: "timer_fires r = Some r' \<Longrightarrow> grows r r'"
  by (auto simp: timer_fires_def split: pc.splits)

lemma grows_request_cancel: "grows r (request_cancel r)"
  by (simp add: request_cancel_def grows_def)

lemma grows_from_update:
  "grows (r\<lparr>r_status := s\<rparr>) x = grows r x" "grows (r\<lparr>r_error := e\<rparr>) x = grows r x"
  by (simp_all add: grows_def)

lemma grows_runWorkflow: "grows r (runWorkflow ws r t)"
proof (cases "ws (r_workflowId r)")
  case None
  let ?e = "\<lparr>err_code = ''workflow_not_found'', err_message = ''Unknown workflowId: '' @ r_workflowId r\<rparr>"
  have "grows (r\<lparr>r_error := Some ?e\<rparr>) (finish (r\<lparr>r_error := Some ?e\<rparr>) Failed RunFailed (Some (error_json ?e)) t)"
    by (rule grows_finish) simp_all
  with None show ?thesis by (simp only: runWorkflow_def Let_def option.case grows_from_update)
next
  case (Some w)
  let ?r = "r\<lparr>r_status := Running\<rparr>"
  have "grows ?r (workflow_loop (appendEvent ?r RunStarted None None t) w 0 t)"
    using grows_trans [OF grows_append grows_workflow_loop, of RunStarted] by simp
  with Some show ?thesis by (simp only: runWorkflow_def option.case grows_from_update)
qed

end
