(* ===== verification/MemHttp.thy ===== *)
theory MemHttp
  imports MemExec
begin

text \<open>
  The HTTP side of the in-memory host: its state, its route handlers and its router
  (\<^verbatim>\<open>examples/hosts/in-memory/src/server.ts\<close>, from the idempotency cache on). A handler
  is a function of the state, the request and the readings of clock and random source;
  it returns the new state and the reply. \<open>Inl\<close> is a thrown exception, which the
  \<^verbatim>\<open>catch\<close> of the server turns into a 500.
\<close>

section \<open>State\<close>

record idem_entry =
  i_status :: nat
  i_body :: string
  i_contentType :: string
  i_bodyHash :: string
  i_storedAt :: int

record mem_config =
  c_api_key :: string
  c_workflows :: "string \<rightharpoonup> workflow"
  c_sha256 :: "string \<Rightarrow> string"

record mem_host =
  h_runs :: "string \<rightharpoonup> run"
  h_idem :: "string \<rightharpoonup> idem_entry"

type_synonym 'h outcome = "string + ('h \<times> reply)"

definition init_host :: mem_host where
  "init_host = \<lparr>h_runs = Map.empty, h_idem = Map.empty\<rparr>"

definition set_run :: "mem_host \<Rightarrow> string \<Rightarrow> run \<Rightarrow> mem_host" where
  "set_run h rid r = h\<lparr>h_runs := (h_runs h)(rid \<mapsto> r)\<rparr>"

section \<open>The idempotency cache\<close>

definition pruneIdempotencyCache :: "int \<Rightarrow> (string \<rightharpoonup> idem_entry) \<Rightarrow> (string \<rightharpoonup> idem_entry)" where
  "pruneIdempotencyCache now c =
     (\<lambda>k. case c k of
            None \<Rightarrow> None
          | Some e \<Rightarrow> if i_storedAt e < now - IDEMPOTENCY_TTL_MS then None else Some e)"

section \<open>JSON shapes\<close>

definition opt_field :: "string \<Rightarrow> json option \<Rightarrow> (string \<times> json) list" where
  "opt_field k v = (case v of None \<Rightarrow> [] | Some j \<Rightarrow> [(k, j)])"

fun str_or_null :: "string option \<Rightarrow> json" where
  "str_or_null None = JNull"
| "str_or_null (Some s) = JStr s"

text \<open>An event object: \<^verbatim>\<open>nodeId\<close> and \<^verbatim>\<open>data\<close> only where they were given.\<close>

definition mem_event_json :: "run_event \<Rightarrow> json" where
  "mem_event_json e =
     JObj ([(''seq'', JNum (num_of_nat (e_seq e))), (''runId'', JStr (e_runId e)),
            (''type'', JStr (type_str (e_type e)))] @
           opt_field ''nodeId'' (map_option JStr (e_nodeId e)) @ opt_field ''data'' (e_data e) @
           [(''timestamp'', JStr (e_timestamp e))])"

section \<open>Handlers without authentication\<close>

definition openapi_op :: "string \<Rightarrow> string \<Rightarrow> string \<Rightarrow> string \<Rightarrow> json" where
  "openapi_op verb summary code desc =
     JObj [(verb, JObj [(''summary'', JStr summary),
       (''responses'', JObj [(code, JObj [(''description'', JStr desc)])])])]"

definition mem_handleOpenApi :: reply where
  "mem_handleOpenApi = sendJSON 200 (JObj [
     (''openapi'', JStr ''3.1.0''),
     (''info'', JObj [
        (''title'', JStr ''WOP in-memory reference host''),
        (''version'', JStr ''0.1.0''),
        (''description'', JStr ''Stub OpenAPI document. The full canonical OpenAPI bundle lives at api/openapi.yaml in the WOP repo. This host serves only the shape conformance suites assert on.'')]),
     (''paths'', JObj [
        (''/.well-known/wop'', openapi_op ''get'' ''Capability discovery'' ''200'' ''OK''),
        (''/v1/runs'', openapi_op ''post'' ''Create run'' ''201'' ''Created''),
        (''/v1/runs/{runId}'', openapi_op ''get'' ''Get run snapshot'' ''200'' ''OK''),
        (''/v1/runs/{runId}/cancel'', openapi_op ''post'' ''Cancel run'' ''200'' ''OK''),
        (''/v1/runs/{runId}/events'', openapi_op ''get'' ''SSE event stream'' ''200'' ''OK''),
        (''/v1/runs/{runId}/events/poll'', openapi_op ''get'' ''Polling event read'' ''200'' ''OK'')])]) []"

definition discovery_payload :: "string \<Rightarrow> json" where
  "discovery_payload name = JObj [
     (''protocolVersion'', JStr ''1.0.0''),
     (''implementation'', JObj [(''name'', JStr name), (''version'', JStr ''0.1.0''),
        (''vendor'', JStr ''wop-spec (reference example)'')]),
     (''supportedEnvelopes'', JArr []),
     (''schemaVersions'', JObj []),
     (''limits'', JObj [(''clarificationRounds'', JNum (num_of_int 0)), (''schemaRounds'', JNum (num_of_int 0)),
        (''envelopesPerTurn'', JNum (num_of_int 0)), (''maxNodeExecutions'', JNum (num_of_int 1000))]),
     (''supportedTransports'', JArr [JStr ''rest'']),
     (''debugBundle'', JObj [(''supported'', JBool True)])]"

definition mem_handleDiscovery :: reply where
  "mem_handleDiscovery =
     sendJSON 200 (discovery_payload ''wop-host-in-memory'') [(''Cache-Control'', ''public, max-age=300'')]"

section \<open>Creating a run\<close>

definition created_body :: "string \<Rightarrow> string \<Rightarrow> string \<Rightarrow> json" where
  "created_body rid wid t =
     JObj [(''runId'', JStr rid), (''status'', JStr ''pending''), (''workflowId'', JStr wid), (''startedAt'', JStr t)]"

definition new_run :: "string \<Rightarrow> string \<Rightarrow> json \<Rightarrow> string \<Rightarrow> run" where
  "new_run rid wid inputs t =
     \<lparr>r_runId = rid, r_workflowId = wid, r_status = Pending, r_inputs = inputs, r_events = [],
      r_startedAt = t, r_endedAt = None, r_error = None, r_cancelRequested = False, r_aborted = False,
      r_pc = Halted, r_subs = []\<rparr>"

text \<open>The part after the idempotency check: make the run, cache the response, start executing.\<close>

definition mem_createRun :: "mem_config \<Rightarrow> env \<Rightarrow> string \<Rightarrow> json \<Rightarrow> string option \<Rightarrow> string \<Rightarrow> mem_host \<Rightarrow> mem_host \<times> reply" where
  "mem_createRun cfg en wid inputs idempotencyKey bodyHash h =
     (let runId = new_run_id en;
          r = new_run runId wid inputs (iso en);
          responseText = stringify (created_body runId wid (iso en));
          h1 = set_run h runId r;
          h2 = (case idempotencyKey of
                  None \<Rightarrow> h1
                | Some key \<Rightarrow>
                    h1\<lparr>h_idem := (h_idem h1)(buildIdempotencyCacheKey (c_sha256 cfg) ''POST /v1/runs'' key \<mapsto>
                          \<lparr>i_status = 201, i_body = responseText, i_contentType = ''application/json'',
                           i_bodyHash = bodyHash, i_storedAt = now_ms en\<rparr>)\<rparr>);
          h3 = set_run h2 runId (runWorkflow (c_workflows cfg) r (iso en))
      in (h3, sendText 201 ''application/json'' responseText
               [(''WOP-Idempotent-Replay'', if idempotencyKey \<noteq> None then ''false'' else [])]))"

definition mem_handleCreateRun :: "mem_config \<Rightarrow> env \<Rightarrow> request \<Rightarrow> mem_host \<Rightarrow> mem_host outcome" where
  "mem_handleCreateRun cfg en rq h =
     (case check_create (c_api_key cfg) (c_workflows cfg) rq of
        Throws msg \<Rightarrow> Inl msg
      | Rejects rep \<Rightarrow> Inr (h, rep)
      | Accepts wid inputs \<Rightarrow>
          (let incomingBodyHash = hashBody (c_sha256 cfg) (rq_body rq)
           in case rq_headers rq ''idempotency-key'' of
                None \<Rightarrow> Inr (mem_createRun cfg en wid inputs None incomingBodyHash h)
              | Some key \<Rightarrow>
                  (let h1 = h\<lparr>h_idem := pruneIdempotencyCache (now_ms en) (h_idem h)\<rparr>
                   in case h_idem h1 (buildIdempotencyCacheKey (c_sha256 cfg) ''POST /v1/runs'' key) of
                        Some cached \<Rightarrow>
                          if i_bodyHash cached \<noteq> incomingBodyHash then
                            Inr (h1, sendError 409 ''idempotency_key_conflict''
                              ''Idempotency-Key reused with a different request body. A key MUST pin exactly one logical operation.'')
                          else Inr (h1, sendText (i_status cached) (i_contentType cached) (i_body cached)
                                         [(''WOP-Idempotent-Replay'', ''true'')])
                      | None \<Rightarrow> Inr (mem_createRun cfg en wid inputs (Some key) incomingBodyHash h1))))"

section \<open>Handlers of one run\<close>

definition run_not_found :: "string \<Rightarrow> reply" where
  "run_not_found rid = sendError 404 ''run_not_found'' (''Unknown runId: '' @ rid)"

text \<open>\<^verbatim>\<open>checkAuth\<close> and the lookup, which every handler of a run starts with.\<close>

definition mem_with_run :: "mem_config \<Rightarrow> request \<Rightarrow> mem_host \<Rightarrow> string \<Rightarrow>
    (run \<Rightarrow> mem_host \<times> reply) \<Rightarrow> mem_host \<times> reply" where
  "mem_with_run cfg rq h rid k =
     (case checkAuth (c_api_key cfg) rq of
        Some err \<Rightarrow> (h, err)
      | None \<Rightarrow> (case h_runs h rid of None \<Rightarrow> (h, run_not_found rid) | Some r \<Rightarrow> k r))"

definition mem_snapshot :: "run \<Rightarrow> json" where
  "mem_snapshot r =
     JObj ([(''runId'', JStr (r_runId r)), (''workflowId'', JStr (r_workflowId r)),
            (''status'', JStr (status_str (r_status r))), (''inputs'', r_inputs r),
            (''startedAt'', JStr (r_startedAt r)), (''endedAt'', str_or_null (r_endedAt r))] @
           opt_field ''error'' (map_option error_json (r_error r)))"

definition mem_handleGetRun :: "mem_config \<Rightarrow> request \<Rightarrow> string \<Rightarrow> mem_host \<Rightarrow> mem_host \<times> reply" where
  "mem_handleGetRun cfg rq rid h =
     mem_with_run cfg rq h rid (\<lambda>r. (h, sendJSON 200 (mem_snapshot r) []))"

definition mem_handleCancelRun :: "mem_config \<Rightarrow> request \<Rightarrow> string \<Rightarrow> mem_host \<Rightarrow> mem_host \<times> reply" where
  "mem_handleCancelRun cfg rq rid h =
     mem_with_run cfg rq h rid (\<lambda>r.
       if is_terminal (r_status r) then
         (h, sendJSON 200 (JObj [(''runId'', JStr rid), (''status'', JStr (status_str (r_status r))),
                                 (''alreadyTerminal'', JBool True)]) [])
       else (set_run h rid (request_cancel r),
             sendJSON 200 (JObj [(''runId'', JStr rid), (''status'', JStr ''cancelling'')]) []))"

definition since_param :: "request \<Rightarrow> num" where
  "since_param rq = (case map_of (rq_query rq) ''since'' of Some s \<Rightarrow> js_Number s | None \<Rightarrow> num_of_int (- 1))"

definition poll_body :: "(run_event \<Rightarrow> json) \<Rightarrow> string \<Rightarrow> run_event list \<Rightarrow> num \<Rightarrow> run_status \<Rightarrow> json" where
  "poll_body ej rid evs since st =
     JObj [(''runId'', JStr rid), (''events'', JArr (map ej evs)), (''lastEventSeq'', JNum (last_seq since evs)),
           (''runStatus'', JStr (status_str st)), (''isTerminal'', JBool (is_terminal st))]"

definition mem_handleEventsPoll :: "mem_config \<Rightarrow> request \<Rightarrow> string \<Rightarrow> mem_host \<Rightarrow> mem_host \<times> reply" where
  "mem_handleEventsPoll cfg rq rid h =
     mem_with_run cfg rq h rid (\<lambda>r.
       let since = since_param rq; evs = events_after since (r_events r)
       in (h, sendJSON 200 (poll_body mem_event_json rid evs since (r_status r)) []))"

section \<open>The debug bundle\<close>

definition bundle_event :: "run_event \<Rightarrow> json" where
  "bundle_event e =
     JObj [(''sequence'', JNum (num_of_nat (e_seq e))), (''type'', JStr (type_str (e_type e))),
           (''timestamp'', JStr (e_timestamp e)), (''nodeId'', str_or_null (e_nodeId e)),
           (''data'', case e_data e of None \<Rightarrow> JNull | Some d \<Rightarrow> d)]"

text \<open>\<^verbatim>\<open>new Set(...).size\<close> over the node ids that are present.\<close>

definition node_count :: "run_event list \<Rightarrow> nat" where
  "node_count evs = length (remdups (List.map_filter e_nodeId evs))"

definition debug_bundle :: "string \<Rightarrow> string \<Rightarrow> string \<Rightarrow> string \<Rightarrow> run_status \<Rightarrow> string \<Rightarrow> string option \<Rightarrow>
    json option \<Rightarrow> run_event list \<Rightarrow> json" where
  "debug_bundle host now rid wid st started ended err evs =
     JObj [(''bundleVersion'', JStr ''1.0''), (''generatedAt'', JStr now),
       (''host'', JObj [(''name'', JStr host), (''version'', JStr ''0.1.0''),
          (''vendor'', JStr ''wop-spec (reference example)'')]),
       (''run'', JObj ([(''runId'', JStr rid), (''workflowId'', JStr wid), (''status'', JStr (status_str st)),
          (''inputs'', JObj []), (''startedAt'', JStr started), (''endedAt'', str_or_null ended)] @
          opt_field ''error'' err @ [(''variables'', JObj [])])),
       (''events'', JArr (map bundle_event evs)), (''spans'', JArr []),
       (''metrics'', JObj [(''nodeCount'', JNum (num_of_nat (node_count evs))),
          (''eventCount'', JNum (num_of_nat (length evs)))]),
       (''redactionApplied'', JBool True), (''redactionMode'', JStr ''omit'')]"

definition mem_handleDebugBundle :: "mem_config \<Rightarrow> env \<Rightarrow> request \<Rightarrow> string \<Rightarrow> mem_host \<Rightarrow> mem_host \<times> reply" where
  "mem_handleDebugBundle cfg en rq rid h =
     mem_with_run cfg rq h rid (\<lambda>r.
       (h, sendJSON 200 (debug_bundle ''wop-host-in-memory'' (iso en) (r_runId r) (r_workflowId r) (r_status r)
              (r_startedAt r) (r_endedAt r) (map_option error_json (r_error r)) (r_events r))
            [(''Cache-Control'', ''no-store'')]))"

section \<open>The event stream\<close>

text \<open>\<^verbatim>\<open>writeEvent\<close>: the three lines and the blank line of one frame.\<close>

definition sse_frame :: "(run_event \<Rightarrow> json) \<Rightarrow> run_event \<Rightarrow> string" where
  "sse_frame ej e =
     ''id: '' @ nat_str (e_seq e) @ [CHR 0x0A] @
     ''event: '' @ type_str (e_type e) @ [CHR 0x0A] @
     ''data: '' @ stringify (ej e) @ [CHR 0x0A, CHR 0x0A]"

text \<open>The resume point of \<^verbatim>\<open>Last-Event-ID\<close>; a header that is not a finite number is ignored.\<close>

definition resume_after :: "request \<Rightarrow> num" where
  "resume_after rq =
     (case rq_headers rq ''last-event-id'' of
        None \<Rightarrow> num_of_int (- 1)
      | Some s \<Rightarrow> if is_finite (js_Number s) then js_Number s else num_of_int (- 1))"

definition sse_headers :: "(string \<times> string) list" where
  "sse_headers = [(''Content-Type'', ''text/event-stream''), (''Cache-Control'', ''no-cache''),
                  (''Connection'', ''keep-alive'')]"

text \<open>Replay the backlog, then close the response of a terminal run, or subscribe.\<close>

definition subscribe :: "num \<Rightarrow> bool \<Rightarrow> run_event list \<Rightarrow> sub" where
  "subscribe resumeAfterSeq terminal evs =
     \<lparr>s_after = resumeAfterSeq, s_out = events_after resumeAfterSeq evs,
      s_ended = terminal, s_listening = \<not> terminal\<rparr>"

definition mem_handleEventsSse :: "mem_config \<Rightarrow> request \<Rightarrow> string \<Rightarrow> mem_host \<Rightarrow> mem_host \<times> reply" where
  "mem_handleEventsSse cfg rq rid h =
     mem_with_run cfg rq h rid (\<lambda>r.
       (set_run h rid (r\<lparr>r_subs := r_subs r @ [subscribe (resume_after rq) (is_terminal (r_status r)) (r_events r)]\<rparr>),
        Stream sse_headers))"

text \<open>\<^verbatim>\<open>req.on('close')\<close>: the client went away, the listener is removed.\<close>

definition client_closes :: "nat \<Rightarrow> run \<Rightarrow> run" where
  "client_closes j r =
     (if j < length (r_subs r) then r\<lparr>r_subs := (r_subs r)[j := (r_subs r ! j)\<lparr>s_listening := False\<rparr>]\<rparr> else r)"

section \<open>Router and server\<close>

text \<open>\<^verbatim>\<open>m = PATTERN.exec(path); if (m && method === ...) return handler(m[1])\<close>, else go on.\<close>

definition on_match :: "string option \<Rightarrow> bool \<Rightarrow> (string \<Rightarrow> 'a) \<Rightarrow> 'a \<Rightarrow> 'a" where
  "on_match m method_ok handler next_route =
     (case m of Some x \<Rightarrow> if method_ok then handler x else next_route | None \<Rightarrow> next_route)"

definition mem_route :: "mem_config \<Rightarrow> env \<Rightarrow> request \<Rightarrow> mem_host \<Rightarrow> mem_host outcome" where
  "mem_route cfg en rq h =
     (case rq_path rq of
        None \<Rightarrow> Inl ''Invalid URL''
      | Some path \<Rightarrow>
          (let get = (rq_method rq = ''GET''); post = (rq_method rq = ''POST'') in
           if get \<and> path = ''/.well-known/wop'' then Inr (h, mem_handleDiscovery)
           else if get \<and> path = ''/v1/openapi.json'' then Inr (h, mem_handleOpenApi)
           else if post \<and> path = ''/v1/runs'' then mem_handleCreateRun cfg en rq h
           else
             on_match (RUN_EVENTS_POLL_PATTERN path) get (\<lambda>x. Inr (mem_handleEventsPoll cfg rq x h))
             (on_match (RUN_EVENTS_SSE_PATTERN path) get (\<lambda>x. Inr (mem_handleEventsSse cfg rq x h))
             (on_match (RUN_DEBUG_BUNDLE_PATTERN path) get (\<lambda>x. Inr (mem_handleDebugBundle cfg en rq x h))
             (on_match (RUN_CANCEL_PATTERN path) post (\<lambda>x. Inr (mem_handleCancelRun cfg rq x h))
             (on_match (RUN_ID_PATTERN path) get (\<lambda>x. Inr (mem_handleGetRun cfg rq x h))
             (Inr (h, sendError 404 ''not_found'' (''No route for '' @ rq_method rq @ '' '' @ path)))))))))"

text \<open>The server's \<^verbatim>\<open>catch\<close>. Every exception here is thrown before a header is sent.\<close>

definition mem_serve :: "mem_config \<Rightarrow> env \<Rightarrow> request \<Rightarrow> mem_host \<Rightarrow> mem_host \<times> reply" where
  "mem_serve cfg en rq h =
     (case mem_route cfg en rq h of Inl message \<Rightarrow> (h, sendError 500 ''internal'' message) | Inr x \<Rightarrow> x)"

end
