(* ===== verification/SqlHost.thy ===== *)
theory SqlHost
  imports SqlDb MemHttp
begin

text \<open>
  The SQLite host (\<^verbatim>\<open>examples/hosts/sqlite/src/server.ts\<close>): claims, executor,
  handlers and router over the tables of theory \<open>SqlDb\<close>.

  \<open>sql_host\<close> is what one process has: the database as it is, its executors (one per
  entry of \<^verbatim>\<open>runningAborters\<close> and \<^verbatim>\<open>runningHeartbeats\<close>, which have the
  same keys) and the SSE responses on its event bus. \<open>g_commits\<close> is history: the states
  the database has gone through since the current stretch of code began, since a process that
  is killed leaves any of them behind. Code that can throw returns \<open>Some\<close> message with the
  state at the throw.
\<close>

section \<open>State\<close>

record executor =
  x_workflow :: workflow
  x_inputs :: json
  x_aborted :: bool
  x_pc :: pc

record sql_host =
  g_db :: sql_db
  g_commits :: "sql_db list"
  g_exec :: "string \<rightharpoonup> executor"
  g_subs :: "string \<Rightarrow> sub list"
  g_crashed :: bool

record sql_config =
  s_pid :: string
  s_api_key :: string
  s_workflows :: "string \<rightharpoonup> workflow"
  s_sha256 :: "string \<Rightarrow> string"
  s_claim_ttl :: int
  s_parse_error :: string \<comment> \<open>the message of a \<^verbatim>\<open>JSON.parse\<close> that throws\<close>

type_synonym result = "string option \<times> sql_host"

definition commit :: "sql_db \<Rightarrow> sql_host \<Rightarrow> sql_host" where
  "commit db h = h\<lparr>g_db := db, g_commits := g_commits h @ [db]\<rparr>"

definition then_do :: "(sql_host \<Rightarrow> result) \<Rightarrow> (sql_host \<Rightarrow> result) \<Rightarrow> sql_host \<Rightarrow> result" where
  "then_do f g h = (case f h of (None, h1) \<Rightarrow> g h1 | (Some m, h1) \<Rightarrow> (Some m, h1))"

definition set_exec :: "string \<Rightarrow> executor \<Rightarrow> sql_host \<Rightarrow> sql_host" where
  "set_exec rid x h = h\<lparr>g_exec := (g_exec h)(rid \<mapsto> x)\<rparr>"

definition set_pc :: "string \<Rightarrow> pc \<Rightarrow> sql_host \<Rightarrow> sql_host" where
  "set_pc rid p h = h\<lparr>g_exec := (g_exec h)(rid := map_option (\<lambda>x. x\<lparr>x_pc := p\<rparr>) (g_exec h rid))\<rparr>"

section \<open>Events\<close>

definition null_as_none :: "json option \<Rightarrow> json option" where
  "null_as_none d = (if d = Some JNull then None else d)"

definition row_of_event :: "run_event \<Rightarrow> event_row" where
  "row_of_event e = \<lparr>v_run_id = e_runId e, v_seq = e_seq e, v_type = e_type e, v_node_id = e_nodeId e,
     v_data_json = map_option stringify (e_data e), v_timestamp = e_timestamp e\<rparr>"

definition sql_appendEvent :: "string \<Rightarrow> ev_type \<Rightarrow> string option \<Rightarrow> json option \<Rightarrow> string \<Rightarrow> sql_host \<Rightarrow> result" where
  "sql_appendEvent rid ty nid dat t h =
     (let e = \<lparr>e_seq = countEvents rid (g_db h), e_runId = rid, e_type = ty, e_nodeId = nid,
               e_data = null_as_none dat, e_timestamp = t\<rparr>
      in case insertEvent (row_of_event e) (g_db h) of
           Inl m \<Rightarrow> (Some m, h)
         | Inr db \<Rightarrow> (None, (commit db h)\<lparr>g_subs := (g_subs h)(rid := map (onEvent e) (g_subs h rid))\<rparr>))"

text \<open>A row as the readers give it out; \<^verbatim>\<open>JSON.parse\<close> of its data may throw.\<close>

definition event_of_row :: "event_row \<Rightarrow> run_event option" where
  "event_of_row v =
     (case v_data_json v of
        None \<Rightarrow> Some \<lparr>e_seq = v_seq v, e_runId = v_run_id v, e_type = v_type v, e_nodeId = v_node_id v,
                  e_data = None, e_timestamp = v_timestamp v\<rparr>
      | Some s \<Rightarrow> map_option (\<lambda>j. \<lparr>e_seq = v_seq v, e_runId = v_run_id v, e_type = v_type v,
                  e_nodeId = v_node_id v, e_data = null_as_none (Some j), e_timestamp = v_timestamp v\<rparr>) (json_parse s))"

definition events_of_rows :: "event_row list \<Rightarrow> run_event list option" where
  "events_of_rows vs = those (map event_of_row vs)"

definition sql_event_json :: "run_event \<Rightarrow> json" where
  "sql_event_json e =
     JObj [(''seq'', JNum (num_of_nat (e_seq e))), (''runId'', JStr (e_runId e)),
           (''type'', JStr (type_str (e_type e))), (''nodeId'', str_or_null (e_nodeId e)),
           (''data'', case e_data e of None \<Rightarrow> JNull | Some d \<Rightarrow> d), (''timestamp'', JStr (e_timestamp e))]"

section \<open>Claims\<close>

definition setRunTerminal :: "sql_config \<Rightarrow> string \<Rightarrow> run_status \<Rightarrow> run_error option \<Rightarrow> string \<Rightarrow> sql_host \<Rightarrow> sql_host" where
  "setRunTerminal cfg rid st err t h =
     (let h1 = commit (updateRunStatus st (Some t) (map_option (\<lambda>e. stringify (error_json e)) err) rid (g_db h)) h
      in commit (releaseClaim rid (s_pid cfg) (g_db h1)) h1)"

definition tryClaim :: "sql_config \<Rightarrow> string \<Rightarrow> int \<Rightarrow> sql_host \<Rightarrow> bool \<times> sql_host" where
  "tryClaim cfg rid now h =
     (let (db, changes) = acquireClaim (s_pid cfg) (now + s_claim_ttl cfg) rid now (g_db h)
      in (changes = 1, commit db h))"

text \<open>One tick of the interval that \<^verbatim>\<open>startHeartbeat\<close> set up and \<^verbatim>\<open>stopHeartbeat\<close> clears.\<close>

definition heartbeat :: "sql_config \<Rightarrow> string \<Rightarrow> int \<Rightarrow> sql_host \<Rightarrow> sql_host option" where
  "heartbeat cfg rid now h =
     (if g_exec h rid = None then None
      else Some (commit (renewClaimStmt (now + s_claim_ttl cfg) rid (s_pid cfg) (g_db h)) h))"

section \<open>The executor\<close>

definition sql_status :: "string \<Rightarrow> sql_host \<Rightarrow> run_status option" where
  "sql_status rid h = map_option q_status (getRun rid (g_db h))"

definition sql_executeNode :: "string \<Rightarrow> node \<Rightarrow> json \<Rightarrow> bool \<Rightarrow> nat \<Rightarrow> string \<Rightarrow> sql_host \<Rightarrow> result" where
  "sql_executeNode rid n inputs aborted i t h =
     (if sql_status rid h = Some Cancelling then
        then_do (sql_appendEvent rid NodeCancelled (Some (n_id n)) None t)
          (\<lambda>h. (None, set_pc rid (Outcome i NCancelled) h)) h
      else then_do (sql_appendEvent rid NodeStarted (Some (n_id n)) None t)
        (if n_typeId n = ''core.noop'' then
           then_do (sql_appendEvent rid NodeCompleted (Some (n_id n)) None t)
             (\<lambda>h. (None, set_pc rid (Outcome i NCompleted) h))
         else if n_typeId n = ''core.delay'' then
           (\<lambda>h. (None, set_pc rid (sleep i (resolveInputAsNumber (map_of (n_inputs n) ''delayMs'') inputs (num_of_int 100)) aborted) h))
         else
           then_do (sql_appendEvent rid NodeFailed (Some (n_id n))
               (Some (JObj [(''code'', JStr ''unsupported_node_type''), (''typeId'', JStr (n_typeId n))])) t)
             (\<lambda>h. (None, set_pc rid (Outcome i NFailed) h))) h)"

text \<open>The event and \<^verbatim>\<open>setRunTerminal\<close> before a return of \<^verbatim>\<open>runWorkflow\<close>.\<close>

definition sql_finish :: "sql_config \<Rightarrow> string \<Rightarrow> run_status \<Rightarrow> ev_type \<Rightarrow> run_error option \<Rightarrow> string \<Rightarrow> sql_host \<Rightarrow> result" where
  "sql_finish cfg rid st ty err t =
     then_do (sql_appendEvent rid ty None (map_option error_json err) t)
       (\<lambda>h. (None, set_pc rid Halted (setRunTerminal cfg rid st err t h)))"

definition sql_loop :: "sql_config \<Rightarrow> string \<Rightarrow> executor \<Rightarrow> nat \<Rightarrow> string \<Rightarrow> sql_host \<Rightarrow> result" where
  "sql_loop cfg rid x i t h =
     (if i < length (wf_nodes (x_workflow x)) then
        (if sql_status rid h = Some Cancelling then sql_finish cfg rid Cancelled RunCancelled None t h
         else sql_executeNode rid (wf_nodes (x_workflow x) ! i) (x_inputs x) (x_aborted x) i t h)
      else if sql_status rid h = Some Cancelling then sql_finish cfg rid Cancelled RunCancelled None t h
      else sql_finish cfg rid Completed RunCompleted None t h)"

definition sql_unsupported_message :: "string \<Rightarrow> string" where
  "sql_unsupported_message ty =
     ''SQLite host does not implement node type '' @ [CHR 0x22] @ ty @ [CHR 0x22] @ ''.''"

definition sql_outcome :: "sql_config \<Rightarrow> string \<Rightarrow> executor \<Rightarrow> nat \<Rightarrow> node_outcome \<Rightarrow> string \<Rightarrow> sql_host \<Rightarrow> result" where
  "sql_outcome cfg rid x i oc t =
     (case oc of
        NFailed \<Rightarrow> sql_finish cfg rid Failed RunFailed
          (Some \<lparr>err_code = ''unsupported_node_type'',
                 err_message = sql_unsupported_message (n_typeId (wf_nodes (x_workflow x) ! i))\<rparr>) t
      | NCancelled \<Rightarrow> sql_finish cfg rid Cancelled RunCancelled None t
      | NCompleted \<Rightarrow> sql_loop cfg rid x (Suc i) t)"

text \<open>The start of the \<^verbatim>\<open>try\<close> block: \<^verbatim>\<open>run.started\<close> or \<^verbatim>\<open>run.resumed\<close>.\<close>

definition sql_begin :: "sql_config \<Rightarrow> string \<Rightarrow> executor \<Rightarrow> string \<Rightarrow> sql_host \<Rightarrow> result" where
  "sql_begin cfg rid x t h =
     (let alreadyStarted = (\<exists>v \<in> set (getEventsAfter rid (num_of_int (- 1)) (g_db h)). v_type v = RunStarted);
          h1 = commit (updateRunStatus Running None None rid (g_db h)) h
      in then_do
           (if \<not> alreadyStarted then sql_appendEvent rid RunStarted None None t
            else sql_appendEvent rid RunResumed None (Some (JObj [(''resumedBy'', JStr (s_pid cfg))])) t)
           (sql_loop cfg rid x 0 t) h1)"

text \<open>
  The \<^verbatim>\<open>catch\<close> that both \<^verbatim>\<open>runWorkflow\<close> and its callers have, and the
  \<^verbatim>\<open>finally\<close>, which a return or a throw reaches and an \<^verbatim>\<open>await\<close> does not.
\<close>

definition fail_internal :: "sql_config \<Rightarrow> string \<Rightarrow> string \<Rightarrow> string \<Rightarrow> sql_host \<Rightarrow> result" where
  "fail_internal cfg rid message t =
     (let e = \<lparr>err_code = ''internal'', err_message = message\<rparr>
      in then_do (sql_appendEvent rid RunFailed None (Some (error_json e)) t)
           (\<lambda>h. (None, setRunTerminal cfg rid Failed (Some e) t h)))"

definition drop_exec :: "string \<Rightarrow> sql_host \<Rightarrow> sql_host" where
  "drop_exec rid h = h\<lparr>g_exec := (g_exec h)(rid := None)\<rparr>"

definition halted :: "string \<Rightarrow> sql_host \<Rightarrow> bool" where
  "halted rid h \<longleftrightarrow> (case g_exec h rid of None \<Rightarrow> True | Some x \<Rightarrow> x_pc x = Halted)"

definition sql_try :: "sql_config \<Rightarrow> string \<Rightarrow> string \<Rightarrow> (sql_host \<Rightarrow> result) \<Rightarrow> sql_host \<Rightarrow> result" where
  "sql_try cfg rid t body h =
     (case body h of
        (None, h1) \<Rightarrow> (None, if halted rid h1 then drop_exec rid h1 else h1)
      | (Some m, h1) \<Rightarrow> (let (r, h2) = fail_internal cfg rid m t h1 in (r, drop_exec rid h2)))"

text \<open>\<^verbatim>\<open>void runWorkflow(runId).catch(...)\<close>: what the handler itself throws ends the process.\<close>

definition sql_catch :: "sql_config \<Rightarrow> string \<Rightarrow> string \<Rightarrow> result \<Rightarrow> sql_host" where
  "sql_catch cfg rid t res =
     (case res of
        (None, h) \<Rightarrow> h
      | (Some m, h) \<Rightarrow> (case fail_internal cfg rid m t h of
            (None, h1) \<Rightarrow> h1 | (Some m', h1) \<Rightarrow> h1\<lparr>g_crashed := True\<rparr>))"

definition sql_runWorkflow :: "sql_config \<Rightarrow> string \<Rightarrow> string \<Rightarrow> sql_host \<Rightarrow> result" where
  "sql_runWorkflow cfg rid t h =
     (case getRun rid (g_db h) of
        None \<Rightarrow> (None, h)
      | Some row \<Rightarrow>
     (case s_workflows cfg (q_workflow_id row) of
        None \<Rightarrow>
          (let e = \<lparr>err_code = ''workflow_not_found'', err_message = ''Unknown workflowId.''\<rparr>
           in then_do (sql_appendEvent rid RunFailed None (Some (error_json e)) t)
                (\<lambda>h. (None, setRunTerminal cfg rid Failed (Some e) t h)) h)
      | Some w \<Rightarrow>
     (case json_parse (q_inputs_json row) of
        None \<Rightarrow> (Some (s_parse_error cfg), h)
      | Some inputs \<Rightarrow>
          (let x = \<lparr>x_workflow = w, x_inputs = inputs, x_aborted = False, x_pc = Halted\<rparr>
           in sql_try cfg rid t (sql_begin cfg rid x t) (set_exec rid x h)))))"

definition sql_launch :: "sql_config \<Rightarrow> string \<Rightarrow> string \<Rightarrow> sql_host \<Rightarrow> sql_host" where
  "sql_launch cfg rid t h = sql_catch cfg rid t (sql_runWorkflow cfg rid t h)"

text \<open>The segments after an \<^verbatim>\<open>await\<close>, and the timer of a delay.\<close>

definition sql_segment :: "sql_config \<Rightarrow> string \<Rightarrow> string \<Rightarrow> sql_host \<Rightarrow> sql_host option" where
  "sql_segment cfg rid t h =
     (case g_exec h rid of
        None \<Rightarrow> None
      | Some x \<Rightarrow>
          (let n = (\<lambda>i. Some (n_id (wf_nodes (x_workflow x) ! i)));
               go = (\<lambda>body. Some (sql_catch cfg rid t (sql_try cfg rid t body h)))
           in case x_pc x of
                Woken i \<Rightarrow> go (then_do (sql_appendEvent rid NodeCompleted (n i) None t)
                               (\<lambda>h. (None, set_pc rid (Outcome i NCompleted) h)))
              | Aborted i \<Rightarrow> go (then_do (sql_appendEvent rid NodeCancelled (n i) None t)
                               (\<lambda>h. (None, set_pc rid (Outcome i NCancelled) h)))
              | Outcome i oc \<Rightarrow> go (sql_outcome cfg rid x i oc t)
              | _ \<Rightarrow> None))"

definition sql_timer :: "string \<Rightarrow> sql_host \<Rightarrow> sql_host option" where
  "sql_timer rid h =
     (case g_exec h rid of
        Some x \<Rightarrow> (case x_pc x of Sleeping i ms \<Rightarrow> Some (set_pc rid (Woken i) h) | _ \<Rightarrow> None)
      | None \<Rightarrow> None)"

text \<open>\<^verbatim>\<open>runningAborters.get(runId)?.abort()\<close>.\<close>

definition abort_exec :: "string \<Rightarrow> sql_host \<Rightarrow> sql_host" where
  "abort_exec rid h =
     (case g_exec h rid of
        None \<Rightarrow> h
      | Some x \<Rightarrow> set_exec rid (x\<lparr>x_aborted := True,
          x_pc := (case x_pc x of Sleeping i ms \<Rightarrow> Aborted i | p \<Rightarrow> p)\<rparr>) h)"

section \<open>Startup and shutdown\<close>

definition resume_one :: "sql_config \<Rightarrow> int \<Rightarrow> string \<Rightarrow> string \<Rightarrow> sql_host \<Rightarrow> sql_host" where
  "resume_one cfg now t rid h =
     (let (won, h1) = tryClaim cfg rid now h in if won then sql_launch cfg rid t h1 else h1)"

definition resumeOrphans :: "sql_config \<Rightarrow> int \<Rightarrow> string \<Rightarrow> sql_host \<Rightarrow> sql_host" where
  "resumeOrphans cfg now t h = fold (resume_one cfg now t) (findOrphansStmt now (g_db h)) h"

definition new_process :: "sql_db \<Rightarrow> sql_host" where
  "new_process db = \<lparr>g_db = db, g_commits = [], g_exec = Map.empty, g_subs = (\<lambda>_. []), g_crashed = False\<rparr>"

definition sql_boot :: "sql_config \<Rightarrow> int \<Rightarrow> string \<Rightarrow> sql_db \<Rightarrow> sql_host" where
  "sql_boot cfg now t db = resumeOrphans cfg now t (new_process db)"

text \<open>
  \<^verbatim>\<open>shutdown\<close>: what the aborted executors still do fails, since the database is closed
  in the same stretch of code; the claims are all that changes.
\<close>

definition shutdown :: "sql_config \<Rightarrow> sql_host \<Rightarrow> sql_db" where
  "shutdown cfg h = releaseAllClaims (s_pid cfg) (g_db h)"

section \<open>Handlers\<close>

type_synonym sql_reply = "(string + reply) \<times> sql_host"

definition sql_handleDiscovery :: reply where
  "sql_handleDiscovery =
     sendJSON 200 (discovery_payload ''wop-host-sqlite'') [(''Cache-Control'', ''public, max-age=300'')]"

definition sql_openapi_op :: "string \<Rightarrow> string \<Rightarrow> string \<Rightarrow> json" where
  "sql_openapi_op verb code desc =
     JObj [(verb, JObj [(''responses'', JObj [(code, JObj [(''description'', JStr desc)])])])]"

definition sql_handleOpenApi :: reply where
  "sql_handleOpenApi = sendJSON 200 (JObj [
     (''openapi'', JStr ''3.1.0''),
     (''info'', JObj [(''title'', JStr ''WOP SQLite reference host''), (''version'', JStr ''0.1.0'')]),
     (''paths'', JObj [
        (''/.well-known/wop'', sql_openapi_op ''get'' ''200'' ''OK''),
        (''/v1/runs'', sql_openapi_op ''post'' ''201'' ''Created''),
        (''/v1/runs/{runId}'', sql_openapi_op ''get'' ''200'' ''OK''),
        (''/v1/runs/{runId}/cancel'', sql_openapi_op ''post'' ''200'' ''OK''),
        (''/v1/runs/{runId}/events'', sql_openapi_op ''get'' ''200'' ''OK''),
        (''/v1/runs/{runId}/events/poll'', sql_openapi_op ''get'' ''200'' ''OK''),
        (''/v1/runs/{runId}/debug-bundle'', sql_openapi_op ''get'' ''200'' ''OK'')])]) []"

definition sql_createRun :: "sql_config \<Rightarrow> env \<Rightarrow> string \<Rightarrow> json \<Rightarrow> string option \<Rightarrow> string \<Rightarrow> sql_host \<Rightarrow> sql_reply" where
  "sql_createRun cfg en wid inputs idempotencyKey bodyHash h =
     (let runId = new_run_id en;
          responseText = stringify (created_body runId wid (iso en))
      in case insertRun runId wid Pending (stringify inputs) (iso en) (g_db h) of
           Inl m \<Rightarrow> (Inl m, h)
         | Inr db \<Rightarrow>
      (let h1 = commit db h;
           stored = (case idempotencyKey of
               None \<Rightarrow> Inr h1
             | Some key \<Rightarrow>
                 (case insertIdempotency (buildIdempotencyCacheKey (s_sha256 cfg) ''POST /v1/runs'' key)
                    \<lparr>d_status = 201, d_body = responseText, d_body_hash = bodyHash, d_stored_at = now_ms en\<rparr>
                    (t_idem (g_db h1)) of
                    Inl m \<Rightarrow> Inl m
                  | Inr rows \<Rightarrow> Inr (commit ((g_db h1)\<lparr>t_idem := rows\<rparr>) h1)))
       in case stored of
            Inl m \<Rightarrow> (Inl m, h1)
          | Inr h2 \<Rightarrow>
              (Inr (sendText 201 ''application/json'' responseText
                      [(''WOP-Idempotent-Replay'', if idempotencyKey \<noteq> None then ''false'' else [])]),
               resume_one cfg (now_ms en) (iso en) runId h2)))"

definition sql_handleCreateRun :: "sql_config \<Rightarrow> env \<Rightarrow> request \<Rightarrow> sql_host \<Rightarrow> sql_reply" where
  "sql_handleCreateRun cfg en rq h =
     (case check_create (s_api_key cfg) (s_workflows cfg) rq of
        Throws msg \<Rightarrow> (Inl msg, h)
      | Rejects rep \<Rightarrow> (Inr rep, h)
      | Accepts wid inputs \<Rightarrow>
          (let incomingBodyHash = hashBody (s_sha256 cfg) (rq_body rq)
           in case rq_headers rq ''idempotency-key'' of
                None \<Rightarrow> sql_createRun cfg en wid inputs None incomingBodyHash h
              | Some key \<Rightarrow>
                  (let h1 = commit ((g_db h)\<lparr>t_idem := pruneIdempotency (now_ms en) (t_idem (g_db h))\<rparr>) h
                   in case getIdempotency (buildIdempotencyCacheKey (s_sha256 cfg) ''POST /v1/runs'' key) (t_idem (g_db h1)) of
                        Some cached \<Rightarrow>
                          if d_body_hash cached \<noteq> incomingBodyHash then
                            (Inr (sendError 409 ''idempotency_key_conflict''
                               ''Idempotency-Key reused with a different request body.''), h1)
                          else (Inr (sendText (d_status cached) ''application/json'' (d_body cached)
                                       [(''WOP-Idempotent-Replay'', ''true'')]), h1)
                      | None \<Rightarrow> sql_createRun cfg en wid inputs (Some key) incomingBodyHash h1)))"

definition sql_with_run :: "sql_config \<Rightarrow> request \<Rightarrow> sql_host \<Rightarrow> string \<Rightarrow> (run_row \<Rightarrow> sql_reply) \<Rightarrow> sql_reply" where
  "sql_with_run cfg rq h rid k =
     (case checkAuth (s_api_key cfg) rq of
        Some err \<Rightarrow> (Inr err, h)
      | None \<Rightarrow> (case getRun rid (g_db h) of None \<Rightarrow> (Inr (run_not_found rid), h) | Some r \<Rightarrow> k r))"

text \<open>\<^verbatim>\<open>row.error_json ? { error: JSON.parse(row.error_json) } : {}\<close>: the outer option is the throw.\<close>

definition error_field :: "run_row \<Rightarrow> json option option" where
  "error_field r =
     (case q_error_json r of
        None \<Rightarrow> Some None
      | Some s \<Rightarrow> if s = [] then Some None else map_option Some (json_parse s))"

definition sql_handleGetRun :: "sql_config \<Rightarrow> request \<Rightarrow> string \<Rightarrow> sql_host \<Rightarrow> sql_reply" where
  "sql_handleGetRun cfg rq rid h =
     sql_with_run cfg rq h rid (\<lambda>r.
       case json_parse (q_inputs_json r) of
         None \<Rightarrow> (Inl (s_parse_error cfg), h)
       | Some inputs \<Rightarrow>
           (case error_field r of
              None \<Rightarrow> (Inl (s_parse_error cfg), h)
            | Some err \<Rightarrow>
                (Inr (sendJSON 200 (JObj ([(''runId'', JStr (q_run_id r)), (''workflowId'', JStr (q_workflow_id r)),
                   (''status'', JStr (status_str (q_status r))), (''inputs'', inputs),
                   (''startedAt'', JStr (q_started_at r)), (''endedAt'', str_or_null (q_ended_at r))] @
                   opt_field ''error'' err)) []), h)))"

definition sql_handleCancelRun :: "sql_config \<Rightarrow> request \<Rightarrow> string \<Rightarrow> sql_host \<Rightarrow> sql_reply" where
  "sql_handleCancelRun cfg rq rid h =
     sql_with_run cfg rq h rid (\<lambda>r.
       if is_terminal (q_status r) then
         (Inr (sendJSON 200 (JObj [(''runId'', JStr rid), (''status'', JStr (status_str (q_status r))),
                                   (''alreadyTerminal'', JBool True)]) []), h)
       else (Inr (sendJSON 200 (JObj [(''runId'', JStr rid), (''status'', JStr ''cancelling'')]) []),
             abort_exec rid (commit (setCancelRequested rid (g_db h)) h)))"

definition sql_handleEventsPoll :: "sql_config \<Rightarrow> request \<Rightarrow> string \<Rightarrow> sql_host \<Rightarrow> sql_reply" where
  "sql_handleEventsPoll cfg rq rid h =
     sql_with_run cfg rq h rid (\<lambda>r.
       let since = since_param rq
       in case events_of_rows (getEventsAfter rid since (g_db h)) of
            None \<Rightarrow> (Inl (s_parse_error cfg), h)
          | Some evs \<Rightarrow> (Inr (sendJSON 200 (poll_body sql_event_json rid evs since (q_status r)) []), h))"

text \<open>When a row does not parse, the headers are out already and the server ends the stream.\<close>

definition sql_handleEventsSse :: "sql_config \<Rightarrow> request \<Rightarrow> string \<Rightarrow> sql_host \<Rightarrow> sql_reply" where
  "sql_handleEventsSse cfg rq rid h =
     sql_with_run cfg rq h rid (\<lambda>r.
       case events_of_rows (getEventsAfter rid (resume_after rq) (g_db h)) of
         None \<Rightarrow> (Inr (Stream sse_headers), h)
       | Some backlog \<Rightarrow>
           (Inr (Stream sse_headers),
            h\<lparr>g_subs := (g_subs h)(rid := g_subs h rid @
                 [\<lparr>s_after = resume_after rq, s_out = backlog, s_ended = is_terminal (q_status r),
                   s_listening = \<not> is_terminal (q_status r)\<rparr>])\<rparr>))"

definition sql_handleDebugBundle :: "sql_config \<Rightarrow> env \<Rightarrow> request \<Rightarrow> string \<Rightarrow> sql_host \<Rightarrow> sql_reply" where
  "sql_handleDebugBundle cfg en rq rid h =
     sql_with_run cfg rq h rid (\<lambda>r.
       case error_field r of
         None \<Rightarrow> (Inl (s_parse_error cfg), h)
       | Some err \<Rightarrow>
           (case events_of_rows (getEventsAfter rid (num_of_int (- 1)) (g_db h)) of
              None \<Rightarrow> (Inl (s_parse_error cfg), h)
            | Some evs \<Rightarrow>
                (Inr (sendJSON 200 (debug_bundle ''wop-host-sqlite'' (iso en) (q_run_id r) (q_workflow_id r)
                        (q_status r) (q_started_at r) (q_ended_at r) err evs) [(''Cache-Control'', ''no-store'')]), h)))"

definition sql_client_closes :: "string \<Rightarrow> nat \<Rightarrow> sql_host \<Rightarrow> sql_host" where
  "sql_client_closes rid j h =
     h\<lparr>g_subs := (g_subs h)(rid := (if j < length (g_subs h rid)
        then (g_subs h rid)[j := (g_subs h rid ! j)\<lparr>s_listening := False\<rparr>] else g_subs h rid))\<rparr>"

section \<open>Router and server\<close>

definition sql_route :: "sql_config \<Rightarrow> env \<Rightarrow> request \<Rightarrow> sql_host \<Rightarrow> sql_reply" where
  "sql_route cfg en rq h =
     (case rq_path rq of
        None \<Rightarrow> (Inl ''Invalid URL'', h)
      | Some path \<Rightarrow>
          (let get = (rq_method rq = ''GET''); post = (rq_method rq = ''POST'') in
           if get \<and> path = ''/.well-known/wop'' then (Inr sql_handleDiscovery, h)
           else if get \<and> path = ''/v1/openapi.json'' then (Inr sql_handleOpenApi, h)
           else if post \<and> path = ''/v1/runs'' then sql_handleCreateRun cfg en rq h
           else
             on_match (RUN_EVENTS_POLL_PATTERN path) get (\<lambda>x. sql_handleEventsPoll cfg rq x h)
             (on_match (RUN_EVENTS_SSE_PATTERN path) get (\<lambda>x. sql_handleEventsSse cfg rq x h)
             (on_match (RUN_DEBUG_BUNDLE_PATTERN path) get (\<lambda>x. sql_handleDebugBundle cfg en rq x h)
             (on_match (RUN_CANCEL_PATTERN path) post (\<lambda>x. sql_handleCancelRun cfg rq x h)
             (on_match (RUN_ID_PATTERN path) get (\<lambda>x. sql_handleGetRun cfg rq x h)
             (Inr (sendError 404 ''not_found'' (''No route for '' @ rq_method rq @ '' '' @ path)), h)))))))"

definition sql_serve :: "sql_config \<Rightarrow> env \<Rightarrow> request \<Rightarrow> sql_host \<Rightarrow> reply \<times> sql_host" where
  "sql_serve cfg en rq h =
     (case sql_route cfg en rq h of
        (Inl message, h1) \<Rightarrow> (sendError 500 ''internal'' message, h1)
      | (Inr rep, h1) \<Rightarrow> (rep, h1))"

end
