(* ===== verification/SqlSpec.thy ===== *)
theory SqlSpec
  imports SqlHost "HOL-Library.Sublist"
begin

text \<open>
  What the SQLite host promises of its database, whenever a process may be killed: the
  specification of a run's log as a sequence of sessions, one per process that executed the
  run, each a beginning of a complete log, and the last one complete when the run's status
  is terminal. Every statement the host makes keeps the invariant \<open>db_ok\<close>.
\<close>

section \<open>Sessions\<close>

definition session_ok :: "node list \<Rightarrow> shape list \<Rightarrow> bool" where
  "session_ok ns l \<longleftrightarrow> l \<noteq> [] \<and> (\<exists>st f. final_log ns st f \<and> prefix l f)"

text \<open>The log of a run: its sessions, all but the first opened by \<^verbatim>\<open>run.resumed\<close>.\<close>

definition resumed :: "shape list \<Rightarrow> shape list" where
  "resumed l = (RunResumed, None) # tl l"

fun joined :: "shape list list \<Rightarrow> shape list" where
  "joined [] = []"
| "joined (l # ls) = l @ concat (map resumed ls)"

lemma joined_snoc: "joined (ls @ [l]) = joined ls @ (if ls = [] then l else resumed l)"
  by (cases ls) simp_all

lemma joined_snoc_append: "l \<noteq> [] \<Longrightarrow> joined (ls @ [l @ [x]]) = joined (ls @ [l]) @ [x]"
  by (cases l) (simp_all add: joined_snoc resumed_def)

lemma final_log_hd: "final_log ns st f \<Longrightarrow> f \<noteq> [] \<and> hd f = (RunStarted, None)"
  by (cases st) (auto simp: final_log_def completed_log_def failed_log_def cancelled_log_def log_upto_def)

lemma session_hd: "session_ok ns l \<Longrightarrow> hd l = (RunStarted, None)"
  by (auto simp: session_ok_def prefix_def dest!: final_log_hd)

lemma session_final: "final_log ns st l \<Longrightarrow> session_ok ns l"
  using final_log_hd by (auto simp: session_ok_def)

lemma session_prefix: "session_ok ns (l @ m) \<Longrightarrow> l \<noteq> [] \<Longrightarrow> session_ok ns l"
  by (auto simp: session_ok_def intro: append_prefixD)

lemma session_upto: "i \<le> length ns \<Longrightarrow> all_supported ns i \<Longrightarrow> session_ok ns (log_upto ns i)"
proof -
  assume "i \<le> length ns" "all_supported ns i"
  then have "final_log ns Cancelled (log_upto ns i @ [(RunCancelled, None)])"
    by (auto simp: final_log_def cancelled_log_def)
  then show ?thesis by (rule session_prefix [OF session_final]) (simp add: log_upto_def)
qed

text \<open>The session of an executor that waits at \<open>pc\<close>.\<close>

definition pc_log :: "node list \<Rightarrow> pc \<Rightarrow> shape list \<Rightarrow> bool" where
  "pc_log ns p l \<longleftrightarrow>
     (case p of
        Sleeping i ms \<Rightarrow> i < length ns \<and> all_supported ns i \<and> is_delay (ns ! i) \<and>
          l = log_upto ns i @ [(NodeStarted, Some (n_id (ns ! i)))]
      | Woken i \<Rightarrow> i < length ns \<and> all_supported ns i \<and> is_delay (ns ! i) \<and>
          l = log_upto ns i @ [(NodeStarted, Some (n_id (ns ! i)))]
      | Aborted i \<Rightarrow> i < length ns \<and> all_supported ns i \<and> is_delay (ns ! i) \<and>
          l = log_upto ns i @ [(NodeStarted, Some (n_id (ns ! i)))]
      | Outcome i NCompleted \<Rightarrow> i < length ns \<and> all_supported ns (Suc i) \<and> l = log_upto ns (Suc i)
      | Outcome i NCancelled \<Rightarrow> i < length ns \<and> all_supported ns i \<and> is_delay (ns ! i) \<and>
          l = log_upto ns i @ [(NodeStarted, Some (n_id (ns ! i))), (NodeCancelled, Some (n_id (ns ! i)))]
      | Outcome i NFailed \<Rightarrow> i < length ns \<and> all_supported ns i \<and> \<not> supported (ns ! i) \<and>
          l = log_upto ns i @ [(NodeStarted, Some (n_id (ns ! i))), (NodeFailed, Some (n_id (ns ! i)))]
      | Halted \<Rightarrow> False)"

lemma delay_supported: "is_delay n \<Longrightarrow> supported n"
  by (simp add: is_delay_def supported_def)

lemma final_cancelled_node:
  assumes "i < length ns" and "all_supported ns i" and "is_delay (ns ! i)"
  shows "final_log ns Cancelled (log_upto ns i @ [(NodeStarted, Some (n_id (ns ! i))),
    (NodeCancelled, Some (n_id (ns ! i))), (RunCancelled, None)])"
  unfolding final_log_def run_status.case cancelled_log_def
  using assms by (intro exI [of _ i]) simp

lemma final_failed_node:
  assumes "i < length ns" and "all_supported ns i" and "\<not> supported (ns ! i)"
  shows "final_log ns Failed (log_upto ns i @ [(NodeStarted, Some (n_id (ns ! i))),
    (NodeFailed, Some (n_id (ns ! i))), (RunFailed, None)])"
  unfolding final_log_def run_status.case failed_log_def
  using assms by (intro exI [of _ i]) simp

lemma session_cancelled_node:
  assumes "i < length ns" and "all_supported ns i" and "is_delay (ns ! i)"
  shows "session_ok ns (log_upto ns i @ [(NodeStarted, Some (n_id (ns ! i))), (NodeCancelled, Some (n_id (ns ! i)))])"
  by (rule session_prefix [of _ _ "[(RunCancelled, None)]"]) (use session_final [OF final_cancelled_node [OF assms]] in \<open>simp_all\<close>)

lemma session_failed_node:
  assumes "i < length ns" and "all_supported ns i" and "\<not> supported (ns ! i)"
  shows "session_ok ns (log_upto ns i @ [(NodeStarted, Some (n_id (ns ! i))), (NodeFailed, Some (n_id (ns ! i)))])"
  by (rule session_prefix [of _ _ "[(RunFailed, None)]"]) (use session_final [OF final_failed_node [OF assms]] in \<open>simp_all\<close>)

lemma session_started:
  assumes "i < length ns" and "all_supported ns i"
  shows "session_ok ns (log_upto ns i @ [(NodeStarted, Some (n_id (ns ! i)))])"
proof (cases "supported (ns ! i)")
  case True
  with assms have "session_ok ns (log_upto ns (Suc i))"
    by (intro session_upto) (simp_all add: all_supported_Suc)
  with assms session_prefix [of ns _ "[(NodeCompleted, Some (n_id (ns ! i)))]"] show ?thesis
    by (simp add: log_upto_Suc node_done_def)
next
  case False
  show ?thesis
    by (rule session_prefix [of _ _ "[(NodeFailed, Some (n_id (ns ! i)))]"])
       (simp_all add: session_failed_node assms False)
qed

lemma pc_log_session: "pc_log ns p l \<Longrightarrow> session_ok ns l"
  by (cases p) (auto simp: pc_log_def intro: session_started session_upto session_cancelled_node session_failed_node
      split: node_outcome.splits)

section \<open>The invariant of the database\<close>

definition shapes_of :: "string \<Rightarrow> sql_db \<Rightarrow> shape list" where
  "shapes_of rid db = map (\<lambda>v. (v_type v, v_node_id v)) (rows_of rid db)"

text \<open>The error column holds what \<^verbatim>\<open>setRunTerminal\<close> prints, or nothing.\<close>

definition error_ok :: "run_row \<Rightarrow> bool" where
  "error_ok r \<longleftrightarrow> q_error_json r = None \<or> (\<exists>e. q_error_json r = Some (stringify (error_json e)))"

lemma error_ok_field: "error_ok r \<Longrightarrow> \<exists>e. error_field r = Some (map_option error_json e)"
proof (unfold error_ok_def, elim disjE exE)
  fix e
  assume "q_error_json r = Some (stringify (error_json e))"
  moreover have "stringify (error_json e) \<noteq> []" by (simp add: error_json_def)
  ultimately show ?thesis by (intro exI [of _ "Some e"]) (simp add: error_field_def json_roundtrip)
qed (intro exI [of _ None], simp add: error_field_def)

definition run_row_ok :: "(string \<rightharpoonup> workflow) \<Rightarrow> run_row \<Rightarrow> shape list \<Rightarrow> bool" where
  "run_row_ok ws r l \<longleftrightarrow>
     json_parse (q_inputs_json r) \<noteq> None \<and> error_ok r \<and> q_status r \<noteq> WaitingApproval \<and>
     (\<exists>w. ws (q_workflow_id r) = Some w \<and>
       (\<exists>ls. l = joined ls \<and> list_all (session_ok (wf_nodes w)) ls \<and>
          (is_terminal (q_status r) \<longrightarrow> ls \<noteq> [] \<and> final_log (wf_nodes w) (q_status r) (last ls))))"

definition db_ok :: "(string \<rightharpoonup> workflow) \<Rightarrow> sql_db \<Rightarrow> bool" where
  "db_ok ws db \<longleftrightarrow>
     keys_ok db \<and> (\<forall>v \<in> set (t_events db). event_of_row v \<noteq> None) \<and>
     (\<forall>rid r. getRun rid db = Some r \<longrightarrow> run_row_ok ws r (shapes_of rid db))"

lemma shapes_of_events: "t_events db' = t_events db \<Longrightarrow> shapes_of rid db' = shapes_of rid db"
  by (simp add: shapes_of_def rows_of_def)

lemma shapes_of_append [simp]:
  "shapes_of rid (db\<lparr>t_events := t_events db @ [v]\<rparr>) =
     shapes_of rid db @ (if v_run_id v = rid then [(v_type v, v_node_id v)] else [])"
  by (simp add: shapes_of_def rows_of_def)

lemma getRun_tables [simp]:
  "getRun rid (db\<lparr>t_events := es\<rparr>) = getRun rid db" "getRun rid (db\<lparr>t_idem := is\<rparr>) = getRun rid db"
  by (simp_all add: getRun_def)

lemma db_ok_empty [simp]: "db_ok ws empty_db"
  by (simp add: db_ok_def keys_ok_def empty_db_def getRun_def find_run_def rows_of_def)

text \<open>An event of an existing run, numbered by the count.\<close>

lemma db_ok_append:
  assumes "db_ok ws db" and "getRun rid db = Some r" and "v_run_id v = rid" and "v_seq v = countEvents rid db"
    and "event_of_row v \<noteq> None" and "run_row_ok ws r (shapes_of rid db @ [(v_type v, v_node_id v)])"
  shows "db_ok ws (db\<lparr>t_events := t_events db @ [v]\<rparr>)"
proof -
  let ?db = "db\<lparr>t_events := t_events db @ [v]\<rparr>"
  have rows: "rows_of rid' ?db = rows_of rid' db @ (if rid' = rid then [v] else [])" for rid'
    using assms(3) by (simp add: rows_of_def)
  have "map v_seq (rows_of rid' ?db) = [0..<length (rows_of rid' ?db)]" for rid'
    using assms(1,4) by (auto simp: rows countEvents_def db_ok_def keys_ok_def)
  then have "keys_ok ?db"
    using assms(1-3) by (auto simp: db_ok_def keys_ok_def)
  with assms show ?thesis by (auto simp: db_ok_def)
qed

text \<open>An update of one run that keeps its key.\<close>

lemma keys_ok_update_run:
  assumes "keys_ok db" and "\<And>r. q_run_id (f r) = q_run_id r"
  shows "keys_ok (update_run rid f db)"
proof -
  have "map q_run_id (t_runs (update_run rid f db)) = map q_run_id (t_runs db)"
    using assms(2) by (simp add: update_run_def)
  moreover have "rows_of rid' (update_run rid f db) = rows_of rid' db" for rid'
    by (rule rows_of_events) (simp add: sql_simps)
  ultimately show ?thesis
    using assms by (auto simp: keys_ok_def getRun_update_run sql_simps)
qed

lemma db_ok_update_run:
  assumes "db_ok ws db" and "\<And>r. q_run_id (f r) = q_run_id r"
    and "\<And>r. getRun rid db = Some r \<Longrightarrow> run_row_ok ws (f r) (shapes_of rid db)"
  shows "db_ok ws (update_run rid f db)"
proof -
  have "shapes_of rid' (update_run rid f db) = shapes_of rid' db" for rid'
    by (rule shapes_of_events) (simp add: sql_simps)
  with assms show ?thesis
    by (auto simp: db_ok_def keys_ok_update_run getRun_update_run sql_simps)
qed

lemma run_row_ok_cong:
  assumes "run_row_ok ws r l" and "q_workflow_id r' = q_workflow_id r" and "q_inputs_json r' = q_inputs_json r"
    and "error_ok r'" and "q_status r' = q_status r \<or> q_status r' = Cancelling"
  shows "run_row_ok ws r' l"
proof -
  from assms(1) obtain w ls where w: "ws (q_workflow_id r) = Some w" "l = joined ls"
    "list_all (session_ok (wf_nodes w)) ls"
    "is_terminal (q_status r) \<longrightarrow> ls \<noteq> [] \<and> final_log (wf_nodes w) (q_status r) (last ls)"
    by (auto simp: run_row_ok_def)
  moreover from w(4) assms(5)
  have "is_terminal (q_status r') \<longrightarrow> ls \<noteq> [] \<and> final_log (wf_nodes w) (q_status r') (last ls)" by auto
  moreover have "json_parse (q_inputs_json r) \<noteq> None" "q_status r' \<noteq> WaitingApproval"
    using assms(1,5) by (auto simp: run_row_ok_def)
  ultimately show ?thesis
    unfolding run_row_ok_def assms(2,3) using assms(4) by blast
qed

text \<open>The statements that touch claims, the cancel flag, or start a session.\<close>

lemma error_ok_update [simp]:
  "error_ok (r\<lparr>q_status := s\<rparr>) = error_ok r" "error_ok (r\<lparr>q_claim_holder := h\<rparr>) = error_ok r"
  "error_ok (r\<lparr>q_claim_expires := e\<rparr>) = error_ok r" "error_ok (r\<lparr>q_ended_at := t\<rparr>) = error_ok r"
  "error_ok (r\<lparr>q_error_json := None\<rparr>)" "error_ok (r\<lparr>q_error_json := map_option (\<lambda>e. stringify (error_json e)) err\<rparr>)"
  by (simp_all add: error_ok_def) (cases err; auto)

lemma db_ok_run: "db_ok ws db \<Longrightarrow> getRun rid db = Some r \<Longrightarrow> run_row_ok ws r (shapes_of rid db)"
  by (simp add: db_ok_def)

lemma db_ok_keep:
  assumes "db_ok ws db"
    and "\<And>r. q_run_id (f r) = q_run_id r \<and> q_workflow_id (f r) = q_workflow_id r \<and> q_inputs_json (f r) = q_inputs_json r \<and>
      q_error_json (f r) = q_error_json r \<and> (q_status (f r) = q_status r \<or> q_status (f r) = Cancelling)"
  shows "db_ok ws (update_run rid f db)"
proof (rule db_ok_update_run [OF assms(1)])
  fix r
  assume "getRun rid db = Some r"
  note ok = db_ok_run [OF assms(1) this]
  have "error_ok (f r) = error_ok r" using assms(2) by (simp add: error_ok_def)
  with ok have "error_ok (f r)" by (simp add: run_row_ok_def)
  with ok assms(2) show "run_row_ok ws (f r) (shapes_of rid db)"
    by (intro run_row_ok_cong [OF ok]) auto
qed (use assms(2) in auto)

lemma db_ok_claims:
  assumes "db_ok ws db"
  shows "db_ok ws (fst (acquireClaim h ex rid now db))" "db_ok ws (releaseClaim rid h db)"
    "db_ok ws (renewClaimStmt ex rid h db)" "db_ok ws (setCancelRequested rid db)"
  unfolding acquireClaim_def fst_conv releaseClaim_def renewClaimStmt_def setCancelRequested_def
  by (rule db_ok_keep [OF assms], simp)+

lemma db_ok_updateRunStatus:
  assumes "db_ok ws db"
    and "\<And>r. getRun rid db = Some r \<Longrightarrow> run_row_ok ws (r\<lparr>q_status := st, q_ended_at := en, q_error_json := er\<rparr>) (shapes_of rid db)"
  shows "db_ok ws (updateRunStatus st en er rid db)"
  unfolding updateRunStatus_def by (rule db_ok_update_run [OF assms(1)]) (simp_all add: assms(2))

lemma db_ok_releaseAll:
  assumes "db_ok ws db"
  shows "db_ok ws (releaseAllClaims h db)"
proof -
  have ids: "map q_run_id (t_runs (releaseAllClaims h db)) = map q_run_id (t_runs db)"
    by (simp add: releaseAllClaims_def)
  have rows: "rows_of rid (releaseAllClaims h db) = rows_of rid db" "shapes_of rid (releaseAllClaims h db) = shapes_of rid db" for rid
    by (rule rows_of_events shapes_of_events, simp add: sql_simps)+
  have "run_row_ok ws r' (shapes_of rid db)" if "getRun rid (releaseAllClaims h db) = Some r'" for rid r'
  proof -
    from that obtain r where r: "getRun rid db = Some r"
      "r' = (if q_claim_holder r = Some h then r\<lparr>q_claim_holder := None\<rparr> else r)"
      unfolding getRun_releaseAll map_option_eq_Some by blast
    have ok: "run_row_ok ws r (shapes_of rid db)" by (rule db_ok_run [OF assms r(1)])
    then have "error_ok r" by (simp add: run_row_ok_def)
    with r(2) show ?thesis by (intro run_row_ok_cong [OF ok]) auto
  qed
  moreover have "keys_ok (releaseAllClaims h db)"
    using assms by (auto simp: db_ok_def keys_ok_def ids rows getRun_releaseAll sql_simps)
  ultimately show ?thesis
    using assms by (simp add: db_ok_def rows sql_simps)
qed

lemma db_ok_idem: "db_ok ws db \<Longrightarrow> distinct (map fst rows) \<Longrightarrow> db_ok ws (db\<lparr>t_idem := rows\<rparr>)"
  by (simp add: db_ok_def keys_ok_def rows_of_def shapes_of_def)

lemma db_ok_insertRun:
  assumes "db_ok ws db" and "insertRun rid wid Pending (stringify inputs) t db = Inr db'"
    and "ws wid \<noteq> None" and "json_parse (stringify inputs) \<noteq> None"
  shows "db_ok ws db'"
proof -
  let ?r = "\<lparr>q_run_id = rid, q_workflow_id = wid, q_status = Pending, q_inputs_json = stringify inputs,
    q_started_at = t, q_ended_at = None, q_error_json = None, q_claim_holder = None, q_claim_expires = None\<rparr>"
  from assms(2) have new: "getRun rid db = None" and db': "db' = db\<lparr>t_runs := t_runs db @ [?r]\<rparr>"
    by (auto simp: insertRun_def getRun_def split: if_splits)
  have get: "getRun rid' db' = (if rid' = rid then Some ?r else getRun rid' db)" for rid'
  proof -
    have "find_run rid' (rs @ [?r]) = (if rid' = rid then Some ?r else find_run rid' rs)" if "find_run rid rs = None" for rs
      using that by (induction rs) (auto simp: find_run_def split: if_splits)
    with new show ?thesis by (simp add: db' getRun_def)
  qed
  have ids: "rid \<notin> q_run_id ` set (t_runs db)"
    using new by (auto simp: getRun_def find_run_def find_None_iff)
  have rows: "rows_of rid' db' = rows_of rid' db" "shapes_of rid' db' = shapes_of rid' db" for rid'
    by (simp_all add: db' rows_of_def shapes_of_def)
  have "rows_of rid db = []"
    using assms(1) new by (auto simp: db_ok_def keys_ok_def rows_of_def filter_empty_conv)
  then have "shapes_of rid db = []" by (simp add: shapes_of_def)
  moreover obtain w where "ws wid = Some w" using assms(3) by blast
  ultimately have "run_row_ok ws ?r (shapes_of rid db)"
    using assms(4) by (auto simp: run_row_ok_def error_ok_def intro!: exI [of _ "[]"])
  with assms(1) ids rows get show ?thesis
    by (auto simp: db_ok_def keys_ok_def) (auto simp: db')
qed

end
