(* ===== verification/SqlExec.thy ===== *)
theory SqlExec
  imports SqlSpec
begin

text \<open>
  The executor of the SQLite host keeps the specification: each stretch of its code, run in
  a process whose executors are where \<open>exec_ok\<close> says, ends without an exception in such a
  process again, and every state the database goes through meanwhile is one from which a
  restarted host can go on (\<open>tracked\<close>).
\<close>

section \<open>How the database evolves\<close>

definition fixed_cols :: "run_row \<Rightarrow> string \<times> string \<times> string" where
  "fixed_cols r = (q_workflow_id r, q_inputs_json r, q_started_at r)"

definition unclaimed :: "run_row \<Rightarrow> run_row" where
  "unclaimed r = r\<lparr>q_claim_holder := None, q_claim_expires := None\<rparr>"

text \<open>Runs stay, their logs grow, and a terminal run changes in its claim at most.\<close>

definition row_evolves :: "run_row \<times> event_row list \<Rightarrow> run_row \<times> event_row list \<Rightarrow> bool" where
  "row_evolves a b \<longleftrightarrow>
     fixed_cols (fst b) = fixed_cols (fst a) \<and> prefix (snd a) (snd b) \<and>
     (is_terminal (q_status (fst a)) \<longrightarrow> snd b = snd a \<and> unclaimed (fst b) = unclaimed (fst a))"

definition run_view :: "string \<Rightarrow> sql_db \<Rightarrow> (run_row \<times> event_row list) option" where
  "run_view rid db = map_option (\<lambda>r. (r, rows_of rid db)) (getRun rid db)"

definition db_evolves :: "sql_db \<Rightarrow> sql_db \<Rightarrow> bool" where
  "db_evolves db db' \<longleftrightarrow>
     (\<forall>rid a. run_view rid db = Some a \<longrightarrow> (\<exists>b. run_view rid db' = Some b \<and> row_evolves a b))"

lemma row_evolves_refl [simp]: "row_evolves a a"
  by (simp add: row_evolves_def)

lemma row_evolves_trans:
  assumes "row_evolves a b" and "row_evolves b c"
  shows "row_evolves a c"
proof -
  have "q_status (fst b) = q_status (fst a)" if "unclaimed (fst b) = unclaimed (fst a)"
    using arg_cong [OF that, of q_status] by (simp add: unclaimed_def)
  with assms show ?thesis by (auto simp: row_evolves_def)
qed

lemma db_evolves_refl [simp]: "db_evolves db db"
  by (auto simp: db_evolves_def)

lemma db_evolves_trans: "db_evolves a b \<Longrightarrow> db_evolves b c \<Longrightarrow> db_evolves a c"
  unfolding db_evolves_def by (meson row_evolves_trans)

lemma db_evolves_append:
  assumes "getRun (v_run_id v) db = Some r" and "\<not> is_terminal (q_status r)"
  shows "db_evolves db (db\<lparr>t_events := t_events db @ [v]\<rparr>)"
proof -
  have "rows_of rid (db\<lparr>t_events := t_events db @ [v]\<rparr>) = rows_of rid db @ (if v_run_id v = rid then [v] else [])" for rid
    by (simp add: rows_of_def)
  with assms show ?thesis by (auto simp: db_evolves_def run_view_def row_evolves_def)
qed

lemma db_evolves_update:
  assumes "\<And>r. q_run_id (f r) = q_run_id r"
    and "\<And>r. getRun rid db = Some r \<Longrightarrow>
      fixed_cols (f r) = fixed_cols r \<and> (is_terminal (q_status r) \<longrightarrow> unclaimed (f r) = unclaimed r)"
  shows "db_evolves db (update_run rid f db)"
proof -
  have "rows_of rid' (update_run rid f db) = rows_of rid' db" for rid'
    by (rule rows_of_events) (simp add: sql_simps)
  with assms(2) show ?thesis
    by (auto simp: db_evolves_def run_view_def row_evolves_def getRun_update_run [of f, OF assms(1)])
qed

lemma db_evolves_claims:
  "db_evolves db (fst (acquireClaim h ex rid now db))" "db_evolves db (releaseClaim rid h db)"
  "db_evolves db (renewClaimStmt ex rid h db)" "db_evolves db (setCancelRequested rid db)"
  unfolding acquireClaim_def fst_conv releaseClaim_def renewClaimStmt_def setCancelRequested_def
  by (rule db_evolves_update; simp add: fixed_cols_def unclaimed_def)+

lemma db_evolves_releaseAll: "db_evolves db (releaseAllClaims h db)"
proof -
  have "rows_of rid (releaseAllClaims h db) = rows_of rid db" for rid
    by (rule rows_of_events) (simp add: sql_simps)
  then show ?thesis
    by (auto simp: db_evolves_def run_view_def getRun_releaseAll row_evolves_def fixed_cols_def unclaimed_def)
qed

lemma db_evolves_idem: "db_evolves db (db\<lparr>t_idem := rows\<rparr>)"
  by (simp add: db_evolves_def run_view_def rows_of_def)

lemma db_evolves_insertRun: "insertRun rid wid st inputs t db = Inr db' \<Longrightarrow> db_evolves db db'"
  by (auto simp: insertRun_def db_evolves_def run_view_def rows_of_def getRun_def find_run_def
      find_Some_iff find_None_iff nth_append split: if_splits) (metis less_SucI row_evolves_refl)

section \<open>Tracked states\<close>

definition tracked :: "sql_config \<Rightarrow> sql_db \<Rightarrow> sql_host \<Rightarrow> bool" where
  "tracked cfg db0 h \<longleftrightarrow>
     (\<forall>db \<in> insert (g_db h) (set (g_commits h)). db_ok (s_workflows cfg) db \<and> db_evolves db0 db) \<and> \<not> g_crashed h"

lemma tracked_commit:
  assumes "tracked cfg db0 h" and "db_ok (s_workflows cfg) db" and "db_evolves (g_db h) db"
  shows "tracked cfg db0 (commit db h)"
  using assms by (auto simp: tracked_def commit_def intro: db_evolves_trans)

lemma tracked_db: "tracked cfg db0 h \<Longrightarrow> db_ok (s_workflows cfg) (g_db h)"
  by (simp add: tracked_def)

definition pc_flag :: "pc \<Rightarrow> bool \<Rightarrow> bool" where
  "pc_flag p cancelled \<longleftrightarrow>
     (case p of Sleeping i ms \<Rightarrow> \<not> cancelled | Aborted i \<Rightarrow> cancelled | Outcome i NCancelled \<Rightarrow> cancelled | _ \<Rightarrow> True)"

text \<open>
  An executor and the rows of its run: this process holds the claim, an aborted one has the
  status \<open>Cancelling\<close> (which another process may have set without aborting it), and the last
  session of the log is where the executor waits.
\<close>

definition owned :: "sql_config \<Rightarrow> string \<Rightarrow> executor \<Rightarrow> shape list list \<Rightarrow> shape list \<Rightarrow> sql_db \<Rightarrow> bool" where
  "owned cfg rid x ls l db \<longleftrightarrow>
     (\<exists>r. getRun rid db = Some r \<and> s_workflows cfg (q_workflow_id r) = Some (x_workflow x) \<and>
        (q_status r = Cancelling \<or> q_status r = Running \<and> \<not> x_aborted x) \<and> q_claim_holder r = Some (s_pid cfg)) \<and>
     shapes_of rid db = joined (ls @ [l]) \<and> list_all (session_ok (wf_nodes (x_workflow x))) (ls @ [l])"

definition exec_ok :: "sql_config \<Rightarrow> string \<Rightarrow> executor \<Rightarrow> sql_db \<Rightarrow> bool" where
  "exec_ok cfg rid x db \<longleftrightarrow>
     (\<exists>ls l. owned cfg rid x ls l db \<and> pc_log (wf_nodes (x_workflow x)) (x_pc x) l \<and> pc_flag (x_pc x) (x_aborted x))"

definition others_ok :: "sql_config \<Rightarrow> string \<Rightarrow> sql_host \<Rightarrow> bool" where
  "others_ok cfg rid h \<longleftrightarrow> (\<forall>rid' x. rid' \<noteq> rid \<longrightarrow> g_exec h rid' = Some x \<longrightarrow> exec_ok cfg rid' x (g_db h))"

definition host_inv :: "sql_config \<Rightarrow> sql_db \<Rightarrow> sql_host \<Rightarrow> bool" where
  "host_inv cfg db0 h \<longleftrightarrow> tracked cfg db0 h \<and> (\<forall>rid x. g_exec h rid = Some x \<longrightarrow> exec_ok cfg rid x (g_db h))"

text \<open>In the middle of a stretch of code of run \<open>rid\<close>, whose session is \<open>l\<close> so far.\<close>

definition mid :: "sql_config \<Rightarrow> sql_db \<Rightarrow> string \<Rightarrow> executor \<Rightarrow> shape list list \<Rightarrow> shape list \<Rightarrow> sql_host \<Rightarrow> bool" where
  "mid cfg db0 rid x ls l h \<longleftrightarrow>
     tracked cfg db0 h \<and> others_ok cfg rid h \<and> owned cfg rid x ls l (g_db h) \<and>
     (\<exists>p. g_exec h rid = Some (x\<lparr>x_pc := p\<rparr>))"

text \<open>
  The steps an executor has left: as in the in-memory host, at most three for each node.
\<close>

definition exec_left :: "executor \<Rightarrow> nat" where
  "exec_left x =
     (let n = length (wf_nodes (x_workflow x)) in
      case x_pc x of
        Sleeping i ms \<Rightarrow> 3 * (n - i)
      | Woken i \<Rightarrow> 3 * (n - i) - 1
      | Aborted i \<Rightarrow> 3 * (n - i) - 1
      | Outcome i oc \<Rightarrow> 3 * (n - i) - 2
      | Halted \<Rightarrow> 0)"

lemma exec_left_await:
  "exec_left (x\<lparr>x_pc := Sleeping i ms\<rparr>) \<le> 3 * (length (wf_nodes (x_workflow x)) - i)"
  "exec_left (x\<lparr>x_pc := Woken i\<rparr>) \<le> 3 * (length (wf_nodes (x_workflow x)) - i) - 1"
  "exec_left (x\<lparr>x_pc := Aborted i\<rparr>) \<le> 3 * (length (wf_nodes (x_workflow x)) - i)"
  "exec_left (x\<lparr>x_pc := Outcome i oc\<rparr>) \<le> 3 * (length (wf_nodes (x_workflow x)) - i) - 2"
  "exec_left (x\<lparr>x_pc := Outcome i oc\<rparr>) \<le> 3 * (length (wf_nodes (x_workflow x)) - i)"
  by (simp_all add: exec_left_def Let_def)

text \<open>A run is attended when it has an executor or needs none.\<close>

definition attended :: "string \<Rightarrow> sql_host \<Rightarrow> bool" where
  "attended rid h \<longleftrightarrow> g_exec h rid \<noteq> None \<or> (\<exists>r. getRun rid (g_db h) = Some r \<and> is_terminal (q_status r))"

text \<open>
  At the end of a stretch of code: waiting where it should, with at most \<open>b\<close> steps left, or
  halted with a terminal status.
\<close>

definition settled :: "sql_config \<Rightarrow> sql_db \<Rightarrow> string \<Rightarrow> nat \<Rightarrow> sql_host \<Rightarrow> bool" where
  "settled cfg db0 rid b h \<longleftrightarrow>
     tracked cfg db0 h \<and> others_ok cfg rid h \<and>
     (\<forall>x. g_exec h rid = Some x \<longrightarrow> x_pc x \<noteq> Halted \<longrightarrow> exec_ok cfg rid x (g_db h) \<and> exec_left x \<le> b) \<and>
     (halted rid h \<longrightarrow> (\<exists>r. getRun rid (g_db h) = Some r \<and> is_terminal (q_status r)))"

definition ends_in :: "(sql_host \<Rightarrow> bool) \<Rightarrow> result \<Rightarrow> bool" where
  "ends_in P res \<longleftrightarrow> fst res = None \<and> P (snd res)"

lemma ends_in_then:
  "ends_in P (f h) \<Longrightarrow> (\<And>h1. P h1 \<Longrightarrow> ends_in Q (g h1)) \<Longrightarrow> ends_in Q (then_do f g h)"
  by (cases "f h") (auto simp: then_do_def ends_in_def)

lemma ends_in_then_pc:
  "ends_in P (f h) \<Longrightarrow> (\<And>h1. P h1 \<Longrightarrow> Q (set_pc rid p h1)) \<Longrightarrow>
     ends_in Q (then_do f (\<lambda>h. (None, set_pc rid p h)) h)"
  by (rule ends_in_then) (auto simp: ends_in_def)

lemma ends_in_mono: "ends_in P res \<Longrightarrow> (\<And>h. P h \<Longrightarrow> Q h) \<Longrightarrow> ends_in Q res"
  by (auto simp: ends_in_def)

lemma ends_in_return [simp]: "ends_in P (None, h) = P h"
  by (simp add: ends_in_def)

lemma exec_ok_frame:
  "exec_ok cfg rid x db \<Longrightarrow> getRun rid db' = getRun rid db \<Longrightarrow> shapes_of rid db' = shapes_of rid db \<Longrightarrow>
     exec_ok cfg rid x db'"
  by (simp add: exec_ok_def owned_def)

lemma others_ok_commit:
  assumes "others_ok cfg rid h"
    and "\<And>rid'. rid' \<noteq> rid \<Longrightarrow> getRun rid' db = getRun rid' (g_db h) \<and> shapes_of rid' db = shapes_of rid' (g_db h)"
  shows "others_ok cfg rid (commit db h)"
  using assms by (auto simp: others_ok_def commit_def intro: exec_ok_frame)

lemma owned_run_row_ok:
  assumes "owned cfg rid x ls l db" and "db_ok (s_workflows cfg) db" and "session_ok (wf_nodes (x_workflow x)) l'"
    and "getRun rid db = Some r"
  shows "run_row_ok (s_workflows cfg) r (joined (ls @ [l']))"
proof -
  from assms(2,4) have "json_parse (q_inputs_json r) \<noteq> None \<and> error_ok r"
    using db_ok_run run_row_ok_def by metis
  moreover have "\<not> is_terminal (q_status r)" "q_status r \<noteq> WaitingApproval"
    using assms(1,4) by (auto simp: owned_def)
  moreover have "s_workflows cfg (q_workflow_id r) = Some (x_workflow x)"
    "list_all (session_ok (wf_nodes (x_workflow x))) (ls @ [l'])"
    using assms(1,3,4) by (auto simp: owned_def)
  ultimately show ?thesis unfolding run_row_ok_def by blast
qed

section \<open>Appending\<close>

definition data_ok :: "json option \<Rightarrow> bool" where
  "data_ok d \<longleftrightarrow> (case null_as_none d of None \<Rightarrow> True | Some j \<Rightarrow> wf_json j)"

lemma event_of_row_of_event:
  assumes "case e_data e of None \<Rightarrow> True | Some j \<Rightarrow> wf_json j \<and> j \<noteq> JNull"
  shows "event_of_row (row_of_event e) = Some e"
  using assms by (cases "e_data e") (auto simp: event_of_row_def row_of_event_def json_roundtrip null_as_none_def)

lemma data_ok_event: "data_ok d \<Longrightarrow> case null_as_none d of None \<Rightarrow> True | Some j \<Rightarrow> wf_json j \<and> j \<noteq> JNull"
  by (auto simp: data_ok_def null_as_none_def split: option.splits if_splits)

lemma data_ok_simps [simp]:
  "data_ok None" "data_ok (Some (error_json e))"
  "data_ok (Some (JObj [(''code'', JStr a), (''typeId'', JStr b)]))" "data_ok (Some (JObj [(''resumedBy'', JStr a)]))"
  by (simp_all add: data_ok_def null_as_none_def error_json_def)

lemma data_ok_error [simp]: "data_ok (map_option error_json err)"
  by (cases err) simp_all

text \<open>An append to a run that is not terminal: the event row, and nothing else.\<close>

lemma sql_appendEvent_ok:
  assumes "tracked cfg db0 h" and "others_ok cfg rid h" and "getRun rid (g_db h) = Some r"
    and "\<not> is_terminal (q_status r)" and "data_ok d"
    and "run_row_ok (s_workflows cfg) r (shapes_of rid (g_db h) @ [(ty, nid)])"
  shows "ends_in (\<lambda>h'. tracked cfg db0 h' \<and> others_ok cfg rid h' \<and> g_exec h' = g_exec h \<and>
    (\<forall>rid'. getRun rid' (g_db h') = getRun rid' (g_db h)) \<and>
    shapes_of rid (g_db h') = shapes_of rid (g_db h) @ [(ty, nid)]) (sql_appendEvent rid ty nid d t h)"
proof -
  let ?e = "\<lparr>e_seq = countEvents rid (g_db h), e_runId = rid, e_type = ty, e_nodeId = nid,
    e_data = null_as_none d, e_timestamp = t\<rparr>"
  let ?v = "row_of_event ?e" and ?db = "g_db h"
  let ?db' = "?db\<lparr>t_events := t_events ?db @ [?v]\<rparr>"
  have v: "v_run_id ?v = rid" "v_seq ?v = countEvents rid ?db" "v_type ?v = ty" "v_node_id ?v = nid"
    by (simp_all add: row_of_event_def)
  have ok: "db_ok (s_workflows cfg) ?db" using assms(1) by (rule tracked_db)
  then have "insertEvent ?v ?db = Inr ?db'"
    using assms(3) v by (intro insertEvent_next) (auto simp: db_ok_def)
  then have app: "sql_appendEvent rid ty nid d t h =
      (None, (commit ?db' h)\<lparr>g_subs := (g_subs h)(rid := map (onEvent ?e) (g_subs h rid))\<rparr>)"
    by (simp add: sql_appendEvent_def Let_def)
  have "event_of_row ?v \<noteq> None"
    using event_of_row_of_event [of ?e] data_ok_event [OF assms(5)] by simp
  with ok assms(3,6) v have "db_ok (s_workflows cfg) ?db'"
    by (intro db_ok_append) simp_all
  moreover have "db_evolves ?db ?db'"
    using assms(3,4) v by (intro db_evolves_append) simp_all
  ultimately have "tracked cfg db0 (commit ?db' h)" using assms(1) by (intro tracked_commit)
  moreover have "others_ok cfg rid (commit ?db' h)"
    using assms(2) v by (intro others_ok_commit) auto
  ultimately show ?thesis
    using v by (simp add: app tracked_def others_ok_def) (simp add: commit_def)
qed

lemma mid_append:
  assumes "mid cfg db0 rid x ls l h" and "session_ok (wf_nodes (x_workflow x)) (l @ [(ty, nid)])" and "data_ok d"
  shows "ends_in (mid cfg db0 rid x ls (l @ [(ty, nid)])) (sql_appendEvent rid ty nid d t h)"
proof -
  from assms(1) have own: "owned cfg rid x ls l (g_db h)" and tr: "tracked cfg db0 h" "others_ok cfg rid h"
    by (simp_all add: mid_def)
  then obtain r where r: "getRun rid (g_db h) = Some r" "\<not> is_terminal (q_status r)"
    by (auto simp: owned_def)
  have l: "l \<noteq> []" using own by (auto simp: owned_def session_ok_def)
  have sh: "shapes_of rid (g_db h) @ [(ty, nid)] = joined (ls @ [l @ [(ty, nid)]])"
    using own joined_snoc_append [OF l] by (simp add: owned_def)
  have "ends_in (\<lambda>h'. tracked cfg db0 h' \<and> others_ok cfg rid h' \<and> g_exec h' = g_exec h \<and>
    (\<forall>rid'. getRun rid' (g_db h') = getRun rid' (g_db h)) \<and>
    shapes_of rid (g_db h') = shapes_of rid (g_db h) @ [(ty, nid)]) (sql_appendEvent rid ty nid d t h)"
  proof (rule sql_appendEvent_ok [OF tr r(1) _ assms(3)])
    show "run_row_ok (s_workflows cfg) r (shapes_of rid (g_db h) @ [(ty, nid)])"
      unfolding sh using own tracked_db [OF tr(1)] assms(2) r(1) by (rule owned_run_row_ok)
  qed (simp add: r(2))
  then show ?thesis
    using assms(1,2) own sh by (auto simp: ends_in_def mid_def owned_def)
qed

section \<open>Ends of a stretch of code\<close>

lemma others_ok_set_pc [simp]: "others_ok cfg rid (set_pc rid p h) = others_ok cfg rid h"
  by (auto simp: others_ok_def set_pc_def)

lemma tracked_set_pc [simp]: "tracked cfg db0 (set_pc rid p h) = tracked cfg db0 h"
  by (simp add: tracked_def set_pc_def)

lemma owned_pc [simp]: "owned cfg rid (x\<lparr>x_pc := p\<rparr>) ls l db = owned cfg rid x ls l db"
  by (simp add: owned_def)

lemma mid_await:
  assumes "mid cfg db0 rid x ls l h" and "pc_log (wf_nodes (x_workflow x)) p l" and "pc_flag p (x_aborted x)"
    and "exec_left (x\<lparr>x_pc := p\<rparr>) \<le> b"
  shows "settled cfg db0 rid b (set_pc rid p h)"
proof -
  have "exec_ok cfg rid (x\<lparr>x_pc := p\<rparr>) (g_db h)"
    using assms by (auto simp: exec_ok_def mid_def)
  moreover have e: "g_exec (set_pc rid p h) rid = Some (x\<lparr>x_pc := p\<rparr>)"
    using assms(1) by (auto simp: mid_def set_pc_def)
  moreover have "p \<noteq> Halted" using assms(2) by (auto simp: pc_log_def)
  then have "\<not> halted rid (set_pc rid p h)" using e by (simp add: halted_def)
  moreover have "g_db (set_pc rid p h) = g_db h" by (simp add: set_pc_def)
  ultimately show ?thesis using assms(1,4) by (auto simp: settled_def mid_def)
qed

text \<open>The shared tail of the returns: the closing event, the terminal status, the release.\<close>

lemma setRunTerminal_ok:
  assumes "tracked cfg db0 h" and "others_ok cfg rid h" and "getRun rid (g_db h) = Some r"
    and "\<not> is_terminal (q_status r)" and "s_workflows cfg (q_workflow_id r) = Some w"
    and "shapes_of rid (g_db h) = joined (ls @ [l])" and "list_all (session_ok (wf_nodes w)) ls"
    and "final_log (wf_nodes w) st l"
  shows "tracked cfg db0 (setRunTerminal cfg rid st err t h) \<and> others_ok cfg rid (setRunTerminal cfg rid st err t h) \<and>
    g_exec (setRunTerminal cfg rid st err t h) = g_exec h \<and>
    (\<exists>r'. getRun rid (g_db (setRunTerminal cfg rid st err t h)) = Some r' \<and> q_status r' = st)"
proof -
  let ?er = "map_option (\<lambda>e. stringify (error_json e)) err"
  let ?db1 = "updateRunStatus st (Some t) ?er rid (g_db h)"
  let ?h1 = "commit ?db1 h"
  let ?db2 = "releaseClaim rid (s_pid cfg) ?db1"
  have ok: "db_ok (s_workflows cfg) (g_db h)" using assms(1) by (rule tracked_db)
  have ef: "error_ok (r\<lparr>q_status := st, q_ended_at := Some t, q_error_json := ?er\<rparr>)" by simp
  have "json_parse (q_inputs_json r) \<noteq> None"
    using db_ok_run [OF ok assms(3)] by (simp add: run_row_ok_def)
  moreover have "list_all (session_ok (wf_nodes w)) (ls @ [l])" using assms(7,8) session_final by simp
  moreover have "is_terminal st" "st \<noteq> WaitingApproval" using final_log_last [OF assms(8)] by auto
  ultimately have "run_row_ok (s_workflows cfg) (r\<lparr>q_status := st, q_ended_at := Some t, q_error_json := ?er\<rparr>) (joined (ls @ [l]))"
    unfolding run_row_ok_def using ef assms(5,8)
    by (simp del: joined.simps) (intro exI [of _ "ls @ [l]"], simp)
  then have ok1: "db_ok (s_workflows cfg) ?db1"
    using assms(3,6) by (intro db_ok_updateRunStatus [OF ok]) simp
  have "db_evolves (g_db h) ?db1"
    unfolding updateRunStatus_def using assms(3,4)
    by (intro db_evolves_update) (auto simp: fixed_cols_def)
  with ok1 assms(1) have t1: "tracked cfg db0 ?h1" by (intro tracked_commit)
  have "shapes_of rid' ?db1 = shapes_of rid' (g_db h)" "shapes_of rid' ?db2 = shapes_of rid' ?db1" for rid'
    by (rule shapes_of_events, simp add: sql_simps)+
  note sh = this
  have g: "g_db ?h1 = ?db1" by (simp add: commit_def)
  have o1: "others_ok cfg rid ?h1"
    by (rule others_ok_commit [OF assms(2)]) (simp add: sh sql_simps)
  have o2: "others_ok cfg rid (commit ?db2 ?h1)"
    by (rule others_ok_commit [OF o1]) (simp add: sh g sql_simps)
  have "tracked cfg db0 (commit ?db2 ?h1)"
    by (rule tracked_commit [OF t1]) (simp_all add: g db_ok_claims ok1 db_evolves_claims)
  moreover have "\<exists>r'. getRun rid ?db2 = Some r' \<and> q_status r' = st"
    using assms(3) by (simp add: sql_simps)
  ultimately show ?thesis using o2 g by (simp add: setRunTerminal_def Let_def) (simp add: commit_def)
qed

lemma mid_finish:
  assumes "mid cfg db0 rid x ls l h" and "final_log (wf_nodes (x_workflow x)) st (l @ [(ty, None)])"
  shows "ends_in (settled cfg db0 rid b) (sql_finish cfg rid st ty err t h)"
  unfolding sql_finish_def
proof (rule ends_in_then [where P = "mid cfg db0 rid x ls (l @ [(ty, None)])"])
  show "ends_in (mid cfg db0 rid x ls (l @ [(ty, None)])) (sql_appendEvent rid ty None (map_option error_json err) t h)"
    using assms session_final by (intro mid_append) auto
next
  fix h1
  assume m: "mid cfg db0 rid x ls (l @ [(ty, None)]) h1"
  then obtain r where r: "getRun rid (g_db h1) = Some r" "s_workflows cfg (q_workflow_id r) = Some (x_workflow x)"
    "\<not> is_terminal (q_status r)"
    by (auto simp: mid_def owned_def)
  let ?h2 = "setRunTerminal cfg rid st err t h1"
  have "tracked cfg db0 ?h2 \<and> others_ok cfg rid ?h2 \<and> g_exec ?h2 = g_exec h1 \<and>
      (\<exists>r'. getRun rid (g_db ?h2) = Some r' \<and> q_status r' = st)"
    using m r assms(2) by (intro setRunTerminal_ok) (auto simp: mid_def owned_def)
  moreover have "is_terminal st" using final_log_last [OF assms(2)] by simp
  moreover have "g_db (set_pc rid Halted ?h2) = g_db ?h2" by (simp add: set_pc_def)
  moreover have "x_pc y = Halted" if "g_exec (set_pc rid Halted ?h2) rid = Some y" for y
    using that by (auto simp: set_pc_def)
  ultimately show "ends_in (settled cfg db0 rid b) (None, set_pc rid Halted ?h2)"
    by (auto simp: settled_def)
qed

section \<open>The segments\<close>

lemma mid_status: "mid cfg db0 rid x ls l h \<Longrightarrow>
    sql_status rid h = Some Cancelling \<or> sql_status rid h = Some Running \<and> \<not> x_aborted x"
  by (auto simp: mid_def owned_def sql_status_def)

lemma mid_executeNode:
  assumes "mid cfg db0 rid x ls (log_upto ns i) h" and "ns = wf_nodes (x_workflow x)" and "i < length ns"
    and "all_supported ns i" and st: "sql_status rid h \<noteq> Some Cancelling"
  shows "ends_in (settled cfg db0 rid (3 * (length ns - i))) (sql_executeNode rid (ns ! i) inputs (x_aborted x) i t h)"
proof -
  let ?n = "ns ! i" and ?w = "x_workflow x"
  let ?l1 = "log_upto ns i @ [(NodeStarted, Some (n_id ?n))]"
  have na: "\<not> x_aborted x" using mid_status [OF assms(1)] st by auto
  have start: "ends_in (mid cfg db0 rid x ls ?l1) (sql_appendEvent rid NodeStarted (Some (n_id ?n)) None t h)"
    using assms session_started by (intro mid_append) auto
  consider (noop) "n_typeId ?n = ''core.noop''" | (delay) "n_typeId ?n = ''core.delay''" | (other) "\<not> supported ?n"
    by (auto simp: supported_def)
  then have "\<exists>k. sql_executeNode rid ?n inputs (x_aborted x) i t h =
      then_do (sql_appendEvent rid NodeStarted (Some (n_id ?n)) None t) k h \<and>
      (\<forall>h1. mid cfg db0 rid x ls ?l1 h1 \<longrightarrow> ends_in (settled cfg db0 rid (3 * (length ns - i))) (k h1))"
  proof cases
    case noop
    then have "supported ?n" by (simp add: supported_def)
    with assms(3,4) have s: "all_supported ns (Suc i)" and up: "log_upto ns (Suc i) = ?l1 @ [(NodeCompleted, Some (n_id ?n))]"
      by (simp_all add: all_supported_Suc log_upto_Suc node_done_def)
    have "ends_in (mid cfg db0 rid x ls (log_upto ns (Suc i))) (sql_appendEvent rid NodeCompleted (Some (n_id ?n)) None t h1)"
      if "mid cfg db0 rid x ls ?l1 h1" for h1
    proof -
      have "session_ok (wf_nodes ?w) (?l1 @ [(NodeCompleted, Some (n_id ?n))])"
        using session_upto [of "Suc i" ns] s assms(2,3) unfolding up by simp
      with that show ?thesis unfolding up by (intro mid_append) simp_all
    qed
    moreover have "settled cfg db0 rid (3 * (length ns - i)) (set_pc rid (Outcome i NCompleted) h2)"
      if "mid cfg db0 rid x ls (log_upto ns (Suc i)) h2" for h2
      using that s assms(2,3) exec_left_await(5) by (intro mid_await) (simp_all add: pc_log_def pc_flag_def)
    ultimately have "ends_in (settled cfg db0 rid (3 * (length ns - i))) (then_do (sql_appendEvent rid NodeCompleted (Some (n_id ?n)) None t)
        (\<lambda>h. (None, set_pc rid (Outcome i NCompleted) h)) h1)" if "mid cfg db0 rid x ls ?l1 h1" for h1
      using that ends_in_then_pc by blast
    then show ?thesis
      using st noop unfolding sql_executeNode_def by (intro exI conjI) (simp, auto)
  next
    case delay
    have "settled cfg db0 rid (3 * (length ns - i)) (set_pc rid (sleep i ms (x_aborted x)) h2)" if "mid cfg db0 rid x ls ?l1 h2" for h2 ms
      using that delay na assms(2-4) exec_left_await(1) by (intro mid_await) (simp_all add: pc_log_def pc_flag_def sleep_def is_delay_def)
    with st delay show ?thesis
      unfolding sql_executeNode_def by (intro exI conjI) (simp, auto)
  next
    case other
    let ?d = "Some (JObj [(''code'', JStr ''unsupported_node_type''), (''typeId'', JStr (n_typeId ?n))])"
    let ?l2 = "log_upto ns i @ [(NodeStarted, Some (n_id ?n)), (NodeFailed, Some (n_id ?n))]"
    have "ends_in (mid cfg db0 rid x ls (?l1 @ [(NodeFailed, Some (n_id ?n))])) (sql_appendEvent rid NodeFailed (Some (n_id ?n)) ?d t h1)"
      if "mid cfg db0 rid x ls ?l1 h1" for h1
      using that other assms(2-4) session_failed_node by (intro mid_append) simp_all
    then have "ends_in (mid cfg db0 rid x ls ?l2) (sql_appendEvent rid NodeFailed (Some (n_id ?n)) ?d t h1)"
      if "mid cfg db0 rid x ls ?l1 h1" for h1
      using that by simp
    moreover have "settled cfg db0 rid (3 * (length ns - i)) (set_pc rid (Outcome i NFailed) h2)" if "mid cfg db0 rid x ls ?l2 h2" for h2
      using that other assms(2-4) exec_left_await(5) by (intro mid_await) (simp_all add: pc_log_def pc_flag_def)
    moreover have "n_typeId ?n \<noteq> ''core.noop''" "n_typeId ?n \<noteq> ''core.delay''"
      using other by (auto simp: supported_def)
    moreover from calculation(1,2) have "ends_in (settled cfg db0 rid (3 * (length ns - i))) (then_do (sql_appendEvent rid NodeFailed (Some (n_id ?n)) ?d t)
        (\<lambda>h. (None, set_pc rid (Outcome i NFailed) h)) h1)" if "mid cfg db0 rid x ls ?l1 h1" for h1
      using that ends_in_then_pc by blast
    ultimately show ?thesis
      using st unfolding sql_executeNode_def by (intro exI conjI) (simp, auto)
  qed
  then show ?thesis
    using ends_in_then [where f = "sql_appendEvent rid NodeStarted (Some (n_id ?n)) None t" and h = h, OF start] by auto
qed

lemma mid_loop:
  assumes "mid cfg db0 rid x ls (log_upto (wf_nodes (x_workflow x)) i) h" and "i \<le> length (wf_nodes (x_workflow x))"
    and "all_supported (wf_nodes (x_workflow x)) i"
  shows "ends_in (settled cfg db0 rid (3 * (length (wf_nodes (x_workflow x)) - i))) (sql_loop cfg rid x i t h)"
proof (cases "sql_status rid h = Some Cancelling")
  case True
  have "final_log (wf_nodes (x_workflow x)) Cancelled (log_upto (wf_nodes (x_workflow x)) i @ [(RunCancelled, None)])"
    using assms(2,3) by (auto simp: final_log_def cancelled_log_def)
  with mid_finish [OF assms(1)] True show ?thesis by (simp add: sql_loop_def)
next
  case False
  show ?thesis
  proof (cases "i < length (wf_nodes (x_workflow x))")
    case True
    with mid_executeNode [OF assms(1) refl True assms(3) False] False
    show ?thesis by (simp add: sql_loop_def)
  next
    case not: False
    with assms(2,3) have "final_log (wf_nodes (x_workflow x)) Completed (log_upto (wf_nodes (x_workflow x)) i @ [(RunCompleted, None)])"
      by (simp add: final_log_def completed_log_def)
    with mid_finish [OF assms(1)] False not show ?thesis by (simp add: sql_loop_def)
  qed
qed

text \<open>What holds when a stretch of code of run \<open>rid\<close> is over.\<close>

definition over :: "sql_config \<Rightarrow> sql_db \<Rightarrow> string \<Rightarrow> nat \<Rightarrow> sql_host \<Rightarrow> bool" where
  "over cfg db0 rid b h \<longleftrightarrow>
     host_inv cfg db0 h \<and> attended rid h \<and> (\<forall>x. g_exec h rid = Some x \<longrightarrow> exec_left x \<le> b)"

lemma settled_try:
  assumes "ends_in (settled cfg db0 rid b) (body h)"
  shows "ends_in (over cfg db0 rid b) (sql_try cfg rid t body h)"
proof -
  from assms obtain h1 where h1: "body h = (None, h1)" "settled cfg db0 rid b h1"
    by (cases "body h") (auto simp: ends_in_def)
  have tr: "tracked cfg db0 h1" and others: "others_ok cfg rid h1" using h1(2) by (simp_all add: settled_def)
  have "over cfg db0 rid b (if halted rid h1 then drop_exec rid h1 else h1)"
  proof (cases "halted rid h1")
    case True
    with h1(2) tr others show ?thesis
      by (auto simp: over_def attended_def settled_def host_inv_def drop_exec_def tracked_def others_ok_def)
  next
    case False
    then obtain x where x: "g_exec h1 rid = Some x" "x_pc x \<noteq> Halted"
      by (auto simp: halted_def split: option.splits)
    have "exec_ok cfg rid' x' (g_db h1)" if "g_exec h1 rid' = Some x'" for rid' x'
      using h1(2) others that x
      by (cases "rid' = rid") (auto simp: settled_def others_ok_def)
    with False x tr h1(2) show ?thesis by (simp add: over_def attended_def host_inv_def settled_def)
  qed
  with h1(1) show ?thesis by (simp add: sql_try_def)
qed

lemma ends_in_catch: "ends_in P res \<Longrightarrow> P (sql_catch cfg rid t res)"
  by (cases res) (auto simp: ends_in_def sql_catch_def)

lemma host_inv_mid:
  assumes "host_inv cfg db0 h" and "g_exec h rid = Some x"
  shows "\<exists>ls l. mid cfg db0 rid x ls l h \<and> pc_log (wf_nodes (x_workflow x)) (x_pc x) l \<and> pc_flag (x_pc x) (x_aborted x)"
proof -
  from assms have "exec_ok cfg rid x (g_db h)" by (simp add: host_inv_def)
  then obtain ls l where "owned cfg rid x ls l (g_db h)" "pc_log (wf_nodes (x_workflow x)) (x_pc x) l"
    "pc_flag (x_pc x) (x_aborted x)"
    unfolding exec_ok_def by blast
  moreover have "\<exists>p. g_exec h rid = Some (x\<lparr>x_pc := p\<rparr>)" using assms(2) by (intro exI [of _ "x_pc x"]) simp
  moreover have "tracked cfg db0 h" "others_ok cfg rid h" using assms(1) by (simp_all add: host_inv_def others_ok_def)
  ultimately show ?thesis unfolding mid_def by blast
qed

lemma sql_segment_over:
  assumes "host_inv cfg db0 h" and "sql_segment cfg rid t h = Some h'" and x: "g_exec h rid = Some x"
  shows "over cfg db0 rid (exec_left x - 1) h' \<and> 0 < exec_left x"
proof -
  let ?ns = "wf_nodes (x_workflow x)"
  obtain ls l where m: "mid cfg db0 rid x ls l h" and pl: "pc_log ?ns (x_pc x) l" and pf: "pc_flag (x_pc x) (x_aborted x)"
    using host_inv_mid [OF assms(1) x] by blast
  have go: "over cfg db0 rid (exec_left x - 1) (sql_catch cfg rid t (sql_try cfg rid t body h))"
    if "ends_in (settled cfg db0 rid (exec_left x - 1)) (body h)" for body
    using ends_in_catch [OF settled_try [where body = body, OF that]] .
  show ?thesis
  proof (cases "x_pc x")
    case (Woken i)
    with pl have i: "i < length ?ns" "all_supported ?ns (Suc i)"
      and l: "l @ [(NodeCompleted, Some (n_id (?ns ! i)))] = log_upto ?ns (Suc i)"
      by (auto simp: pc_log_def all_supported_Suc log_upto_Suc node_done_def delay_supported)
    have "session_ok ?ns (log_upto ?ns (Suc i))" using i by (intro session_upto) auto
    then have "ends_in (mid cfg db0 rid x ls (log_upto ?ns (Suc i))) (sql_appendEvent rid NodeCompleted (Some (n_id (?ns ! i))) None t h)"
      using mid_append [OF m, of NodeCompleted "Some (n_id (?ns ! i))" None t] unfolding l by simp
    then have "ends_in (settled cfg db0 rid (exec_left x - 1)) (then_do (sql_appendEvent rid NodeCompleted (Some (n_id (?ns ! i))) None t)
        (\<lambda>h. (None, set_pc rid (Outcome i NCompleted) h)) h)"
      by (rule ends_in_then_pc) (use i Woken in \<open>auto intro!: mid_await simp: pc_log_def pc_flag_def exec_left_def\<close>)
    with go assms(2) x Woken i show ?thesis by (auto simp: sql_segment_def exec_left_def)
  next
    case (Aborted i)
    let ?l = "log_upto ?ns i @ [(NodeStarted, Some (n_id (?ns ! i))), (NodeCancelled, Some (n_id (?ns ! i)))]"
    from Aborted pl have i: "i < length ?ns" "all_supported ?ns i" "is_delay (?ns ! i)"
      and l: "l @ [(NodeCancelled, Some (n_id (?ns ! i)))] = ?l"
      by (auto simp: pc_log_def)
    have "x_aborted x" using Aborted pf by (simp add: pc_flag_def)
    have "ends_in (mid cfg db0 rid x ls ?l) (sql_appendEvent rid NodeCancelled (Some (n_id (?ns ! i))) None t h)"
      using mid_append [OF m, of NodeCancelled "Some (n_id (?ns ! i))" None t] session_cancelled_node [OF i] unfolding l by simp
    then have "ends_in (settled cfg db0 rid (exec_left x - 1)) (then_do (sql_appendEvent rid NodeCancelled (Some (n_id (?ns ! i))) None t)
        (\<lambda>h. (None, set_pc rid (Outcome i NCancelled) h)) h)"
      by (rule ends_in_then_pc) (use i \<open>x_aborted x\<close> Aborted in \<open>auto intro!: mid_await simp: pc_log_def pc_flag_def exec_left_def\<close>)
    with go assms(2) x Aborted i show ?thesis by (auto simp: sql_segment_def exec_left_def)
  next
    case (Outcome i oc)
    from Outcome pl have i: "i < length ?ns" by (cases oc) (auto simp: pc_log_def)
    have "ends_in (settled cfg db0 rid (exec_left x - 1)) (sql_outcome cfg rid x i oc t h)"
    proof (cases oc)
      case NCompleted
      with Outcome pl have "l = log_upto ?ns (Suc i)" "Suc i \<le> length ?ns" "all_supported ?ns (Suc i)"
        by (auto simp: pc_log_def)
      with mid_loop [of cfg db0 rid x ls "Suc i" h t] m
      have "ends_in (settled cfg db0 rid (3 * (length ?ns - Suc i))) (sql_outcome cfg rid x i oc t h)"
        using NCompleted by (simp add: sql_outcome_def)
      then show ?thesis
        by (rule ends_in_mono) (use i Outcome in \<open>auto simp: settled_def exec_left_def\<close>)
    next
      case NCancelled
      with Outcome pl have "final_log ?ns Cancelled (l @ [(RunCancelled, None)])"
        using final_cancelled_node [of i ?ns] by (auto simp: pc_log_def)
      with mid_finish [OF m] NCancelled show ?thesis by (simp add: sql_outcome_def)
    next
      case NFailed
      with Outcome pl have "final_log ?ns Failed (l @ [(RunFailed, None)])"
        using final_failed_node [of i ?ns] by (auto simp: pc_log_def)
      with mid_finish [OF m] NFailed show ?thesis by (simp add: sql_outcome_def)
    qed
    with go assms(2) x Outcome i show ?thesis by (auto simp: sql_segment_def exec_left_def)
  qed (use assms(2) x in \<open>simp_all add: sql_segment_def\<close>)
qed

lemma sql_segment_inv:
  "host_inv cfg db0 h \<Longrightarrow> sql_segment cfg rid t h = Some h' \<Longrightarrow> host_inv cfg db0 h'"
  using sql_segment_over by (cases "g_exec h rid") (fastforce simp: over_def sql_segment_def)+

section \<open>Starting and resuming a run\<close>

text \<open>A run this process has just claimed and does not execute.\<close>

definition claimed :: "sql_config \<Rightarrow> string \<Rightarrow> sql_host \<Rightarrow> bool" where
  "claimed cfg rid h \<longleftrightarrow>
     g_exec h rid = None \<and>
     (\<exists>r. getRun rid (g_db h) = Some r \<and> \<not> is_terminal (q_status r) \<and> q_claim_holder r = Some (s_pid cfg))"

lemma started_joined:
  assumes "list_all (session_ok ns) ls"
  shows "RunStarted \<in> fst ` set (joined ls) \<longleftrightarrow> ls \<noteq> []"
proof (cases ls)
  case (Cons l ls')
  with assms have "l \<noteq> [] \<and> hd l = (RunStarted, None)" using session_hd by (auto simp: session_ok_def)
  then have "(RunStarted, None) \<in> set l" by (metis hd_in_set)
  with Cons show ?thesis by force
qed simp

lemma alreadyStarted_iff:
  assumes "keys_ok db"
  shows "(\<exists>v \<in> set (getEventsAfter rid (num_of_int (- 1)) db). v_type v = RunStarted) \<longleftrightarrow>
    RunStarted \<in> fst ` set (shapes_of rid db)"
  using getEventsAfter_filter [OF assms, of rid "num_of_int (- 1)"]
  by (auto simp: shapes_of_def image_iff eq_commute [of RunStarted])

lemma session_start [simp]: "session_ok ns [(RunStarted, None)]"
  using session_upto [of 0 ns] by simp

lemma sql_begin_ok:
  assumes "host_inv cfg db0 h" and "claimed cfg rid h" and "getRun rid (g_db h) = Some r"
    and "s_workflows cfg (q_workflow_id r) = Some (x_workflow x)" and "\<not> x_aborted x"
  shows "ends_in (settled cfg db0 rid (3 * length (wf_nodes (x_workflow x)))) (sql_begin cfg rid x t (set_exec rid x h))"
proof -
  let ?ns = "wf_nodes (x_workflow x)" and ?db = "g_db h"
  let ?db1 = "updateRunStatus Running None None rid ?db"
  let ?h1 = "commit ?db1 (set_exec rid x h)"
  have tr: "tracked cfg db0 h" and others: "others_ok cfg rid h"
    using assms(1) by (simp_all add: host_inv_def others_ok_def)
  have ok: "db_ok (s_workflows cfg) ?db" using tr by (rule tracked_db)
  from assms(2,3) have r: "\<not> is_terminal (q_status r)" "q_claim_holder r = Some (s_pid cfg)"
    by (auto simp: claimed_def)
  from db_ok_run [OF ok assms(3)] assms(4) obtain ls
    where ls: "shapes_of rid ?db = joined ls" "list_all (session_ok ?ns) ls"
      and parse: "json_parse (q_inputs_json r) \<noteq> None"
    by (auto simp: run_row_ok_def)
  let ?r1 = "r\<lparr>q_status := Running, q_ended_at := None, q_error_json := None\<rparr>"
  have row1: "run_row_ok (s_workflows cfg) ?r1 (joined ls')" if "list_all (session_ok ?ns) ls'" for ls'
    using that assms(4) parse by (auto simp: run_row_ok_def)
  have get1: "getRun rid ?db1 = Some ?r1" using assms(3) by (simp add: sql_simps)
  have sh1: "shapes_of rid' ?db1 = shapes_of rid' ?db" for rid'
    by (rule shapes_of_events) (simp add: sql_simps)
  have ok1: "db_ok (s_workflows cfg) ?db1"
    using assms(3) row1 ls by (intro db_ok_updateRunStatus [OF ok]) simp
  have ev1: "db_evolves ?db ?db1"
    unfolding updateRunStatus_def using assms(3) r(1) by (intro db_evolves_update) (auto simp: fixed_cols_def)
  have g: "g_db ?h1 = ?db1" "g_exec ?h1 rid = Some x" by (simp_all add: commit_def set_exec_def)
  have "tracked cfg db0 (set_exec rid x h)" using tr by (simp add: tracked_def set_exec_def)
  then have t1: "tracked cfg db0 ?h1"
    using ok1 ev1 by (intro tracked_commit) (simp_all add: set_exec_def)
  have "others_ok cfg rid (set_exec rid x h)" using others by (simp add: others_ok_def set_exec_def)
  then have o1: "others_ok cfg rid ?h1"
    by (rule others_ok_commit) (simp add: set_exec_def sh1 sql_simps)
  let ?started = "RunStarted \<in> fst ` set (shapes_of rid ?db)"
  let ?ty = "if ?started then RunResumed else RunStarted"
  let ?d = "if ?started then Some (JObj [(''resumedBy'', JStr (s_pid cfg))]) else None"
  have first: "shapes_of rid ?db1 @ [(?ty, None)] = joined (ls @ [[(RunStarted, None)]])"
    using ls started_joined [OF ls(2)] by (auto simp: sh1 joined_snoc resumed_def)
  have list: "list_all (session_ok ?ns) (ls @ [[(RunStarted, None)]])" using ls(2) by simp
  have app: "ends_in (mid cfg db0 rid x ls [(RunStarted, None)]) (sql_appendEvent rid ?ty None ?d t ?h1)"
  proof -
    have "ends_in (\<lambda>h'. tracked cfg db0 h' \<and> others_ok cfg rid h' \<and> g_exec h' = g_exec ?h1 \<and>
      (\<forall>rid'. getRun rid' (g_db h') = getRun rid' (g_db ?h1)) \<and>
      shapes_of rid (g_db h') = shapes_of rid (g_db ?h1) @ [(?ty, None)]) (sql_appendEvent rid ?ty None ?d t ?h1)"
      using t1 o1 get1 row1 [OF list] first g by (intro sql_appendEvent_ok [of cfg db0 ?h1 rid ?r1]) auto
    then obtain h' where h': "sql_appendEvent rid ?ty None ?d t ?h1 = (None, h')"
      "tracked cfg db0 h'" "others_ok cfg rid h'" "g_exec h' rid = Some x" "getRun rid (g_db h') = Some ?r1"
      "shapes_of rid (g_db h') = joined (ls @ [[(RunStarted, None)]])"
      using g get1 first by (cases "sql_appendEvent rid ?ty None ?d t ?h1") (auto simp: ends_in_def)
    have "owned cfg rid x ls [(RunStarted, None)] (g_db h')"
      unfolding owned_def using h'(5,6) r(2) assms(4,5) list by simp
    moreover have "\<exists>p. g_exec h' rid = Some (x\<lparr>x_pc := p\<rparr>)" using h'(4) by (intro exI [of _ "x_pc x"]) simp
    ultimately show ?thesis using h' by (simp add: ends_in_def mid_def)
  qed
  have "sql_begin cfg rid x t (set_exec rid x h) =
      then_do (sql_appendEvent rid ?ty None ?d t) (sql_loop cfg rid x 0 t) ?h1"
    using alreadyStarted_iff [of ?db rid] ok
    by (auto simp: sql_begin_def Let_def set_exec_def db_ok_def)
  moreover have "ends_in (settled cfg db0 rid (3 * length (wf_nodes (x_workflow x)))) (sql_loop cfg rid x 0 t h2)"
    if "mid cfg db0 rid x ls [(RunStarted, None)] h2" for h2
    using mid_loop [of cfg db0 rid x ls 0 h2 t] that by simp
  ultimately show ?thesis
    using ends_in_then [where f = "sql_appendEvent rid ?ty None ?d t" and h = ?h1, OF app] by simp
qed

lemma sql_launch_over:
  assumes "host_inv cfg db0 h" and "claimed cfg rid h"
  shows "\<exists>b. over cfg db0 rid b (sql_launch cfg rid t h)"
proof -
  have ok: "db_ok (s_workflows cfg) (g_db h)"
    using assms(1) unfolding host_inv_def by (blast intro: tracked_db)
  from assms(2) obtain r where r: "getRun rid (g_db h) = Some r" by (auto simp: claimed_def)
  from db_ok_run [OF ok r] obtain w inputs where w: "s_workflows cfg (q_workflow_id r) = Some w"
    and inputs: "json_parse (q_inputs_json r) = Some inputs" by (auto simp: run_row_ok_def)
  let ?x = "\<lparr>x_workflow = w, x_inputs = inputs, x_aborted = False, x_pc = Halted\<rparr>"
  have "ends_in (settled cfg db0 rid (3 * length (wf_nodes w))) (sql_begin cfg rid ?x t (set_exec rid ?x h))"
    using sql_begin_ok [OF assms r, of ?x] w by simp
  then have "ends_in (over cfg db0 rid (3 * length (wf_nodes w))) (sql_runWorkflow cfg rid t h)"
    using r w inputs by (simp add: sql_runWorkflow_def Let_def settled_try)
  then have "over cfg db0 rid (3 * length (wf_nodes w)) (sql_launch cfg rid t h)"
    unfolding sql_launch_def by (rule ends_in_catch)
  then show ?thesis by blast
qed

lemma sql_launch_inv: "host_inv cfg db0 h \<Longrightarrow> claimed cfg rid h \<Longrightarrow> host_inv cfg db0 (sql_launch cfg rid t h)"
  using sql_launch_over by (fastforce simp: over_def)

end
