(* ===== verification/SqlFrame.thy ===== *)
theory SqlFrame
  imports SqlExec
begin

text \<open>
  What the executor of one run leaves alone. The locale \<open>executor_frame\<close> has a relation on
  host states that the executor's elementary effects satisfy (an event appended to its run, its
  own entry in the table of executors, a statement on its row, a crash); then every stretch of
  its code does. It is interpreted with the rows and executors of all other runs, with the
  idempotency table in every state the database goes through, with the runs there are, and with
  the number of events of a run.
\<close>

section \<open>The interface\<close>

locale executor_frame =
  fixes rid :: string
    and R :: "sql_host \<Rightarrow> sql_host \<Rightarrow> bool"
  assumes R_refl: "R h h"
    and R_trans: "R h1 h2 \<Longrightarrow> R h2 h3 \<Longrightarrow> R h1 h3"
    and R_append: "R h (snd (sql_appendEvent rid ty nid d t h))"
    and R_exec: "R h (h\<lparr>g_exec := (g_exec h)(rid := y)\<rparr>)"
    and R_commit: "t_events db = t_events (g_db h) \<Longrightarrow> t_idem db = t_idem (g_db h) \<Longrightarrow>
      map q_run_id (t_runs db) = map q_run_id (t_runs (g_db h)) \<Longrightarrow>
      (\<And>rid'. rid' \<noteq> rid \<Longrightarrow> getRun rid' db = getRun rid' (g_db h)) \<Longrightarrow> R h (commit db h)"
    and R_crash: "R h (h\<lparr>g_crashed := True\<rparr>)"
begin

lemma R_then_do:
  "R h (snd (f h)) \<Longrightarrow> (\<And>h1. R h1 (snd (g h1))) \<Longrightarrow> R h (snd (then_do f g h))"
  by (auto simp: then_do_def split: prod.split option.split) (metis R_trans snd_conv)

lemma R_set_exec: "R h (set_exec rid x h)"
  using R_exec by (simp add: set_exec_def)

lemma R_set_pc: "R h (set_pc rid p h)"
  using R_exec by (simp add: set_pc_def)

lemma R_drop: "R h (drop_exec rid h)"
  using R_exec by (simp add: drop_exec_def)

lemma R_setRunTerminal: "R h (setRunTerminal cfg rid st e t h)"
  unfolding setRunTerminal_def Let_def
  by (rule R_trans; rule R_commit) (simp_all add: sql_simps)

lemma R_finish: "R h (snd (sql_finish cfg rid st ty e t h))"
  unfolding sql_finish_def
  by (intro R_then_do R_append) (simp add: R_trans [OF R_setRunTerminal R_set_pc])

lemma R_executeNode: "R h (snd (sql_executeNode rid n i a j t h))"
  unfolding sql_executeNode_def
  by (auto intro!: R_then_do R_append R_set_pc)

lemma R_loop: "R h (snd (sql_loop cfg rid x i t h))"
  by (simp add: sql_loop_def R_finish R_executeNode)

lemma R_outcome: "R h (snd (sql_outcome cfg rid x i oc t h))"
  by (cases oc) (simp_all add: sql_outcome_def R_finish R_loop)

lemma R_fail: "R h (snd (fail_internal cfg rid m t h))"
  unfolding fail_internal_def Let_def by (intro R_then_do R_append) (simp add: R_setRunTerminal)

lemma R_try: "R h (snd (body h)) \<Longrightarrow> R h (snd (sql_try cfg rid t body h))"
  using R_fail R_drop
  by (auto simp: sql_try_def split: prod.split option.split) (metis R_trans snd_conv)+

lemma R_catch: "R h (snd res) \<Longrightarrow> R h (sql_catch cfg rid t res)"
proof -
  assume a: "R h (snd res)"
  obtain r h1 where res: "res = (r, h1)" by fastforce
  show ?thesis
  proof (cases r)
    case (Some m)
    obtain r2 h2 where f: "fail_internal cfg rid m t h1 = (r2, h2)" by fastforce
    with R_fail [of h1 cfg m t] a res have "R h h2" by (auto intro: R_trans)
    with R_crash res Some f show ?thesis by (auto simp: sql_catch_def intro: R_trans split: option.split)
  qed (use a res in \<open>simp add: sql_catch_def\<close>)
qed

lemma R_begin: "R h (snd (sql_begin cfg rid x t h))"
proof -
  let ?h1 = "commit (updateRunStatus Running None None rid (g_db h)) h"
  have "R h ?h1" by (rule R_commit) (simp_all add: sql_simps)
  moreover have "R ?h1 (snd (then_do
      (if b then sql_appendEvent rid RunStarted None None t else sql_appendEvent rid RunResumed None d t)
      (sql_loop cfg rid x 0 t) ?h1))" for b d
    by (intro R_then_do R_loop) (simp add: R_append)
  ultimately show ?thesis unfolding sql_begin_def Let_def by (rule R_trans)
qed

lemma R_runWorkflow: "R h (snd (sql_runWorkflow cfg rid t h))"
proof -
  have "R (set_exec rid x h) (snd (sql_try cfg rid t (sql_begin cfg rid y t) (set_exec rid x h)))" for x y
    by (intro R_try R_begin)
  with R_set_exec have "R h (snd (sql_try cfg rid t (sql_begin cfg rid y t) (set_exec rid x h)))" for x y
    by (blast intro: R_trans)
  then show ?thesis
    by (auto simp: sql_runWorkflow_def Let_def R_refl split: option.split intro!: R_then_do R_append R_setRunTerminal)
qed

lemma R_launch: "R h (sql_launch cfg rid t h)"
  unfolding sql_launch_def by (rule R_catch) (rule R_runWorkflow)

lemma R_resume_one: "R h (resume_one cfg now t rid h)"
proof -
  obtain db n where c: "acquireClaim (s_pid cfg) (now + s_claim_ttl cfg) rid now (g_db h) = (db, n)" by fastforce
  then have db: "db = fst (acquireClaim (s_pid cfg) (now + s_claim_ttl cfg) rid now (g_db h))" by simp
  have "R h (commit db h)" unfolding db by (rule R_commit) (simp_all add: sql_simps)
  with R_launch show ?thesis by (auto simp: resume_one_def tryClaim_def c intro: R_trans)
qed

lemma R_segment:
  assumes "sql_segment cfg rid t h = Some h'"
  shows "R h h'"
proof -
  have pc: "R h (snd (then_do (sql_appendEvent rid ty n d t) (\<lambda>h. (None, set_pc rid p h)) h))" for ty n d p
    by (intro R_then_do R_append) (simp add: R_set_pc)
  from assms show ?thesis
    by (auto simp: sql_segment_def Let_def split: option.splits pc.splits intro: R_catch R_try R_outcome pc)
qed

lemma R_heartbeat: "heartbeat cfg rid now h = Some h' \<Longrightarrow> R h h'"
  by (auto simp: heartbeat_def sql_simps split: if_splits intro!: R_commit)

lemma R_timer: "sql_timer rid h = Some h' \<Longrightarrow> R h h'"
  by (auto simp: sql_timer_def R_set_pc split: option.splits pc.splits)

lemma R_cancel: "R h (abort_exec rid (commit (setCancelRequested rid (g_db h)) h))"
proof -
  have "R h (commit (setCancelRequested rid (g_db h)) h)" by (rule R_commit) (simp_all add: sql_simps)
  then show ?thesis by (auto simp: abort_exec_def split: option.split intro: R_trans [OF _ R_set_exec])
qed

end

section \<open>The other runs\<close>

definition agree :: "string \<Rightarrow> sql_host \<Rightarrow> sql_host \<Rightarrow> bool" where
  "agree rid h h' \<longleftrightarrow>
     g_exec h' rid = g_exec h rid \<and> getRun rid (g_db h') = getRun rid (g_db h) \<and> rows_of rid (g_db h') = rows_of rid (g_db h)"

lemma agree_refl [simp]: "agree rid h h"
  by (simp add: agree_def)

lemma agree_trans: "agree rid h1 h2 \<Longrightarrow> agree rid h2 h3 \<Longrightarrow> agree rid h1 h3"
  by (simp add: agree_def)

lemma agree_commit:
  "getRun rid db = getRun rid (g_db h) \<Longrightarrow> t_events db = t_events (g_db h) \<Longrightarrow> agree rid h (commit db h)"
  by (simp add: agree_def rows_of_def commit_def)

lemma agree_append: "rid' \<noteq> rid \<Longrightarrow> agree rid' h (snd (sql_appendEvent rid ty nid d t h))"
  by (auto simp: sql_appendEvent_def Let_def agree_def insertEvent_def row_of_event_def rows_of_def getRun_def commit_def
      split: sum.split)

interpretation other_runs: executor_frame rid "\<lambda>h h'. \<forall>rid'. rid' \<noteq> rid \<longrightarrow> agree rid' h h'" for rid
proof unfold_locales
  show "\<forall>rid'. rid' \<noteq> rid \<longrightarrow> agree rid' h (h\<lparr>g_exec := (g_exec h)(rid := y)\<rparr>)" for h y
    by (simp add: agree_def)
  show "\<forall>rid'. rid' \<noteq> rid \<longrightarrow> agree rid' h (h\<lparr>g_crashed := True\<rparr>)" for h
    by (simp add: agree_def)
qed (auto intro: agree_trans agree_append agree_commit)

lemma agree_resume_one: "rid' \<noteq> rid \<Longrightarrow> agree rid' h (resume_one cfg now t rid h)"
  using other_runs.R_resume_one [of rid h cfg now t] by simp

section \<open>The idempotency table\<close>

definition idem_kept :: "sql_host \<Rightarrow> sql_host \<Rightarrow> bool" where
  "idem_kept h h' \<longleftrightarrow>
     t_idem (g_db h') = t_idem (g_db h) \<and>
     (\<exists>dbs. g_commits h' = g_commits h @ dbs \<and> (\<forall>db \<in> set dbs. t_idem db = t_idem (g_db h)))"

lemma idem_kept_trans:
  assumes "idem_kept h1 h2" and "idem_kept h2 h3"
  shows "idem_kept h1 h3"
proof -
  from assms obtain a b where "g_commits h2 = g_commits h1 @ a" "g_commits h3 = g_commits h2 @ b"
    "\<forall>db \<in> set a. t_idem db = t_idem (g_db h1)" "\<forall>db \<in> set b. t_idem db = t_idem (g_db h2)"
    unfolding idem_kept_def by blast
  with assms show ?thesis unfolding idem_kept_def by (intro conjI exI [of _ "a @ b"]) auto
qed

interpretation idem_table: executor_frame rid idem_kept for rid
proof unfold_locales
  show "idem_kept h (snd (sql_appendEvent rid ty nid d t h))" for h ty nid d t
    by (auto simp: sql_appendEvent_def Let_def idem_kept_def insertEvent_def commit_def split: sum.split)
  show "idem_kept h (commit db h)" if "t_idem db = t_idem (g_db h)" for db h
    using that by (simp add: idem_kept_def commit_def)
qed (auto simp: idem_kept_def dest: idem_kept_trans)

section \<open>The runs there are, and the events\<close>

interpretation run_ids: executor_frame rid "\<lambda>h h'. map q_run_id (t_runs (g_db h')) = map q_run_id (t_runs (g_db h))" for rid
proof unfold_locales
  show "map q_run_id (t_runs (g_db (snd (sql_appendEvent rid ty nid d t h)))) = map q_run_id (t_runs (g_db h))" for h ty nid d t
    by (auto simp: sql_appendEvent_def Let_def insertEvent_def commit_def split: sum.split)
qed (simp_all add: commit_def)

lemma resume_keeps_run: "getRun rid (g_db h) \<noteq> None \<Longrightarrow> getRun rid (g_db (resume_one cfg now t rid' h)) \<noteq> None"
  using run_ids.R_resume_one [where rid = rid' and h = h and cfg = cfg and now = now and t = t] by (simp only: getRun_ids)

interpretation more_events: executor_frame rid "\<lambda>h h'. length (rows_of rid' (g_db h)) \<le> length (rows_of rid' (g_db h'))" for rid rid'
proof unfold_locales
  show "length (rows_of rid' (g_db h)) \<le> length (rows_of rid' (g_db (snd (sql_appendEvent rid ty nid d t h))))" for h ty nid d t
    by (auto simp: sql_appendEvent_def Let_def insertEvent_def commit_def rows_of_def split: sum.split)
qed (simp_all add: rows_of_def commit_def)

end
