(* ===== verification/MemSafety.thy ===== *)
theory MemSafety
  imports MemHttp "HOL-Library.Sublist"
begin

text \<open>
  The in-memory host as a transition system. A step is one synchronous stretch of code:
  a request's handler, the next segment of a run's executor, a timer of a sleeping run, or
  a client that closes its event stream; they interleave in any order. The invariant
  \<open>host_ok\<close> holds in every reachable state, and \<open>run_evolves\<close> says what a step can do to a
  run that exists.
\<close>

section \<open>Steps\<close>

datatype action =
  ARequest env request
| ASegment string string \<comment> \<open>the run, the time\<close>
| ATimer string
| AClose string nat

text \<open>\<^verbatim>\<open>randomUUID\<close> does not repeat: the id of a request's run is not in use yet.\<close>

inductive mem_step :: "mem_config \<Rightarrow> mem_host \<Rightarrow> action \<Rightarrow> mem_host \<Rightarrow> bool" for cfg where
  request: "h_runs h (new_run_id en) = None \<Longrightarrow>
     mem_step cfg h (ARequest en rq) (fst (mem_serve cfg en rq h))"
| segment: "h_runs h rid = Some r \<Longrightarrow> c_workflows cfg (r_workflowId r) = Some w \<Longrightarrow>
     exec_segment r w t = Some r' \<Longrightarrow> mem_step cfg h (ASegment rid t) (set_run h rid r')"
| timer: "h_runs h rid = Some r \<Longrightarrow> timer_fires r = Some r' \<Longrightarrow>
     mem_step cfg h (ATimer rid) (set_run h rid r')"
| close: "h_runs h rid = Some r \<Longrightarrow> mem_step cfg h (AClose rid j) (set_run h rid (client_closes j r))"

inductive_cases mem_step_requestE: "mem_step cfg h (ARequest en rq) h'"
inductive_cases mem_step_segmentE: "mem_step cfg h (ASegment rid t) h'"
inductive_cases mem_step_timerE: "mem_step cfg h (ATimer rid) h'"
inductive_cases mem_step_closeE: "mem_step cfg h (AClose rid j) h'"

inductive_simps mem_step_request_iff: "mem_step cfg h (ARequest en rq) h'"

abbreviation mem_trace :: "mem_config \<Rightarrow> mem_host \<Rightarrow> action list \<Rightarrow> mem_host \<Rightarrow> bool" where
  "mem_trace cfg \<equiv> trace (mem_step cfg)"

definition mem_reachable :: "mem_config \<Rightarrow> mem_host \<Rightarrow> bool" where
  "mem_reachable cfg h \<longleftrightarrow> (\<exists>as. mem_trace cfg init_host as h)"

lemma mem_reachable_trace: "mem_reachable cfg h \<Longrightarrow> mem_trace cfg h as h' \<Longrightarrow> mem_reachable cfg h'"
  unfolding mem_reachable_def using trace_append by metis

lemma mem_reachable_init: "mem_reachable cfg init_host"
  unfolding mem_reachable_def using trace_nil by metis

section \<open>What a request does to the runs\<close>

text \<open>
  A served request leaves the runs alone, or adds the run of a create request after its
  first segment, or cancels an open run, or adds a subscriber to one.
\<close>

definition created_run :: "mem_config \<Rightarrow> env \<Rightarrow> string \<Rightarrow> json \<Rightarrow> run" where
  "created_run cfg en wid inputs =
     runWorkflow (c_workflows cfg) (new_run (new_run_id en) wid inputs (iso en)) (iso en)"

datatype effect =
  NoEffect
| Creates string json
| Cancels string
| Subscribes string num

fun apply_effect :: "mem_config \<Rightarrow> env \<Rightarrow> effect \<Rightarrow> (string \<rightharpoonup> run) \<Rightarrow> (string \<rightharpoonup> run)" where
  "apply_effect cfg en NoEffect rs = rs"
| "apply_effect cfg en (Creates wid inputs) rs = rs(new_run_id en \<mapsto> created_run cfg en wid inputs)"
| "apply_effect cfg en (Cancels rid) rs =
     (case rs rid of None \<Rightarrow> rs | Some r \<Rightarrow>
        if is_terminal (r_status r) then rs else rs(rid \<mapsto> request_cancel r))"
| "apply_effect cfg en (Subscribes rid x) rs =
     (case rs rid of None \<Rightarrow> rs | Some r \<Rightarrow>
        rs(rid \<mapsto> r\<lparr>r_subs := r_subs r @ [subscribe x (is_terminal (r_status r)) (r_events r)]\<rparr>))"

lemma mem_createRun_runs:
  "h_runs (fst (mem_createRun cfg en wid inputs key hash h)) = apply_effect cfg en (Creates wid inputs) (h_runs h)"
  by (auto simp: mem_createRun_def Let_def set_run_def created_run_def split: option.splits)

lemma mem_handleCreateRun_runs:
  assumes "mem_handleCreateRun cfg en rq h = Inr (h', rep)"
  shows "h_runs h' = h_runs h \<or>
    (\<exists>wid inputs w. c_workflows cfg wid = Some w \<and> wf_json inputs \<and> h_runs h' = apply_effect cfg en (Creates wid inputs) (h_runs h))"
proof (cases "check_create (c_api_key cfg) (c_workflows cfg) rq")
  case (Accepts wid inputs)
  then obtain w where w: "c_workflows cfg wid = Some w" by (auto simp: check_create_Accepts)
  let ?h1 = "h\<lparr>h_idem := pruneIdempotencyCache (now_ms en) (h_idem h)\<rparr>"
  from assms Accepts have "h_runs h' = h_runs h \<or>
      (\<exists>key hash. h' = fst (mem_createRun cfg en wid inputs key hash h)) \<or>
      (\<exists>key hash. h' = fst (mem_createRun cfg en wid inputs key hash ?h1))"
    unfolding mem_handleCreateRun_def Let_def
    by (auto split: option.splits if_splits) (metis fst_conv)+
  then show ?thesis using w check_create_inputs [OF Accepts]
    by (auto simp: mem_createRun_runs simp del: apply_effect.simps
        intro!: exI [of _ wid] exI [of _ inputs] exI [of _ w])
qed (use assms in \<open>auto simp: mem_handleCreateRun_def\<close>)

lemma mem_with_run_runs:
  "(\<And>r. h_runs h rid = Some r \<Longrightarrow> P (fst (k r))) \<Longrightarrow> P h \<Longrightarrow> P (fst (mem_with_run cfg rq h rid k))"
  by (auto simp: mem_with_run_def split: option.splits)

text \<open>Which effects a request can have; a create only for a known workflow.\<close>

definition effect_ok :: "mem_config \<Rightarrow> effect \<Rightarrow> bool" where
  "effect_ok cfg ef \<longleftrightarrow> (case ef of Creates wid inputs \<Rightarrow> c_workflows cfg wid \<noteq> None \<and> wf_json inputs | _ \<Rightarrow> True)"

definition has_effect :: "mem_config \<Rightarrow> env \<Rightarrow> mem_host \<Rightarrow> mem_host \<Rightarrow> bool" where
  "has_effect cfg en h h' \<longleftrightarrow> (\<exists>ef. effect_ok cfg ef \<and> h_runs h' = apply_effect cfg en ef (h_runs h))"

lemma has_effect_same: "h_runs h' = h_runs h \<Longrightarrow> has_effect cfg en h h'"
  unfolding has_effect_def by (rule exI [of _ NoEffect]) (simp add: effect_ok_def)

lemma has_effect_handlers:
  "has_effect cfg en h (fst (mem_handleGetRun cfg rq rid h))"
  "has_effect cfg en h (fst (mem_handleEventsPoll cfg rq rid h))"
  "has_effect cfg en h (fst (mem_handleDebugBundle cfg en rq rid h))"
  "has_effect cfg en h (fst (mem_handleCancelRun cfg rq rid h))"
  "has_effect cfg en h (fst (mem_handleEventsSse cfg rq rid h))"
proof -
  show "has_effect cfg en h (fst (mem_handleGetRun cfg rq rid h))"
    "has_effect cfg en h (fst (mem_handleEventsPoll cfg rq rid h))"
    "has_effect cfg en h (fst (mem_handleDebugBundle cfg en rq rid h))"
    unfolding mem_handleGetRun_def mem_handleEventsPoll_def mem_handleDebugBundle_def
    by (rule mem_with_run_runs; simp add: has_effect_same Let_def)+
  show "has_effect cfg en h (fst (mem_handleCancelRun cfg rq rid h))"
    unfolding mem_handleCancelRun_def
  proof (rule mem_with_run_runs)
    fix r
    assume "h_runs h rid = Some r"
    then show "has_effect cfg en h (fst (if is_terminal (r_status r)
        then (h, sendJSON 200 (JObj [(''runId'', JStr rid), (''status'', JStr (status_str (r_status r))),
                                     (''alreadyTerminal'', JBool True)]) [])
        else (set_run h rid (request_cancel r),
              sendJSON 200 (JObj [(''runId'', JStr rid), (''status'', JStr ''cancelling'')]) [])))"
      unfolding has_effect_def
      by (intro exI [of _ "Cancels rid"]) (auto simp: effect_ok_def set_run_def)
  qed (rule has_effect_same, simp)
  show "has_effect cfg en h (fst (mem_handleEventsSse cfg rq rid h))"
    unfolding mem_handleEventsSse_def
  proof (rule mem_with_run_runs)
    fix r
    assume "h_runs h rid = Some r"
    then show "has_effect cfg en h (fst (set_run h rid (r\<lparr>r_subs := r_subs r @
        [subscribe (resume_after rq) (is_terminal (r_status r)) (r_events r)]\<rparr>), Stream sse_headers))"
      unfolding has_effect_def
      by (intro exI [of _ "Subscribes rid (resume_after rq)"]) (auto simp: effect_ok_def set_run_def)
  qed (rule has_effect_same, simp)
qed

lemma has_effect_create:
  assumes "mem_handleCreateRun cfg en rq h = Inr x"
  shows "has_effect cfg en h (fst x)"
proof -
  from assms have "mem_handleCreateRun cfg en rq h = Inr (fst x, snd x)" by simp
  from mem_handleCreateRun_runs [OF this] show ?thesis
  proof (elim disjE exE conjE)
    fix wid inputs w
    assume "c_workflows cfg wid = Some w" and "wf_json inputs"
      and "h_runs (fst x) = apply_effect cfg en (Creates wid inputs) (h_runs h)"
    then show ?thesis
      unfolding has_effect_def by (intro exI [of _ "Creates wid inputs"]) (simp add: effect_ok_def)
  qed (rule has_effect_same)
qed

text \<open>The routes, one by one: a predicate of every handler's result is one of the router's.\<close>

definition effect_result :: "mem_config \<Rightarrow> env \<Rightarrow> mem_host \<Rightarrow> mem_host outcome \<Rightarrow> bool" where
  "effect_result cfg en h res \<longleftrightarrow> (case res of Inl m \<Rightarrow> True | Inr x \<Rightarrow> has_effect cfg en h (fst x))"

lemma effect_result_intros:
  "effect_result cfg en h (Inl msg)"
  "effect_result cfg en h (Inr (h, rep))"
  "has_effect cfg en h (fst x) \<Longrightarrow> effect_result cfg en h (Inr x)"
  "effect_result cfg en h (mem_handleCreateRun cfg en rq h)"
  using has_effect_create [of cfg en rq h]
  by (auto simp: effect_result_def has_effect_same split: sum.split)

lemma effect_result_on_match:
  "(\<And>x. effect_result cfg en h (handler x)) \<Longrightarrow> effect_result cfg en h next_route \<Longrightarrow>
     effect_result cfg en h (on_match m ok handler next_route)"
  by (simp add: on_match_def split: option.split)

lemma effect_result_if:
  "effect_result cfg en h a \<Longrightarrow> effect_result cfg en h b \<Longrightarrow> effect_result cfg en h (if c then a else b)"
  by simp

lemma mem_route_effect: "effect_result cfg en h (mem_route cfg en rq h)"
proof (cases "rq_path rq")
  case None
  then show ?thesis by (simp add: mem_route_def effect_result_intros)
next
  case (Some path)
  show ?thesis
    unfolding mem_route_def Some option.case Let_def
    by (intro effect_result_if effect_result_on_match effect_result_intros(2,4)
        effect_result_intros(3) [OF has_effect_handlers(1)] effect_result_intros(3) [OF has_effect_handlers(2)]
        effect_result_intros(3) [OF has_effect_handlers(3)] effect_result_intros(3) [OF has_effect_handlers(4)]
        effect_result_intros(3) [OF has_effect_handlers(5)])
qed

lemma mem_serve_effect: "has_effect cfg en h (fst (mem_serve cfg en rq h))"
  using mem_route_effect [of cfg en h rq] has_effect_same [of h h]
  by (cases "mem_route cfg en rq h") (simp_all add: mem_serve_def effect_result_def)

section \<open>The invariant of the host\<close>

definition run_in :: "mem_config \<Rightarrow> string \<Rightarrow> run \<Rightarrow> bool" where
  "run_in cfg rid r \<longleftrightarrow>
     r_runId r = rid \<and> wf_json (r_inputs r) \<and> (\<forall>e \<in> set (r_events r). data_wf (e_data e)) \<and>
     (\<exists>w. c_workflows cfg (r_workflowId r) = Some w \<and> run_ok (wf_nodes w) r)"

definition host_ok :: "mem_config \<Rightarrow> mem_host \<Rightarrow> bool" where
  "host_ok cfg h \<longleftrightarrow> (\<forall>rid r. h_runs h rid = Some r \<longrightarrow> run_in cfg rid r)"

lemma host_ok_run: "host_ok cfg h \<Longrightarrow> h_runs h rid = Some r \<Longrightarrow>
    c_workflows cfg (r_workflowId r) = Some w \<Longrightarrow> run_ok (wf_nodes w) r"
  by (fastforce simp: host_ok_def run_in_def)

lemma run_in_created:
  assumes "c_workflows cfg wid \<noteq> None" and "wf_json inputs"
  shows "run_in cfg (new_run_id en) (created_run cfg en wid inputs)"
proof -
  let ?r = "new_run (new_run_id en) wid inputs (iso en)"
  from assms(1) obtain w where w: "c_workflows cfg wid = Some w" by blast
  have "fresh_run ?r" by (simp add: fresh_run_def new_run_def)
  then have "run_ok (wf_nodes w) (created_run cfg en wid inputs)"
    using w unfolding created_run_def by (intro runWorkflow_run_ok) (simp_all add: new_run_def)
  moreover have "grows ?r (created_run cfg en wid inputs)"
    unfolding created_run_def by (rule grows_runWorkflow)
  ultimately show ?thesis using w assms(2) by (auto simp: run_in_def grows_def new_run_def)
qed

lemma sub_ok_subscribe: "sub_ok evs b (subscribe x b evs)"
  by (auto simp: sub_ok_def sub_sent_def subscribe_def events_after_def intro!: exI [of _ "length evs"])

text \<open>What a reader of such a stream can rely on.\<close>

lemma sub_ok_complete:
  assumes "sub_ok evs halted s"
  shows "subseq (s_out s) evs"
    and "s_listening s \<or> s_ended s \<Longrightarrow> events_after (s_after s) (s_out s) = events_after (s_after s) evs"
    and "s_listening s \<or> s_ended s \<Longrightarrow> s_after s = num_of_int (- 1) \<Longrightarrow> s_out s = evs"
    and "s_ended s \<Longrightarrow> halted" and "s_listening s \<Longrightarrow> \<not> halted"
proof -
  from assms obtain k m where k: "k \<le> length evs" "sub_sent evs s k m" "s_listening s \<or> s_ended s \<longrightarrow> length evs \<le> k + m"
    unfolding sub_ok_def by blast
  from assms show "s_ended s \<Longrightarrow> halted" "s_listening s \<Longrightarrow> \<not> halted" by (simp_all add: sub_ok_def)
  let ?f = "\<lambda>e. nat_gt_num (e_seq e) (s_after s)"
  have out: "s_out s = filter ?f (take k evs) @ take m (drop k evs)"
    using k(2) by (simp add: sub_sent_def)
  have "subseq (s_out s) (take k evs @ drop k evs)"
    unfolding out by (intro list_emb_append_mono subseq_filter_left)
      (metis append_take_drop_id list_emb_append_mono list_emb_Nil self_append_conv subseq_order.order_refl)
  then show "subseq (s_out s) evs" by simp
  assume "s_listening s \<or> s_ended s"
  with k(3) have all: "take m (drop k evs) = drop k evs" by simp
  then have "events_after (s_after s) (s_out s) = filter ?f (take k evs @ drop k evs)"
    by (simp only: out events_after_def filter_append filter_filter conj_absorb)
  then show "events_after (s_after s) (s_out s) = events_after (s_after s) evs" by (simp add: events_after_def)
  assume "s_after s = num_of_int (- 1)"
  with all show "s_out s = evs" unfolding out by simp
qed

lemma run_in_subscribe:
  assumes "run_in cfg rid r"
  shows "run_in cfg rid (r\<lparr>r_subs := r_subs r @ [subscribe x (is_terminal (r_status r)) (r_events r)]\<rparr>)"
proof -
  from assms obtain w where w: "c_workflows cfg (r_workflowId r) = Some w" and ok: "run_ok (wf_nodes w) r"
    by (auto simp: run_in_def)
  let ?r = "r\<lparr>r_subs := r_subs r @ [subscribe x (is_terminal (r_status r)) (r_events r)]\<rparr>"
  have "subs_ok ?r (r_pc r = Halted)"
    using ok sub_ok_subscribe run_ok_terminal_iff [OF ok] by (auto simp: subs_ok_def run_ok_def)
  with ok have "run_ok (wf_nodes w) ?r" by (simp add: run_ok_def run_simps)
  with w assms show ?thesis by (simp add: run_in_def)
qed

lemma run_in_client_closes:
  assumes "run_in cfg rid r"
  shows "run_in cfg rid (client_closes j r)"
proof (cases "j < length (r_subs r)")
  case True
  from assms obtain w where w: "c_workflows cfg (r_workflowId r) = Some w" and ok: "run_ok (wf_nodes w) r"
    by (auto simp: run_in_def)
  have "subs_ok (client_closes j r) (r_pc r = Halted)"
    using ok True sub_ok_closed nth_mem [OF True] set_update_subset_insert [of "r_subs r" j]
    by (fastforce simp: subs_ok_def run_ok_def client_closes_def)
  with ok True have "run_ok (wf_nodes w) (client_closes j r)"
    by (simp add: client_closes_def run_ok_def run_simps)
  with w assms True show ?thesis by (simp add: run_in_def client_closes_def)
qed (use assms in \<open>simp add: client_closes_def\<close>)

lemma run_in_grows: "run_in cfg rid r \<Longrightarrow> grows r r' \<Longrightarrow>
    (\<And>w. run_ok (wf_nodes w) r \<Longrightarrow> c_workflows cfg (r_workflowId r) = Some w \<Longrightarrow> run_ok (wf_nodes w) r') \<Longrightarrow>
    run_in cfg rid r'"
  by (auto simp: run_in_def grows_def)

section \<open>How a run evolves in a step\<close>

text \<open>Growth, and a terminal run keeps everything but its subscribers.\<close>

definition run_evolves :: "run \<Rightarrow> run \<Rightarrow> bool" where
  "run_evolves r r' \<longleftrightarrow> grows r r' \<and> (is_terminal (r_status r) \<longrightarrow> r'\<lparr>r_subs := []\<rparr> = r\<lparr>r_subs := []\<rparr>)"

lemma run_evolves_refl [simp, intro]: "run_evolves r r"
  by (simp add: run_evolves_def)

lemma run_evolves_trans: "run_evolves r1 r2 \<Longrightarrow> run_evolves r2 r3 \<Longrightarrow> run_evolves r1 r3"
proof -
  assume a: "run_evolves r1 r2" "run_evolves r2 r3"
  have "r_status r2 = r_status r1" if "is_terminal (r_status r1)"
  proof -
    from a(1) that have "r_status (r2\<lparr>r_subs := []\<rparr>) = r_status (r1\<lparr>r_subs := []\<rparr>)"
      unfolding run_evolves_def by presburger
    then show ?thesis by simp
  qed
  with a show ?thesis by (auto simp: run_evolves_def intro: grows_trans)
qed

lemma run_evolves_open: "grows r r' \<Longrightarrow> \<not> is_terminal (r_status r) \<Longrightarrow> run_evolves r r'"
  by (simp add: run_evolves_def)

lemma run_evolves_subs: "run_evolves r (r\<lparr>r_subs := ss\<rparr>)"
  by (simp add: run_evolves_def)

text \<open>One step keeps the invariant and lets every run evolve; no run disappears.\<close>

definition good_step :: "mem_config \<Rightarrow> mem_host \<Rightarrow> mem_host \<Rightarrow> bool" where
  "good_step cfg h h' \<longleftrightarrow>
     host_ok cfg h' \<and> (\<forall>rid r. h_runs h rid = Some r \<longrightarrow> (\<exists>r'. h_runs h' rid = Some r' \<and> run_evolves r r'))"

lemma good_step_set_run:
  assumes "host_ok cfg h" and "h_runs h rid = Some r" and "run_in cfg rid r'" and "run_evolves r r'"
    and "h_runs h' = (h_runs h)(rid \<mapsto> r')"
  shows "good_step cfg h h'"
  using assms by (auto simp: good_step_def host_ok_def)

lemma good_step_effect:
  assumes "host_ok cfg h" and "h_runs h (new_run_id en) = None" and "has_effect cfg en h h'"
  shows "good_step cfg h h'"
proof -
  from assms(3) obtain ef where ef: "effect_ok cfg ef" and runs: "h_runs h' = apply_effect cfg en ef (h_runs h)"
    unfolding has_effect_def by blast
  have same: "good_step cfg h h'" if "h_runs h' = h_runs h"
    using assms(1) that by (auto simp: good_step_def host_ok_def)
  show ?thesis
  proof (cases ef)
    case NoEffect
    with runs same show ?thesis by simp
  next
    case (Creates wid inputs)
    with ef have "run_in cfg (new_run_id en) (created_run cfg en wid inputs)"
      by (intro run_in_created) (simp_all add: effect_ok_def)
    with assms(1,2) runs Creates show ?thesis by (auto simp: good_step_def host_ok_def)
  next
    case (Cancels rid)
    show ?thesis
    proof (cases "h_runs h rid")
      case None
      with runs Cancels same show ?thesis by simp
    next
      case (Some r)
      with assms(1) have r: "run_in cfg rid r" by (simp add: host_ok_def)
      show ?thesis
      proof (cases "is_terminal (r_status r)")
        case True
        with runs Cancels Some same show ?thesis by simp
      next
        case False
        have "run_in cfg rid (request_cancel r)"
          using r grows_request_cancel False by (intro run_in_grows [OF r]) (auto intro: request_cancel_run_ok)
        with runs Cancels Some False assms(1) show ?thesis
          by (intro good_step_set_run [OF assms(1) Some]) (auto intro: run_evolves_open grows_request_cancel)
      qed
    qed
  next
    case (Subscribes rid x)
    show ?thesis
    proof (cases "h_runs h rid")
      case None
      with runs Subscribes same show ?thesis by simp
    next
      case (Some r)
      with assms(1) have "run_in cfg rid r" by (simp add: host_ok_def)
      with runs Subscribes Some show ?thesis
        by (intro good_step_set_run [OF assms(1) Some run_in_subscribe]) (auto intro: run_evolves_subs)
    qed
  qed
qed

lemma mem_step_good:
  assumes "mem_step cfg h a h'" and "host_ok cfg h"
  shows "good_step cfg h h'"
  using assms
proof (induction rule: mem_step.induct)
  case (request h en rq)
  then show ?case using mem_serve_effect by (intro good_step_effect)
next
  case (segment h rid r w t r')
  then have r: "run_in cfg rid r" by (simp add: host_ok_def)
  with segment have ok: "run_ok (wf_nodes w) r" by (auto simp: run_in_def)
  have "r_pc r \<noteq> Halted" using segment.hyps(3) by (auto simp: exec_segment_def)
  with run_ok_terminal_iff [OF ok] have "\<not> is_terminal (r_status r)" by simp
  moreover have g: "grows r r'" using segment.hyps(3) by (rule grows_exec_segment)
  moreover have "run_in cfg rid r'"
    using segment.hyps by (intro run_in_grows [OF r g]) (auto intro: exec_segment_run_ok)
  ultimately show ?case
    using segment by (intro good_step_set_run [of cfg h rid r r']) (auto simp: set_run_def intro: run_evolves_open)
next
  case (timer h rid r r')
  then have r: "run_in cfg rid r" by (simp add: host_ok_def)
  then obtain w :: workflow where ok: "run_ok (wf_nodes w) r" by (auto simp: run_in_def)
  have "r_pc r \<noteq> Halted" using timer.hyps(2) by (auto simp: timer_fires_def)
  with run_ok_terminal_iff [OF ok] have "\<not> is_terminal (r_status r)" by simp
  moreover have g: "grows r r'" using timer.hyps(2) by (rule grows_timer_fires)
  moreover have "run_in cfg rid r'"
    using timer.hyps by (intro run_in_grows [OF r g]) (auto intro: timer_fires_run_ok)
  ultimately show ?case
    using timer by (intro good_step_set_run [of cfg h rid r r']) (auto simp: set_run_def intro: run_evolves_open)
next
  case (close h rid r j)
  then have "run_in cfg rid r" by (simp add: host_ok_def)
  then have "run_in cfg rid (client_closes j r)" by (rule run_in_client_closes)
  with close show ?case
    by (intro good_step_set_run [of cfg h rid r "client_closes j r"])
       (auto simp: set_run_def client_closes_def intro: run_evolves_subs)
qed

lemma host_ok_init [simp]: "host_ok cfg init_host"
  by (simp add: host_ok_def init_host_def)

interpretation mem_sys: run_system "mem_step cfg" "host_ok cfg" h_runs run_evolves for cfg
  by unfold_locales (auto intro: run_evolves_trans dest: mem_step_good simp: good_step_def)

lemma mem_reachable_ok: "mem_reachable cfg h \<Longrightarrow> host_ok cfg h"
  unfolding mem_reachable_def using mem_sys.trace_ok [OF _ host_ok_init] by blast

lemma mem_reachable_run:
  assumes "mem_reachable cfg h" and "h_runs h rid = Some r"
  obtains w where "c_workflows cfg (r_workflowId r) = Some w" and "run_ok (wf_nodes w) r" and "r_runId r = rid"
proof -
  from mem_reachable_ok [OF assms(1)] assms(2) have "run_in cfg rid r" by (simp add: host_ok_def)
  then show thesis using that by (auto simp: run_in_def)
qed

lemma mem_reachable_data:
  assumes "mem_reachable cfg h" and "h_runs h rid = Some r" and "e \<in> set (r_events r)"
  shows "data_wf (e_data e)"
  using mem_reachable_ok [OF assms(1)] assms(2,3) by (auto simp: host_ok_def run_in_def)

lemma mem_reachable_inputs: "mem_reachable cfg h \<Longrightarrow> h_runs h rid = Some r \<Longrightarrow> wf_json (r_inputs r)"
  using mem_reachable_ok by (auto simp: host_ok_def run_in_def)

section \<open>The interfaces of the in-memory host\<close>

lemma appendEvent_events: "r_events (appendEvent r ty nid d t) = r_events r @
    [\<lparr>e_seq = length (r_events r), e_runId = r_runId r, e_type = ty, e_nodeId = nid, e_data = d, e_timestamp = t\<rparr>]"
  by (simp add: appendEvent_def Let_def)

lemma seqs_ok_numbered: "seqs_ok r \<Longrightarrow> numbered (r_events r)"
  by (auto simp: numbered_def seqs_ok_def intro: nth_equalityI)

interpretation mem_log: event_log r_events appendEvent "\<lambda>r x. events_after x (r_events r)" rid
    "\<lambda>r. seqs_ok r \<and> r_runId r = rid" "\<lambda>d. True" for rid
  by unfold_locales (simp_all add: appendEvent_events run_simps seqs_ok_numbered seqs_ok_append)

interpretation mem_idem: idem_store "\<lambda>c. c" "\<lambda>k e c. c(k \<mapsto> e)" pruneIdempotencyCache i_storedAt i_bodyHash "\<lambda>c. True"
  by unfold_locales (auto simp: pruneIdempotencyCache_def split: option.split)

section \<open>What a step does to one run\<close>

text \<open>The steps of the run's own executor.\<close>

fun own_step :: "string \<Rightarrow> action \<Rightarrow> bool" where
  "own_step rid (ASegment x t) \<longleftrightarrow> x = rid"
| "own_step rid (ATimer x) \<longleftrightarrow> x = rid"
| "own_step rid _ \<longleftrightarrow> False"

definition stepped :: "bool \<Rightarrow> workflow \<Rightarrow> run \<Rightarrow> run \<Rightarrow> bool" where
  "stepped own w r r' \<longleftrightarrow>
     (if own then \<exists>t. run_step r w t = Some r'
      else r' = r \<or> (r' = request_cancel r \<and> \<not> is_terminal (r_status r)) \<or> (\<exists>ss. r' = r\<lparr>r_subs := ss\<rparr>))"

lemma effect_on_run:
  assumes "has_effect cfg en h h'" and "h_runs h (new_run_id en) = None" and "h_runs h rid = Some r"
  shows "\<exists>r'. h_runs h' rid = Some r' \<and> stepped False w r r'"
proof -
  from assms(1) obtain ef where runs: "h_runs h' = apply_effect cfg en ef (h_runs h)"
    unfolding has_effect_def by blast
  have "rid \<noteq> new_run_id en" using assms(2,3) by auto
  with runs assms(3) show ?thesis
    by (cases ef) (auto simp: stepped_def split: option.splits)
qed

lemma mem_step_run:
  assumes "mem_step cfg h a h'" and "h_runs h rid = Some r" and "c_workflows cfg (r_workflowId r) = Some w"
  shows "\<exists>r'. h_runs h' rid = Some r' \<and> stepped (own_step rid a) w r r'"
  using assms
proof (induction rule: mem_step.induct)
  case (request h en rq)
  then show ?case using effect_on_run [OF mem_serve_effect] by simp
next
  case (segment h x rx wx t r')
  then show ?case
    by (auto simp: stepped_def set_run_def run_step_def timer_fires_def exec_segment_def split: pc.splits)
next
  case (timer h x rx r')
  then show ?case by (auto simp: stepped_def set_run_def run_step_def)
next
  case (close h x rx j)
  then show ?case by (auto simp: stepped_def set_run_def client_closes_def)
qed

lemma run_ok_not_halted: "run_ok ns r \<Longrightarrow> \<not> is_terminal (r_status r) \<Longrightarrow> r_pc r \<noteq> Halted"
  using run_ok_terminal_iff by blast

lemma steps_left_stepped:
  assumes "run_ok (wf_nodes w) r" and "stepped own w r r'"
  shows "steps_left (wf_nodes w) r' + (if own then 1 else 0) \<le> steps_left (wf_nodes w) r"
proof (cases own)
  case True
  with assms steps_left_decreases [OF assms(1)] show ?thesis by (force simp: stepped_def)
next
  case False
  with assms(2) show ?thesis
    by (auto simp: stepped_def steps_left_def request_cancel_def split: pc.splits)
qed

end
