(* ===== verification/MemLaws.thy ===== *)
theory MemLaws
  imports MemSafety
begin

text \<open>
  Laws of the in-memory host's HTTP side that the properties rest on: which handler a
  request reaches, what an unauthenticated request can do, how the idempotency cache
  evolves over a trace, and how many steps a run has left.
\<close>

section \<open>Routing\<close>

definition run_request :: "string \<Rightarrow> string list \<Rightarrow> string \<Rightarrow> request \<Rightarrow> bool" where
  "run_request m sfx x rq \<longleftrightarrow>
     rq_method rq = m \<and> rq_path rq = Some (path_of x sfx) \<and> x \<noteq> [] \<and> CHR ''/'' \<notin> set x"

definition create_request :: "request \<Rightarrow> bool" where
  "create_request rq \<longleftrightarrow> rq_method rq = ''POST'' \<and> rq_path rq = Some ''/v1/runs''"

lemma on_match_simps [simp]:
  "on_match (Some x) True f n = f x" "on_match None b f n = n" "on_match m False f n = n"
  by (simp_all add: on_match_def split: option.split)

lemma path_of_other [simp]:
  "path_of x sfx \<noteq> ''/.well-known/wop''" "path_of x sfx \<noteq> ''/v1/openapi.json''"
  "path_of x sfx \<noteq> ''/v1/runs''"
  by (simp_all add: path_of_def)

lemma patterns_path_of:
  assumes "x \<noteq> []" and "CHR ''/'' \<notin> set x" and "\<forall>y \<in> set sfx. CHR ''/'' \<notin> set y"
  shows "RUN_ID_PATTERN (path_of x sfx) = (if sfx = [] then Some x else None)"
    "RUN_CANCEL_PATTERN (path_of x sfx) = (if sfx = [''cancel''] then Some x else None)"
    "RUN_EVENTS_POLL_PATTERN (path_of x sfx) = (if sfx = [''events'', ''poll''] then Some x else None)"
    "RUN_EVENTS_SSE_PATTERN (path_of x sfx) = (if sfx = [''events''] then Some x else None)"
    "RUN_DEBUG_BUNDLE_PATTERN (path_of x sfx) = (if sfx = [''debug-bundle''] then Some x else None)"
  using run_path_of [OF assms(2,1,3)] by (simp_all add: path_patterns eq_commute)

lemma mem_route_create:
  "create_request rq \<Longrightarrow> mem_route cfg en rq h = mem_handleCreateRun cfg en rq h"
  by (simp add: create_request_def mem_route_def)

lemma mem_route_get:
  "run_request ''GET'' [] x rq \<Longrightarrow> mem_route cfg en rq h = Inr (mem_handleGetRun cfg rq x h)"
  by (simp add: run_request_def mem_route_def patterns_path_of)

lemma mem_route_cancel:
  "run_request ''POST'' [''cancel''] x rq \<Longrightarrow> mem_route cfg en rq h = Inr (mem_handleCancelRun cfg rq x h)"
  by (simp add: run_request_def mem_route_def patterns_path_of)

lemma mem_route_poll:
  "run_request ''GET'' [''events'', ''poll''] x rq \<Longrightarrow> mem_route cfg en rq h = Inr (mem_handleEventsPoll cfg rq x h)"
  by (simp add: run_request_def mem_route_def patterns_path_of)

lemma mem_route_sse:
  "run_request ''GET'' [''events''] x rq \<Longrightarrow> mem_route cfg en rq h = Inr (mem_handleEventsSse cfg rq x h)"
  by (simp add: run_request_def mem_route_def patterns_path_of)

lemma mem_route_bundle:
  "run_request ''GET'' [''debug-bundle''] x rq \<Longrightarrow> mem_route cfg en rq h = Inr (mem_handleDebugBundle cfg en rq x h)"
  by (simp add: run_request_def mem_route_def patterns_path_of)

lemmas mem_routes = mem_route_create mem_route_get mem_route_cancel mem_route_poll mem_route_sse mem_route_bundle

text \<open>Whatever the request, the router's result is one of these.\<close>

lemma mem_route_cases:
  assumes "Q (Inl ''Invalid URL'')" and "Q (Inr (h, mem_handleDiscovery))" and "Q (Inr (h, mem_handleOpenApi))"
    and "Q (mem_handleCreateRun cfg en rq h)" and "\<And>x. Q (Inr (mem_handleEventsPoll cfg rq x h))"
    and "\<And>x. Q (Inr (mem_handleEventsSse cfg rq x h))" and "\<And>x. Q (Inr (mem_handleDebugBundle cfg en rq x h))"
    and "\<And>x. Q (Inr (mem_handleCancelRun cfg rq x h))" and "\<And>x. Q (Inr (mem_handleGetRun cfg rq x h))"
    and "\<And>m. Q (Inr (h, sendError 404 ''not_found'' m))"
  shows "Q (mem_route cfg en rq h)"
proof (cases "rq_path rq")
  case None
  then show ?thesis using assms(1) by (simp add: mem_route_def)
next
  case (Some path)
  have m: "Q (on_match m b f n)" if "\<And>x. Q (f x)" "Q n" for m b f n
    using that by (simp add: on_match_def split: option.split)
  have i: "Q (if b then p else n)" if "Q p" "Q n" for b p n
    using that by simp
  show ?thesis
    unfolding mem_route_def Some option.case Let_def by (intro i m assms)
qed

section \<open>Requests without the token\<close>

definition harmless :: "mem_host \<Rightarrow> mem_host outcome \<Rightarrow> bool" where
  "harmless h res \<longleftrightarrow>
     (case res of Inl m \<Rightarrow> True
      | Inr x \<Rightarrow> fst x = h \<and>
          (reply_status (snd x) \<in> {401, 404} \<or> snd x = mem_handleDiscovery \<or> snd x = mem_handleOpenApi))"

lemma mem_with_run_unauthorized:
  "\<not> authorized (c_api_key cfg) rq \<Longrightarrow> harmless h (Inr (mem_with_run cfg rq h x k))"
  by (cases "checkAuth (c_api_key cfg) rq")
     (auto simp: checkAuth_None harmless_def mem_with_run_def dest: checkAuth_Some)

lemma mem_route_unauthorized:
  assumes "\<not> authorized (c_api_key cfg) rq"
  shows "harmless h (mem_route cfg en rq h)"
proof -
  from check_create_unauthorized [OF assms] obtain rep
    where "check_create (c_api_key cfg) (c_workflows cfg) rq = Rejects rep" "reply_status rep = 401" by blast
  then have "harmless h (mem_handleCreateRun cfg en rq h)"
    by (simp add: mem_handleCreateRun_def harmless_def)
  note create = this
  show ?thesis
  proof (rule mem_route_cases)
    show "harmless h (Inr (mem_handleEventsPoll cfg rq x h))" "harmless h (Inr (mem_handleEventsSse cfg rq x h))"
      "harmless h (Inr (mem_handleDebugBundle cfg en rq x h))" "harmless h (Inr (mem_handleCancelRun cfg rq x h))"
      "harmless h (Inr (mem_handleGetRun cfg rq x h))" for x
      unfolding mem_handleEventsPoll_def mem_handleEventsSse_def mem_handleDebugBundle_def
        mem_handleCancelRun_def mem_handleGetRun_def
      by (rule mem_with_run_unauthorized [OF assms])+
  qed (use create in \<open>simp_all add: harmless_def\<close>)
qed

section \<open>The idempotency cache over a trace\<close>

definition idem_result :: "int \<Rightarrow> mem_host \<Rightarrow> mem_host outcome \<Rightarrow> bool" where
  "idem_result T h res \<longleftrightarrow> (case res of Inl m \<Rightarrow> True | Inr x \<Rightarrow> mem_idem.evolves T (h_idem h) (h_idem (fst x)))"

lemma mem_createRun_idem:
  "h_idem (fst (mem_createRun cfg en wid inputs key hash h)) =
     (case key of None \<Rightarrow> h_idem h
      | Some k \<Rightarrow> (h_idem h)(buildIdempotencyCacheKey (c_sha256 cfg) ''POST /v1/runs'' k \<mapsto>
          \<lparr>i_status = 201, i_body = stringify (created_body (new_run_id en) wid (iso en)),
           i_contentType = ''application/json'', i_bodyHash = hash, i_storedAt = now_ms en\<rparr>))"
  by (simp add: mem_createRun_def Let_def set_run_def split: option.split)

lemma mem_handleCreateRun_idem:
  assumes "now_ms en \<le> T"
  shows "idem_result T h (mem_handleCreateRun cfg en rq h)"
proof (cases "check_create (c_api_key cfg) (c_workflows cfg) rq")
  case (Accepts wid inputs)
  show ?thesis
  proof (cases "rq_headers rq ''idempotency-key''")
    case None
    with Accepts show ?thesis
      by (simp add: mem_handleCreateRun_def Let_def idem_result_def mem_createRun_idem mem_idem.evolves_refl)
  next
    case (Some key)
    let ?c = "pruneIdempotencyCache (now_ms en) (h_idem h)"
    let ?k = "buildIdempotencyCacheKey (c_sha256 cfg) ''POST /v1/runs'' key"
    have p: "mem_idem.evolves T (h_idem h) ?c"
      by (intro mem_idem.evolves_prune mem_idem.evolves_refl assms)
    show ?thesis
    proof (cases "?c ?k")
      case None
      with Accepts Some mem_idem.evolves_put [OF p None] show ?thesis
        by (simp add: mem_handleCreateRun_def Let_def idem_result_def mem_createRun_idem)
    next
      case (Some e)
      with Accepts \<open>rq_headers rq _ = _\<close> p show ?thesis
        by (simp add: mem_handleCreateRun_def Let_def idem_result_def)
    qed
  qed
qed (simp_all add: mem_handleCreateRun_def idem_result_def mem_idem.evolves_refl)

lemma mem_with_run_idem:
  "(\<And>r. h_idem (fst (k r)) = h_idem h) \<Longrightarrow> idem_result T h (Inr (mem_with_run cfg rq h x k))"
  by (simp add: mem_with_run_def idem_result_def mem_idem.evolves_refl split: option.split)

lemma mem_serve_idem:
  assumes "now_ms en \<le> T"
  shows "mem_idem.evolves T (h_idem h) (h_idem (fst (mem_serve cfg en rq h)))"
proof -
  have same: "idem_result T h (Inl m)" "idem_result T h (Inr (h, rep))" for m rep
    by (simp_all add: idem_result_def mem_idem.evolves_refl)
  have "idem_result T h (mem_route cfg en rq h)"
  proof (rule mem_route_cases)
    show "idem_result T h (Inr (mem_handleEventsPoll cfg rq x h))" "idem_result T h (Inr (mem_handleEventsSse cfg rq x h))"
      "idem_result T h (Inr (mem_handleDebugBundle cfg en rq x h))" "idem_result T h (Inr (mem_handleCancelRun cfg rq x h))"
      "idem_result T h (Inr (mem_handleGetRun cfg rq x h))" for x
      unfolding mem_handleEventsPoll_def mem_handleEventsSse_def mem_handleDebugBundle_def
        mem_handleCancelRun_def mem_handleGetRun_def
      by (rule mem_with_run_idem; simp add: set_run_def Let_def)+
  qed (rule same mem_handleCreateRun_idem [OF assms])+
  then show ?thesis
    by (cases "mem_route cfg en rq h") (simp_all add: mem_serve_def idem_result_def mem_idem.evolves_refl)
qed

text \<open>Every request of a trace is served by time \<open>T\<close>.\<close>

fun served_by :: "int \<Rightarrow> action \<Rightarrow> bool" where
  "served_by T (ARequest en rq) \<longleftrightarrow> now_ms en \<le> T"
| "served_by T _ \<longleftrightarrow> True"

lemma mem_step_idem:
  "mem_step cfg h a h' \<Longrightarrow> served_by T a \<Longrightarrow> mem_idem.evolves T (h_idem h) (h_idem h')"
  by (induction rule: mem_step.induct) (auto simp: set_run_def mem_idem.evolves_refl intro: mem_serve_idem)

lemma mem_trace_idem:
  "mem_trace cfg h as h' \<Longrightarrow> list_all (served_by T) as \<Longrightarrow> mem_idem.evolves T (h_idem h) (h_idem h')"
  by (induction rule: trace.induct) (auto intro: mem_idem.evolves_refl mem_idem.evolves_trans mem_step_idem)

text \<open>The create handler decides by the store's \<open>decide\<close>.\<close>

definition idem_key :: "mem_config \<Rightarrow> string \<Rightarrow> string" where
  "idem_key cfg key = buildIdempotencyCacheKey (c_sha256 cfg) ''POST /v1/runs'' key"

lemma mem_serve_create_decide:
  assumes "create_request rq" and "rq_headers rq ''idempotency-key'' = Some key"
    and "check_create (c_api_key cfg) (c_workflows cfg) rq = Accepts wid inputs"
  shows "mem_serve cfg en rq h =
    (let h1 = h\<lparr>h_idem := pruneIdempotencyCache (now_ms en) (h_idem h)\<rparr>;
         hash = c_sha256 cfg (rq_body rq)
     in case mem_idem.decide (now_ms en) (idem_key cfg key) hash (h_idem h) of
          Fresh \<Rightarrow> mem_createRun cfg en wid inputs (Some key) hash h1
        | Replay e \<Rightarrow> (h1, sendText (i_status e) (i_contentType e) (i_body e) [(''WOP-Idempotent-Replay'', ''true'')])
        | Conflict \<Rightarrow> (h1, sendError 409 ''idempotency_key_conflict''
            ''Idempotency-Key reused with a different request body. A key MUST pin exactly one logical operation.''))"
  using assms
  by (simp add: mem_serve_def mem_route_create mem_handleCreateRun_def hashBody_def mem_idem.decide_def
      idem_key_def Let_def split: option.split)

section \<open>Steps a run has left\<close>

lemma mem_trace_own_steps:
  assumes "mem_trace cfg h as h'" and "host_ok cfg h" and "h_runs h rid = Some r"
    and "c_workflows cfg (r_workflowId r) = Some w"
  shows "\<exists>r'. h_runs h' rid = Some r' \<and>
    length (filter (own_step rid) as) + steps_left (wf_nodes w) r' \<le> steps_left (wf_nodes w) r"
  using assms
proof (induction arbitrary: r rule: trace.induct)
  case (trace_cons h a h1 as h2)
  from mem_step_run [OF trace_cons.hyps(1) trace_cons.prems(2,3)]
  obtain r1 where r1: "h_runs h1 rid = Some r1" "stepped (own_step rid a) w r r1" by blast
  have ok1: "host_ok cfg h1" using mem_sys.step_ok trace_cons by blast
  from trace_cons.prems have ok: "run_ok (wf_nodes w) r" by (intro host_ok_run)
  have "r_workflowId r1 = r_workflowId r"
    using mem_sys.step_run [OF trace_cons.hyps(1) trace_cons.prems(1,2)] r1(1)
    by (auto simp: run_evolves_def grows_def)
  with trace_cons.IH [OF ok1 r1(1)] trace_cons.prems(3) obtain r2 where "h_runs h2 rid = Some r2"
    "length (filter (own_step rid) as) + steps_left (wf_nodes w) r2 \<le> steps_left (wf_nodes w) r1" by auto
  with steps_left_stepped [OF ok r1(2)] show ?case by (cases "own_step rid a") auto
qed auto

text \<open>A run that is not terminal has a step; taking them in turn it terminates.\<close>

lemma mem_run_step:
  assumes "h_runs h rid = Some r" and "c_workflows cfg (r_workflowId r) = Some w" and "run_step r w t = Some r'"
  shows "\<exists>a. own_step rid a \<and> mem_step cfg h a (set_run h rid r')"
proof (cases "timer_fires r")
  case None
  with assms have "mem_step cfg h (ASegment rid t) (set_run h rid r')"
    by (intro mem_step.segment) (auto simp: run_step_def)
  then show ?thesis by (intro exI [of _ "ASegment rid t"]) simp
next
  case (Some x)
  with assms have "mem_step cfg h (ATimer rid) (set_run h rid r')"
    by (intro mem_step.timer) (auto simp: run_step_def)
  then show ?thesis by (intro exI [of _ "ATimer rid"]) simp
qed

lemma mem_run_terminates:
  assumes "host_ok cfg h" and "h_runs h rid = Some r" and "c_workflows cfg (r_workflowId r) = Some w"
  shows "\<exists>as h' r'. mem_trace cfg h as h' \<and> list_all (own_step rid) as \<and> h_runs h' rid = Some r' \<and>
    is_terminal (r_status r')"
  using assms
proof (induction "steps_left (wf_nodes w) r" arbitrary: h r rule: less_induct)
  case less
  from less.prems have ok: "run_ok (wf_nodes w) r" by (intro host_ok_run)
  show ?case
  proof (cases "is_terminal (r_status r)")
    case True
    with less.prems show ?thesis by (intro exI [of _ "[]"] exI [of _ h] exI [of _ r]) (auto intro: trace_nil)
  next
    case False
    with run_step_enabled run_ok_not_halted [OF ok] obtain r1 where s: "run_step r w [] = Some r1" by fastforce
    with mem_run_step [OF less.prems(2,3)] obtain a
      where a: "own_step rid a" "mem_step cfg h a (set_run h rid r1)" by blast
    have "host_ok cfg (set_run h rid r1)" using mem_sys.step_ok [OF a(2) less.prems(1)] .
    moreover have g: "r_workflowId r1 = r_workflowId r"
      using s grows_exec_segment grows_timer_fires
      by (auto simp: run_step_def grows_def split: option.splits)
    ultimately obtain as h' r' where "mem_trace cfg (set_run h rid r1) as h'" "list_all (own_step rid) as"
      "h_runs h' rid = Some r'" "is_terminal (r_status r')"
      using less.hyps [OF steps_left_decreases [OF ok s], of "set_run h rid r1"] less.prems(3)
      by (auto simp: set_run_def)
    with a show ?thesis
      by (intro exI [of _ "a # as"] exI [of _ h'] exI [of _ r']) (auto intro: trace_cons)
  qed
qed

end
