(* ===== verification/SqlSafety.thy ===== *)
theory SqlSafety
  imports SqlFrame MemLaws
begin

text \<open>
  The SQLite host over its lifetime: a database that outlives its processes, one process at
  a time. A step is a stretch of code of the process (a request, a segment, a timer, a
  heartbeat, a closing client), its start, its orderly end, or its death, which may come
  between any two statements (\<open>WTorn\<close>). Two processes at once are not in this system; they
  are in theory \<open>Cluster\<close>, which builds on it.
\<close>

section \<open>Steps\<close>

datatype sql_action =
  QRequest env request
| QSegment string string
| QTimer string
| QHeartbeat string int
| QClose string nat

inductive sql_act :: "sql_config \<Rightarrow> sql_host \<Rightarrow> sql_action \<Rightarrow> sql_host \<Rightarrow> bool" for cfg h where
  act_request: "getRun (new_run_id en) (g_db h) = None \<Longrightarrow>
     sql_act cfg h (QRequest en rq) (snd (sql_serve cfg en rq h))"
| act_segment: "sql_segment cfg rid t h = Some h' \<Longrightarrow> sql_act cfg h (QSegment rid t) h'"
| act_timer: "sql_timer rid h = Some h' \<Longrightarrow> sql_act cfg h (QTimer rid) h'"
| act_heartbeat: "heartbeat cfg rid now h = Some h' \<Longrightarrow> sql_act cfg h (QHeartbeat rid now) h'"
| act_close: "sql_act cfg h (QClose rid j) (sql_client_closes rid j h)"

inductive_cases sql_act_requestE: "sql_act cfg h (QRequest en rq) h'"
inductive_cases sql_act_segmentE: "sql_act cfg h (QSegment rid t) h'"

text \<open>The machine: a database with no process, or a process by its id.\<close>

datatype sql_world = Down sql_db | Up string sql_host

datatype world_action =
  WAct sql_action
| WTorn sql_action nat \<comment> \<open>after how many of its statements\<close>
| WStart string int string
| WTornStart string int string nat
| WCrash
| WShutdown

definition as_process :: "sql_config \<Rightarrow> string \<Rightarrow> sql_config" where
  "as_process cfg pid = cfg\<lparr>s_pid := pid\<rparr>"

text \<open>An unhandled rejection ends the process.\<close>

definition after_act :: "string \<Rightarrow> sql_host \<Rightarrow> sql_world" where
  "after_act pid h = (if g_crashed h then Down (g_db h) else Up pid h)"

inductive sql_step :: "sql_config \<Rightarrow> sql_world \<Rightarrow> world_action \<Rightarrow> sql_world \<Rightarrow> bool" for cfg where
  step_act: "sql_act (as_process cfg pid) (h\<lparr>g_commits := []\<rparr>) a h' \<Longrightarrow>
     sql_step cfg (Up pid h) (WAct a) (after_act pid h')"
| step_torn: "sql_act (as_process cfg pid) (h\<lparr>g_commits := []\<rparr>) a h' \<Longrightarrow> n < length (g_commits h') \<Longrightarrow>
     sql_step cfg (Up pid h) (WTorn a n) (Down (g_commits h' ! n))"
| step_start: "sql_step cfg (Down db) (WStart pid now t) (after_act pid (sql_boot (as_process cfg pid) now t db))"
| step_torn_start: "n < length (g_commits (sql_boot (as_process cfg pid) now t db)) \<Longrightarrow>
     sql_step cfg (Down db) (WTornStart pid now t n) (Down (g_commits (sql_boot (as_process cfg pid) now t db) ! n))"
| step_crash: "sql_step cfg (Up pid h) WCrash (Down (g_db h))"
| step_shutdown: "sql_step cfg (Up pid h) WShutdown (Down (shutdown (as_process cfg pid) h))"

inductive_cases sql_step_actE: "sql_step cfg w (WAct a) w'"

text \<open>The same as functions, to run the machine.\<close>

fun sql_do :: "sql_config \<Rightarrow> sql_action \<Rightarrow> sql_host \<Rightarrow> sql_host option" where
  "sql_do cfg (QRequest en rq) h =
     (if getRun (new_run_id en) (g_db h) = None then Some (snd (sql_serve cfg en rq h)) else None)"
| "sql_do cfg (QSegment rid t) h = sql_segment cfg rid t h"
| "sql_do cfg (QTimer rid) h = sql_timer rid h"
| "sql_do cfg (QHeartbeat rid now) h = heartbeat cfg rid now h"
| "sql_do cfg (QClose rid j) h = Some (sql_client_closes rid j h)"

lemma sql_act_do: "sql_act cfg h a h' \<longleftrightarrow> sql_do cfg a h = Some h'"
  by (cases a) (auto elim: sql_act.cases intro: sql_act.intros split: if_splits)

fun sql_next :: "sql_config \<Rightarrow> world_action \<Rightarrow> sql_world \<Rightarrow> sql_world option" where
  "sql_next cfg (WAct a) (Up pid h) =
     map_option (after_act pid) (sql_do (as_process cfg pid) a (h\<lparr>g_commits := []\<rparr>))"
| "sql_next cfg (WTorn a n) (Up pid h) =
     (case sql_do (as_process cfg pid) a (h\<lparr>g_commits := []\<rparr>) of
        Some h' \<Rightarrow> if n < length (g_commits h') then Some (Down (g_commits h' ! n)) else None
      | None \<Rightarrow> None)"
| "sql_next cfg (WStart pid now t) (Down db) = Some (after_act pid (sql_boot (as_process cfg pid) now t db))"
| "sql_next cfg (WTornStart pid now t n) (Down db) =
     (let dbs = g_commits (sql_boot (as_process cfg pid) now t db)
      in if n < length dbs then Some (Down (dbs ! n)) else None)"
| "sql_next cfg WCrash (Up pid h) = Some (Down (g_db h))"
| "sql_next cfg WShutdown (Up pid h) = Some (Down (shutdown (as_process cfg pid) h))"
| "sql_next cfg _ _ = None"

lemma sql_next_step: "sql_next cfg a w = Some w' \<Longrightarrow> sql_step cfg w a w'"
  by (cases "(cfg, a, w)" rule: sql_next.cases)
     (auto simp: Let_def sql_act_do [symmetric] intro: sql_step.intros split: option.splits if_splits)

fun sql_run :: "sql_config \<Rightarrow> world_action list \<Rightarrow> sql_world \<Rightarrow> sql_world option" where
  "sql_run cfg [] w = Some w"
| "sql_run cfg (a # as) w = (case sql_next cfg a w of None \<Rightarrow> None | Some w' \<Rightarrow> sql_run cfg as w')"

abbreviation sql_trace :: "sql_config \<Rightarrow> sql_world \<Rightarrow> world_action list \<Rightarrow> sql_world \<Rightarrow> bool" where
  "sql_trace cfg \<equiv> trace (sql_step cfg)"

definition sql_reachable :: "sql_config \<Rightarrow> sql_world \<Rightarrow> bool" where
  "sql_reachable cfg w \<longleftrightarrow> (\<exists>as. sql_trace cfg (Down empty_db) as w)"

lemma sql_run_trace: "sql_run cfg as w = Some w' \<Longrightarrow> sql_trace cfg w as w'"
  by (induction as arbitrary: w) (auto intro: trace.intros sql_next_step split: option.splits)

fun world_db :: "sql_world \<Rightarrow> sql_db" where
  "world_db (Down db) = db"
| "world_db (Up pid h) = g_db h"

lemma as_process_simps [simp]:
  "s_workflows (as_process cfg pid) = s_workflows cfg" "s_pid (as_process cfg pid) = pid"
  "s_api_key (as_process cfg pid) = s_api_key cfg" "s_sha256 (as_process cfg pid) = s_sha256 cfg"
  "s_claim_ttl (as_process cfg pid) = s_claim_ttl cfg" "s_parse_error (as_process cfg pid) = s_parse_error cfg"
  by (simp_all add: as_process_def)

section \<open>Actions that touch single rows\<close>

lemma host_fields [simp]:
  "g_db (commit db h) = db" "g_exec (commit db h) = g_exec h" "g_subs (commit db h) = g_subs h"
  "g_db (set_exec rid x h) = g_db h" "g_exec (set_exec rid x h) = (g_exec h)(rid \<mapsto> x)"
  "g_db (set_pc rid p h) = g_db h"
  by (simp_all add: commit_def set_exec_def set_pc_def)

lemma tracked_set_exec [simp]: "tracked cfg db0 (set_exec rid x h) = tracked cfg db0 h"
  by (simp add: tracked_def set_exec_def)

lemma host_inv_commit:
  assumes "host_inv cfg db0 h" and "db_ok (s_workflows cfg) db" and "db_evolves (g_db h) db"
    and "\<And>rid x. g_exec h rid = Some x \<Longrightarrow> exec_ok cfg rid x db"
  shows "host_inv cfg db0 (commit db h)"
proof -
  have "tracked cfg db0 (commit db h)"
    using assms(1-3) by (intro tracked_commit) (simp_all add: host_inv_def)
  with assms(4) show ?thesis by (simp add: host_inv_def commit_def)
qed

lemma exec_ok_row:
  assumes "exec_ok cfg rid x db" and "getRun rid db' = map_option f (getRun rid db)"
    and "\<And>r. q_workflow_id (f r) = q_workflow_id r \<and> q_status (f r) = q_status r \<and> q_claim_holder (f r) = q_claim_holder r"
    and "shapes_of rid db' = shapes_of rid db"
  shows "exec_ok cfg rid x db'"
  using assms by (fastforce simp: exec_ok_def owned_def)

lemma host_inv_db: "host_inv cfg db0 h \<Longrightarrow> db_ok (s_workflows cfg) (g_db h)"
  unfolding host_inv_def by (blast intro: tracked_db)

lemma host_inv_exec: "host_inv cfg db0 h \<Longrightarrow> g_exec h rid = Some x \<Longrightarrow> exec_ok cfg rid x (g_db h)"
  by (simp add: host_inv_def)

lemma host_inv_exec_row: "host_inv cfg db0 h \<Longrightarrow> getRun rid (g_db h) = None \<Longrightarrow> g_exec h rid = None"
  using host_inv_exec by (cases "g_exec h rid") (fastforce simp: exec_ok_def owned_def)+

lemma heartbeat_inv:
  assumes "host_inv cfg db0 h" and "heartbeat cfg rid now h = Some h'"
  shows "host_inv cfg db0 h'"
proof -
  let ?db = "renewClaimStmt (now + s_claim_ttl cfg) rid (s_pid cfg) (g_db h)"
  have sh: "shapes_of rid' ?db = shapes_of rid' (g_db h)" for rid'
    by (rule shapes_of_events) (simp add: sql_simps)
  have "exec_ok cfg rid' x ?db" if "g_exec h rid' = Some x" for rid' x
  proof (rule exec_ok_row [OF host_inv_exec [OF assms(1) that]])
    let ?f = "\<lambda>r. if rid' = rid \<and> q_claim_holder r = Some (s_pid cfg)
      then r\<lparr>q_claim_expires := Some (now + s_claim_ttl cfg)\<rparr> else r"
    show "getRun rid' ?db = map_option ?f (getRun rid' (g_db h))"
      by (simp add: sql_simps option.map_ident)
  qed (simp_all add: sh)
  with assms show ?thesis
    by (auto simp: heartbeat_def split: if_splits
        intro!: host_inv_commit host_inv_db db_ok_claims db_evolves_claims)
qed

lemma timer_inv:
  assumes "host_inv cfg db0 h" and "sql_timer rid h = Some h'"
  shows "host_inv cfg db0 h'"
proof -
  from assms(2) obtain x i ms where x: "g_exec h rid = Some x" "x_pc x = Sleeping i ms" "h' = set_pc rid (Woken i) h"
    by (auto simp: sql_timer_def split: option.splits pc.splits)
  from host_inv_exec [OF assms(1) x(1)] x(2) have "exec_ok cfg rid (x\<lparr>x_pc := Woken i\<rparr>) (g_db h)"
    by (auto simp: exec_ok_def pc_log_def pc_flag_def)
  with assms(1) x(1) have "\<forall>rid' x'. g_exec (set_pc rid (Woken i) h) rid' = Some x' \<longrightarrow> exec_ok cfg rid' x' (g_db h)"
    by (auto simp: host_inv_def set_pc_def)
  with assms(1) x(3) show ?thesis
    by (simp add: host_inv_def)
qed

lemma cancel_inv:
  assumes "host_inv cfg db0 h"
  shows "host_inv cfg db0 (abort_exec rid (commit (setCancelRequested rid (g_db h)) h))"
proof -
  let ?db = "setCancelRequested rid (g_db h)"
  have sh: "shapes_of rid' ?db = shapes_of rid' (g_db h)" for rid'
    by (rule shapes_of_events) (simp add: sql_simps)
  have tr: "tracked cfg db0 (commit ?db h)"
    using assms db_ok_claims(4) [OF host_inv_db [OF assms]] db_evolves_claims(4)
    by (intro tracked_commit) (simp_all add: host_inv_def)
  have others: "exec_ok cfg rid' x ?db" if "g_exec h rid' = Some x" "rid' \<noteq> rid" for rid' x
    using host_inv_exec [OF assms that(1)] that(2) by (rule_tac exec_ok_frame) (simp_all add: sql_simps sh)
  show ?thesis
  proof (cases "g_exec h rid")
    case None
    then have "\<forall>rid' x. g_exec h rid' = Some x \<longrightarrow> exec_ok cfg rid' x ?db"
      using others by (metis option.distinct(1))
    with tr None show ?thesis by (simp add: host_inv_def abort_exec_def commit_def)
  next
    case (Some x)
    let ?x = "x\<lparr>x_aborted := True, x_pc := (case x_pc x of Sleeping i ms \<Rightarrow> Aborted i | p \<Rightarrow> p)\<rparr>"
    from host_inv_exec [OF assms Some] obtain ls l where own: "owned cfg rid x ls l (g_db h)"
      and pl: "pc_log (wf_nodes (x_workflow x)) (x_pc x) l" by (auto simp: exec_ok_def)
    from own obtain r where r: "getRun rid (g_db h) = Some r" "\<not> is_terminal (q_status r)"
      "s_workflows cfg (q_workflow_id r) = Some (x_workflow x)" "q_claim_holder r = Some (s_pid cfg)"
      by (auto simp: owned_def)
    then have "getRun rid ?db = Some (r\<lparr>q_status := Cancelling\<rparr>)" by (simp add: sql_simps)
    with own r have "owned cfg rid ?x ls l ?db" by (simp add: owned_def sh)
    moreover have "pc_log (wf_nodes (x_workflow ?x)) (x_pc ?x) l" "pc_flag (x_pc ?x) (x_aborted ?x)"
      using pl by (auto simp: pc_log_def pc_flag_def split: pc.splits node_outcome.splits)
    ultimately have "exec_ok cfg rid ?x ?db" unfolding exec_ok_def by blast
    then have "\<forall>rid' x'. ((g_exec h)(rid \<mapsto> ?x)) rid' = Some x' \<longrightarrow> exec_ok cfg rid' x' ?db"
      using others by simp
    with tr Some show ?thesis by (simp add: host_inv_def abort_exec_def)
  qed
qed

section \<open>Claiming and launching\<close>

lemma resume_one_inv:
  assumes "host_inv cfg db0 h" and "g_exec h rid = None"
  shows "host_inv cfg db0 (resume_one cfg now t rid h)"
proof -
  let ?db = "fst (acquireClaim (s_pid cfg) (now + s_claim_ttl cfg) rid now (g_db h))"
  let ?won = "snd (acquireClaim (s_pid cfg) (now + s_claim_ttl cfg) rid now (g_db h)) = 1"
  have ok: "db_ok (s_workflows cfg) (g_db h)" using assms(1) by (rule host_inv_db)
  have sh: "shapes_of rid' ?db = shapes_of rid' (g_db h)" for rid'
    by (rule shapes_of_events) (simp add: sql_simps)
  have others: "exec_ok cfg rid' x ?db" if "g_exec h rid' = Some x" for rid' x
  proof -
    have "rid' \<noteq> rid" using that assms(2) by auto
    then show ?thesis
      using host_inv_exec [OF assms(1) that] by (rule_tac exec_ok_frame) (simp_all add: sql_simps sh)
  qed
  have inv1: "host_inv cfg db0 (commit ?db h)"
    by (rule host_inv_commit [OF assms(1) db_ok_claims(1) [OF ok] db_evolves_claims(1) others])
  have "claimed cfg rid (commit ?db h)" if ?won
  proof -
    from that ok obtain r where "getRun rid (g_db h) = Some r" "claimable now r"
      by (auto simp: acquireClaim_changes db_ok_def split: option.splits if_splits)
    then show ?thesis
      using assms(2) by (auto simp: claimed_def sql_simps claimable_def commit_def)
  qed
  with inv1 sql_launch_inv [OF inv1] show ?thesis
    by (auto simp: resume_one_def tryClaim_def Let_def split: prod.split)
qed

section \<open>Requests\<close>

text \<open>A handler's result keeps the invariant.\<close>

definition keeps :: "sql_config \<Rightarrow> sql_db \<Rightarrow> sql_reply \<Rightarrow> bool" where
  "keeps cfg db0 res \<longleftrightarrow> host_inv cfg db0 (snd res)"

lemma keeps_pair [simp]: "keeps cfg db0 (r, h) = host_inv cfg db0 h"
  by (simp add: keeps_def)

lemma keeps_with_run:
  "host_inv cfg db0 h \<Longrightarrow> (\<And>r. keeps cfg db0 (k r)) \<Longrightarrow> keeps cfg db0 (sql_with_run cfg rq h rid k)"
  by (simp add: sql_with_run_def split: option.split)

lemma host_inv_subs [simp]: "host_inv cfg db0 (h\<lparr>g_subs := ss\<rparr>) = host_inv cfg db0 h"
  by (simp add: host_inv_def tracked_def)

lemma host_inv_idem:
  "host_inv cfg db0 h \<Longrightarrow> distinct (map fst rows) \<Longrightarrow> host_inv cfg db0 (commit ((g_db h)\<lparr>t_idem := rows\<rparr>) h)"
  by (rule host_inv_commit)
     (auto intro: db_ok_idem host_inv_db db_evolves_idem exec_ok_frame [OF host_inv_exec]
       simp: shapes_of_def rows_of_def)

lemma insertRun_others:
  assumes "insertRun rid wid st inputs t db = Inr db'" and "rid' \<noteq> rid"
  shows "getRun rid' db' = getRun rid' db \<and> shapes_of rid' db' = shapes_of rid' db"
proof -
  have "find_run rid' (rs @ [r]) = find_run rid' rs" if "q_run_id r = rid" for rs r
    using assms(2) that by (induction rs) (auto simp: find_run_def)
  with assms(1) show ?thesis
    by (auto simp: insertRun_def getRun_def shapes_of_def rows_of_def split: if_splits)
qed

lemma createRun_inv:
  assumes "host_inv cfg db0 h" and "s_workflows cfg wid \<noteq> None" and "json_parse (stringify inputs) \<noteq> None"
    and "getRun (new_run_id en) (g_db h) = None"
  shows "keeps cfg db0 (sql_createRun cfg en wid inputs key hash h)"
proof (cases "insertRun (new_run_id en) wid Pending (stringify inputs) (iso en) (g_db h)")
  case (Inl m)
  with assms(1) show ?thesis by (simp add: sql_createRun_def Let_def)
next
  case (Inr db)
  note ok = db_ok_insertRun [OF host_inv_db [OF assms(1)] Inr assms(2,3)]
  note same = insertRun_others [OF Inr]
  have inv1: "host_inv cfg db0 (commit db h)"
  proof (rule host_inv_commit [OF assms(1) ok db_evolves_insertRun [OF Inr]])
    fix rid x
    assume x: "g_exec h rid = Some x"
    then have "rid \<noteq> new_run_id en" using host_inv_exec_row [OF assms(1,4)] by auto
    from same [OF this] host_inv_exec [OF assms(1) x] show "exec_ok cfg rid x db" by (auto intro: exec_ok_frame)
  qed
  have none: "g_exec h (new_run_id en) = None" using host_inv_exec_row [OF assms(1,4)] .
  show ?thesis
  proof (cases key)
    case None
    with Inr inv1 none show ?thesis
      by (simp add: sql_createRun_def Let_def resume_one_inv)
  next
    case (Some k)
    let ?k = "buildIdempotencyCacheKey (s_sha256 cfg) ''POST /v1/runs'' k"
    let ?e = "\<lparr>d_status = 201, d_body = stringify (created_body (new_run_id en) wid (iso en)), d_body_hash = hash, d_stored_at = now_ms en\<rparr>"
    show ?thesis
    proof (cases "insertIdempotency ?k ?e (t_idem db)")
      case (Inl m)
      with Inr Some inv1 show ?thesis by (simp add: sql_createRun_def Let_def)
    next
      case (Inr rows)
      have "distinct (map fst rows)"
        using Inr ok by (auto simp: insertIdempotency_def db_ok_def keys_ok_def map_of_eq_None_iff split: if_splits)
      with host_inv_idem [OF inv1] have "host_inv cfg db0 (commit (db\<lparr>t_idem := rows\<rparr>) (commit db h))" by simp
      with Inr Some \<open>insertRun _ _ _ _ _ _ = Inr db\<close> none show ?thesis
        by (simp add: sql_createRun_def Let_def resume_one_inv)
    qed
  qed
qed

lemma handleCreateRun_inv:
  assumes "host_inv cfg db0 h" and "getRun (new_run_id en) (g_db h) = None"
  shows "keeps cfg db0 (sql_handleCreateRun cfg en rq h)"
proof (cases "check_create (s_api_key cfg) (s_workflows cfg) rq")
  case (Accepts wid inputs)
  then have wid: "s_workflows cfg wid \<noteq> None" by (simp add: check_create_Accepts)
  from check_create_inputs [OF Accepts] have p: "json_parse (stringify inputs) \<noteq> None" by (simp add: json_roundtrip)
  let ?rows = "pruneIdempotency (now_ms en) (t_idem (g_db h))"
  have "distinct (map fst ?rows)"
    using host_inv_db [OF assms(1)] by (simp add: pruneIdempotency_def db_ok_def keys_ok_def distinct_map_filter)
  from host_inv_idem [OF assms(1) this] have inv1: "host_inv cfg db0 (commit ((g_db h)\<lparr>t_idem := ?rows\<rparr>) h)" .
  have new: "getRun (new_run_id en) (g_db (commit ((g_db h)\<lparr>t_idem := ?rows\<rparr>) h)) = None"
    using assms(2) by simp
  show ?thesis
    using createRun_inv [OF assms(1) wid p assms(2)] createRun_inv [OF inv1 wid p new] inv1 Accepts
    by (auto simp: sql_handleCreateRun_def Let_def split: option.split)
qed (use assms in \<open>simp_all add: sql_handleCreateRun_def\<close>)

lemma handlers_inv:
  assumes "host_inv cfg db0 h"
  shows "keeps cfg db0 (sql_handleGetRun cfg rq rid h)" "keeps cfg db0 (sql_handleEventsPoll cfg rq rid h)"
    "keeps cfg db0 (sql_handleEventsSse cfg rq rid h)" "keeps cfg db0 (sql_handleDebugBundle cfg en rq rid h)"
    "keeps cfg db0 (sql_handleCancelRun cfg rq rid h)"
  unfolding sql_handleGetRun_def sql_handleEventsPoll_def sql_handleEventsSse_def sql_handleDebugBundle_def
    sql_handleCancelRun_def
  by (rule keeps_with_run [OF assms]; simp add: assms cancel_inv Let_def split: option.split)+

lemma sql_route_cases:
  assumes "rq_path rq = None \<Longrightarrow> Q (Inl ''Invalid URL'', h)"
    and "Q (Inr sql_handleDiscovery, h)" and "Q (Inr sql_handleOpenApi, h)"
    and create: "create_request rq \<Longrightarrow> Q (sql_handleCreateRun cfg en rq h)" and "\<And>x. Q (sql_handleEventsPoll cfg rq x h)"
    and "\<And>x. Q (sql_handleEventsSse cfg rq x h)" and "\<And>x. Q (sql_handleDebugBundle cfg en rq x h)"
    and "\<And>x. Q (sql_handleCancelRun cfg rq x h)" and "\<And>x. Q (sql_handleGetRun cfg rq x h)"
    and "\<And>m. Q (Inr (sendError 404 ''not_found'' m), h)"
  shows "Q (sql_route cfg en rq h)"
proof (cases "rq_path rq")
  case None
  then show ?thesis using assms(1) by (simp add: sql_route_def)
next
  case (Some path)
  have m: "Q (on_match m b f n)" if "\<And>x. Q (f x)" "Q n" for m b f n
    using that by (simp add: on_match_def split: option.split)
  have i: "Q (if b then p else n)" if "b \<Longrightarrow> Q p" "Q n" for b p n
    using that by simp
  have c: "Q (sql_handleCreateRun cfg en rq h)" if "rq_method rq = ''POST'' \<and> path = ''/v1/runs''"
    using that Some create by (simp add: create_request_def)
  show ?thesis
    unfolding sql_route_def Some option.case Let_def by (intro i m c assms(2,3,5-10)) assumption+
qed

lemma sql_serve_inv:
  assumes "host_inv cfg db0 h" and "getRun (new_run_id en) (g_db h) = None"
  shows "host_inv cfg db0 (snd (sql_serve cfg en rq h))"
proof -
  have "keeps cfg db0 (sql_route cfg en rq h)"
    by (rule sql_route_cases; (rule handleCreateRun_inv [OF assms] handlers_inv [OF assms(1)] | simp add: assms(1)))
  then show ?thesis
    by (cases "sql_route cfg en rq h") (auto simp: sql_serve_def keeps_def split: sum.split)
qed

section \<open>The invariant of the machine\<close>

lemma sql_act_inv:
  "sql_act cfg h a h' \<Longrightarrow> host_inv cfg db0 h \<Longrightarrow> host_inv cfg db0 h'"
  by (induction rule: sql_act.induct)
     (auto intro: sql_serve_inv sql_segment_inv timer_inv heartbeat_inv simp: sql_client_closes_def)

lemma resumeOrphans_inv:
  assumes "host_inv cfg db0 h" and "g_exec h = Map.empty"
  shows "host_inv cfg db0 (resumeOrphans cfg now t h)"
proof -
  have "host_inv cfg db0 (fold (resume_one cfg now t) rids h)"
    if "distinct rids" "host_inv cfg db0 h" "\<forall>rid \<in> set rids. g_exec h rid = None" for rids h
    using that
  proof (induction rids arbitrary: h)
    case (Cons rid rids)
    have "host_inv cfg db0 (resume_one cfg now t rid h)" using Cons.prems by (intro resume_one_inv) auto
    moreover have "g_exec (resume_one cfg now t rid h) rid' = None" if "rid' \<in> set rids" for rid'
    proof -
      have "rid' \<noteq> rid" using Cons.prems(1) that by auto
      then have "agree rid' h (resume_one cfg now t rid h)" by (rule agree_resume_one)
      with Cons.prems(3) that show ?thesis by (simp add: agree_def)
    qed
    ultimately show ?case using Cons.prems(1) Cons.IH [of "resume_one cfg now t rid h"] by simp
  qed simp
  moreover have "distinct (findOrphansStmt now (g_db h))"
    using host_inv_db [OF assms(1)] by (intro distinct_findOrphans) (simp add: db_ok_def)
  ultimately show ?thesis using assms by (simp add: resumeOrphans_def)
qed

definition world_ok :: "sql_config \<Rightarrow> sql_world \<Rightarrow> bool" where
  "world_ok cfg w \<longleftrightarrow>
     (case w of Down db \<Rightarrow> db_ok (s_workflows cfg) db
      | Up pid h \<Rightarrow> host_inv (as_process cfg pid) (g_db h) (h\<lparr>g_commits := []\<rparr>))"

lemma host_inv_rebase: "host_inv cfg db0 h \<Longrightarrow> host_inv cfg (g_db h) (h\<lparr>g_commits := []\<rparr>)"
  by (auto simp: host_inv_def tracked_def)

lemma host_inv_facts:
  assumes "host_inv cfg db0 h"
  shows "\<not> g_crashed h" "db_evolves db0 (g_db h)"
    "db \<in> set (g_commits h) \<Longrightarrow> db_ok (s_workflows cfg) db \<and> db_evolves db0 db"
  using assms by (auto simp: host_inv_def tracked_def)

lemma boot_inv: "db_ok (s_workflows cfg) db \<Longrightarrow> host_inv cfg db (sql_boot cfg now t db)"
  unfolding sql_boot_def
  by (rule resumeOrphans_inv) (simp_all add: host_inv_def tracked_def new_process_def)

lemma after_act_up: "host_inv cfg db0 h \<Longrightarrow> after_act pid h = Up pid h"
  by (simp add: after_act_def host_inv_facts)

lemma sql_step_ok:
  assumes "sql_step cfg w a w'" and "world_ok cfg w"
  shows "world_ok cfg w' \<and> db_evolves (world_db w) (world_db w')"
  using assms
proof (induction rule: sql_step.induct)
  case (step_act pid h a h')
  then have "host_inv (as_process cfg pid) (g_db h) h'"
    by (intro sql_act_inv [OF step_act.hyps]) (simp add: world_ok_def)
  then show ?case
    by (simp add: after_act_up world_ok_def host_inv_rebase host_inv_facts)
next
  case (step_torn pid h a h' n)
  then have "host_inv (as_process cfg pid) (g_db h) h'"
    by (intro sql_act_inv [OF step_torn.hyps(1)]) (simp add: world_ok_def)
  from host_inv_facts(3) [OF this nth_mem [OF step_torn.hyps(2)]] show ?case by (simp add: world_ok_def)
next
  case (step_start db pid now t)
  then have "host_inv (as_process cfg pid) db (sql_boot (as_process cfg pid) now t db)"
    by (intro boot_inv) (simp add: world_ok_def)
  then show ?case
    by (simp add: after_act_up world_ok_def host_inv_rebase host_inv_facts)
next
  case (step_torn_start n pid now t db)
  then have "host_inv (as_process cfg pid) db (sql_boot (as_process cfg pid) now t db)"
    by (intro boot_inv) (simp add: world_ok_def)
  from host_inv_facts(3) [OF this nth_mem [OF step_torn_start.hyps]] show ?case by (simp add: world_ok_def)
next
  case (step_crash pid h)
  then show ?case by (simp add: world_ok_def) (metis as_process_simps(1) host_inv_db sql_host.select_convs(1) sql_host.surjective sql_host.update_convs(2))
next
  case (step_shutdown pid h)
  then have "db_ok (s_workflows cfg) (g_db h)"
    using host_inv_db [of "as_process cfg pid" "g_db h" "h\<lparr>g_commits := []\<rparr>"] by (simp add: world_ok_def)
  then show ?case by (simp add: world_ok_def shutdown_def db_ok_releaseAll db_evolves_releaseAll)
qed

interpretation sql_sys: run_system "sql_step cfg" "world_ok cfg" "\<lambda>w rid. run_view rid (world_db w)" row_evolves for cfg
proof unfold_locales
  show "row_evolves r1 r3" if "row_evolves r1 r2" "row_evolves r2 r3" for r1 r2 r3
    using that by (rule row_evolves_trans)
  show "world_ok cfg h'" if "sql_step cfg h a h'" "world_ok cfg h" for h a h'
    using sql_step_ok [OF that] by simp
  show "\<exists>r'. run_view rid (world_db h') = Some r' \<and> row_evolves r r'"
    if "sql_step cfg h a h'" "world_ok cfg h" "run_view rid (world_db h) = Some r" for h a h' rid r
    using sql_step_ok [OF that(1,2)] that(3) unfolding db_evolves_def by blast
qed simp

lemma world_ok_empty: "world_ok cfg (Down empty_db)"
  by (simp add: world_ok_def)

lemma sql_reachable_ok: "sql_reachable cfg w \<Longrightarrow> world_ok cfg w"
  unfolding sql_reachable_def using sql_sys.trace_ok [OF _ world_ok_empty] by blast

lemma world_ok_db: "world_ok cfg w \<Longrightarrow> db_ok (s_workflows cfg) (world_db w)"
  using host_inv_db by (cases w) (fastforce simp: world_ok_def)+

section \<open>The interfaces of the SQLite host\<close>

interpretation sql_idem: idem_store "\<lambda>rows k. getIdempotency k rows"
  "\<lambda>k e rows. (case insertIdempotency k e rows of Inl m \<Rightarrow> rows | Inr rows' \<Rightarrow> rows')" pruneIdempotency d_stored_at d_body_hash
  "\<lambda>rows. distinct (map fst rows)"
proof unfold_locales
  fix s :: "(string \<times> idem_cols) list" and k k' e
  assume "getIdempotency k s = None"
  then show "getIdempotency k' (case insertIdempotency k e s of Inl m \<Rightarrow> s | Inr rows' \<Rightarrow> rows') =
      (if k' = k then Some e else getIdempotency k' s)"
    by (auto simp: getIdempotency_def insertIdempotency_def map_add_def split: option.split)
next
  fix now and s :: "(string \<times> idem_cols) list" and k
  assume "distinct (map fst s)"
  then show "getIdempotency k (pruneIdempotency now s) =
      (case getIdempotency k s of None \<Rightarrow> None
       | Some e \<Rightarrow> if d_stored_at e < now - IDEMPOTENCY_TTL_MS then None else Some e)"
    unfolding getIdempotency_def pruneIdempotency_def
    by (induction s) (force split: option.split simp: map_of_eq_None_iff [symmetric])+
qed (auto simp: insertIdempotency_def pruneIdempotency_def distinct_map_filter map_of_eq_None_iff split: sum.split if_splits)

lemma sql_event_rows:
  "db_ok ws db \<Longrightarrow> set vs \<subseteq> set (t_events db) \<Longrightarrow> events_of_rows vs \<noteq> None"
  unfolding events_of_rows_def by (induction vs) (auto simp: db_ok_def)

text \<open>The event log of run \<open>rid\<close> as the readers see it.\<close>

definition sql_log :: "string \<Rightarrow> sql_db \<Rightarrow> run_event list" where
  "sql_log rid db = (case events_of_rows (rows_of rid db) of None \<Rightarrow> [] | Some es \<Rightarrow> es)"

definition sql_read_after :: "string \<Rightarrow> sql_db \<Rightarrow> num \<Rightarrow> run_event list" where
  "sql_read_after rid db x = (case events_of_rows (getEventsAfter rid x db) of None \<Rightarrow> [] | Some es \<Rightarrow> es)"

definition parsable :: "sql_db \<Rightarrow> bool" where
  "parsable db \<longleftrightarrow> (\<forall>v \<in> set (t_events db). event_of_row v \<noteq> None)"

lemma events_of_rows_map:
  "\<forall>v \<in> set vs. event_of_row v \<noteq> None \<Longrightarrow> events_of_rows vs = Some (map (\<lambda>v. the (event_of_row v)) vs)"
  unfolding events_of_rows_def by (induction vs) auto

lemma event_of_row_seq: "event_of_row v = Some e \<Longrightarrow> e_seq e = v_seq v \<and> e_type e = v_type v \<and> e_nodeId e = v_node_id v"
  by (auto simp: event_of_row_def split: option.splits)

lemma sql_log_rows: "parsable db \<Longrightarrow> sql_log rid db = map (\<lambda>v. the (event_of_row v)) (rows_of rid db)"
  by (simp add: sql_log_def parsable_def rows_of_def events_of_rows_map)

lemma sql_read_after_log:
  assumes "keys_ok db" and "parsable db"
  shows "sql_read_after rid db x = events_after x (sql_log rid db)"
proof -
  have "filter (\<lambda>e. nat_gt_num (e_seq e) x) (map (\<lambda>v. the (event_of_row v)) vs) =
      map (\<lambda>v. the (event_of_row v)) (filter (\<lambda>v. nat_gt_num (v_seq v) x) vs)"
    if "\<forall>v \<in> set vs. event_of_row v \<noteq> None" for vs
    using that event_of_row_seq by (induction vs) fastforce+
  from this [of "rows_of rid db"] assms show ?thesis
    by (simp add: sql_read_after_def getEventsAfter_filter events_of_rows_map parsable_def rows_of_def
        sql_log_rows events_after_def)
qed

lemma sql_log_shapes: "parsable db \<Longrightarrow> map ev_shape (sql_log rid db) = shapes_of rid db"
  using event_of_row_seq by (auto simp: sql_log_rows shapes_of_def ev_shape_def parsable_def rows_of_def)

text \<open>One append to run \<open>rid\<close>, as \<open>sql_appendEvent\<close> makes it.\<close>

definition sql_append :: "string \<Rightarrow> sql_db \<Rightarrow> ev_type \<Rightarrow> string option \<Rightarrow> json option \<Rightarrow> string \<Rightarrow> sql_db" where
  "sql_append rid db ty nid d t =
     g_db (snd (sql_appendEvent rid ty nid d t (new_process db)))"

definition log_inv :: "string \<Rightarrow> sql_db \<Rightarrow> bool" where
  "log_inv rid db \<longleftrightarrow> keys_ok db \<and> parsable db \<and> getRun rid db \<noteq> None"

lemma sql_append_row:
  assumes "log_inv rid db" and "data_ok d"
  shows "\<exists>v. sql_append rid db ty nid d t = db\<lparr>t_events := t_events db @ [v]\<rparr> \<and> v_run_id v = rid \<and>
    v_seq v = countEvents rid db \<and> event_of_row v = Some \<lparr>e_seq = countEvents rid db, e_runId = rid, e_type = ty,
      e_nodeId = nid, e_data = null_as_none d, e_timestamp = t\<rparr>"
proof -
  let ?e = "\<lparr>e_seq = countEvents rid db, e_runId = rid, e_type = ty, e_nodeId = nid,
    e_data = null_as_none d, e_timestamp = t\<rparr>"
  have v: "v_run_id (row_of_event ?e) = rid" "v_seq (row_of_event ?e) = countEvents rid db"
    by (simp_all add: row_of_event_def)
  have "insertEvent (row_of_event ?e) db = Inr (db\<lparr>t_events := t_events db @ [row_of_event ?e]\<rparr>)"
    using assms(1) v by (intro insertEvent_next) (simp_all add: log_inv_def)
  moreover have "event_of_row (row_of_event ?e) = Some ?e"
    using data_ok_event [OF assms(2)] by (intro event_of_row_of_event) simp
  ultimately show ?thesis
    using v by (intro exI [of _ "row_of_event ?e"]) (simp add: sql_append_def sql_appendEvent_def new_process_def)
qed

interpretation sql_log: event_log "sql_log rid" "sql_append rid" "sql_read_after rid" rid "log_inv rid"
  "\<lambda>d. data_ok d \<and> null_as_none d = d" for rid
proof unfold_locales
  fix s ty nid d t
  assume inv: "log_inv rid s" and d: "data_ok d \<and> null_as_none d = d"
  obtain v where v: "sql_append rid s ty nid d t = s\<lparr>t_events := t_events s @ [v]\<rparr>" "v_run_id v = rid"
    "v_seq v = countEvents rid s" "event_of_row v = Some \<lparr>e_seq = countEvents rid s, e_runId = rid, e_type = ty,
      e_nodeId = nid, e_data = d, e_timestamp = t\<rparr>"
    using sql_append_row [OF inv, of d ty nid t] d by auto
  have rows: "rows_of rid' (s\<lparr>t_events := t_events s @ [v]\<rparr>) = rows_of rid' s @ (if rid' = rid then [v] else [])" for rid'
    using v(2) by (simp add: rows_of_def)
  have pars: "parsable (s\<lparr>t_events := t_events s @ [v]\<rparr>)"
    using inv v(4) by (auto simp: log_inv_def parsable_def)
  have "length (sql_log rid s) = countEvents rid s"
    using inv by (simp add: log_inv_def sql_log_rows countEvents_def)
  with pars inv v show "sql_log rid (sql_append rid s ty nid d t) = sql_log rid s @
      [\<lparr>e_seq = length (sql_log rid s), e_runId = rid, e_type = ty, e_nodeId = nid, e_data = d, e_timestamp = t\<rparr>]"
    by (simp add: log_inv_def sql_log_rows rows)
  have "keys_ok (s\<lparr>t_events := t_events s @ [v]\<rparr>)"
    using inv v(2,3) by (auto simp: log_inv_def keys_ok_def rows countEvents_def)
  with pars inv v(1) show "log_inv rid (sql_append rid s ty nid d t)" by (simp add: log_inv_def)
next
  fix s x
  assume "log_inv rid s"
  then show "sql_read_after rid s x = events_after x (sql_log rid s)"
    by (simp add: log_inv_def sql_read_after_log)
next
  fix s
  assume inv: "log_inv rid s"
  have "map e_seq (map (\<lambda>v. the (event_of_row v)) vs) = map v_seq vs" if "\<forall>v \<in> set vs. event_of_row v \<noteq> None" for vs
    using that event_of_row_seq by (induction vs) fastforce+
  from this [of "rows_of rid s"] inv have "map e_seq (sql_log rid s) = map v_seq (rows_of rid s)"
    by (simp add: log_inv_def sql_log_rows) (simp add: parsable_def rows_of_def)
  moreover have "length (sql_log rid s) = length (rows_of rid s)" using inv by (simp add: log_inv_def sql_log_rows)
  moreover have "map v_seq (rows_of rid s) = [0..<length (rows_of rid s)]"
    using inv unfolding log_inv_def keys_ok_def by blast
  ultimately show "numbered (sql_log rid s)" by (simp add: numbered_def)
qed

end
