(* ===== verification/SqlLaws.thy ===== *)
theory SqlLaws
  imports SqlSafety
begin

text \<open>
  What one action does to one run of the SQLite host (\<open>sql_act_on_run\<close>), and from that: a run
  with an executor is brought to its end by its own steps, a start attends every run whose
  claim is free, and the idempotency table evolves as the interface of theory \<open>Interfaces\<close> says.
\<close>

section \<open>One action and one run\<close>

definition cancelled_host :: "string \<Rightarrow> sql_host \<Rightarrow> sql_host" where
  "cancelled_host rid h = abort_exec rid (commit (setCancelRequested rid (g_db h)) h)"

lemma agree_cancelled: "rid' \<noteq> rid \<Longrightarrow> agree rid' h (cancelled_host rid h)"
  using other_runs.R_cancel [of rid h] by (simp add: cancelled_host_def)

text \<open>What a request does to the run \<open>rid\<close>: nothing, or it cancels it.\<close>

definition request_effect :: "string \<Rightarrow> sql_host \<Rightarrow> sql_host \<Rightarrow> bool" where
  "request_effect rid h h' \<longleftrightarrow> agree rid h h' \<or> agree rid (cancelled_host rid h) h'"

definition reply_effect :: "string \<Rightarrow> sql_host \<Rightarrow> sql_reply \<Rightarrow> bool" where
  "reply_effect rid h res \<longleftrightarrow> request_effect rid h (snd res)"

lemma reply_effect_same [simp]: "reply_effect rid h (r, h)" "reply_effect rid h (r, h\<lparr>g_subs := ss\<rparr>)"
  by (simp_all add: reply_effect_def request_effect_def agree_def)

lemma reply_effect_cancel: "reply_effect rid h (r, cancelled_host rid' h)"
  using agree_cancelled [of rid rid' h] by (cases "rid' = rid") (auto simp: reply_effect_def request_effect_def)

lemma reply_effect_with_run:
  "(\<And>r. reply_effect rid h (k r)) \<Longrightarrow> reply_effect rid h (sql_with_run cfg rq h rid' k)"
  by (simp add: sql_with_run_def split: option.split)

lemma agree_createRun:
  assumes "new_run_id en \<noteq> rid"
  shows "agree rid h (snd (sql_createRun cfg en wid inputs key hash h))"
proof (cases "insertRun (new_run_id en) wid Pending (stringify inputs) (iso en) (g_db h)")
  case (Inl m)
  then show ?thesis by (simp add: sql_createRun_def Let_def)
next
  case (Inr db)
  have a1: "agree rid h (commit db h)"
    using insertRun_others [OF Inr, of rid] assms Inr
    by (intro agree_commit) (auto simp: insertRun_def split: if_splits)
  have a2: "agree rid h1 (commit ((g_db h1)\<lparr>t_idem := rows\<rparr>) h1)" for h1 rows
    by (intro agree_commit) (simp_all add: getRun_def)
  have a3: "agree rid h1 (resume_one cfg now t (new_run_id en) h1)" for h1 now t
    using assms by (intro agree_resume_one) simp
  note a23 = agree_trans [OF a2 a3]
  show ?thesis
    using Inr agree_trans [OF a1 a3] a1 agree_trans [OF a1 a23]
    by (auto simp: sql_createRun_def Let_def split: option.split sum.split)
qed

lemma handleCreateRun_effect:
  assumes "new_run_id en \<noteq> rid"
  shows "reply_effect rid h (sql_handleCreateRun cfg en rq h)"
proof -
  have p: "agree rid h (commit ((g_db h)\<lparr>t_idem := rows\<rparr>) h)" for rows
    by (intro agree_commit) (simp_all add: getRun_def)
  have "agree rid h (snd (sql_handleCreateRun cfg en rq h))"
    using agree_createRun [OF assms] agree_trans [OF p agree_createRun [OF assms]] p
    by (auto simp: sql_handleCreateRun_def Let_def split: create_check.split option.split)
  then show ?thesis by (simp add: reply_effect_def request_effect_def)
qed

lemma handlers_effect:
  "reply_effect rid h (sql_handleGetRun cfg rq rid' h)" "reply_effect rid h (sql_handleEventsPoll cfg rq rid' h)"
  "reply_effect rid h (sql_handleEventsSse cfg rq rid' h)" "reply_effect rid h (sql_handleDebugBundle cfg en rq rid' h)"
  "reply_effect rid h (sql_handleCancelRun cfg rq rid' h)"
  unfolding sql_handleGetRun_def sql_handleEventsPoll_def sql_handleEventsSse_def sql_handleDebugBundle_def
    sql_handleCancelRun_def cancelled_host_def [symmetric]
  by (rule reply_effect_with_run; simp add: reply_effect_cancel Let_def split: option.split)+

lemma sql_serve_effect:
  assumes "new_run_id en \<noteq> rid"
  shows "request_effect rid h (snd (sql_serve cfg en rq h))"
proof -
  have "reply_effect rid h (sql_route cfg en rq h)"
    by (rule sql_route_cases; (rule handleCreateRun_effect [OF assms] handlers_effect | simp))
  then show ?thesis
    by (cases "sql_route cfg en rq h") (auto simp: sql_serve_def reply_effect_def split: sum.split)
qed

text \<open>A run's own actions: its timer and its segments.\<close>

fun own_act :: "string \<Rightarrow> sql_action \<Rightarrow> bool" where
  "own_act rid (QSegment rid' t) \<longleftrightarrow> rid' = rid"
| "own_act rid (QTimer rid') \<longleftrightarrow> rid' = rid"
| "own_act rid _ \<longleftrightarrow> False"

text \<open>What an action does to the executor of run \<open>rid\<close> and to its log.\<close>

definition exec_bound :: "string \<Rightarrow> sql_host \<Rightarrow> nat option" where
  "exec_bound rid h = map_option exec_left (g_exec h rid)"

definition acts_on_run :: "string \<Rightarrow> bool \<Rightarrow> sql_host \<Rightarrow> sql_host \<Rightarrow> bool" where
  "acts_on_run rid own h h' \<longleftrightarrow>
     (g_exec h rid = None \<longrightarrow> \<not> own \<and> g_exec h' rid = None \<and> rows_of rid (g_db h') = rows_of rid (g_db h) \<and>
        attended rid h' = attended rid h) \<and>
     (attended rid h \<longrightarrow> attended rid h') \<and>
     (\<forall>b'. exec_bound rid h' = Some b' \<longrightarrow> (\<exists>b. exec_bound rid h = Some b \<and> b' + (if own then 1 else 0) \<le> b)) \<and>
     (\<forall>b. exec_bound rid h = Some b \<longrightarrow> own \<longrightarrow> 0 < b)"

lemma agree_attended: "agree rid h h' \<Longrightarrow> attended rid h' = attended rid h"
  by (simp add: agree_def attended_def)

lemma attended_commits [simp]: "attended rid (h\<lparr>g_commits := dbs\<rparr>) = attended rid h"
  by (simp add: attended_def)

lemma acts_on_run_agree: "agree rid h h' \<Longrightarrow> acts_on_run rid False h h'"
  by (auto simp: acts_on_run_def agree_def attended_def exec_bound_def)

lemma acts_on_run_trans_agree: "acts_on_run rid b h h1 \<Longrightarrow> agree rid h1 h' \<Longrightarrow> acts_on_run rid b h h'"
  using agree_attended [of rid h1 h'] by (simp add: acts_on_run_def agree_def exec_bound_def)

lemma acts_on_run_cancelled:
  assumes "host_inv cfg db0 h"
  shows "acts_on_run rid False h (cancelled_host rid h)"
proof (cases "g_exec h rid")
  case None
  then show ?thesis
    by (auto simp: acts_on_run_def cancelled_host_def abort_exec_def exec_bound_def attended_def sql_simps rows_of_def)
next
  case (Some x)
  then have "exec_left (x\<lparr>x_aborted := True, x_pc := case x_pc x of Sleeping i ms \<Rightarrow> Aborted i | p \<Rightarrow> p\<rparr>) \<le> exec_left x"
    by (simp add: exec_left_def Let_def split: pc.split)
  with Some show ?thesis
    by (auto simp: acts_on_run_def cancelled_host_def abort_exec_def exec_bound_def attended_def)
qed

lemma acts_on_run_segment:
  assumes "host_inv cfg db0 h" and "sql_segment cfg rid t h = Some h'"
  shows "acts_on_run rid True h h'"
proof -
  from assms(2) obtain x where x: "g_exec h rid = Some x" by (auto simp: sql_segment_def split: option.splits)
  from sql_segment_over [OF assms x] x show ?thesis
    by (auto simp: acts_on_run_def over_def exec_bound_def)
qed

lemma acts_on_run_timer:
  assumes "host_inv cfg db0 h" and "sql_timer rid h = Some h'"
  shows "acts_on_run rid True h h'"
proof -
  from assms(2) obtain x i ms where x: "g_exec h rid = Some x" "x_pc x = Sleeping i ms" "h' = set_pc rid (Woken i) h"
    by (auto simp: sql_timer_def split: option.splits pc.splits)
  from host_inv_exec [OF assms(1) x(1)] x(2) have "i < length (wf_nodes (x_workflow x))"
    by (auto simp: exec_ok_def pc_log_def)
  with x show ?thesis
    by (auto simp: acts_on_run_def exec_bound_def attended_def set_pc_def exec_left_def)
qed

lemma acts_on_run_heartbeat:
  assumes "host_inv cfg db0 h" and "heartbeat cfg rid' now h = Some h'"
  shows "acts_on_run rid False h h'"
  using assms
  by (auto simp: acts_on_run_def heartbeat_def exec_bound_def attended_def sql_simps rows_of_def split: if_splits)

lemma sql_act_on_run:
  assumes "sql_act cfg h a h'" and "host_inv cfg db0 h" and "getRun rid (g_db h) \<noteq> None"
  shows "acts_on_run rid (own_act rid a) h h'"
  using assms(1)
proof (induction rule: sql_act.induct)
  case (act_request en rq)
  with assms(3) have "new_run_id en \<noteq> rid" by auto
  from sql_serve_effect [OF this, of h cfg rq] show ?case
    by (auto simp: request_effect_def intro: acts_on_run_agree acts_on_run_trans_agree acts_on_run_cancelled [OF assms(2)])
next
  case (act_segment rid' t h')
  then show ?case
    using acts_on_run_segment [OF assms(2)] other_runs.R_segment [OF act_segment]
    by (cases "rid' = rid") (auto intro: acts_on_run_agree)
next
  case (act_timer rid' h')
  then show ?case
    using other_runs.R_timer [OF act_timer] acts_on_run_timer [OF assms(2)] by (cases "rid' = rid") (auto intro: acts_on_run_agree)
next
  case (act_heartbeat rid' now h')
  then show ?case using acts_on_run_heartbeat [OF assms(2)] by simp
next
  case (act_close rid' j)
  have "agree rid h (sql_client_closes rid' j h)" by (simp add: agree_def sql_client_closes_def)
  then show ?case by (simp add: acts_on_run_agree)
qed

section \<open>The actions of one process\<close>

abbreviation sql_acts :: "sql_config \<Rightarrow> sql_world \<Rightarrow> sql_action list \<Rightarrow> sql_world \<Rightarrow> bool" where
  "sql_acts cfg w as w' \<equiv> sql_trace cfg w (map WAct as) w'"

lemma world_act:
  assumes "sql_step cfg (Up pid h) (WAct a) w'" and "world_ok cfg (Up pid h)"
  obtains h' where "w' = Up pid h'" and "sql_act (as_process cfg pid) (h\<lparr>g_commits := []\<rparr>) a h'"
    and "host_inv (as_process cfg pid) (g_db h) h'"
proof -
  from assms(1) obtain h' where h': "sql_act (as_process cfg pid) (h\<lparr>g_commits := []\<rparr>) a h'" "w' = after_act pid h'"
    by (auto elim: sql_step_actE)
  have inv: "host_inv (as_process cfg pid) (g_db h) h'"
    using sql_act_inv [OF h'(1)] assms(2) by (simp add: world_ok_def)
  with that h' show thesis by (simp add: after_act_up)
qed

lemma sql_acts_run:
  assumes "sql_acts cfg (Up pid h) as w'" and "world_ok cfg (Up pid h)" and "getRun rid (g_db h) \<noteq> None"
  shows "\<exists>h'. w' = Up pid h' \<and> getRun rid (g_db h') \<noteq> None \<and>
    (g_exec h rid = None \<longrightarrow> g_exec h' rid = None \<and> rows_of rid (g_db h') = rows_of rid (g_db h) \<and>
       attended rid h' = attended rid h) \<and>
    (attended rid h \<longrightarrow> attended rid h') \<and>
    length (filter (own_act rid) as) + (case exec_bound rid h' of None \<Rightarrow> 0 | Some b \<Rightarrow> b)
      \<le> (case exec_bound rid h of None \<Rightarrow> 0 | Some b \<Rightarrow> b)"
  using assms
proof (induction as arbitrary: h)
  case (Cons a as)
  from Cons.prems(1) obtain w1 where s: "sql_step cfg (Up pid h) (WAct a) w1" "sql_acts cfg w1 as w'"
    by (auto simp: trace_Cons_iff)
  obtain h1 where h1: "w1 = Up pid h1" "sql_act (as_process cfg pid) (h\<lparr>g_commits := []\<rparr>) a h1"
    using world_act [OF s(1) Cons.prems(2)] by blast
  have ok1: "world_ok cfg (Up pid h1)" using sql_step_ok [OF s(1) Cons.prems(2)] h1(1) by simp
  have r1: "getRun rid (g_db h1) \<noteq> None"
    using sql_step_ok [OF s(1) Cons.prems(2)] Cons.prems(3) h1(1) by (fastforce simp: db_evolves_def run_view_def)
  have on: "acts_on_run rid (own_act rid a) h h1"
    using sql_act_on_run [OF h1(2), of "g_db h" rid] Cons.prems(2,3)
    by (simp add: world_ok_def acts_on_run_def exec_bound_def)
  from Cons.IH [OF _ ok1 r1] s(2) h1(1) obtain h' where h': "w' = Up pid h'" "getRun rid (g_db h') \<noteq> None"
    "g_exec h1 rid = None \<longrightarrow> g_exec h' rid = None \<and> rows_of rid (g_db h') = rows_of rid (g_db h1) \<and>
       attended rid h' = attended rid h1"
    "attended rid h1 \<longrightarrow> attended rid h'"
    "length (filter (own_act rid) as) + (case exec_bound rid h' of None \<Rightarrow> 0 | Some b \<Rightarrow> b)
      \<le> (case exec_bound rid h1 of None \<Rightarrow> 0 | Some b \<Rightarrow> b)" by auto
  moreover have "(if own_act rid a then 1 else 0) + (case exec_bound rid h1 of None \<Rightarrow> 0 | Some b \<Rightarrow> b)
      \<le> (case exec_bound rid h of None \<Rightarrow> 0 | Some b \<Rightarrow> b)"
    using on by (cases "exec_bound rid h1"; cases "exec_bound rid h") (auto simp: acts_on_run_def exec_bound_def)
  ultimately show ?case using on
    by (intro exI [of _ h']) (auto simp: acts_on_run_def)
qed auto


section \<open>Every attended run ends\<close>

lemma exec_enabled:
  assumes "world_ok cfg (Up pid h)" and "g_exec h rid = Some x"
  shows "\<exists>a w'. own_act rid a \<and> sql_step cfg (Up pid h) (WAct a) w'"
proof -
  let ?h = "h\<lparr>g_commits := []\<rparr>"
  have "exec_ok (as_process cfg pid) rid x (g_db h)"
    using assms host_inv_exec [of "as_process cfg pid" "g_db h" ?h rid x] by (simp add: world_ok_def)
  then have "x_pc x \<noteq> Halted" by (auto simp: exec_ok_def pc_log_def)
  show ?thesis
  proof (cases "x_pc x")
    case (Sleeping i ms)
    with assms(2) have "sql_timer rid ?h = Some (set_pc rid (Woken i) ?h)" by (simp add: sql_timer_def)
    then have "sql_act (as_process cfg pid) ?h (QTimer rid) (set_pc rid (Woken i) ?h)" by (rule act_timer)
    from step_act [OF this] show ?thesis by (intro exI [of _ "QTimer rid"]) auto
  next
    case Halted
    with \<open>x_pc x \<noteq> Halted\<close> show ?thesis by simp
  qed (use assms(2) in \<open>fastforce simp: sql_segment_def Let_def
         intro: exI [of _ "QSegment rid []"] step_act [OF act_segment [of _ rid "[]"]]\<close>)+
qed

lemma exec_terminates:
  assumes "world_ok cfg (Up pid h)" and "attended rid h"
  shows "\<exists>as w' r. sql_acts cfg (Up pid h) as w' \<and> list_all (own_act rid) as \<and>
    getRun rid (world_db w') = Some r \<and> is_terminal (q_status r)"
  using assms
proof (induction "case exec_bound rid h of None \<Rightarrow> 0 | Some b \<Rightarrow> b" arbitrary: h rule: less_induct)
  case less
  show ?case
  proof (cases "g_exec h rid")
    case None
    with less.prems(2) show ?thesis
      by (intro exI [of _ "[]"] exI [of _ "Up pid h"]) (auto simp: attended_def intro: trace_nil)
  next
    case (Some x)
    from exec_enabled [OF less.prems(1) Some] obtain a w1 where a: "own_act rid a" "sql_step cfg (Up pid h) (WAct a) w1"
      by blast
    have "exec_ok (as_process cfg pid) rid x (g_db h)"
      using less.prems(1) Some host_inv_exec [of "as_process cfg pid" "g_db h" "h\<lparr>g_commits := []\<rparr>" rid x]
      by (simp add: world_ok_def)
    then have "getRun rid (g_db h) \<noteq> None" by (auto simp: exec_ok_def owned_def)
    note run = sql_acts_run [OF _ less.prems(1) this]
    from run [of "[a]" w1] a less.prems(2) obtain h1 where h1: "w1 = Up pid h1"
      "attended rid h1" "(case exec_bound rid h1 of None \<Rightarrow> 0 | Some b \<Rightarrow> b) < (case exec_bound rid h of None \<Rightarrow> 0 | Some b \<Rightarrow> b)"
      by (auto simp: trace_single)
    have "world_ok cfg (Up pid h1)" using sql_step_ok [OF a(2) less.prems(1)] h1(1) by simp
    from less.hyps [OF h1(3) this h1(2)] obtain as w' r where "sql_acts cfg (Up pid h1) as w'" "list_all (own_act rid) as"
      "getRun rid (world_db w') = Some r" "is_terminal (q_status r)" by blast
    with a h1(1) show ?thesis
      by (intro exI [of _ "a # as"] exI [of _ w'] exI [of _ r]) (auto intro: trace_cons)
  qed
qed

section \<open>Starting\<close>

lemma sql_boot_fold:
  "sql_boot cfg now t db = fold (resume_one cfg now t) (findOrphansStmt now db) (new_process db)"
  by (simp add: sql_boot_def resumeOrphans_def new_process_def)

lemma agree_fold:
  "rid \<notin> set rids \<Longrightarrow> agree rid h (fold (resume_one cfg now t) rids h)"
proof (induction rids arbitrary: h)
  case (Cons rid' rids)
  then have "rid \<noteq> rid'" by simp
  then have "agree rid h (resume_one cfg now t rid' h)" by (rule agree_resume_one)
  with Cons show ?case by (auto intro: agree_trans)
qed simp

text \<open>A run that can be claimed is claimed and launched.\<close>

lemma resume_one_claims:
  assumes "host_inv cfg db0 h" and "g_exec h rid = None" and "getRun rid (g_db h) = Some r" and "claimable now r"
  obtains h1 where "resume_one cfg now t rid h = sql_launch cfg rid t h1" and "host_inv cfg db0 h1" and "claimed cfg rid h1"
proof
  let ?db = "fst (acquireClaim (s_pid cfg) (now + s_claim_ttl cfg) rid now (g_db h))"
  have ok: "db_ok (s_workflows cfg) (g_db h)" using assms(1) by (rule host_inv_db)
  have sh: "shapes_of rid' ?db = shapes_of rid' (g_db h)" for rid'
    by (rule shapes_of_events) (simp add: sql_simps)
  have others: "exec_ok cfg rid' x ?db" if "g_exec h rid' = Some x" for rid' x
  proof -
    have "rid' \<noteq> rid" using that assms(2) by auto
    then show ?thesis
      using host_inv_exec [OF assms(1) that] by (rule_tac exec_ok_frame) (simp_all add: sql_simps sh)
  qed
  show "host_inv cfg db0 (commit ?db h)"
    by (rule host_inv_commit [OF assms(1) db_ok_claims(1) [OF ok] db_evolves_claims(1) others])
  show "claimed cfg rid (commit ?db h)"
    using assms(2-4) by (auto simp: claimed_def sql_simps claimable_def)
  have "snd (acquireClaim (s_pid cfg) (now + s_claim_ttl cfg) rid now (g_db h)) = 1"
    using ok assms(3,4) by (simp add: acquireClaim_changes db_ok_def)
  then show "resume_one cfg now t rid h = sql_launch cfg rid t (commit ?db h)"
    by (cases "acquireClaim (s_pid cfg) (now + s_claim_ttl cfg) rid now (g_db h)") (simp add: resume_one_def tryClaim_def)
qed

text \<open>What a launch establishes for its run and other runs' launches keep holds after the whole loop.\<close>

lemma fold_resume:
  assumes "host_inv cfg db0 h" and "distinct rids" and "\<forall>rid' \<in> set rids. g_exec h rid' = None" and "rid \<in> set rids"
    and "getRun rid (g_db h) = Some r" and "claimable now r"
    and launch: "\<And>h1. host_inv cfg db0 h1 \<Longrightarrow> claimed cfg rid h1 \<Longrightarrow> Q (sql_launch cfg rid t h1)"
    and keep: "\<And>h1 h2. agree rid h1 h2 \<Longrightarrow> Q h1 \<Longrightarrow> Q h2"
  shows "Q (fold (resume_one cfg now t) rids h)"
  using assms(1-6)
proof (induction rids arbitrary: h)
  case (Cons rid' rids)
  let ?h1 = "resume_one cfg now t rid' h"
  have inv1: "host_inv cfg db0 ?h1" using Cons.prems by (intro resume_one_inv) auto
  show ?case
  proof (cases "rid' = rid")
    case True
    obtain h1 where "?h1 = sql_launch cfg rid t h1" "host_inv cfg db0 h1" "claimed cfg rid h1"
      using resume_one_claims [OF Cons.prems(1) _ Cons.prems(5,6)] Cons.prems(3) True by auto
    then have "Q ?h1" using launch by simp
    moreover have "agree rid ?h1 (fold (resume_one cfg now t) rids ?h1)"
      using Cons.prems(2) True by (intro agree_fold) auto
    ultimately show ?thesis using keep by simp
  next
    case False
    have same: "agree rid'' h ?h1" if "rid'' \<noteq> rid'" for rid'' using that by (rule agree_resume_one)
    have "\<forall>x \<in> set rids. g_exec ?h1 x = None"
    proof
      fix x assume "x \<in> set rids"
      with Cons.prems(2) have "x \<noteq> rid'" by auto
      from same [OF this] Cons.prems(3) \<open>x \<in> set rids\<close> show "g_exec ?h1 x = None" by (simp add: agree_def)
    qed
    moreover have "getRun rid (g_db ?h1) = Some r" using same [of rid] False Cons.prems(5) by (simp add: agree_def)
    ultimately show ?thesis using Cons.IH [OF inv1] Cons.prems False by simp
  qed
qed simp

lemma boot_launches:
  assumes "db_ok (s_workflows cfg) db" and "getRun rid db = Some r" and "claimable now r"
    and "\<And>h1. host_inv cfg db h1 \<Longrightarrow> claimed cfg rid h1 \<Longrightarrow> Q (sql_launch cfg rid t h1)"
    and "\<And>h1 h2. agree rid h1 h2 \<Longrightarrow> Q h1 \<Longrightarrow> Q h2"
  shows "Q (sql_boot cfg now t db)"
proof -
  have inv: "host_inv cfg db (new_process db)"
    using assms(1) by (simp add: host_inv_def tracked_def new_process_def)
  have k: "keys_ok db" using assms(1) by (simp add: db_ok_def)
  have "q_status r \<noteq> WaitingApproval" using assms(1,2) by (auto simp: db_ok_def run_row_ok_def)
  with assms(3) have "q_status r = Pending \<or> q_status r = Running \<or> q_status r = Cancelling"
    by (cases "q_status r") (simp_all add: is_terminal_def claimable_def)
  with assms(2,3) k have orphan: "rid \<in> set (findOrphansStmt now db)" by (simp add: findOrphans_iff claimable_def)
  have "getRun rid (g_db (new_process db)) = Some r" "\<forall>x \<in> set (findOrphansStmt now db). g_exec (new_process db) x = None"
    using assms(2) by (simp_all add: new_process_def)
  from fold_resume [where Q = Q, OF inv distinct_findOrphans [OF k] this(2) orphan this(1) assms(3-5)]
  show ?thesis unfolding sql_boot_fold .
qed

lemma boot_attends:
  assumes "db_ok (s_workflows cfg) db" and "getRun rid db = Some r" and "claim_free now r"
  shows "attended rid (sql_boot cfg now t db)"
proof (cases "is_terminal (q_status r)")
  case False
  show ?thesis
  proof (rule boot_launches [OF assms(1,2)])
    show "claimable now r" using assms(3) False by (simp add: claimable_def)
    show "attended rid (sql_launch cfg rid t h1)" if "host_inv cfg db h1" "claimed cfg rid h1" for h1
      using sql_launch_over [OF that, of t] by (auto simp: over_def)
  qed (simp add: agree_attended)
next
  case True
  with assms have "rid \<notin> set (findOrphansStmt now db)"
    by (auto simp: findOrphans_iff db_ok_def)
  from agree_fold [OF this] assms(2) True show ?thesis
    unfolding sql_boot_fold by (simp add: attended_def agree_def new_process_def)
qed

lemma boot_leaves:
  assumes "keys_ok db" and "getRun rid db = Some r" and "\<not> claim_free now r"
  shows "agree rid (new_process db) (sql_boot cfg now t db)"
  unfolding sql_boot_fold using assms by (intro agree_fold) (simp add: findOrphans_iff)

lemma boot_step:
  assumes "world_ok cfg (Down db)"
  shows "sql_step cfg (Down db) (WStart pid now t) (Up pid (sql_boot (as_process cfg pid) now t db))"
    and "world_ok cfg (Up pid (sql_boot (as_process cfg pid) now t db))"
proof -
  have "host_inv (as_process cfg pid) db (sql_boot (as_process cfg pid) now t db)"
    using assms by (intro boot_inv) (simp add: world_ok_def)
  from after_act_up [OF this] step_start [of cfg db pid now t]
  show s: "sql_step cfg (Down db) (WStart pid now t) (Up pid (sql_boot (as_process cfg pid) now t db))" by simp
  from sql_step_ok [OF s assms] show "world_ok cfg (Up pid (sql_boot (as_process cfg pid) now t db))" by simp
qed

lemma boot_recovers:
  assumes "world_ok cfg (Down db)" and "getRun rid db = Some r" and "claim_free now r"
  shows "\<exists>as w' r'. sql_trace cfg (Down db) (WStart pid now t # map WAct as) w' \<and> list_all (own_act rid) as \<and>
    getRun rid (world_db w') = Some r' \<and> is_terminal (q_status r')"
proof -
  from assms(1) have "db_ok (s_workflows (as_process cfg pid)) db" by (simp add: world_ok_def)
  from boot_attends [OF this assms(2,3)] have "attended rid (sql_boot (as_process cfg pid) now t db)" .
  from exec_terminates [OF boot_step(2) [OF assms(1)] this] obtain as w' r'
    where tr: "sql_acts cfg (Up pid (sql_boot (as_process cfg pid) now t db)) as w'" and
      fin: "list_all (own_act rid) as" "getRun rid (world_db w') = Some r'" "is_terminal (q_status r')" by blast
  have "sql_trace cfg (Down db) (WStart pid now t # map WAct as) w'"
    using boot_step(1) [OF assms(1)] tr by (rule trace_cons)
  with fin show ?thesis by (intro exI [of _ as] exI [of _ w'] exI [of _ r']) simp
qed

lemma sql_step_startE:
  assumes "sql_step cfg (Down db) (WStart pid now t) w" and "world_ok cfg (Down db)"
  shows "w = Up pid (sql_boot (as_process cfg pid) now t db)"
proof -
  have "host_inv (as_process cfg pid) db (sql_boot (as_process cfg pid) now t db)"
    using assms(2) by (intro boot_inv) (simp add: world_ok_def)
  from after_act_up [OF this] assms(1) show ?thesis by (auto elim: sql_step.cases)
qed


section \<open>The idempotency table\<close>

text \<open>Every state of the database since the stretch of code began, below the clock \<open>T\<close>.\<close>

definition idem_tracked :: "int \<Rightarrow> (string \<times> idem_cols) list \<Rightarrow> sql_host \<Rightarrow> bool" where
  "idem_tracked T rows h \<longleftrightarrow> (\<forall>db \<in> insert (g_db h) (set (g_commits h)). sql_idem.evolves T rows (t_idem db))"

lemma idem_tracked_kept: "idem_tracked T rows h \<Longrightarrow> idem_kept h h' \<Longrightarrow> idem_tracked T rows h'"
  by (auto simp: idem_tracked_def idem_kept_def)

lemma idem_tracked_commit:
  "idem_tracked T rows h \<Longrightarrow> sql_idem.evolves T rows (t_idem db) \<Longrightarrow> idem_tracked T rows (commit db h)"
  by (auto simp: idem_tracked_def commit_def)

definition idem_reply :: "int \<Rightarrow> (string \<times> idem_cols) list \<Rightarrow> sql_reply \<Rightarrow> bool" where
  "idem_reply T rows res \<longleftrightarrow> idem_tracked T rows (snd res)"

lemma idem_reply_pair [simp]: "idem_reply T rows (r, h) = idem_tracked T rows h"
  by (simp add: idem_reply_def)

lemma createRun_idem:
  assumes "idem_tracked T rows h"
  shows "idem_reply T rows (sql_createRun cfg en wid inputs key hash h)"
proof (cases "insertRun (new_run_id en) wid Pending (stringify inputs) (iso en) (g_db h)")
  case (Inl m)
  with assms show ?thesis by (simp add: sql_createRun_def Let_def)
next
  case (Inr db)
  then have "t_idem db = t_idem (g_db h)" by (auto simp: insertRun_def split: if_splits)
  with assms have t1: "idem_tracked T rows (commit db h)"
    by (auto simp: idem_tracked_def commit_def)
  have resume: "idem_tracked T rows (resume_one cfg now t rid h')" if "idem_tracked T rows h'" for now t rid h'
    using idem_tracked_kept [OF that idem_table.R_resume_one] .
  show ?thesis
  proof (cases key)
    case None
    with Inr t1 resume show ?thesis by (simp add: sql_createRun_def Let_def)
  next
    case (Some k)
    let ?k = "buildIdempotencyCacheKey (s_sha256 cfg) ''POST /v1/runs'' k"
    let ?e = "\<lparr>d_status = 201, d_body = stringify (created_body (new_run_id en) wid (iso en)), d_body_hash = hash, d_stored_at = now_ms en\<rparr>"
    show ?thesis
    proof (cases "insertIdempotency ?k ?e (t_idem db)")
      case (Inl m)
      with Inr Some t1 show ?thesis by (simp add: sql_createRun_def Let_def)
    next
      case i: (Inr rows')
      then have "getIdempotency ?k (t_idem db) = None"
        by (auto simp: insertIdempotency_def getIdempotency_def split: if_splits)
      from sql_idem.evolves_put [OF _ this, of T rows ?e] t1 i
      have "sql_idem.evolves T rows rows'" by (simp add: idem_tracked_def)
      with idem_tracked_commit [OF t1, of "db\<lparr>t_idem := rows'\<rparr>"]
      have "idem_tracked T rows (commit (db\<lparr>t_idem := rows'\<rparr>) (commit db h))" by simp
      with resume Inr Some i show ?thesis by (simp add: sql_createRun_def Let_def)
    qed
  qed
qed

lemma handleCreateRun_idem:
  assumes "idem_tracked T rows h" and "now_ms en \<le> T"
  shows "idem_reply T rows (sql_handleCreateRun cfg en rq h)"
proof (cases "check_create (s_api_key cfg) (s_workflows cfg) rq")
  case (Accepts wid inputs)
  let ?h1 = "commit ((g_db h)\<lparr>t_idem := pruneIdempotency (now_ms en) (t_idem (g_db h))\<rparr>) h"
  have "sql_idem.evolves T rows (pruneIdempotency (now_ms en) (t_idem (g_db h)))"
    using assms by (intro sql_idem.evolves_prune) (simp_all add: idem_tracked_def)
  with assms(1) have t1: "idem_tracked T rows ?h1" by (intro idem_tracked_commit) simp_all
  show ?thesis
    using createRun_idem [OF assms(1)] createRun_idem [OF t1] t1 Accepts
    by (auto simp: sql_handleCreateRun_def Let_def split: option.split)
qed (use assms in \<open>simp_all add: sql_handleCreateRun_def\<close>)

lemma idem_with_run:
  "idem_tracked T rows h \<Longrightarrow> (\<And>r. idem_reply T rows (k r)) \<Longrightarrow> idem_reply T rows (sql_with_run cfg rq h rid k)"
  by (simp add: sql_with_run_def split: option.split)

lemma idem_tracked_subs [simp]: "idem_tracked T rows (h\<lparr>g_subs := ss\<rparr>) = idem_tracked T rows h"
  by (simp add: idem_tracked_def)

lemma handlers_idem:
  assumes "idem_tracked T rows h"
  shows "idem_reply T rows (sql_handleGetRun cfg rq rid h)" "idem_reply T rows (sql_handleEventsPoll cfg rq rid h)"
    "idem_reply T rows (sql_handleEventsSse cfg rq rid h)" "idem_reply T rows (sql_handleDebugBundle cfg en rq rid h)"
    "idem_reply T rows (sql_handleCancelRun cfg rq rid h)"
  unfolding sql_handleGetRun_def sql_handleEventsPoll_def sql_handleEventsSse_def sql_handleDebugBundle_def
    sql_handleCancelRun_def
  by (rule idem_with_run [OF assms];
      simp add: assms idem_tracked_kept [OF assms idem_table.R_cancel] Let_def split: option.split)+

lemma sql_serve_idem:
  assumes "idem_tracked T rows h" and "now_ms en \<le> T"
  shows "idem_tracked T rows (snd (sql_serve cfg en rq h))"
proof -
  have "idem_reply T rows (sql_route cfg en rq h)"
    by (rule sql_route_cases; (rule handleCreateRun_idem [OF assms] handlers_idem [OF assms(1)] | simp add: assms(1)))
  then show ?thesis
    by (cases "sql_route cfg en rq h") (auto simp: sql_serve_def idem_reply_def split: sum.split)
qed

text \<open>Every request of the machine's history is served by time \<open>T\<close>.\<close>

fun act_served_by :: "int \<Rightarrow> sql_action \<Rightarrow> bool" where
  "act_served_by T (QRequest en rq) \<longleftrightarrow> now_ms en \<le> T"
| "act_served_by T _ \<longleftrightarrow> True"

fun sql_served_by :: "int \<Rightarrow> world_action \<Rightarrow> bool" where
  "sql_served_by T (WAct a) \<longleftrightarrow> act_served_by T a"
| "sql_served_by T (WTorn a n) \<longleftrightarrow> act_served_by T a"
| "sql_served_by T _ \<longleftrightarrow> True"

lemma sql_act_idem:
  assumes "sql_act cfg h a h'" and "act_served_by T a" and "idem_tracked T rows h"
  shows "idem_tracked T rows h'"
  using assms(1,2)
proof (induction rule: sql_act.induct)
  case (act_request en rq)
  then show ?case using sql_serve_idem [OF assms(3)] by simp
next
  case (act_segment rid t h')
  then show ?case using idem_tracked_kept [OF assms(3) idem_table.R_segment] by blast
next
  case (act_timer rid h')
  then show ?case using idem_tracked_kept [OF assms(3) idem_table.R_timer] by blast
next
  case (act_heartbeat rid now h')
  then show ?case using idem_tracked_kept [OF assms(3) idem_table.R_heartbeat] by blast
next
  case (act_close rid j)
  then show ?case using assms(3) by (simp add: sql_client_closes_def)
qed

lemma boot_idem: "idem_tracked T (t_idem db) (sql_boot cfg now t db)"
proof -
  have "idem_tracked T rows (fold (resume_one cfg now t) rids h)" if "idem_tracked T rows h" for rids rows h
    using that
  proof (induction rids arbitrary: h)
    case (Cons rid rids)
    from idem_tracked_kept [OF Cons.prems idem_table.R_resume_one] Cons.IH show ?case by simp
  qed simp
  moreover have "idem_tracked T (t_idem db) (new_process db)"
    by (simp add: idem_tracked_def new_process_def sql_idem.evolves_refl)
  ultimately show ?thesis unfolding sql_boot_fold .
qed

lemma sql_step_idem:
  assumes "sql_step cfg w a w'" and "sql_served_by T a"
  shows "sql_idem.evolves T (t_idem (world_db w)) (t_idem (world_db w'))"
proof -
  have start: "idem_tracked T (t_idem (g_db h)) (h\<lparr>g_commits := []\<rparr>)" for h
    by (simp add: idem_tracked_def sql_idem.evolves_refl)
  have act: "sql_idem.evolves T (t_idem (g_db h)) (t_idem db)"
    if "sql_act cfg' (h\<lparr>g_commits := []\<rparr>) b h'" "act_served_by T b" "db \<in> insert (g_db h') (set (g_commits h'))" for cfg' h b h' db
    using sql_act_idem [OF that(1,2) start] that(3) by (auto simp: idem_tracked_def)
  from assms show ?thesis
  proof (induction rule: sql_step.induct)
    case (step_act pid h b h')
    then show ?case using act [OF step_act.hyps, of "g_db h'"] by (simp add: after_act_def)
  next
    case (step_torn pid h b h' n)
    then show ?case using act [OF step_torn.hyps(1), of "g_commits h' ! n"] by simp
  next
    case (step_start db pid now t)
    then show ?case using boot_idem [of T db] by (simp add: after_act_def idem_tracked_def)
  next
    case (step_torn_start n pid now t db)
    then show ?case using boot_idem [of T db "as_process cfg pid" now t] by (simp add: idem_tracked_def)
  qed (simp_all add: sql_idem.evolves_refl shutdown_def sql_simps)
qed

lemma sql_trace_idem:
  "sql_trace cfg w as w' \<Longrightarrow> list_all (sql_served_by T) as \<Longrightarrow> sql_idem.evolves T (t_idem (world_db w)) (t_idem (world_db w'))"
  by (induction rule: trace.induct) (auto intro: sql_idem.evolves_refl sql_idem.evolves_trans sql_step_idem)

definition sql_idem_key :: "sql_config \<Rightarrow> string \<Rightarrow> string" where
  "sql_idem_key cfg key = buildIdempotencyCacheKey (s_sha256 cfg) ''POST /v1/runs'' key"

definition as_reply :: "sql_reply \<Rightarrow> reply \<times> sql_host" where
  "as_reply res = (case res of (Inl m, h) \<Rightarrow> (sendError 500 ''internal'' m, h) | (Inr rep, h) \<Rightarrow> (rep, h))"

lemma sql_serve_create_decide:
  assumes "create_request rq" and "rq_headers rq ''idempotency-key'' = Some key"
    and "check_create (s_api_key cfg) (s_workflows cfg) rq = Accepts wid inputs"
  shows "sql_serve cfg en rq h =
    (let h1 = commit ((g_db h)\<lparr>t_idem := pruneIdempotency (now_ms en) (t_idem (g_db h))\<rparr>) h;
         hash = s_sha256 cfg (rq_body rq)
     in case sql_idem.decide (now_ms en) (sql_idem_key cfg key) hash (t_idem (g_db h)) of
          Fresh \<Rightarrow> as_reply (sql_createRun cfg en wid inputs (Some key) hash h1)
        | Replay e \<Rightarrow> (sendText (d_status e) ''application/json'' (d_body e) [(''WOP-Idempotent-Replay'', ''true'')], h1)
        | Conflict \<Rightarrow> (sendError 409 ''idempotency_key_conflict''
            ''Idempotency-Key reused with a different request body.'', h1))"
proof -
  have "sql_route cfg en rq h = sql_handleCreateRun cfg en rq h"
    using assms(1) by (simp add: create_request_def sql_route_def)
  with assms(2,3) show ?thesis
    by (simp add: sql_serve_def sql_handleCreateRun_def hashBody_def sql_idem.decide_def as_reply_def
        sql_idem_key_def Let_def split: option.split)
qed

section \<open>Cancellation and restarts\<close>

text \<open>What a start makes of a run: neither cancelling nor cancelled, and no abort signal is set.\<close>

definition uncancelled :: "string \<Rightarrow> sql_host \<Rightarrow> bool" where
  "uncancelled rid h \<longleftrightarrow>
     (\<exists>st \<in> {Running, Completed, Failed}. sql_status rid h = Some st) \<and>
     (\<forall>x. g_exec h rid = Some x \<longrightarrow> \<not> x_aborted x)"

definition running :: "string \<Rightarrow> sql_host \<Rightarrow> bool" where
  "running rid h \<longleftrightarrow> sql_status rid h = Some Running \<and> (\<forall>x. g_exec h rid = Some x \<longrightarrow> \<not> x_aborted x)"

lemma running_uncancelled: "running rid h \<Longrightarrow> uncancelled rid h"
  by (simp add: running_def uncancelled_def)

lemma sql_appendEvent_row:
  "getRun rid' (g_db (snd (sql_appendEvent rid ty n d t h))) = getRun rid' (g_db h) \<and>
   g_exec (snd (sql_appendEvent rid ty n d t h)) = g_exec h"
  by (auto simp: sql_appendEvent_def Let_def commit_def insertEvent_def getRun_def split: sum.split)

lemma running_append: "running rid h \<Longrightarrow> running rid (snd (sql_appendEvent rid ty n d t h))"
  using sql_appendEvent_row [of rid rid ty n d t h] by (simp add: running_def sql_status_def)

lemma running_set_pc: "running rid h \<Longrightarrow> running rid (set_pc rid p h)"
  by (auto simp: running_def sql_status_def set_pc_def)

lemma running_then:
  assumes "running rid (snd (f h))" and "\<And>h1. running rid h1 \<Longrightarrow> uncancelled rid (snd (g h1))"
  shows "uncancelled rid (snd (then_do f g h))"
  using assms running_uncancelled by (cases "f h") (auto simp: then_do_def split: option.split)

lemma uncancelled_terminal:
  assumes "running rid h" and "st \<in> {Completed, Failed}"
  shows "uncancelled rid (setRunTerminal cfg rid st e t h)"
proof -
  from assms(1) obtain r where "getRun rid (g_db h) = Some r" by (auto simp: running_def sql_status_def)
  then have "sql_status rid (setRunTerminal cfg rid st e t h) = Some st"
    by (simp add: sql_status_def setRunTerminal_def Let_def sql_simps)
  with assms show ?thesis by (auto simp: uncancelled_def running_def setRunTerminal_def Let_def)
qed

lemma uncancelled_set_pc: "uncancelled rid h \<Longrightarrow> uncancelled rid (set_pc rid p h)"
  by (auto simp: uncancelled_def sql_status_def set_pc_def)

lemma uncancelled_finish:
  "running rid h \<Longrightarrow> st \<in> {Completed, Failed} \<Longrightarrow> uncancelled rid (snd (sql_finish cfg rid st ty e t h))"
  unfolding sql_finish_def
  by (rule running_then [OF running_append]) (simp_all add: uncancelled_set_pc uncancelled_terminal)

lemma uncancelled_executeNode:
  assumes "running rid h"
  shows "uncancelled rid (snd (sql_executeNode rid n i a j t h))"
proof -
  have step: "uncancelled rid (snd (then_do (sql_appendEvent rid ty nid d t) (\<lambda>h. (None, set_pc rid p h)) h1))"
    if "running rid h1" for ty nid d p h1
    using that by (intro running_then running_append) (simp_all add: running_uncancelled running_set_pc)
  have "sql_status rid h \<noteq> Some Cancelling" using assms by (simp add: running_def)
  then show ?thesis
    using step
    by (auto simp: sql_executeNode_def running_uncancelled running_set_pc intro!: running_then running_append assms)
qed

lemma uncancelled_loop: "running rid h \<Longrightarrow> uncancelled rid (snd (sql_loop cfg rid x i t h))"
  by (auto simp: sql_loop_def running_def intro: uncancelled_finish uncancelled_executeNode)

lemma uncancelled_launch:
  assumes "host_inv cfg db0 h" and "claimed cfg rid h"
  shows "uncancelled rid (sql_launch cfg rid t h)"
proof -
  from assms(2) obtain r where r: "getRun rid (g_db h) = Some r" by (auto simp: claimed_def)
  from db_ok_run [OF host_inv_db [OF assms(1)] r] obtain w inputs where w: "s_workflows cfg (q_workflow_id r) = Some w"
    and inputs: "json_parse (q_inputs_json r) = Some inputs" by (auto simp: run_row_ok_def)
  let ?x = "\<lparr>x_workflow = w, x_inputs = inputs, x_aborted = False, x_pc = Halted\<rparr>"
  let ?b = "sql_begin cfg rid ?x t (set_exec rid ?x h)"
  have "ends_in (settled cfg db0 rid (3 * length (wf_nodes w))) ?b"
    using sql_begin_ok [OF assms r, of ?x] w by simp
  then have none: "fst ?b = None" by (simp add: ends_in_def)
  have "running rid (commit (updateRunStatus Running None None rid (g_db h)) (set_exec rid ?x h))"
    using r by (simp add: running_def sql_status_def sql_simps)
  then have "uncancelled rid (snd ?b)"
    by (auto simp: sql_begin_def Let_def intro!: running_then running_append uncancelled_loop)
  then have "uncancelled rid (snd (sql_try cfg rid t (sql_begin cfg rid ?x t) (set_exec rid ?x h)))"
    and "fst (sql_try cfg rid t (sql_begin cfg rid ?x t) (set_exec rid ?x h)) = None"
    using none by (cases ?b; auto simp: sql_try_def drop_exec_def uncancelled_def sql_status_def)+
  then show ?thesis
    using r w inputs
    by (cases "sql_try cfg rid t (sql_begin cfg rid ?x t) (set_exec rid ?x h)")
       (simp add: sql_launch_def sql_catch_def sql_runWorkflow_def Let_def)
qed

lemma boot_uncancels:
  assumes "db_ok (s_workflows cfg) db" and "getRun rid db = Some r" and "claimable now r"
  shows "uncancelled rid (sql_boot cfg now t db)"
proof (rule boot_launches [OF assms])
  show "uncancelled rid (sql_launch cfg rid t h1)" if "host_inv cfg db h1" "claimed cfg rid h1" for h1
    using that by (rule uncancelled_launch)
qed (auto simp: uncancelled_def agree_def sql_status_def)

section \<open>Pages of the log\<close>

lemma sql_log_inv:
  assumes "sql_reachable cfg w" and "getRun rid (world_db w) \<noteq> None"
  shows "log_inv rid (world_db w)"
  using world_ok_db [OF sql_reachable_ok [OF assms(1)]] assms(2) by (simp add: log_inv_def db_ok_def parsable_def)

text \<open>The rows that a reader selects all parse, and are the events after its resume point.\<close>

lemma sql_page:
  assumes "sql_reachable cfg (Up pid h)" and "getRun rid (g_db h) = Some r"
  shows "events_of_rows (getEventsAfter rid x (g_db h)) = Some (events_after x (sql_log rid (g_db h)))"
proof -
  have inv: "log_inv rid (g_db h)" using sql_log_inv [OF assms(1), of rid] assms(2) by simp
  have "events_of_rows (getEventsAfter rid x (g_db h)) \<noteq> None"
    using sql_event_rows [of "s_workflows cfg" "g_db h" "getEventsAfter rid x (g_db h)"]
      world_ok_db [OF sql_reachable_ok [OF assms(1)]]
    by (auto simp: getEventsAfter_def rows_of_def)
  then show ?thesis using sql_log.read_after [OF inv, of x] by (auto simp: sql_read_after_def)
qed

text \<open>What the readers give out is JSON.\<close>

lemma event_of_row_wf: "event_of_row v = Some e \<Longrightarrow> case e_data e of None \<Rightarrow> True | Some d \<Rightarrow> wf_json d"
  by (auto simp: event_of_row_def null_as_none_def split: option.splits if_splits dest: json_parse_wf)

lemma events_of_rows_member: "events_of_rows vs = Some es \<Longrightarrow> e \<in> set es \<Longrightarrow> \<exists>v. event_of_row v = Some e"
proof (induction vs arbitrary: es)
  case (Cons v vs)
  then show ?case by (cases "event_of_row v") (auto simp: events_of_rows_def)
qed (simp add: events_of_rows_def)

lemma wf_sql_log: "e \<in> set (sql_log rid db) \<Longrightarrow> wf_json (sql_event_json e)"
proof -
  assume "e \<in> set (sql_log rid db)"
  then obtain es where "events_of_rows (rows_of rid db) = Some es" "e \<in> set es"
    by (cases "events_of_rows (rows_of rid db)") (simp_all add: sql_log_def)
  then obtain v where "event_of_row v = Some e" using events_of_rows_member by blast
  from event_of_row_wf [OF this] show ?thesis
    by (cases "e_nodeId e") (auto simp: sql_event_json_def split: option.splits)
qed

end
