(* ===== verification/MemProps.thy ===== *)
theory MemProps
  imports MemLaws
begin

text \<open>
  The properties of the in-memory host, over all interleavings of requests, run segments,
  timers and closing clients, each with an application to the small host of the first
  section.
\<close>

lemma mem_reachable_request:
  assumes "mem_reachable cfg h" and "h_runs h (new_run_id en) = None"
  shows "mem_reachable cfg (fst (mem_serve cfg en rq h))"
  using mem_reachable_trace [OF assms(1) trace_single] mem_step.request [OF assms(2)] by blast

section \<open>A concrete host\<close>

definition demo_workflow :: workflow where
  "demo_workflow = \<lparr>wf_id = ''w'', wf_name = ''W'', wf_version = ''1'',
     wf_nodes = [\<lparr>n_id = ''d'', n_typeId = ''core.delay'', n_name = ''D'',
                  n_inputs = [(''delayMs'', JNum (num_of_int 5))]\<rparr>]\<rparr>"

definition demo_cfg :: mem_config where
  "demo_cfg = \<lparr>c_api_key = ''key'', c_workflows = [''w'' \<mapsto> demo_workflow], c_sha256 = (\<lambda>s. s)\<rparr>"

definition demo_env :: "int \<Rightarrow> string \<Rightarrow> env" where
  "demo_env t u = \<lparr>now_ms = t, iso = ''T'', uuid = u\<rparr>"

definition demo_body :: json where
  "demo_body = JObj [(''workflowId'', JStr ''w'')]"

definition demo_create :: request where
  "demo_create = \<lparr>rq_method = ''POST'', rq_path = Some ''/v1/runs'', rq_query = [],
     rq_headers = [''authorization'' \<mapsto> ''Bearer key'', ''idempotency-key'' \<mapsto> ''k''],
     rq_body = stringify demo_body\<rparr>"

definition demo_request :: "string \<Rightarrow> string list \<Rightarrow> string \<Rightarrow> request" where
  "demo_request m sfx x = \<lparr>rq_method = m, rq_path = Some (path_of x sfx), rq_query = [],
     rq_headers = [''authorization'' \<mapsto> ''Bearer key''], rq_body = []\<rparr>"

definition demo_id :: string where
  "demo_id = new_run_id (demo_env 0 ''u'')"

definition demo_key :: string where
  "demo_key = idem_key demo_cfg ''k''"

lemma demo_authorized [simp]:
  "authorized ''key'' demo_create" "authorized ''key'' (demo_request m sfx x)"
  by (auto simp: authorized_def demo_create_def demo_request_def intro!: exI [of _ "''key''"]) code_simp+

lemma demo_id_ok [simp]: "demo_id \<noteq> []" "CHR ''/'' \<notin> set demo_id"
  by (simp_all add: demo_id_def new_run_id_def demo_env_def)

lemma demo_run_request [simp]:
  "run_request m sfx demo_id (demo_request m sfx demo_id)"
  by (simp add: run_request_def demo_request_def)

lemma demo_create_request [simp]: "create_request demo_create"
  by (simp add: create_request_def demo_create_def)

lemma demo_cfg_simps [simp]:
  "c_api_key demo_cfg = ''key''" "c_workflows demo_cfg ''w'' = Some demo_workflow" "c_sha256 demo_cfg = (\<lambda>s. s)"
  by (simp_all add: demo_cfg_def)

lemma demo_parse [simp]: "json_parse (stringify demo_body) = Some demo_body"
  by (rule json_roundtrip) (simp add: demo_body_def)

lemma demo_check:
  "check_create (c_api_key demo_cfg) (c_workflows demo_cfg) demo_create = Accepts ''w'' (JObj [])"
proof -
  have "json_parse (rq_body demo_create) = Some demo_body" by (simp add: demo_create_def)
  then show ?thesis
    by (auto simp: check_create_Accepts demo_body_def inputs_or_empty_def)
qed

lemma demo_create_key [simp]: "rq_headers demo_create ''idempotency-key'' = Some ''k''"
  by (simp add: demo_create_def)

text \<open>The run after its create request, and its states up to the end.\<close>

definition demo_run :: "nat \<Rightarrow> run" where
  "demo_run n = (((\<lambda>r. case run_step r demo_workflow ''T'' of None \<Rightarrow> r | Some r' \<Rightarrow> r') ^^ n)
     (created_run demo_cfg (demo_env 0 ''u'') ''w'' (JObj [])))"

lemma demo_run_0:
  "r_pc (demo_run 0) = Sleeping 0 (num_of_int 5)" "r_status (demo_run 0) = Running"
  "r_workflowId (demo_run 0) = ''w''" "length (r_events (demo_run 0)) = 2"
  "r_cancelRequested (demo_run 0) = False" "r_subs (demo_run 0) = []"
  by (simp_all add: demo_run_def created_run_def runWorkflow_def new_run_def workflow_loop_def
      executeNode_def demo_workflow_def appendEvent_def Let_def sleep_def resolveInputAsNumber_def)

lemma demo_run_Suc:
  "r_pc (demo_run n) \<noteq> Halted \<Longrightarrow> run_step (demo_run n) demo_workflow ''T'' = Some (demo_run (Suc n))"
  using run_step_enabled [of "demo_run n" demo_workflow "''T''"] by (auto simp: demo_run_def)

lemma demo_run_next: "run_step (demo_run n) demo_workflow ''T'' = Some x \<Longrightarrow> demo_run (Suc n) = x"
  by (simp add: demo_run_def)

lemma demo_run_1: "r_pc (demo_run 1) = Woken 0"
proof -
  have "run_step (demo_run 0) demo_workflow ''T'' = Some (demo_run 0\<lparr>r_pc := Woken 0\<rparr>)"
    by (simp add: run_step_def timer_fires_def demo_run_0)
  from demo_run_next [OF this] show ?thesis by simp
qed

lemma demo_run_2: "r_pc (demo_run 2) = Outcome 0 NCompleted"
proof -
  have "run_step (demo_run 1) demo_workflow ''T'' = Some (executeNode_woken (demo_run 1) (wf_nodes demo_workflow ! 0) 0 ''T'')"
    by (simp only: run_step_def timer_fires_def exec_segment_def demo_run_1 pc.case option.case)
  from demo_run_next [OF this] show ?thesis by (simp add: executeNode_woken_def numeral_2_eq_2)
qed

lemma demo_run_3: "r_pc (demo_run 3) = Halted"
proof -
  have "run_step (demo_run 2) demo_workflow ''T'' = Some (runWorkflow_outcome (demo_run 2) demo_workflow 0 NCompleted ''T'')"
    by (simp only: run_step_def timer_fires_def exec_segment_def demo_run_2 pc.case option.case)
  from demo_run_next [OF this] show ?thesis
    by (simp add: runWorkflow_outcome_def workflow_loop_def demo_workflow_def run_simps numeral_3_eq_3 numeral_2_eq_2)
qed

lemmas demo_runs = demo_run_0(1) demo_run_1 demo_run_2 demo_run_3

text \<open>The host after the create request, with its run after \<open>n\<close> steps.\<close>

definition demo_host :: "nat \<Rightarrow> mem_host" where
  "demo_host n = set_run (fst (mem_serve demo_cfg (demo_env 0 ''u'') demo_create init_host)) demo_id (demo_run n)"

lemma demo_decide: "mem_idem.decide t demo_key hash (h_idem init_host) = Fresh"
  by (simp add: mem_idem.decide_fresh_iff init_host_def)

lemma demo_serve_create:
  "mem_serve demo_cfg (demo_env 0 u) demo_create init_host =
     mem_createRun demo_cfg (demo_env 0 u) ''w'' (JObj []) (Some ''k'') (stringify demo_body)
       (init_host\<lparr>h_idem := pruneIdempotencyCache 0 (h_idem init_host)\<rparr>)"
proof -
  have "now_ms (demo_env 0 u) = 0" "rq_body demo_create = stringify demo_body"
    by (simp_all add: demo_env_def demo_create_def)
  with demo_decide [unfolded demo_key_def] show ?thesis
    by (simp add: mem_serve_create_decide [OF demo_create_request demo_create_key demo_check] Let_def)
qed

lemma demo_host_run [simp]: "h_runs (demo_host n) demo_id = Some (demo_run n)"
  by (simp add: demo_host_def set_run_def)

lemma demo_host_0: "demo_host 0 = fst (mem_serve demo_cfg (demo_env 0 ''u'') demo_create init_host)"
proof -
  let ?h = "fst (mem_serve demo_cfg (demo_env 0 ''u'') demo_create init_host)"
  have "h_runs ?h demo_id = Some (demo_run 0)"
    by (simp add: demo_serve_create mem_createRun_runs demo_id_def demo_run_def)
  then show ?thesis by (simp add: demo_host_def set_run_def map_upd_triv)
qed

lemma demo_reachable_0: "mem_reachable demo_cfg (demo_host 0)"
proof -
  have "mem_step demo_cfg init_host (ARequest (demo_env 0 ''u'') demo_create) (demo_host 0)"
    unfolding demo_host_0 by (rule mem_step.request) (simp add: init_host_def)
  with mem_reachable_trace [OF mem_reachable_init trace_single] show ?thesis by blast
qed

lemma demo_reachable_Suc:
  assumes "mem_reachable demo_cfg (demo_host n)" and "r_pc (demo_run n) \<noteq> Halted"
  shows "mem_reachable demo_cfg (demo_host (Suc n))"
proof -
  have "r_workflowId (demo_run n) = ''w''"
  proof -
    have "grows (demo_run 0) (demo_run n)"
      by (induction n) (auto simp: demo_run_def run_step_def grows_exec_segment grows_timer_fires
          split: option.split intro: grows_trans)
    with demo_run_0(3) show ?thesis by (simp add: grows_def)
  qed
  then obtain a where "mem_step demo_cfg (demo_host n) a (set_run (demo_host n) demo_id (demo_run (Suc n)))"
    using mem_run_step [OF demo_host_run _ demo_run_Suc [OF assms(2)], of demo_cfg] by auto
  moreover have "set_run (demo_host n) demo_id (demo_run (Suc n)) = demo_host (Suc n)"
    by (simp add: demo_host_def set_run_def)
  ultimately show ?thesis using mem_reachable_trace [OF assms(1) trace_single] by metis
qed

lemma demo_reachable_3: "mem_reachable demo_cfg (demo_host 3)"
proof -
  have "mem_reachable demo_cfg (demo_host 1)"
    using demo_reachable_Suc [OF demo_reachable_0] demo_runs by simp
  then have "mem_reachable demo_cfg (demo_host 2)"
    using demo_reachable_Suc [of 1] demo_runs by (simp add: numeral_2_eq_2)
  then show ?thesis
    using demo_reachable_Suc [of 2] demo_runs by (simp add: numeral_3_eq_3 numeral_2_eq_2)
qed

lemma demo_terminal: "is_terminal (r_status (demo_run 3))"
proof -
  from mem_reachable_run [OF demo_reachable_3 demo_host_run]
  obtain w :: workflow where "run_ok (wf_nodes w) (demo_run 3)" by blast
  with run_ok_terminal_iff demo_run_3 show ?thesis by blast
qed

section \<open>Execution\<close>

text \<open>C1. Whatever requests, timers and executor segments interleave, a run whose status is
  terminal has exactly the event log its workflow prescribes for that status: started, each
  node in order, the failed or interrupted node, and one closing event; it has an end time
  and, when failed, an error.\<close>

theorem terminal_run_has_specified_log:
  assumes "mem_reachable cfg h" and "h_runs h rid = Some r" and "is_terminal (r_status r)"
  shows "\<exists>w. c_workflows cfg (r_workflowId r) = Some w \<and>
    final_log (wf_nodes w) (r_status r) (map ev_shape (r_events r)) \<and>
    r_endedAt r \<noteq> None \<and> (r_status r = Failed \<longrightarrow> r_error r \<noteq> None)"
proof -
  obtain w where w: "c_workflows cfg (r_workflowId r) = Some w" and ok: "run_ok (wf_nodes w) r"
    using mem_reachable_run [OF assms(1,2)] .
  from run_ok_terminal_iff [OF ok] assms(3) have "r_pc r = Halted" by simp
  with ok run_ok_final_log [OF ok assms(3)] w show ?thesis
    by (auto simp: run_ok_def pc_ok_def shapes_def)
qed

lemma terminal_run_has_specified_log_witness:
  "\<exists>w. c_workflows demo_cfg (r_workflowId (demo_run 3)) = Some w \<and>
    final_log (wf_nodes w) (r_status (demo_run 3)) (map ev_shape (r_events (demo_run 3))) \<and>
    r_endedAt (demo_run 3) \<noteq> None"
  using terminal_run_has_specified_log [OF demo_reachable_3 demo_host_run demo_terminal] by blast

text \<open>C2. Nothing is ever lost or rewritten: over any further execution a run keeps its
  identity, workflow, inputs and start time, and its event log only grows; once it is
  terminal, every field but its list of subscribers is final.\<close>

theorem runs_only_grow_and_end_once:
  assumes "mem_reachable cfg h" and "mem_trace cfg h as h'" and "h_runs h rid = Some r"
  shows "\<exists>r' l. h_runs h' rid = Some r' \<and> r_runId r' = rid \<and> r_workflowId r' = r_workflowId r \<and>
    r_inputs r' = r_inputs r \<and> r_startedAt r' = r_startedAt r \<and> r_events r' = r_events r @ l \<and>
    (is_terminal (r_status r) \<longrightarrow> r'\<lparr>r_subs := []\<rparr> = r\<lparr>r_subs := []\<rparr>)"
proof -
  have ok: "host_ok cfg h" using assms(1) by (rule mem_reachable_ok)
  with assms(3) have "r_runId r = rid" by (simp add: host_ok_def run_in_def)
  with mem_sys.trace_run [OF assms(2) ok assms(3)] show ?thesis
    by (auto simp: run_evolves_def grows_def)
qed

lemma runs_only_grow_and_end_once_witness:
  "\<exists>r' l. h_runs (demo_host 3) demo_id = Some r' \<and> r_runId r' = demo_id \<and>
    r_workflowId r' = r_workflowId (demo_run 3) \<and>
    r_inputs r' = r_inputs (demo_run 3) \<and> r_startedAt r' = r_startedAt (demo_run 3) \<and>
    r_events r' = r_events (demo_run 3) @ l \<and> r'\<lparr>r_subs := []\<rparr> = (demo_run 3)\<lparr>r_subs := []\<rparr>"
  using runs_only_grow_and_end_once [OF demo_reachable_3 trace_nil demo_host_run] demo_terminal by simp

text \<open>C3. A run always terminates: in any execution its own executor takes at most three steps
  per node of its workflow, and from every reachable state its own steps alone (its timer and
  its segments) lead it to a terminal status.\<close>

theorem runs_terminate:
  assumes "mem_reachable cfg h" and "h_runs h rid = Some r" and "c_workflows cfg (r_workflowId r) = Some w"
  shows "(\<forall>as h'. mem_trace cfg h as h' \<longrightarrow> length (filter (own_step rid) as) \<le> 3 * length (wf_nodes w)) \<and>
    (\<exists>as h' r'. mem_trace cfg h as h' \<and> list_all (own_step rid) as \<and>
      h_runs h' rid = Some r' \<and> is_terminal (r_status r'))"
proof (intro conjI allI impI)
  note ok = mem_reachable_ok [OF assms(1)]
  fix as h'
  assume "mem_trace cfg h as h'"
  from mem_trace_own_steps [OF this ok assms(2,3)]
  have "length (filter (own_step rid) as) \<le> steps_left (wf_nodes w) r" by auto
  also have "\<dots> \<le> 3 * length (wf_nodes w)" by (auto simp: steps_left_def split: pc.split)
  finally show "length (filter (own_step rid) as) \<le> 3 * length (wf_nodes w)" .
qed (rule mem_run_terminates [OF mem_reachable_ok [OF assms(1)] assms(2,3)])

lemma runs_terminate_witness:
  "\<exists>as h' r'. mem_trace demo_cfg (demo_host 0) as h' \<and> list_all (own_step demo_id) as \<and>
    length (filter (own_step demo_id) as) \<le> 3 * length (wf_nodes demo_workflow) \<and>
    h_runs h' demo_id = Some r' \<and> is_terminal (r_status r')"
proof -
  have "c_workflows demo_cfg (r_workflowId (demo_run 0)) = Some demo_workflow" by (simp add: demo_run_0)
  from runs_terminate [OF demo_reachable_0 demo_host_run this] show ?thesis by metis
qed

section \<open>Cancellation\<close>

lemma mem_serve_cancel:
  assumes "run_request ''POST'' [''cancel''] rid rq" and "authorized (c_api_key cfg) rq"
    and "h_runs h rid = Some r" and "\<not> is_terminal (r_status r)"
  shows "mem_serve cfg en rq h = (set_run h rid (request_cancel r),
    sendJSON 200 (JObj [(''runId'', JStr rid), (''status'', JStr ''cancelling'')]) [])"
proof -
  have "checkAuth (c_api_key cfg) rq = None" using assms(2) by (simp add: checkAuth_None)
  with assms(1,3,4) show ?thesis
    by (simp add: mem_serve_def mem_route_cancel mem_handleCancelRun_def mem_with_run_def)
qed

text \<open>C4. A cancel request for a run that is not terminal is answered 200 with
  status \<^verbatim>\<open>cancelling\<close>, and it is kept: whatever happens afterwards, no further
  node of the run is started and the run never becomes \<^verbatim>\<open>completed\<close>.\<close>

theorem accepted_cancel_is_final:
  assumes "mem_reachable cfg h" and "h_runs h rid = Some r" and "\<not> is_terminal (r_status r)"
    and "run_request ''POST'' [''cancel''] rid rq" and "authorized (c_api_key cfg) rq"
    and "h_runs h (new_run_id en) = None"
  shows "\<exists>h1. mem_serve cfg en rq h =
      (h1, sendJSON 200 (JObj [(''runId'', JStr rid), (''status'', JStr ''cancelling'')]) []) \<and>
    (\<forall>as h2. mem_trace cfg h1 as h2 \<longrightarrow>
      (\<exists>r2 l. h_runs h2 rid = Some r2 \<and> r_events r2 = r_events r @ l \<and>
        NodeStarted \<notin> e_type ` set l \<and> r_status r2 \<noteq> Completed))"
proof -
  let ?h1 = "set_run h rid (request_cancel r)"
  note serve = mem_serve_cancel [OF assms(4,5,2,3), of en]
  have "mem_step cfg h (ARequest en rq) ?h1"
    using mem_step.request [OF assms(6), of cfg rq] serve by simp
  with assms(1) have reach: "mem_reachable cfg ?h1" by (blast intro: mem_reachable_trace trace_single)
  have "\<exists>r2 l. h_runs h2 rid = Some r2 \<and> r_events r2 = r_events r @ l \<and>
      NodeStarted \<notin> e_type ` set l \<and> r_status r2 \<noteq> Completed" if tr: "mem_trace cfg ?h1 as h2" for as h2
  proof -
    obtain r2 where r2: "h_runs h2 rid = Some r2" "run_evolves (request_cancel r) r2"
      using mem_sys.trace_run [OF tr mem_reachable_ok [OF reach], of rid "request_cancel r"]
      by (auto simp: set_run_def)
    obtain w :: workflow where ok: "run_ok (wf_nodes w) r2"
      using mem_reachable_run [OF mem_reachable_trace [OF reach tr] r2(1)] .
    from r2(2) have "r_cancelRequested r2"
      by (auto simp: run_evolves_def grows_def request_cancel_def)
    with ok have "r_status r2 \<noteq> Completed" using run_ok_terminal_iff [OF ok]
      by (auto simp: run_ok_def pc_ok_def)
    with r2 show ?thesis by (auto simp: run_evolves_def grows_def request_cancel_def)
  qed
  with serve show ?thesis by blast
qed

lemma accepted_cancel_is_final_witness:
  "\<exists>h1 r2 l. mem_serve demo_cfg (demo_env 1 ''v'') (demo_request ''POST'' [''cancel''] demo_id) (demo_host 0) =
      (h1, sendJSON 200 (JObj [(''runId'', JStr demo_id), (''status'', JStr ''cancelling'')]) []) \<and>
    h_runs h1 demo_id = Some r2 \<and> r_events r2 = r_events (demo_run 0) @ l \<and>
    NodeStarted \<notin> e_type ` set l \<and> r_status r2 \<noteq> Completed"
proof -
  have "demo_id \<noteq> new_run_id (demo_env 1 ''v'')"
    by (simp add: demo_id_def new_run_id_def demo_env_def)
  then have new: "h_runs (demo_host 0) (new_run_id (demo_env 1 ''v'')) = None"
    by (simp add: demo_host_def set_run_def demo_serve_create mem_createRun_runs demo_id_def [symmetric])
       (simp add: init_host_def)
  have "\<not> is_terminal (r_status (demo_run 0))" by (simp add: demo_run_0)
  moreover have "authorized (c_api_key demo_cfg) (demo_request ''POST'' [''cancel''] demo_id)" by simp
  ultimately obtain h1 where s: "mem_serve demo_cfg (demo_env 1 ''v'') (demo_request ''POST'' [''cancel''] demo_id) (demo_host 0) =
      (h1, sendJSON 200 (JObj [(''runId'', JStr demo_id), (''status'', JStr ''cancelling'')]) [])"
    and all: "\<forall>as h2. mem_trace demo_cfg h1 as h2 \<longrightarrow>
      (\<exists>r2 l. h_runs h2 demo_id = Some r2 \<and> r_events r2 = r_events (demo_run 0) @ l \<and>
        NodeStarted \<notin> e_type ` set l \<and> r_status r2 \<noteq> Completed)"
    using accepted_cancel_is_final [OF demo_reachable_0 demo_host_run _ demo_run_request _ new] by metis
  from all [rule_format, OF trace_nil] obtain r2 l where "h_runs h1 demo_id = Some r2"
    "r_events r2 = r_events (demo_run 0) @ l" "NodeStarted \<notin> e_type ` set l" "r_status r2 \<noteq> Completed" by metis
  with s show ?thesis by (intro exI conjI)
qed

section \<open>Authentication\<close>

text \<open>C5. A request without the host's bearer token changes nothing, whatever its method, path
  and body, and is told nothing: the answer is 401 or 404, the 500 of an invalid URL, or one
  of the two public documents.\<close>

theorem unauthenticated_requests_are_harmless:
  assumes "\<not> authorized (c_api_key cfg) rq"
  shows "\<exists>rep. mem_serve cfg en rq h = (h, rep) \<and>
    (reply_status rep \<in> {401, 404} \<or> rep = sendError 500 ''internal'' ''Invalid URL'' \<or>
     rep = mem_handleDiscovery \<or> rep = mem_handleOpenApi)"
proof (cases "mem_route cfg en rq h")
  case (Inl m)
  define only_url :: "mem_host outcome \<Rightarrow> bool" where "only_url res \<longleftrightarrow> (\<forall>m. res = Inl m \<longrightarrow> m = ''Invalid URL'')" for res
  have ok: "only_url (Inr x)" "only_url (Inl ''Invalid URL'')" for x
    by (simp_all add: only_url_def)
  obtain rep where "check_create (c_api_key cfg) (c_workflows cfg) rq = Rejects rep"
    using check_create_unauthorized [OF assms, of "c_workflows cfg"] by blast
  then have "only_url (mem_handleCreateRun cfg en rq h)" by (simp add: mem_handleCreateRun_def ok)
  then have "only_url (mem_route cfg en rq h)"
    by (rule mem_route_cases [of only_url, OF ok(2) ok(1) ok(1) _ ok(1) ok(1) ok(1) ok(1) ok(1) ok(1)])
  with Inl have "mem_route cfg en rq h = Inl ''Invalid URL''" unfolding only_url_def by metis
  with Inl show ?thesis by (auto simp: mem_serve_def)
next
  case (Inr x)
  with mem_route_unauthorized [OF assms, of h en] show ?thesis
    by (cases x) (auto simp: mem_serve_def harmless_def)
qed

lemma unauthenticated_requests_are_harmless_witness:
  "\<exists>rep. mem_serve demo_cfg (demo_env 0 ''u'') (demo_create\<lparr>rq_headers := Map.empty\<rparr>) init_host = (init_host, rep) \<and>
    (reply_status rep \<in> {401, 404} \<or> rep = sendError 500 ''internal'' ''Invalid URL'' \<or>
     rep = mem_handleDiscovery \<or> rep = mem_handleOpenApi)"
  by (rule unauthenticated_requests_are_harmless) (simp add: authorized_def)

section \<open>Reading the log\<close>

text \<open>Every event stream is faithful at every moment: what it was sent is a subsequence of
  the run's log, in order and without repetition; while it is served, and when the host has
  ended it, it holds every event after its resume point (the whole log when there was none);
  and the host ends it exactly with the run.\<close>

theorem event_streams_are_complete:
  assumes "mem_reachable cfg h" and "h_runs h rid = Some r" and "s \<in> set (r_subs r)"
  shows "subseq (s_out s) (r_events r) \<and>
    (s_listening s \<or> s_ended s \<longrightarrow> events_after (s_after s) (s_out s) = events_after (s_after s) (r_events r)) \<and>
    (s_listening s \<or> s_ended s \<longrightarrow> s_after s = num_of_int (- 1) \<longrightarrow> s_out s = r_events r) \<and>
    (s_ended s \<longrightarrow> is_terminal (r_status r)) \<and> (s_listening s \<longrightarrow> \<not> is_terminal (r_status r))"
proof -
  obtain w :: workflow where ok: "run_ok (wf_nodes w) r" using mem_reachable_run [OF assms(1,2)] .
  note halted = run_ok_terminal_iff [OF ok]
  from ok assms(3) have "sub_ok (r_events r) (r_pc r = Halted) s"
    unfolding run_ok_def subs_ok_def by blast
  from sub_ok_complete [OF this] halted show ?thesis by blast
qed

lemma event_streams_are_complete_witness:
  "let h = fst (mem_serve demo_cfg (demo_env 1 ''v'') (demo_request ''GET'' [''events''] demo_id) (demo_host 3));
       r = the (h_runs h demo_id); s = last (r_subs r)
   in s_ended s \<and> s_out s = r_events r \<and> is_terminal (r_status r)"
proof -
  let ?rq = "demo_request ''GET'' [''events''] demo_id"
  let ?h = "fst (mem_serve demo_cfg (demo_env 1 ''v'') ?rq (demo_host 3))"
  let ?s = "subscribe (num_of_int (- 1)) True (r_events (demo_run 3))"
  let ?r = "(demo_run 3)\<lparr>r_subs := r_subs (demo_run 3) @ [?s]\<rparr>"
  have auth: "checkAuth (c_api_key demo_cfg) ?rq = None" by (simp add: checkAuth_None)
  have "resume_after ?rq = num_of_int (- 1)" by (simp add: resume_after_def demo_request_def)
  then have run: "h_runs ?h demo_id = Some ?r"
    using auth demo_terminal
    by (simp add: mem_serve_def mem_route_sse [OF demo_run_request] mem_handleEventsSse_def mem_with_run_def set_run_def)
  have "demo_id \<noteq> new_run_id (demo_env 1 ''v'')"
    by (simp add: demo_id_def new_run_id_def demo_env_def)
  then have "h_runs (demo_host 3) (new_run_id (demo_env 1 ''v'')) = None"
    by (simp add: demo_host_def set_run_def demo_serve_create mem_createRun_runs demo_id_def [symmetric])
       (simp add: init_host_def)
  with demo_reachable_3 have "mem_reachable demo_cfg ?h" by (rule mem_reachable_request)
  from event_streams_are_complete [OF this run, of ?s] run show ?thesis
    by (simp add: subscribe_def)
qed

text \<open>Two polls, the second with the first's \<^verbatim>\<open>lastEventSeq\<close> as its
  \<^verbatim>\<open>since\<close>, show between them the whole log as it is at the second: nothing is
  lost and nothing repeated, whatever happened in between.\<close>

theorem polling_loses_nothing:
  assumes "mem_reachable cfg h" and "mem_trace cfg h as h'" and "h_runs h rid = Some r" and "h_runs h' rid = Some r'"
  shows "let page1 = events_after (num_of_int (- 1)) (r_events r);
             page2 = events_after (last_seq (num_of_int (- 1)) page1) (r_events r')
         in page1 @ page2 = r_events r'"
proof -
  from mem_sys.trace_run [OF assms(2) mem_reachable_ok [OF assms(1)] assms(3)] assms(4)
  obtain l where l: "r_events r' = r_events r @ l" by (auto simp: run_evolves_def grows_def)
  obtain w :: workflow where "run_ok (wf_nodes w) r"
    using mem_reachable_run [OF assms(1,3)] .
  then have inv: "seqs_ok r" by (simp add: run_ok_def)
  obtain w' :: workflow where "run_ok (wf_nodes w') r'"
    using mem_reachable_run [OF mem_reachable_trace [OF assms(1,2)] assms(4)] .
  then have inv': "seqs_ok r'" by (simp add: run_ok_def)
  have start: "mem_log.resumes_at (num_of_int (- 1)) 0" by (simp add: mem_log.resumes_at_def)
  have "mem_log.resumes_at (last_seq (num_of_int (- 1)) (r_events r)) (length (r_events r))"
    using mem_log.resumes_next [OF conjI [OF inv refl] start] by simp
  from mem_log.page_after [OF conjI [OF inv' refl] this] l show ?thesis by (simp add: Let_def)
qed

lemma polling_loses_nothing_witness:
  "let page1 = events_after (num_of_int (- 1)) (r_events (demo_run 3));
       page2 = events_after (last_seq (num_of_int (- 1)) page1) (r_events (demo_run 3))
   in page1 @ page2 = r_events (demo_run 3)"
  by (rule polling_loses_nothing [OF demo_reachable_3 trace_nil demo_host_run demo_host_run])

text \<open>The poll handler, end to end: asked for the events after \<open>n\<close>, it answers 200 with
  exactly the events numbered \<open>n + 1\<close> and up, the last number it gave, and the run's status.\<close>

theorem poll_answers_the_rest:
  assumes "mem_reachable cfg h" and "h_runs h rid = Some r"
    and "run_request ''GET'' [''events'', ''poll''] rid rq" and "authorized (c_api_key cfg) rq"
    and "map_of (rq_query rq) ''since'' = Some (nat_str n)"
  shows "mem_serve cfg en rq h = (h, sendJSON 200 (JObj [(''runId'', JStr rid),
      (''events'', JArr (map mem_event_json (drop (Suc n) (r_events r)))),
      (''lastEventSeq'', JNum (num_of_nat (if Suc n < length (r_events r) then length (r_events r) - 1 else n))),
      (''runStatus'', JStr (status_str (r_status r))), (''isTerminal'', JBool (is_terminal (r_status r)))]) [])"
proof -
  obtain w :: workflow where "run_ok (wf_nodes w) r" using mem_reachable_run [OF assms(1,2)] .
  then have num: "numbered (r_events r)" using seqs_ok_numbered by (simp add: run_ok_def)
  have since: "since_param rq = num_of_nat n" using assms(5) by (simp add: since_param_def)
  have last: "int (e_seq (last (r_events r))) = int (length (r_events r)) - 1" if "Suc n < length (r_events r)"
  proof -
    from that have "r_events r \<noteq> []" by auto
    with last_numbered [OF num this] that show ?thesis by (simp add: of_nat_diff)
  qed
  have "checkAuth (c_api_key cfg) rq = None" using assms(4) by (simp add: checkAuth_None)
  with assms(2,3) num show ?thesis
    by (auto simp: last mem_serve_def mem_route_poll mem_handleEventsPoll_def mem_with_run_def since
        events_after_nat poll_body_def last_seq_def last_numbered del: nat_gt_num.simps)
qed

lemma poll_answers_the_rest_witness:
  "mem_serve demo_cfg (demo_env 1 ''v'') ((demo_request ''GET'' [''events'', ''poll''] demo_id)
      \<lparr>rq_query := [(''since'', nat_str 1)]\<rparr>) (demo_host 0) =
    (demo_host 0, sendJSON 200 (JObj [(''runId'', JStr demo_id), (''events'', JArr []),
      (''lastEventSeq'', JNum (num_of_nat 1)), (''runStatus'', JStr ''running''), (''isTerminal'', JBool False)]) [])"
proof -
  let ?rq = "(demo_request ''GET'' [''events'', ''poll''] demo_id)\<lparr>rq_query := [(''since'', nat_str 1)]\<rparr>"
  have "run_request ''GET'' [''events'', ''poll''] demo_id ?rq" by (simp add: run_request_def demo_request_def)
  moreover have "authorized (c_api_key demo_cfg) ?rq"
    using demo_authorized(2) [of "''GET''" "[''events'', ''poll'']" demo_id] by (simp add: authorized_def)
  ultimately have "mem_serve demo_cfg (demo_env 1 ''v'') ?rq (demo_host 0) = (demo_host 0, sendJSON 200 (JObj [(''runId'', JStr demo_id),
      (''events'', JArr (map mem_event_json (drop (Suc 1) (r_events (demo_run 0))))),
      (''lastEventSeq'', JNum (num_of_nat (if Suc 1 < length (r_events (demo_run 0)) then length (r_events (demo_run 0)) - 1 else 1))),
      (''runStatus'', JStr (status_str (r_status (demo_run 0)))), (''isTerminal'', JBool (is_terminal (r_status (demo_run 0))))]) [])"
    by (rule poll_answers_the_rest [OF demo_reachable_0 demo_host_run]) simp
  then show ?thesis by (simp add: demo_run_0)
qed

text \<open>The events of a run are numbered 0, 1, 2, ... in the order they were written, and carry
  the run's id, under which the host keeps it.\<close>

theorem events_are_numbered:
  assumes "mem_reachable cfg h" and "h_runs h rid = Some r"
  shows "map e_seq (r_events r) = [0..<length (r_events r)] \<and> (\<forall>e \<in> set (r_events r). e_runId e = rid) \<and>
    r_runId r = rid"
proof -
  obtain w :: workflow where w: "run_ok (wf_nodes w) r" "r_runId r = rid"
    using mem_reachable_run [OF assms] .
  then have "seqs_ok r" by (simp add: run_ok_def)
  with w(2) seqs_ok_numbered show ?thesis
    by (auto simp: numbered_def seqs_ok_def in_set_conv_nth)
qed

lemma events_are_numbered_witness:
  "map e_seq (r_events (demo_run 3)) = [0..<length (r_events (demo_run 3))] \<and>
    list_all (\<lambda>e. e_runId e = demo_id) (r_events (demo_run 3)) \<and> r_runId (demo_run 3) = demo_id"
  using events_are_numbered [OF demo_reachable_3 demo_host_run] by (simp add: list_all_iff)

section \<open>Creating runs\<close>

text \<open>An accepted create request without an idempotency key makes exactly one run, under its
  new id: with the workflow and inputs of the body, its log begun, answered 201 with its id;
  no other run and no cache entry changes.\<close>

theorem create_makes_one_run:
  assumes "create_request rq" and "rq_headers rq ''idempotency-key'' = None"
    and "check_create (c_api_key cfg) (c_workflows cfg) rq = Accepts wid inputs"
  shows "\<exists>r h'. mem_serve cfg en rq h = (h', sendText 201 ''application/json''
      (stringify (JObj [(''runId'', JStr (new_run_id en)), (''status'', JStr ''pending''),
         (''workflowId'', JStr wid), (''startedAt'', JStr (iso en))])) [(''WOP-Idempotent-Replay'', [])]) \<and>
    h' = h\<lparr>h_runs := (h_runs h)(new_run_id en \<mapsto> r)\<rparr> \<and>
    r_runId r = new_run_id en \<and> r_workflowId r = wid \<and> r_inputs r = inputs \<and>
    hd (map ev_shape (r_events r)) = (RunStarted, None) \<and> r_startedAt r = iso en"
proof -
  let ?n = "new_run (new_run_id en) wid inputs (iso en)" and ?r = "created_run cfg en wid inputs"
  obtain w where w: "c_workflows cfg wid = Some w" using assms(3) by (auto simp: check_create_Accepts)
  have "grows ?n ?r" unfolding created_run_def by (rule grows_runWorkflow)
  then have f: "r_runId ?r = new_run_id en" "r_workflowId ?r = wid" "r_inputs ?r = inputs" "r_startedAt ?r = iso en"
    by (simp_all add: grows_def new_run_def)
  have "grows (appendEvent (?n\<lparr>r_status := Running\<rparr>) RunStarted None None (iso en)) ?r"
    using w by (simp add: created_run_def runWorkflow_def new_run_def)
  then have "hd (map ev_shape (r_events ?r)) = (RunStarted, None)"
    by (auto simp: grows_def appendEvent_events new_run_def ev_shape_def)
  moreover have "mem_serve cfg en rq h = mem_createRun cfg en wid inputs None (c_sha256 cfg (rq_body rq)) h"
    using assms by (simp add: mem_serve_def mem_route_create mem_handleCreateRun_def hashBody_def Let_def)
  moreover have "fst (mem_createRun cfg en wid inputs None hash h) = h\<lparr>h_runs := (h_runs h)(new_run_id en \<mapsto> ?r)\<rparr>" for hash
    by (simp add: mem_createRun_def Let_def set_run_def created_run_def)
  moreover have "snd (mem_createRun cfg en wid inputs None hash h) = sendText 201 ''application/json''
      (stringify (created_body (new_run_id en) wid (iso en))) [(''WOP-Idempotent-Replay'', [])]" for hash
    by (simp add: mem_createRun_def Let_def)
  ultimately show ?thesis using f unfolding created_body_def
    by (intro exI [of _ ?r] exI [of _ "h\<lparr>h_runs := (h_runs h)(new_run_id en \<mapsto> ?r)\<rparr>"])
       (metis prod.collapse)
qed

lemma create_makes_one_run_witness:
  "\<exists>r h'. mem_serve demo_cfg (demo_env 0 ''u'') (demo_create\<lparr>rq_headers := [''authorization'' \<mapsto> ''Bearer key'']\<rparr>) init_host =
     (h', sendText 201 ''application/json''
      (stringify (JObj [(''runId'', JStr (new_run_id (demo_env 0 ''u''))), (''status'', JStr ''pending''),
         (''workflowId'', JStr ''w''), (''startedAt'', JStr (iso (demo_env 0 ''u'')))])) [(''WOP-Idempotent-Replay'', [])]) \<and>
    h' = init_host\<lparr>h_runs := (h_runs init_host)(new_run_id (demo_env 0 ''u'') \<mapsto> r)\<rparr> \<and>
    r_runId r = new_run_id (demo_env 0 ''u'') \<and> r_workflowId r = ''w'' \<and> r_inputs r = JObj [] \<and>
    hd (map ev_shape (r_events r)) = (RunStarted, None) \<and> r_startedAt r = iso (demo_env 0 ''u'')"
proof (rule create_makes_one_run)
  let ?rq = "demo_create\<lparr>rq_headers := [''authorization'' \<mapsto> ''Bearer key'']\<rparr>"
  show "create_request ?rq" "rq_headers ?rq ''idempotency-key'' = None"
    by (simp_all add: create_request_def demo_create_def)
  have "checkAuth ''key'' ?rq = checkAuth ''key'' demo_create"
    by (simp add: checkAuth_def demo_create_def)
  moreover have "rq_body ?rq = rq_body demo_create" by simp
  ultimately have "check_create (c_api_key demo_cfg) (c_workflows demo_cfg) ?rq =
      check_create (c_api_key demo_cfg) (c_workflows demo_cfg) demo_create"
    by (simp only: check_create_def demo_cfg_simps(1))
  from this demo_check
  show "check_create (c_api_key demo_cfg) (c_workflows demo_cfg) ?rq = Accepts ''w'' (JObj [])"
    by (rule trans)
qed

text \<open>A create request that is not acceptable is answered, without any effect, 401 without
  the token, 400 for a body that is not JSON or has no string \<^verbatim>\<open>workflowId\<close>, and 404
  for an unknown workflow.\<close>

theorem invalid_creates_are_rejected:
  assumes "create_request rq"
    and "\<not> authorized (c_api_key cfg) rq \<or> json_parse (rq_body rq) = None \<or>
      (\<exists>v. json_parse (rq_body rq) = Some v \<and> v \<noteq> JNull \<and>
         (\<forall>wid. js_prop v ''workflowId'' = Some (JStr wid) \<longrightarrow> c_workflows cfg wid = None))"
  shows "\<exists>rep. mem_serve cfg en rq h = (h, rep) \<and>
    reply_status rep =
      (if \<not> authorized (c_api_key cfg) rq then 401
       else case json_parse (rq_body rq) of
              Some v \<Rightarrow> (case js_prop v ''workflowId'' of Some (JStr wid) \<Rightarrow> 404 | _ \<Rightarrow> 400)
            | None \<Rightarrow> 400)"
proof -
  have "\<exists>rep. check_create (c_api_key cfg) (c_workflows cfg) rq = Rejects rep \<and>
    reply_status rep = (if \<not> authorized (c_api_key cfg) rq then 401
       else case json_parse (rq_body rq) of
              Some v \<Rightarrow> (case js_prop v ''workflowId'' of Some (JStr wid) \<Rightarrow> 404 | _ \<Rightarrow> 400)
            | None \<Rightarrow> 400)"
  proof (cases "authorized (c_api_key cfg) rq")
    case True
    then have "checkAuth (c_api_key cfg) rq = None" by (simp add: checkAuth_None)
    with True assms(2) show ?thesis
      by (auto simp: check_create_def split: option.splits json.splits)
  qed (use check_create_unauthorized in auto)
  with assms(1) show ?thesis
    by (auto simp: mem_serve_def mem_route_create mem_handleCreateRun_def)
qed

lemma invalid_creates_are_rejected_witness:
  "\<exists>rep. mem_serve (demo_cfg\<lparr>c_workflows := Map.empty\<rparr>) (demo_env 0 ''u'') demo_create init_host = (init_host, rep) \<and>
    reply_status rep = 404"
proof -
  have p: "json_parse (rq_body demo_create) = Some demo_body" by (simp add: demo_create_def)
  have a: "authorized (c_api_key (demo_cfg\<lparr>c_workflows := Map.empty\<rparr>)) demo_create"
    by (simp add: demo_cfg_def)
  have b: "js_prop demo_body ''workflowId'' = Some (JStr ''w'')" "demo_body \<noteq> JNull"
    by (simp_all add: demo_body_def)
  from invalid_creates_are_rejected [OF demo_create_request, of "demo_cfg\<lparr>c_workflows := Map.empty\<rparr>"
      "demo_env 0 ''u''" init_host] p a b
  show ?thesis by simp
qed

lemma create_throws:
  "mem_handleCreateRun cfg en rq h = Inl m \<longleftrightarrow>
     authorized (c_api_key cfg) rq \<and> json_parse (rq_body rq) = Some JNull \<and> m = null_workflowId_message"
proof -
  have "mem_handleCreateRun cfg en rq h = Inl m \<longleftrightarrow> check_create (c_api_key cfg) (c_workflows cfg) rq = Throws m"
    by (auto simp: mem_handleCreateRun_def Let_def split: create_check.split option.split)
  then show ?thesis by (simp add: check_create_Throws)
qed

lemma branch_returns:
  "(\<And>x. f x \<noteq> Inl m) \<Longrightarrow> n \<noteq> Inl m \<Longrightarrow> on_match p b f n \<noteq> Inl m"
  "k \<noteq> Inl m \<Longrightarrow> n \<noteq> Inl m \<Longrightarrow> (if c then k else n) \<noteq> Inl m"
  by (simp_all add: on_match_def split: option.split)

text \<open>C7. The in-memory host throws, and so answers 500, in two cases and no other, whatever its
  state: for a request whose URL does not parse, and for a create with the token whose body
  is the JSON text \<^verbatim>\<open>null\<close>, where reading \<^verbatim>\<open>parsed.workflowId\<close> fails. That
  body is not answered as a validation error.\<close>

theorem only_null_bodies_throw:
  "mem_route cfg en rq h = Inl m \<longleftrightarrow>
     rq_path rq = None \<and> m = ''Invalid URL'' \<or>
     create_request rq \<and> authorized (c_api_key cfg) rq \<and> json_parse (rq_body rq) = Some JNull \<and> m = null_workflowId_message"
proof (cases "rq_path rq")
  case None
  then show ?thesis by (auto simp: mem_route_def create_request_def)
next
  case (Some path)
  show ?thesis
  proof (cases "create_request rq")
    case True
    with Some show ?thesis by (simp add: mem_route_create create_throws)
  next
    case False
    then have c: "(rq_method rq = ''POST'' \<and> path = ''/v1/runs'') = False" using Some by (simp add: create_request_def)
    have "mem_route cfg en rq h \<noteq> Inl m"
      unfolding mem_route_def Some option.case Let_def c if_False by (intro branch_returns sum.distinct(2))
    with Some False show ?thesis by simp
  qed
qed

section \<open>Idempotent creation\<close>

text \<open>What a create that made a run has left in the cache.\<close>

lemma fresh_create_entry:
  assumes "create_request rq" and "rq_headers rq ''idempotency-key'' = Some key"
    and "check_create (c_api_key cfg) (c_workflows cfg) rq = Accepts wid inputs"
    and "mem_serve cfg en rq h = (h1, rep)" and "(''WOP-Idempotent-Replay'', ''false'') \<in> set (reply_headers rep)"
  shows "reply_status rep = 201 \<and> h_idem h1 (idem_key cfg key) =
    Some \<lparr>i_status = 201, i_body = reply_body rep, i_contentType = ''application/json'',
          i_bodyHash = c_sha256 cfg (rq_body rq), i_storedAt = now_ms en\<rparr>"
proof -
  note s = mem_serve_create_decide [OF assms(1-3), of en h]
  show ?thesis
  proof (cases "mem_idem.decide (now_ms en) (idem_key cfg key) (c_sha256 cfg (rq_body rq)) (h_idem h)")
    case Fresh
    let ?h1 = "h\<lparr>h_idem := pruneIdempotencyCache (now_ms en) (h_idem h)\<rparr>"
    from s Fresh assms(4) have e: "(h1, rep) = mem_createRun cfg en wid inputs (Some key) (c_sha256 cfg (rq_body rq)) ?h1"
      by (simp add: Let_def)
    have "rep = sendText 201 ''application/json'' (stringify (created_body (new_run_id en) wid (iso en)))
        [(''WOP-Idempotent-Replay'', ''false'')]"
      using e by (simp add: mem_createRun_def Let_def)
    moreover have "h_idem h1 = h_idem (fst (mem_createRun cfg en wid inputs (Some key) (c_sha256 cfg (rq_body rq)) ?h1))"
      using e by (metis fst_conv)
    ultimately show ?thesis by (simp add: mem_createRun_idem idem_key_def)
  next
    case (Replay e)
    with s assms(4,5) show ?thesis by (auto simp: Let_def sendText_def)
  next
    case Conflict
    with s assms(4,5) show ?thesis by (auto simp: Let_def sendError_def sendJSON_def sendText_def)
  qed
qed

text \<open>C8. Creation with an idempotency key happens once: after a create that made a run, a second
  request with the same key, served any time within the 24 hours and after any other traffic,
  makes no run. With the same body it is answered by the first response, byte for byte, marked
  as a replay; with a body of another digest by a 409.\<close>

theorem idempotent_creation:
  assumes "create_request rq" and "rq_headers rq ''idempotency-key'' = Some key"
    and "check_create (c_api_key cfg) (c_workflows cfg) rq = Accepts wid inputs"
    and "mem_serve cfg en rq h = (h1, rep)" and "(''WOP-Idempotent-Replay'', ''false'') \<in> set (reply_headers rep)"
    and "mem_trace cfg h1 as h2" and "list_all (served_by (now_ms en + IDEMPOTENCY_TTL_MS)) as"
    and "create_request rq2" and "rq_headers rq2 ''idempotency-key'' = Some key"
    and "check_create (c_api_key cfg) (c_workflows cfg) rq2 = Accepts wid2 inputs2"
    and "now_ms en2 \<le> now_ms en + IDEMPOTENCY_TTL_MS"
  shows "\<exists>h3 rep2. mem_serve cfg en2 rq2 h2 = (h3, rep2) \<and> h_runs h3 = h_runs h2 \<and>
    (if c_sha256 cfg (rq_body rq2) = c_sha256 cfg (rq_body rq)
     then reply_status rep2 = reply_status rep \<and> reply_body rep2 = reply_body rep \<and>
       (''WOP-Idempotent-Replay'', ''true'') \<in> set (reply_headers rep2)
     else reply_status rep2 = 409)"
proof -
  from fresh_create_entry [OF assms(1-5)]
  obtain e where e: "h_idem h1 (idem_key cfg key) = Some e" "i_status e = reply_status rep" "i_body e = reply_body rep"
    "i_bodyHash e = c_sha256 cfg (rq_body rq)" "i_storedAt e = now_ms en" by auto
  have "mem_idem.decide (now_ms en2) (idem_key cfg key) (c_sha256 cfg (rq_body rq2)) (h_idem h2) =
      (if i_bodyHash e = c_sha256 cfg (rq_body rq2) then Replay e else Conflict)"
    by (rule mem_idem.decide_kept [OF mem_trace_idem [OF assms(6,7)] e(1) _ assms(11)]) (simp_all add: e(5))
  with e show ?thesis
    by (auto simp: mem_serve_create_decide [OF assms(8-10)] Let_def sendText_def)
qed

lemma idempotent_creation_witness:
  "\<exists>h3 rep2. mem_serve demo_cfg (demo_env 1000 ''v'') demo_create (demo_host 0) = (h3, rep2) \<and>
    h_runs h3 = h_runs (demo_host 0) \<and>
    reply_status rep2 = 201 \<and> (''WOP-Idempotent-Replay'', ''true'') \<in> set (reply_headers rep2)"
proof -
  obtain rep where s: "mem_serve demo_cfg (demo_env 0 ''u'') demo_create init_host = (demo_host 0, rep)"
    unfolding demo_host_0 by (metis prod.collapse)
  then have r: "reply_status rep = 201" "(''WOP-Idempotent-Replay'', ''false'') \<in> set (reply_headers rep)"
    unfolding demo_serve_create by (auto simp: mem_createRun_def Let_def sendText_def)
  have "now_ms (demo_env 1000 ''v'') \<le> now_ms (demo_env 0 ''u'') + IDEMPOTENCY_TTL_MS"
    by (simp add: demo_env_def IDEMPOTENCY_TTL_MS_def)
  from idempotent_creation [OF demo_create_request demo_create_key demo_check s r(2) trace_nil _
      demo_create_request demo_create_key demo_check this] r(1)
  show ?thesis by auto
qed

section \<open>The debug bundle\<close>

text \<open>What an observer of a run may not learn: its inputs, and how long its delay is.\<close>

fun erase_pc :: "pc \<Rightarrow> pc" where
  "erase_pc (Sleeping i ms) = Sleeping i (num_of_int 0)"
| "erase_pc p = p"

definition erase :: "run \<Rightarrow> run" where
  "erase r = r\<lparr>r_inputs := JNull, r_pc := erase_pc (r_pc r)\<rparr>"

datatype run_action = DoStep string | DoCancel

fun run_act :: "workflow \<Rightarrow> run_action \<Rightarrow> run \<Rightarrow> run" where
  "run_act w (DoStep t) r = (case run_step r w t of None \<Rightarrow> r | Some r' \<Rightarrow> r')"
| "run_act w DoCancel r = (if is_terminal (r_status r) then r else request_cancel r)"

lemma erase_append: "erase (appendEvent r ty nid d t) = appendEvent (erase r) ty nid d t"
  by (simp add: erase_def appendEvent_def Let_def)

lemma erase_updates:
  "erase (r\<lparr>r_status := s\<rparr>) = (erase r)\<lparr>r_status := s\<rparr>"
  "erase (r\<lparr>r_error := e\<rparr>) = (erase r)\<lparr>r_error := e\<rparr>"
  "erase (r\<lparr>r_endedAt := x\<rparr>) = (erase r)\<lparr>r_endedAt := x\<rparr>"
  "erase (r\<lparr>r_pc := p\<rparr>) = (erase r)\<lparr>r_pc := erase_pc p\<rparr>"
  by (simp_all add: erase_def)

lemma erase_fields:
  "r_status (erase r) = r_status r" "r_events (erase r) = r_events r" "r_error (erase r) = r_error r"
  "r_cancelRequested (erase r) = r_cancelRequested r" "r_aborted (erase r) = r_aborted r"
  "r_pc (erase r) = erase_pc (r_pc r)" "r_workflowId (erase r) = r_workflowId r"
  "r_runId (erase r) = r_runId r" "r_startedAt (erase r) = r_startedAt r" "r_endedAt (erase r) = r_endedAt r"
  by (simp_all add: erase_def)

lemma erase_finish: "erase (finish r st ty d t) = finish (erase r) st ty d t"
  by (simp add: finish_def erase_append erase_updates)

lemma erase_executeNode: "erase r1 = erase r2 \<Longrightarrow> erase (executeNode r1 n i t) = erase (executeNode r2 n i t)"
  using erase_fields(4,5) [of r1] erase_fields(4,5) [of r2]
  by (simp add: executeNode_def Let_def erase_append erase_updates run_simps sleep_def)

lemma erase_workflow_loop: "erase r1 = erase r2 \<Longrightarrow> erase (workflow_loop r1 w i t) = erase (workflow_loop r2 w i t)"
  using erase_fields(4) [of r1] erase_fields(4) [of r2] erase_executeNode [of r1 r2]
  by (simp add: workflow_loop_def erase_finish)

lemma erase_outcome:
  "erase r1 = erase r2 \<Longrightarrow> erase (runWorkflow_outcome r1 w i oc t) = erase (runWorkflow_outcome r2 w i oc t)"
  using erase_fields(3) [of r1] erase_fields(3) [of r2] erase_workflow_loop [of r1 r2]
  by (cases oc) (simp_all add: runWorkflow_outcome_def erase_finish)

lemma erase_runWorkflow:
  assumes "ws wid = Some w"
  shows "erase (runWorkflow ws (new_run rid wid inputs1 t) t) = erase (runWorkflow ws (new_run rid wid inputs2 t) t)"
proof -
  have "runWorkflow ws (new_run rid wid inputs t) t =
      workflow_loop (appendEvent (new_run rid wid inputs t\<lparr>r_status := Running\<rparr>) RunStarted None None t) w 0 t" for inputs
    using assms by (simp add: runWorkflow_def new_run_def)
  moreover have "erase (new_run rid wid inputs1 t) = erase (new_run rid wid inputs2 t)"
    by (simp add: erase_def new_run_def)
  ultimately show ?thesis
    by (simp only: erase_workflow_loop erase_append erase_updates)
qed

lemma erase_eq_fields:
  assumes "erase r1 = erase r2"
  shows "r_runId r1 = r_runId r2" "r_workflowId r1 = r_workflowId r2" "r_status r1 = r_status r2"
    "r_startedAt r1 = r_startedAt r2" "r_endedAt r1 = r_endedAt r2" "r_error r1 = r_error r2"
    "r_events r1 = r_events r2" "erase_pc (r_pc r1) = erase_pc (r_pc r2)"
  using assms by (cases r1; cases r2; simp add: erase_def)+

fun_cases erase_pc_Woken: "erase_pc p = Woken i" and erase_pc_Aborted: "erase_pc p = Aborted i"
  and erase_pc_Outcome: "erase_pc p = Outcome i oc" and erase_pc_Halted: "erase_pc p = Halted"
  and erase_pc_Sleeping: "erase_pc p = Sleeping i ms"

lemma erase_run_step:
  assumes "erase r1 = erase r2"
  shows "map_option erase (run_step r1 w t) = map_option erase (run_step r2 w t)"
proof (cases "r_pc r1")
  case (Sleeping i ms)
  with erase_eq_fields(8) [OF assms] obtain ms' where "r_pc r2 = Sleeping i ms'"
    by (metis erase_pc.simps(1) erase_pc_Sleeping pc.inject(1))
  with Sleeping assms show ?thesis by (simp add: run_step_def timer_fires_def erase_updates)
next
  case (Woken i)
  with erase_eq_fields(8) [OF assms] have "r_pc r2 = Woken i"
    by (metis erase_pc.simps(2) erase_pc_Woken)
  with Woken assms show ?thesis
    by (simp add: run_step_def timer_fires_def exec_segment_def executeNode_woken_def erase_append erase_updates)
next
  case (Aborted i)
  with erase_eq_fields(8) [OF assms] have "r_pc r2 = Aborted i"
    by (metis erase_pc.simps(3) erase_pc_Aborted)
  with Aborted assms show ?thesis
    by (simp add: run_step_def timer_fires_def exec_segment_def executeNode_aborted_def erase_append erase_updates)
next
  case (Outcome i oc)
  with erase_eq_fields(8) [OF assms] have "r_pc r2 = Outcome i oc"
    by (metis erase_pc.simps(4) erase_pc_Outcome)
  with Outcome erase_outcome [OF assms] show ?thesis
    by (simp add: run_step_def timer_fires_def exec_segment_def)
next
  case Halted
  with erase_eq_fields(8) [OF assms] have "r_pc r2 = Halted"
    by (metis erase_pc.simps(5) erase_pc_Halted)
  with Halted show ?thesis by (simp add: run_step_def timer_fires_def exec_segment_def)
qed

lemma erase_run_act:
  assumes "erase r1 = erase r2"
  shows "erase (run_act w a r1) = erase (run_act w a r2)"
proof (cases a)
  case (DoStep t)
  with erase_run_step [OF assms, of w t] assms show ?thesis by (auto split: option.splits)
next
  case DoCancel
  have "erase (request_cancel r) = request_cancel (erase r)" for r
    by (cases "r_pc r") (simp_all add: request_cancel_def erase_def)
  with DoCancel erase_eq_fields(3) [OF assms] assms show ?thesis by simp
qed

lemma erase_fold: "erase x = erase y \<Longrightarrow> erase (fold (run_act w) as x) = erase (fold (run_act w) as y)"
proof (induction as arbitrary: x y)
  case (Cons a as)
  from Cons.IH [OF erase_run_act [OF Cons.prems]] show ?case by simp
qed simp

text \<open>C9. The debug bundle never reveals a run's inputs: two runs of the same workflow that
  differ in their inputs alone, driven by the same steps and cancel requests, have the same
  debug bundle at every point.\<close>

theorem debug_bundle_hides_inputs:
  assumes "c_workflows cfg wid = Some w"
    and "r1 = fold (run_act w) as (runWorkflow (c_workflows cfg) (new_run rid wid inputs1 t) t)"
    and "r2 = fold (run_act w) as (runWorkflow (c_workflows cfg) (new_run rid wid inputs2 t) t)"
  shows "snd (mem_handleDebugBundle cfg en rq rid (h\<lparr>h_runs := (h_runs h)(rid \<mapsto> r1)\<rparr>)) =
    snd (mem_handleDebugBundle cfg en rq rid (h\<lparr>h_runs := (h_runs h)(rid \<mapsto> r2)\<rparr>))"
proof -
  have "erase (runWorkflow (c_workflows cfg) (new_run rid wid inputs1 t) t) =
      erase (runWorkflow (c_workflows cfg) (new_run rid wid inputs2 t) t)"
    using assms(1) by (rule erase_runWorkflow)
  then have "erase r1 = erase r2" unfolding assms(2,3) by (rule erase_fold)
  note same = erase_eq_fields [OF this]
  show ?thesis
    unfolding mem_handleDebugBundle_def mem_with_run_def
    by (cases "checkAuth (c_api_key cfg) rq") (simp_all add: same)
qed

lemma debug_bundle_hides_inputs_witness:
  "snd (mem_handleDebugBundle demo_cfg (demo_env 0 ''u'') demo_create ''r'' (init_host\<lparr>h_runs := (h_runs init_host)
     (''r'' \<mapsto> fold (run_act demo_workflow) [DoStep ''T''] (runWorkflow (c_workflows demo_cfg) (new_run ''r'' ''w'' (JStr ''secret'') ''T'') ''T''))\<rparr>)) =
   snd (mem_handleDebugBundle demo_cfg (demo_env 0 ''u'') demo_create ''r'' (init_host\<lparr>h_runs := (h_runs init_host)
     (''r'' \<mapsto> fold (run_act demo_workflow) [DoStep ''T''] (runWorkflow (c_workflows demo_cfg) (new_run ''r'' ''w'' JNull ''T'') ''T''))\<rparr>))"
  by (rule debug_bundle_hides_inputs [OF demo_cfg_simps(2) refl refl])

end
