(* ===== verification/SqlDemo.thy ===== *)
theory SqlDemo
  imports SqlLaws MemProps
begin

text \<open>
  A concrete SQLite host and some of its histories, run by \<open>sql_run\<close>: one run of a workflow
  with one delay node is created, and then completed, cancelled, or left behind by a process
  that is killed or shut down.
\<close>

definition sdemo_cfg :: sql_config where
  "sdemo_cfg = \<lparr>s_pid = [], s_api_key = ''key'', s_workflows = [''w'' \<mapsto> demo_workflow], s_sha256 = (\<lambda>s. s),
     s_claim_ttl = 30000, s_parse_error = ''SyntaxError''\<rparr>"

definition sdemo_create :: "world_action list" where
  "sdemo_create = [WStart ''p1'' 0 ''T'', WAct (QRequest (demo_env 0 ''u'') demo_create)]"

definition sdemo_end :: "world_action list" where
  "sdemo_end = [WAct (QTimer demo_id), WAct (QSegment demo_id ''T''), WAct (QSegment demo_id ''T'')]"

definition sdemo :: "world_action list \<Rightarrow> sql_world" where
  "sdemo as = the (sql_run sdemo_cfg as (Down empty_db))"

definition sdemo_host :: "world_action list \<Rightarrow> sql_host" where
  "sdemo_host as = (case sdemo as of Up pid h \<Rightarrow> h | Down db \<Rightarrow> new_process db)"

definition sdemo_row :: "world_action list \<Rightarrow> run_row" where
  "sdemo_row as = the (getRun demo_id (world_db (sdemo as)))"

text \<open>A history that can happen, with the run in the database, and the process that is up at its end.\<close>

definition sdemo_runs :: "world_action list \<Rightarrow> string option \<Rightarrow> bool" where
  "sdemo_runs as pid \<longleftrightarrow>
     (case sql_run sdemo_cfg as (Down empty_db) of
        None \<Rightarrow> False
      | Some w \<Rightarrow> \<not> Option.is_none (getRun demo_id (world_db w)) \<and>
          (case w of Up p h \<Rightarrow> pid = Some p | Down db \<Rightarrow> pid = None))"

lemma sdemo_run:
  assumes "sdemo_runs as pid"
  shows "sql_run sdemo_cfg as (Down empty_db) = Some (sdemo as)" "sql_reachable sdemo_cfg (sdemo as)"
    "getRun demo_id (world_db (sdemo as)) = Some (sdemo_row as)"
    "sdemo as = (case pid of Some p \<Rightarrow> Up p (sdemo_host as) | None \<Rightarrow> Down (world_db (sdemo as)))"
proof -
  show r: "sql_run sdemo_cfg as (Down empty_db) = Some (sdemo as)"
    using assms by (simp add: sdemo_runs_def sdemo_def split: option.splits)
  show "sql_reachable sdemo_cfg (sdemo as)" using sql_run_trace [OF r] unfolding sql_reachable_def by blast
  show "getRun demo_id (world_db (sdemo as)) = Some (sdemo_row as)"
    using assms r by (auto simp: sdemo_runs_def sdemo_row_def Option.is_none_def)
  show "sdemo as = (case pid of Some p \<Rightarrow> Up p (sdemo_host as) | None \<Rightarrow> Down (world_db (sdemo as)))"
    using assms r by (auto simp: sdemo_runs_def sdemo_host_def split: sql_world.splits)
qed

lemma sdemo_created: "sdemo_runs sdemo_create (Some ''p1'')"
  by code_simp

lemma sdemo_ended: "sdemo_runs (sdemo_create @ sdemo_end) (Some ''p1'')"
  by code_simp

lemma sdemo_host_reachable: "sql_reachable sdemo_cfg (Up ''p1'' (sdemo_host sdemo_create))"
  using sdemo_run(2,4) [OF sdemo_created] by simp

lemma sql_run_append: "sql_run cfg (as @ bs) w = (case sql_run cfg as w of None \<Rightarrow> None | Some w' \<Rightarrow> sql_run cfg bs w')"
  by (induction as arbitrary: w) (auto split: option.split)

lemma sdemo_trace:
  assumes "sdemo_runs as p" and "sdemo_runs (as @ bs) q"
  shows "sql_trace sdemo_cfg (sdemo as) bs (sdemo (as @ bs))"
  using sdemo_run(1) [OF assms(1)] sdemo_run(1) [OF assms(2)] by (simp add: sql_run_append sql_run_trace)

definition sdemo_cancel :: request where
  "sdemo_cancel = demo_request ''POST'' [''cancel''] demo_id"

text \<open>Histories that end with no process.\<close>

lemma sdemo_crashed: "sdemo_runs (sdemo_create @ [WCrash]) None"
  by code_simp

lemma sdemo_shut: "sdemo_runs (sdemo_create @ [WShutdown]) None"
  by code_simp

lemma sdemo_cancelled: "sdemo_runs (sdemo_create @ [WAct (QRequest (demo_env 1 ''v'') sdemo_cancel), WCrash]) None"
  by code_simp

end
