(* ===== verification/SqlProps.thy ===== *)
theory SqlProps
  imports SqlDemo
begin

text \<open>
  The properties of the SQLite host, over every history of requests, timers, heartbeats,
  crashes between any two statements, shutdowns and restarts. Each has a witness on a
  history of theory \<open>SqlDemo\<close>.
\<close>

section \<open>The log\<close>

lemma sql_db_log:
  assumes "world_ok cfg w"
  shows "keys_ok (world_db w) \<and> parsable (world_db w)"
  using world_ok_db [OF assms] by (simp add: db_ok_def parsable_def)

text \<open>C12. Whatever crashes between any two statements, restarts and interleavings have happened,
  the log of a run in the database is a sequence of sessions, one for each process that
  executed it, all but the first opened by \<^verbatim>\<open>run.resumed\<close>; each is the beginning of a
  log its workflow prescribes, and when the run is terminal the last is complete, for the
  very status the row has.\<close>

theorem sqlite_log_is_sessions:
  assumes "sql_reachable cfg w" and "getRun rid (world_db w) = Some r"
  shows "\<exists>wf ls. s_workflows cfg (q_workflow_id r) = Some wf \<and>
    map ev_shape (sql_log rid (world_db w)) = joined ls \<and> list_all (session_ok (wf_nodes wf)) ls \<and>
    (is_terminal (q_status r) \<longrightarrow> ls \<noteq> [] \<and> final_log (wf_nodes wf) (q_status r) (last ls))"
proof -
  note ok = sql_reachable_ok [OF assms(1)]
  from world_ok_db [OF ok] assms(2) have "run_row_ok (s_workflows cfg) r (shapes_of rid (world_db w))"
    by (simp add: db_ok_def)
  with sql_log_shapes sql_db_log [OF ok] show ?thesis unfolding run_row_ok_def by metis
qed

lemma sqlite_log_is_sessions_witness:
  "let w = sdemo (sdemo_create @ sdemo_end); r = sdemo_row (sdemo_create @ sdemo_end) in
   \<exists>wf ls. s_workflows sdemo_cfg (q_workflow_id r) = Some wf \<and>
    map ev_shape (sql_log demo_id (world_db w)) = joined ls \<and> list_all (session_ok (wf_nodes wf)) ls \<and>
    ls \<noteq> [] \<and> final_log (wf_nodes wf) (q_status r) (last ls)"
proof -
  have "is_terminal (q_status (sdemo_row (sdemo_create @ sdemo_end)))" by code_simp
  with sqlite_log_is_sessions [OF sdemo_run(2,3) [OF sdemo_ended]] show ?thesis unfolding Let_def by blast
qed

text \<open>C13. A run outlives the process: over any further history, with crashes and restarts, its
  row keeps workflow, inputs and start time, its log only grows, and once the run is
  terminal the log is final and so is the row, but for the claim.\<close>

theorem sqlite_runs_survive:
  assumes "sql_reachable cfg w" and "sql_trace cfg w as w'" and "getRun rid (world_db w) = Some r"
  shows "\<exists>r'. getRun rid (world_db w') = Some r' \<and> fixed_cols r' = fixed_cols r \<and>
    prefix (sql_log rid (world_db w)) (sql_log rid (world_db w')) \<and>
    (is_terminal (q_status r) \<longrightarrow>
       sql_log rid (world_db w') = sql_log rid (world_db w) \<and> unclaimed r' = unclaimed r)"
proof -
  note ok = sql_reachable_ok [OF assms(1)]
  note ok' = sql_sys.trace_ok [OF assms(2) ok]
  from sql_sys.trace_run [OF assms(2) ok, of rid "(r, rows_of rid (world_db w))"] assms(3)
  obtain r' where r': "getRun rid (world_db w') = Some r'"
    "row_evolves (r, rows_of rid (world_db w)) (r', rows_of rid (world_db w'))"
    by (auto simp: run_view_def)
  with sql_db_log [OF ok] sql_db_log [OF ok'] show ?thesis
    by (auto simp: row_evolves_def sql_log_rows prefix_def)
qed

lemma sqlite_runs_survive_witness:
  "let w = sdemo sdemo_create; w' = sdemo (sdemo_create @ sdemo_end); r = sdemo_row sdemo_create in
   \<exists>r'. getRun demo_id (world_db w') = Some r' \<and> fixed_cols r' = fixed_cols r \<and>
    prefix (sql_log demo_id (world_db w)) (sql_log demo_id (world_db w'))"
  unfolding Let_def
  using sqlite_runs_survive [OF sdemo_run(2) sdemo_trace sdemo_run(3), OF sdemo_created sdemo_created sdemo_ended sdemo_created]
  by blast

section \<open>Liveness\<close>

text \<open>C14. In a process that stays up, a run with an executor always ends: the executor takes at
  most three steps per node, and its own steps (its timer and its segments) are enough to
  lead the run to a terminal status.\<close>

theorem sqlite_runs_terminate:
  assumes "sql_reachable cfg (Up pid h)" and "g_exec h rid = Some x"
  shows "(\<forall>as w'. sql_acts cfg (Up pid h) as w' \<longrightarrow>
      length (filter (own_act rid) as) \<le> 3 * length (wf_nodes (x_workflow x))) \<and>
    (\<exists>as w' r. sql_acts cfg (Up pid h) as w' \<and> list_all (own_act rid) as \<and>
      getRun rid (world_db w') = Some r \<and> is_terminal (q_status r))"
proof (intro conjI allI impI)
  note ok = sql_reachable_ok [OF assms(1)]
  have row: "getRun rid (g_db h) \<noteq> None"
    using host_inv_exec_row [of "as_process cfg pid" "g_db h" "h\<lparr>g_commits := []\<rparr>" rid] ok assms(2)
    by (auto simp: world_ok_def)
  fix as w'
  assume "sql_acts cfg (Up pid h) as w'"
  from sql_acts_run [OF this ok row] assms(2) have "length (filter (own_act rid) as) \<le> exec_left x"
    by (auto simp: exec_bound_def)
  also have "\<dots> \<le> 3 * length (wf_nodes (x_workflow x))" by (auto simp: exec_left_def Let_def split: pc.split)
  finally show "length (filter (own_act rid) as) \<le> 3 * length (wf_nodes (x_workflow x))" .
qed (use exec_terminates [OF sql_reachable_ok [OF assms(1)]] assms(2) in \<open>simp add: attended_def\<close>)

lemma sdemo_exec: "g_exec (sdemo_host sdemo_create) demo_id \<noteq> None"
proof -
  have "\<not> Option.is_none (g_exec (sdemo_host sdemo_create) demo_id)" by code_simp
  then show ?thesis by (simp add: Option.is_none_def)
qed

lemma sqlite_runs_terminate_witness:
  "\<exists>x as w' r. g_exec (sdemo_host sdemo_create) demo_id = Some x \<and>
    sql_acts sdemo_cfg (Up ''p1'' (sdemo_host sdemo_create)) as w' \<and> list_all (own_act demo_id) as \<and>
    getRun demo_id (world_db w') = Some r \<and> is_terminal (q_status r)"
proof -
  from sdemo_exec obtain x where x: "g_exec (sdemo_host sdemo_create) demo_id = Some x" by auto
  from sqlite_runs_terminate [OF sdemo_host_reachable x] x show ?thesis by blast
qed

text \<open>After a crash, a start of the host recovers every run whose claim is free or has
  expired: whatever point the old process had reached, the new one executes the run again, and
  its own steps lead it to a terminal status.\<close>

theorem restart_recovers:
  assumes "sql_reachable cfg (Down db)" and "getRun rid db = Some r" and "claim_free now r"
  shows "\<exists>as w' r'. sql_trace cfg (Down db) (WStart pid now t # map WAct as) w' \<and> list_all (own_act rid) as \<and>
    getRun rid (world_db w') = Some r' \<and> is_terminal (q_status r')"
  by (rule boot_recovers [OF sql_reachable_ok [OF assms(1)] assms(2,3)])

lemma restart_recovers_witness:
  "\<exists>as w' r'. sql_trace sdemo_cfg (Down (world_db (sdemo (sdemo_create @ [WCrash]))))
      (WStart ''p2'' 40000 ''T'' # map WAct as) w' \<and> list_all (own_act demo_id) as \<and>
    getRun demo_id (world_db w') = Some r' \<and> is_terminal (q_status r')"
proof (rule restart_recovers)
  show "sql_reachable sdemo_cfg (Down (world_db (sdemo (sdemo_create @ [WCrash]))))"
    using sdemo_run(2,4) [OF sdemo_crashed] by simp
  show "getRun demo_id (world_db (sdemo (sdemo_create @ [WCrash]))) = Some (sdemo_row (sdemo_create @ [WCrash]))"
    by (rule sdemo_run(3) [OF sdemo_crashed])
  show "claim_free 40000 (sdemo_row (sdemo_create @ [WCrash]))" by code_simp
qed

text \<open>C15. An orderly restart recovers every run of the process, at once: \<^verbatim>\<open>shutdown\<close> gives the
  claims back, so the next start executes each of its runs again, whenever it comes.\<close>

theorem orderly_restart_recovers:
  assumes "sql_reachable cfg (Up pid h)" and "getRun rid (g_db h) = Some r"
    and "q_claim_holder r = None \<or> q_claim_holder r = Some pid"
  shows "\<exists>as w' r'. sql_trace cfg (Up pid h) (WShutdown # WStart pid2 now t # map WAct as) w' \<and>
    list_all (own_act rid) as \<and> getRun rid (world_db w') = Some r' \<and> is_terminal (q_status r')"
proof -
  note ok = sql_reachable_ok [OF assms(1)]
  let ?db = "shutdown (as_process cfg pid) h"
  let ?r = "if q_claim_holder r = Some pid then r\<lparr>q_claim_holder := None\<rparr> else r"
  have s: "sql_step cfg (Up pid h) WShutdown (Down ?db)" by (rule step_shutdown)
  have ok1: "world_ok cfg (Down ?db)" using sql_step_ok [OF s ok] by simp
  have r1: "getRun rid ?db = Some ?r" using assms(2) by (simp add: shutdown_def sql_simps)
  have free: "claim_free now ?r" using assms(3) by (auto simp: claim_free_def)
  from boot_recovers [OF ok1 r1 free, of pid2 t] obtain as w' r'
    where tr: "sql_trace cfg (Down ?db) (WStart pid2 now t # map WAct as) w'"
      and fin: "list_all (own_act rid) as" "getRun rid (world_db w') = Some r'" "is_terminal (q_status r')" by metis
  from trace_cons [where step = "sql_step cfg", OF s tr] fin show ?thesis
    by (intro exI [of _ as] exI [of _ w'] exI [of _ r']) simp
qed

lemma orderly_restart_recovers_witness:
  "\<exists>as w' r'. sql_trace sdemo_cfg (Up ''p1'' (sdemo_host sdemo_create)) (WShutdown # WStart ''p2'' 1 ''T'' # map WAct as) w' \<and>
    list_all (own_act demo_id) as \<and> getRun demo_id (world_db w') = Some r' \<and> is_terminal (q_status r')"
proof (rule orderly_restart_recovers [OF sdemo_host_reachable])
  show "getRun demo_id (g_db (sdemo_host sdemo_create)) = Some (sdemo_row sdemo_create)"
    using sdemo_run(3,4) [OF sdemo_created] by simp
  show "q_claim_holder (sdemo_row sdemo_create) = None \<or> q_claim_holder (sdemo_row sdemo_create) = Some ''p1''"
    by code_simp
qed

text \<open>C16. A process that is killed holds its claims until they expire, and orphans are looked for
  only at startup: when the host is started again before that, an unfinished run is stranded.
  As long as that process lives it has no executor, no event is added to its log and its
  status does not become terminal, whatever requests, timers and heartbeats follow.\<close>

theorem early_restart_strands:
  assumes "sql_reachable cfg (Down db)" and "getRun rid db = Some r" and "\<not> is_terminal (q_status r)"
    and "\<not> claim_free now r" and "sql_trace cfg (Down db) (WStart pid now t # map WAct as) w'"
  shows "\<exists>h' r'. w' = Up pid h' \<and> g_exec h' rid = None \<and> sql_log rid (g_db h') = sql_log rid db \<and>
    getRun rid (g_db h') = Some r' \<and> \<not> is_terminal (q_status r')"
proof -
  note ok = sql_reachable_ok [OF assms(1)]
  let ?h = "sql_boot (as_process cfg pid) now t db"
  have ok1: "world_ok cfg (Up pid ?h)" by (rule boot_step(2) [OF ok])
  have "keys_ok db" using sql_db_log [OF ok] by simp
  from boot_leaves [OF this assms(2,4)] have a: "agree rid (new_process db) ?h" .
  then have h: "g_exec ?h rid = None" "getRun rid (g_db ?h) = Some r" "rows_of rid (g_db ?h) = rows_of rid db"
    using assms(2) by (simp_all add: agree_def new_process_def)
  then have un: "\<not> attended rid ?h" using assms(3) by (simp add: attended_def)
  from assms(5) have "sql_acts cfg (Up pid ?h) as w'"
    using sql_step_startE [OF _ ok] by (auto simp: trace_Cons_iff)
  from sql_acts_run [OF this ok1, of rid] h un obtain h' where h': "w' = Up pid h'" "getRun rid (g_db h') \<noteq> None"
    "g_exec h' rid = None" "rows_of rid (g_db h') = rows_of rid db" "\<not> attended rid h'" by auto
  with un show ?thesis by (auto simp: sql_log_def attended_def)
qed

lemma early_restart_strands_witness:
  "\<exists>h' r'. Up ''p2'' (sql_boot (as_process sdemo_cfg ''p2'') 5000 ''T'' (world_db (sdemo (sdemo_create @ [WCrash])))) = Up ''p2'' h' \<and>
    g_exec h' demo_id = None \<and> sql_log demo_id (g_db h') = sql_log demo_id (world_db (sdemo (sdemo_create @ [WCrash]))) \<and>
    getRun demo_id (g_db h') = Some r' \<and> \<not> is_terminal (q_status r')"
proof (rule early_restart_strands)
  show reach: "sql_reachable sdemo_cfg (Down (world_db (sdemo (sdemo_create @ [WCrash]))))"
    using sdemo_run(2,4) [OF sdemo_crashed] by simp
  show "getRun demo_id (world_db (sdemo (sdemo_create @ [WCrash]))) = Some (sdemo_row (sdemo_create @ [WCrash]))"
    by (rule sdemo_run(3) [OF sdemo_crashed])
  show "\<not> is_terminal (q_status (sdemo_row (sdemo_create @ [WCrash])))" by code_simp
  show "\<not> claim_free 5000 (sdemo_row (sdemo_create @ [WCrash]))" by code_simp
  show "sql_trace sdemo_cfg (Down (world_db (sdemo (sdemo_create @ [WCrash])))) (WStart ''p2'' 5000 ''T'' # map WAct [])
      (Up ''p2'' (sql_boot (as_process sdemo_cfg ''p2'') 5000 ''T'' (world_db (sdemo (sdemo_create @ [WCrash])))))"
    using boot_step(1) [OF sql_reachable_ok [OF reach]] by (simp add: trace_single)
qed

end
