(* ===== verification/SqlRestart.thy ===== *)
theory SqlRestart
  imports SqlLaws
begin

text \<open>
  What becomes of a run that a start has taken over: its own steps end it, and they end it by
  its workflow alone, completed when the host implements every node and failed otherwise. A
  cancel request that an earlier process had accepted plays no part.
\<close>

section \<open>The steps of an executor that was not cancelled\<close>

lemma uncancelled_append: "uncancelled rid h \<Longrightarrow> uncancelled rid (snd (sql_appendEvent rid ty n d t h))"
  using sql_appendEvent_row [of rid rid ty n d t h] by (simp add: uncancelled_def sql_status_def)

lemma uncancelled_setRunTerminal:
  assumes "uncancelled rid h" and "st \<in> {Completed, Failed}"
  shows "uncancelled rid (setRunTerminal cfg rid st e t h)"
proof -
  from assms(1) obtain r where "getRun rid (g_db h) = Some r" by (auto simp: uncancelled_def sql_status_def)
  then have "sql_status rid (setRunTerminal cfg rid st e t h) = Some st"
    by (simp add: sql_status_def setRunTerminal_def Let_def sql_simps)
  with assms show ?thesis by (auto simp: uncancelled_def setRunTerminal_def Let_def)
qed

lemma uncancelled_fail: "uncancelled rid h \<Longrightarrow> uncancelled rid (snd (fail_internal cfg rid m t h))"
  using uncancelled_append [of rid h RunFailed None _ t]
  by (auto simp: fail_internal_def Let_def then_do_def intro!: uncancelled_setRunTerminal split: prod.split option.split)
     (metis snd_conv)+

lemma uncancelled_try: "uncancelled rid (snd (body h)) \<Longrightarrow> uncancelled rid (snd (sql_try cfg rid t body h))"
proof -
  have drop: "uncancelled rid h1 \<Longrightarrow> uncancelled rid (drop_exec rid h1)" for h1
    by (simp add: uncancelled_def sql_status_def drop_exec_def)
  assume "uncancelled rid (snd (body h))"
  with drop uncancelled_fail [of rid "snd (body h)" cfg _ t] show ?thesis
    by (cases "body h") (auto simp: sql_try_def split: option.split prod.split, (metis snd_conv)+)
qed

lemma uncancelled_catch: "uncancelled rid (snd res) \<Longrightarrow> uncancelled rid (sql_catch cfg rid t res)"
proof (cases res)
  case (Pair r h)
  assume "uncancelled rid (snd res)"
  with Pair have d: "uncancelled rid (snd (fail_internal cfg rid m t h))" for m by (simp add: uncancelled_fail)
  have "uncancelled rid (h1\<lparr>g_crashed := True\<rparr>) = uncancelled rid h1" for h1
    by (simp add: uncancelled_def sql_status_def)
  with d Pair \<open>uncancelled rid (snd res)\<close> show ?thesis
    by (auto simp: sql_catch_def split: option.split prod.split) (metis snd_conv)+
qed

lemma uncancelled_segment:
  assumes "host_inv cfg db0 h" and "uncancelled rid h" and "sql_segment cfg rid t h = Some h'"
  shows "uncancelled rid h'"
proof -
  from assms(3) obtain x where x: "g_exec h rid = Some x" by (auto simp: sql_segment_def split: option.splits)
  from host_inv_exec [OF assms(1) x] assms(2) x have run: "running rid h" and pc: "pc_flag (x_pc x) False"
    by (auto simp: exec_ok_def owned_def uncancelled_def running_def sql_status_def)
  have app: "uncancelled rid (snd (then_do (sql_appendEvent rid ty n d t) (\<lambda>h. (None, set_pc rid p h)) h))" for ty n d p
    by (intro running_then running_append run) (simp add: running_uncancelled running_set_pc)
  have out: "uncancelled rid (snd (sql_outcome cfg rid x i oc t h))" if "x_pc x = Outcome i oc" for i oc
    using that pc run
    by (cases oc) (auto simp: pc_flag_def sql_outcome_def intro!: uncancelled_loop uncancelled_finish)
  from assms(3) x pc show ?thesis
    by (auto simp: sql_segment_def Let_def pc_flag_def split: pc.splits
        intro!: uncancelled_catch uncancelled_try app out)
qed

lemma uncancelled_own:
  assumes "host_inv cfg db0 h" and "uncancelled rid h" and "sql_act cfg h a h'" and "own_act rid a"
  shows "uncancelled rid h'"
  using assms(3)
proof cases
  case (act_segment rid' t)
  with assms show ?thesis by (auto intro: uncancelled_segment)
next
  case (act_timer rid')
  with assms show ?thesis by (auto simp: sql_timer_def uncancelled_set_pc split: option.splits pc.splits)
qed (use assms(4) in simp_all)

lemma uncancelled_acts:
  assumes "sql_acts cfg (Up pid h) as w'" and "world_ok cfg (Up pid h)" and "list_all (own_act rid) as" and "uncancelled rid h"
  shows "\<exists>h'. w' = Up pid h' \<and> world_ok cfg w' \<and> uncancelled rid h'"
  using assms
proof (induction as arbitrary: h)
  case (Cons a as)
  from Cons.prems(1) obtain w1 where s: "sql_step cfg (Up pid h) (WAct a) w1" "sql_acts cfg w1 as w'"
    by (auto simp: trace_Cons_iff)
  obtain h1 where h1: "w1 = Up pid h1" "sql_act (as_process cfg pid) (h\<lparr>g_commits := []\<rparr>) a h1"
    using world_act [OF s(1) Cons.prems(2)] by blast
  have "host_inv (as_process cfg pid) (g_db h) (h\<lparr>g_commits := []\<rparr>)" using Cons.prems(2) by (simp add: world_ok_def)
  moreover have "uncancelled rid (h\<lparr>g_commits := []\<rparr>)"
    using Cons.prems(4) by (simp add: uncancelled_def sql_status_def)
  ultimately have "uncancelled rid h1" using uncancelled_own [OF _ _ h1(2)] Cons.prems(3) by simp
  moreover have "world_ok cfg (Up pid h1)" using sql_step_ok [OF s(1) Cons.prems(2)] h1(1) by simp
  ultimately show ?case using Cons.IH s(2) h1(1) Cons.prems(3) by simp
qed auto

section \<open>How a run that was taken over ends\<close>

text \<open>The status a workflow comes to when nobody cancels it.\<close>

definition natural_end :: "node list \<Rightarrow> run_status" where
  "natural_end ns = (if list_all supported ns then Completed else Failed)"

lemma final_natural:
  "final_log ns st l \<Longrightarrow> st \<in> {Completed, Failed} \<Longrightarrow> st = natural_end ns"
  by (auto simp: final_log_def completed_log_def failed_log_def natural_end_def all_supported_def list_all_length)

lemma uncancelled_ends:
  assumes "world_ok cfg (Up pid h)" and "attended rid h" and "uncancelled rid h"
  shows "\<exists>as w' r wf. sql_acts cfg (Up pid h) as w' \<and> list_all (own_act rid) as \<and> getRun rid (world_db w') = Some r \<and>
    s_workflows cfg (q_workflow_id r) = Some wf \<and> q_status r = natural_end (wf_nodes wf)"
proof -
  from exec_terminates [OF assms(1,2)] obtain as w' r where as: "sql_acts cfg (Up pid h) as w'" "list_all (own_act rid) as"
    "getRun rid (world_db w') = Some r" "is_terminal (q_status r)" by blast
  from uncancelled_acts [OF as(1) assms(1) as(2) assms(3)] obtain h' where h': "w' = Up pid h'" "world_ok cfg w'"
    "uncancelled rid h'" by blast
  with as have st: "q_status r \<in> {Completed, Failed}" by (auto simp: uncancelled_def sql_status_def)
  have "db_ok (s_workflows cfg) (world_db w')" using world_ok_db [OF h'(2)] .
  from db_ok_run [OF this as(3)] as(4) obtain wf ls where "s_workflows cfg (q_workflow_id r) = Some wf"
    "final_log (wf_nodes wf) (q_status r) (last ls)" unfolding run_row_ok_def by metis
  with final_natural [OF _ st] as show ?thesis by blast
qed

lemma boot_runs_on:
  assumes "world_ok cfg (Down db)" and "getRun rid db = Some r" and "claimable now r"
  shows "\<exists>as w' r' wf. sql_acts cfg (Up pid (sql_boot (as_process cfg pid) now t db)) as w' \<and> list_all (own_act rid) as \<and>
    getRun rid (world_db w') = Some r' \<and> s_workflows cfg (q_workflow_id r) = Some wf \<and>
    q_status r' = natural_end (wf_nodes wf)"
proof -
  have db: "db_ok (s_workflows (as_process cfg pid)) db" using assms(1) by (simp add: world_ok_def)
  note up = boot_step(2) [OF assms(1), of pid now t]
  have "claim_free now r" using assms(3) by (simp add: claimable_def)
  from uncancelled_ends [OF up boot_attends [OF db assms(2) this] boot_uncancels [OF db assms(2,3)]]
  obtain as w' r' wf where as: "sql_acts cfg (Up pid (sql_boot (as_process cfg pid) now t db)) as w'" "list_all (own_act rid) as"
    "getRun rid (world_db w') = Some r'" "s_workflows cfg (q_workflow_id r') = Some wf" "q_status r' = natural_end (wf_nodes wf)"
    by blast
  from trace_cons [where step = "sql_step cfg", OF boot_step(1) [OF assms(1)] as(1)]
  have "sql_trace cfg (Down db) (WStart pid now t # map WAct as) w'" .
  from sql_sys.trace_run [OF this assms(1), of rid "(r, rows_of rid db)"] assms(2) as(3)
  have "q_workflow_id r' = q_workflow_id r" by (auto simp: run_view_def row_evolves_def fixed_cols_def)
  with as show ?thesis by metis
qed

end
