(* ===== verification/SqlHttpProps.thy ===== *)
theory SqlHttpProps
  imports SqlDemo SqlRestart
begin

text \<open>
  The properties of the SQLite host's requests: what a cancel is worth over a restart, polls,
  idempotent creation, claims, and which requests make a handler throw.
\<close>

section \<open>Cancellation and restarts\<close>

text \<open>C17. A restart forgets a cancel. Take a run whose cancel request was accepted and which the
  dead process had not yet cancelled, and a start at a time when the run's claim is free or has
  expired (an earlier start strands the run). Whatever the run's own steps in the new process are,
  its status is \<^verbatim>\<open>running\<close>, \<^verbatim>\<open>completed\<close> or \<^verbatim>\<open>failed\<close> and its abort signal is not set;
  and these steps lead it to its end as if the request had never been made:
  \<^verbatim>\<open>completed\<close> when every node of its workflow is supported, \<^verbatim>\<open>failed\<close> otherwise.\<close>

theorem restart_forgets_cancel:
  assumes "sql_reachable cfg (Down db)" and "getRun rid db = Some r" and "q_status r = Cancelling"
    and "claim_free now r"
  shows "(\<forall>as w. sql_trace cfg (Down db) (WStart pid now t # map WAct as) w \<longrightarrow> list_all (own_act rid) as \<longrightarrow>
      (\<exists>h st. w = Up pid h \<and> sql_status rid h = Some st \<and> (st = Running \<or> st = Completed \<or> st = Failed) \<and>
        (case g_exec h rid of None \<Rightarrow> True | Some x \<Rightarrow> \<not> x_aborted x))) \<and>
    (\<exists>as w r' wf. sql_trace cfg (Down db) (WStart pid now t # map WAct as) w \<and> list_all (own_act rid) as \<and>
      getRun rid (world_db w) = Some r' \<and> s_workflows cfg (q_workflow_id r) = Some wf \<and>
      q_status r' = (if list_all supported (wf_nodes wf) then Completed else Failed))"
proof (intro conjI allI impI)
  note ok = sql_reachable_ok [OF assms(1)]
  have can: "claimable now r" using assms(3,4) by (simp add: claimable_def)
  have db: "db_ok (s_workflows (as_process cfg pid)) db" using ok by (simp add: world_ok_def)
  let ?h = "sql_boot (as_process cfg pid) now t db"
  show "\<exists>h st. w = Up pid h \<and> sql_status rid h = Some st \<and> (st = Running \<or> st = Completed \<or> st = Failed) \<and>
      (case g_exec h rid of None \<Rightarrow> True | Some x \<Rightarrow> \<not> x_aborted x)"
    if tr: "sql_trace cfg (Down db) (WStart pid now t # map WAct as) w" and own: "list_all (own_act rid) as" for as w
  proof -
    from tr sql_step_startE [OF _ ok] have "sql_acts cfg (Up pid ?h) as w" by (auto simp: trace_Cons_iff)
    from uncancelled_acts [OF this boot_step(2) [OF ok] own boot_uncancels [OF db assms(2) can]]
    show ?thesis by (auto simp: uncancelled_def split: option.split)
  qed
  from boot_runs_on [OF ok assms(2) can, of pid t] trace_cons [where step = "sql_step cfg", OF boot_step(1) [OF ok]]
  show "\<exists>as w r' wf. sql_trace cfg (Down db) (WStart pid now t # map WAct as) w \<and> list_all (own_act rid) as \<and>
      getRun rid (world_db w) = Some r' \<and> s_workflows cfg (q_workflow_id r) = Some wf \<and>
      q_status r' = (if list_all supported (wf_nodes wf) then Completed else Failed)"
    unfolding natural_end_def by blast
qed

lemma restart_forgets_cancel_witness:
  "let as = sdemo_create @ [WAct (QRequest (demo_env 1 ''v'') sdemo_cancel), WCrash] in
   \<exists>bs w r. sql_trace sdemo_cfg (Down (world_db (sdemo as))) (WStart ''p2'' 40000 ''T'' # map WAct bs) w \<and>
     list_all (own_act demo_id) bs \<and> getRun demo_id (world_db w) = Some r \<and> q_status r = Completed"
proof -
  let ?as = "sdemo_create @ [WAct (QRequest (demo_env 1 ''v'') sdemo_cancel), WCrash]"
  have st: "q_status (sdemo_row ?as) = Cancelling" by code_simp
  have free: "claim_free 40000 (sdemo_row ?as)" by code_simp
  have reach: "sql_reachable sdemo_cfg (Down (world_db (sdemo ?as)))"
    using sdemo_run(2,4) [OF sdemo_cancelled] by simp
  note forgets = restart_forgets_cancel [OF reach sdemo_run(3) [OF sdemo_cancelled] st free, where pid = "''p2''" and t = "''T''"]
  obtain bs w r' wf where w: "sql_trace sdemo_cfg (Down (world_db (sdemo ?as))) (WStart ''p2'' 40000 ''T'' # map WAct bs) w"
    "list_all (own_act demo_id) bs" "getRun demo_id (world_db w) = Some r'"
    "s_workflows sdemo_cfg (q_workflow_id (sdemo_row ?as)) = Some wf"
    "q_status r' = (if list_all supported (wf_nodes wf) then Completed else Failed)"
    using conjunct2 [OF forgets] by (elim exE conjE)
  have "q_workflow_id (sdemo_row ?as) = ''w''" by code_simp
  with w(4) have "wf = demo_workflow" by (simp add: sdemo_cfg_def)
  moreover have "list_all supported (wf_nodes demo_workflow)" by code_simp
  ultimately have "q_status r' = Completed" using w(5) by simp
  with w(1-3) show ?thesis unfolding Let_def by (intro exI conjI)
qed

section \<open>Polling\<close>

text \<open>Polls lose nothing over crashes and restarts: a client that resumes with the last number
  it has seen gets, from whatever process answers then, exactly the events it is missing.\<close>

theorem sqlite_polling_loses_nothing:
  assumes "sql_reachable cfg w" and "sql_trace cfg w as w'" and "getRun rid (world_db w) = Some r"
  shows "let page1 = sql_read_after rid (world_db w) (num_of_int (- 1));
             page2 = sql_read_after rid (world_db w') (last_seq (num_of_int (- 1)) page1)
         in page1 @ page2 = sql_log rid (world_db w')"
proof -
  have reach: "sql_reachable cfg w'"
    using assms(1,2) trace_append unfolding sql_reachable_def by metis
  have inv: "log_inv rid (world_db w)" using assms by (intro sql_log_inv) auto
  from sql_sys.trace_run [OF assms(2) sql_reachable_ok [OF assms(1)], of rid "(r, rows_of rid (world_db w))"] assms(3)
  obtain r' where r': "getRun rid (world_db w') = Some r'" "prefix (rows_of rid (world_db w)) (rows_of rid (world_db w'))"
    by (auto simp: run_view_def row_evolves_def)
  have inv': "log_inv rid (world_db w')" using reach r'(1) by (intro sql_log_inv) auto
  obtain m where m: "sql_log rid (world_db w') = sql_log rid (world_db w) @ m"
    using r'(2) inv inv' by (auto simp: prefix_def log_inv_def sql_log_rows)
  have start: "sql_log.resumes_at (num_of_int (- 1)) 0" by (simp add: sql_log.resumes_at_def)
  note page1 = sql_log.page_after [OF inv start]
  have "sql_log.resumes_at (last_seq (num_of_int (- 1)) (sql_log rid (world_db w))) (length (sql_log rid (world_db w)))"
    using sql_log.resumes_next [OF inv start] by simp
  from sql_log.page_after [OF inv' this] m page1 show ?thesis by (simp add: Let_def)
qed

lemma sqlite_polling_loses_nothing_witness:
  "let page1 = sql_read_after demo_id (world_db (sdemo sdemo_create)) (num_of_int (- 1));
       page2 = sql_read_after demo_id (world_db (sdemo (sdemo_create @ sdemo_end))) (last_seq (num_of_int (- 1)) page1)
   in page1 @ page2 = sql_log demo_id (world_db (sdemo (sdemo_create @ sdemo_end)))"
  by (rule sqlite_polling_loses_nothing [OF sdemo_run(2) sdemo_trace sdemo_run(3),
        OF sdemo_created sdemo_created sdemo_ended sdemo_created])

text \<open>The poll handler of the SQLite host, end to end: asked for the events after \<open>n\<close>, it
  answers 200 with exactly the events of the log numbered \<open>n + 1\<close> and up, the last number it
  gave, and the status of the row; the database stays as it is.\<close>

theorem sqlite_poll_answers_the_rest:
  assumes "sql_reachable cfg (Up pid h)" and "getRun rid (g_db h) = Some r"
    and "run_request ''GET'' [''events'', ''poll''] rid rq" and "authorized (s_api_key cfg) rq"
    and "map_of (rq_query rq) ''since'' = Some (nat_str n)"
  shows "sql_serve cfg en rq h = (sendJSON 200 (JObj [(''runId'', JStr rid),
      (''events'', JArr (map sql_event_json (drop (Suc n) (sql_log rid (g_db h))))),
      (''lastEventSeq'', JNum (num_of_nat (if Suc n < length (sql_log rid (g_db h)) then length (sql_log rid (g_db h)) - 1 else n))),
      (''runStatus'', JStr (status_str (q_status r))), (''isTerminal'', JBool (is_terminal (q_status r)))]) [], h)"
proof -
  have inv: "log_inv rid (g_db h)" using sql_log_inv [OF assms(1), of rid] assms(2) by simp
  note num = sql_log.inv_numbered [OF inv]
  have since: "since_param rq = num_of_nat n" using assms(5) by (simp add: since_param_def)
  have last: "int (e_seq (last (sql_log rid (g_db h)))) = int (length (sql_log rid (g_db h))) - 1"
    if "Suc n < length (sql_log rid (g_db h))"
  proof -
    from that have "sql_log rid (g_db h) \<noteq> []" by auto
    with last_numbered [OF num this] that show ?thesis by (simp add: of_nat_diff)
  qed
  have page: "events_of_rows (getEventsAfter rid (num_of_nat n) (g_db h)) = Some (drop (Suc n) (sql_log rid (g_db h)))"
    using sql_page [OF assms(1,2)] num by (simp add: events_after_nat)
  have "sql_route cfg en rq h = sql_handleEventsPoll cfg rq rid h"
    using assms(3) by (simp add: run_request_def sql_route_def patterns_path_of)
  moreover have "checkAuth (s_api_key cfg) rq = None" using assms(4) by (simp add: checkAuth_None)
  ultimately show ?thesis
    using assms(2) num page
    by (auto simp: last sql_serve_def sql_handleEventsPoll_def sql_with_run_def since
        poll_body_def last_seq_def last_numbered Let_def del: nat_gt_num.simps)
qed

lemma sqlite_poll_answers_the_rest_witness:
  "let rq = (demo_request ''GET'' [''events'', ''poll''] demo_id)\<lparr>rq_query := [(''since'', nat_str 0)]\<rparr>;
       h = sdemo_host sdemo_create; log = sql_log demo_id (g_db h)
   in sql_serve sdemo_cfg (demo_env 1 ''v'') rq h = (sendJSON 200 (JObj [(''runId'', JStr demo_id),
      (''events'', JArr (map sql_event_json (drop (Suc 0) log))),
      (''lastEventSeq'', JNum (num_of_nat (if Suc 0 < length log then length log - 1 else 0))),
      (''runStatus'', JStr (status_str (q_status (sdemo_row sdemo_create)))),
      (''isTerminal'', JBool (is_terminal (q_status (sdemo_row sdemo_create))))]) [], h)"
  unfolding Let_def
proof (rule sqlite_poll_answers_the_rest [OF sdemo_host_reachable])
  show "getRun demo_id (g_db (sdemo_host sdemo_create)) = Some (sdemo_row sdemo_create)"
    using sdemo_run(3,4) [OF sdemo_created] by simp
  show "authorized (s_api_key sdemo_cfg) ((demo_request ''GET'' [''events'', ''poll''] demo_id)\<lparr>rq_query := [(''since'', nat_str 0)]\<rparr>)"
    using demo_authorized(2) [of "''GET''" "[''events'', ''poll'']" demo_id] by (simp add: authorized_def sdemo_cfg_def)
qed (simp_all add: run_request_def demo_request_def)

section \<open>Idempotent creation\<close>

text \<open>What a create that made a run has left in the table.\<close>

lemma sql_fresh_create_entry:
  assumes "create_request rq" and "rq_headers rq ''idempotency-key'' = Some key"
    and "check_create (s_api_key cfg) (s_workflows cfg) rq = Accepts wid inputs"
    and "sql_serve cfg en rq h = (rep, h1)" and "(''WOP-Idempotent-Replay'', ''false'') \<in> set (reply_headers rep)"
  shows "reply_status rep = 201 \<and> getIdempotency (sql_idem_key cfg key) (t_idem (g_db h1)) =
    Some \<lparr>d_status = 201, d_body = reply_body rep, d_body_hash = s_sha256 cfg (rq_body rq), d_stored_at = now_ms en\<rparr>"
proof -
  note s = sql_serve_create_decide [OF assms(1-3), of en h]
  let ?h1 = "commit ((g_db h)\<lparr>t_idem := pruneIdempotency (now_ms en) (t_idem (g_db h))\<rparr>) h"
  show ?thesis
  proof (cases "sql_idem.decide (now_ms en) (sql_idem_key cfg key) (s_sha256 cfg (rq_body rq)) (t_idem (g_db h))")
    case Fresh
    then have fresh: "getIdempotency (sql_idem_key cfg key) (t_idem (g_db ?h1)) = None"
      by (auto simp: sql_idem.decide_def split: option.splits if_splits)
    let ?c = "sql_createRun cfg en wid inputs (Some key) (s_sha256 cfg (rq_body rq)) ?h1"
    have e: "(rep, h1) = as_reply ?c" using s Fresh assms(4) by (simp add: Let_def)
    have no500: "(''WOP-Idempotent-Replay'', ''false'') \<notin> set (reply_headers (sendError 500 ''internal'' m))" for m
      by (simp add: sendError_def sendJSON_def sendText_def)
    then have "fst ?c \<noteq> Inl m" for m
      using e assms(5) by (auto simp: as_reply_def split: prod.splits sum.splits)
    then obtain db where db: "insertRun (new_run_id en) wid Pending (stringify inputs) (iso en) (g_db ?h1) = Inr db"
      by (cases "insertRun (new_run_id en) wid Pending (stringify inputs) (iso en) (g_db ?h1)")
         (auto simp: sql_createRun_def Let_def)
    then have idem: "t_idem db = t_idem (g_db ?h1)" by (auto simp: insertRun_def split: if_splits)
    let ?e = "\<lparr>d_status = 201, d_body = stringify (created_body (new_run_id en) wid (iso en)),
      d_body_hash = s_sha256 cfg (rq_body rq), d_stored_at = now_ms en\<rparr>"
    have ins: "insertIdempotency (sql_idem_key cfg key) ?e (t_idem db) = Inr (t_idem db @ [(sql_idem_key cfg key, ?e)])"
      using fresh idem by (simp add: insertIdempotency_def getIdempotency_def)
    let ?h2 = "commit (db\<lparr>t_idem := t_idem db @ [(sql_idem_key cfg key, ?e)]\<rparr>) (commit db ?h1)"
    have c: "?c = (Inr (sendText 201 ''application/json'' (stringify (created_body (new_run_id en) wid (iso en)))
        [(''WOP-Idempotent-Replay'', ''false'')]), resume_one cfg (now_ms en) (iso en) (new_run_id en) ?h2)"
      using db ins by (simp add: sql_createRun_def Let_def sql_idem_key_def)
    have "t_idem (g_db (resume_one cfg (now_ms en) (iso en) (new_run_id en) ?h2)) = t_idem (g_db ?h2)"
      using idem_table.R_resume_one [of ?h2 cfg "now_ms en" "iso en" "new_run_id en"] by (simp add: idem_kept_def)
    with e c fresh idem show ?thesis
      by (simp add: as_reply_def sendText_def getIdempotency_def map_add_def)
  next
    case (Replay e)
    with s assms(4,5) show ?thesis by (auto simp: Let_def sendText_def)
  next
    case Conflict
    with s assms(4,5) show ?thesis by (auto simp: Let_def sendError_def sendJSON_def sendText_def)
  qed
qed

text \<open>C18. Idempotent creation holds over crashes and restarts once the first create has been
  answered: after a create that made a run and was answered, a second request with the same key,
  served within the 24 hours by whatever process is up then, makes no run and inserts no row.
  With the same body it is answered by the first response, byte for byte, marked as a replay;
  with a body of another digest by a 409. A crash during the first create is another matter:
  \<open>crash_forgets_the_key\<close>.\<close>

theorem sqlite_idempotent_creation:
  assumes "create_request rq" and "rq_headers rq ''idempotency-key'' = Some key"
    and "check_create (s_api_key cfg) (s_workflows cfg) rq = Accepts wid inputs"
    and "sql_reachable cfg (Up pid h1)" and "sql_serve (as_process cfg pid) en rq h = (rep, h1)"
    and "(''WOP-Idempotent-Replay'', ''false'') \<in> set (reply_headers rep)"
    and "sql_trace cfg (Up pid h1) as (Up pid2 h2)" and "list_all (sql_served_by (now_ms en + IDEMPOTENCY_TTL_MS)) as"
    and "create_request rq2" and "rq_headers rq2 ''idempotency-key'' = Some key"
    and "check_create (s_api_key cfg) (s_workflows cfg) rq2 = Accepts wid2 inputs2"
    and "now_ms en2 \<le> now_ms en + IDEMPOTENCY_TTL_MS"
  shows "\<exists>h3 rep2. sql_serve (as_process cfg pid2) en2 rq2 h2 = (rep2, h3) \<and>
    t_runs (g_db h3) = t_runs (g_db h2) \<and> t_events (g_db h3) = t_events (g_db h2) \<and>
    (if s_sha256 cfg (rq_body rq2) = s_sha256 cfg (rq_body rq)
     then reply_status rep2 = reply_status rep \<and> reply_body rep2 = reply_body rep \<and>
       (''WOP-Idempotent-Replay'', ''true'') \<in> set (reply_headers rep2)
     else reply_status rep2 = 409)"
proof -
  have key: "sql_idem_key (as_process cfg p) key = sql_idem_key cfg key" for p by (simp add: sql_idem_key_def)
  have c1: "check_create (s_api_key (as_process cfg pid)) (s_workflows (as_process cfg pid)) rq = Accepts wid inputs"
    and c2: "check_create (s_api_key (as_process cfg pid2)) (s_workflows (as_process cfg pid2)) rq2 = Accepts wid2 inputs2"
    using assms(3,11) by simp_all
  let ?e = "\<lparr>d_status = 201, d_body = reply_body rep, d_body_hash = s_sha256 cfg (rq_body rq), d_stored_at = now_ms en\<rparr>"
  have e: "reply_status rep = 201" "getIdempotency (sql_idem_key cfg key) (t_idem (g_db h1)) = Some ?e"
    using sql_fresh_create_entry [OF assms(1,2) c1 assms(5,6)] by (simp_all add: key)
  have rows: "distinct (map fst (t_idem (g_db h1)))"
    using world_ok_db [OF sql_reachable_ok [OF assms(4)]] by (simp add: db_ok_def keys_ok_def)
  from sql_trace_idem [OF assms(7,8)]
  have ev: "sql_idem.evolves (now_ms en + IDEMPOTENCY_TTL_MS) (t_idem (g_db h1)) (t_idem (g_db h2))" by simp
  have "sql_idem.decide (now_ms en2) (sql_idem_key cfg key) (s_sha256 cfg (rq_body rq2)) (t_idem (g_db h2)) =
      (if d_body_hash ?e = s_sha256 cfg (rq_body rq2) then Replay ?e else Conflict)"
    by (rule sql_idem.decide_kept [OF ev e(2) _ assms(12) rows]) simp
  with e show ?thesis
    by (auto simp: sql_serve_create_decide [OF assms(9,10) c2] Let_def sendText_def key)
qed

lemma sqlite_idempotent_creation_witness:
  "\<exists>h3 rep2. sql_serve (as_process sdemo_cfg ''p1'') (demo_env 1000 ''v'') demo_create (sdemo_host sdemo_create) = (rep2, h3) \<and>
    t_runs (g_db h3) = t_runs (g_db (sdemo_host sdemo_create)) \<and>
    (''WOP-Idempotent-Replay'', ''true'') \<in> set (reply_headers rep2)"
proof -
  let ?h0 = "(sql_boot (as_process sdemo_cfg ''p1'') 0 ''T'' empty_db)\<lparr>g_commits := []\<rparr>"
  let ?res = "sql_serve (as_process sdemo_cfg ''p1'') (demo_env 0 ''u'') demo_create ?h0"
  have h1: "sdemo_host sdemo_create = snd ?res"
    using sdemo_run(1,4) [OF sdemo_created] by (auto simp: sdemo_create_def after_act_def split: if_splits)
  have hdr: "(''WOP-Idempotent-Replay'', ''false'') \<in> set (reply_headers (fst ?res))" by code_simp
  have s: "sql_serve (as_process sdemo_cfg ''p1'') (demo_env 0 ''u'') demo_create ?h0 = (fst ?res, sdemo_host sdemo_create)"
    unfolding h1 by simp
  have check: "check_create (s_api_key sdemo_cfg) (s_workflows sdemo_cfg) demo_create = Accepts ''w'' (JObj [])"
    using demo_check by (simp add: demo_cfg_def sdemo_cfg_def)
  have "now_ms (demo_env 1000 ''v'') \<le> now_ms (demo_env 0 ''u'') + IDEMPOTENCY_TTL_MS"
    by (simp add: demo_env_def IDEMPOTENCY_TTL_MS_def)
  from sqlite_idempotent_creation [OF demo_create_request demo_create_key check sdemo_host_reachable s hdr trace_nil _
      demo_create_request demo_create_key check this]
  show ?thesis by auto
qed

section \<open>Claims\<close>

text \<open>A claim excludes every other: when one process has won a run, another process of the same
  database (or the same one again) wins it exactly when the claim has expired, and a try that
  loses leaves the row as it is.\<close>

theorem claims_are_exclusive:
  assumes "keys_ok (g_db h1)" and "tryClaim cfg1 rid now1 h1 = (True, h1')" and "g_db h2 = g_db h1'"
  shows "fst (tryClaim cfg2 rid now2 h2) = (now1 + s_claim_ttl cfg1 < now2) \<and>
    getRun rid (g_db (snd (tryClaim cfg2 rid now2 h2))) =
      (if now1 + s_claim_ttl cfg1 < now2
       then map_option (\<lambda>r. r\<lparr>q_claim_holder := Some (s_pid cfg2), q_claim_expires := Some (now2 + s_claim_ttl cfg2)\<rparr>)
              (getRun rid (g_db h1'))
       else getRun rid (g_db h1'))"
proof -
  let ?db = "fst (acquireClaim (s_pid cfg1) (now1 + s_claim_ttl cfg1) rid now1 (g_db h1))"
  have tc: "fst (tryClaim cfg rid now h) = (snd (acquireClaim (s_pid cfg) (now + s_claim_ttl cfg) rid now (g_db h)) = 1)"
    "g_db (snd (tryClaim cfg rid now h)) = fst (acquireClaim (s_pid cfg) (now + s_claim_ttl cfg) rid now (g_db h))" for cfg now h
    by (simp_all add: tryClaim_def split_beta)
  from tc [of cfg1 now1 h1] assms(2) have db: "g_db h1' = ?db" and won: "snd (acquireClaim (s_pid cfg1) (now1 + s_claim_ttl cfg1) rid now1 (g_db h1)) = 1"
    by simp_all
  from won assms(1) obtain r where r: "getRun rid (g_db h1) = Some r" "claimable now1 r"
    by (auto simp: acquireClaim_changes split: option.splits if_splits)
  let ?r = "r\<lparr>q_claim_holder := Some (s_pid cfg1), q_claim_expires := Some (now1 + s_claim_ttl cfg1)\<rparr>"
  have row: "getRun rid (g_db h1') = Some ?r" using r by (simp add: db sql_simps)
  have keys: "keys_ok (g_db h1')"
    using assms(1) unfolding db acquireClaim_def fst_conv by (rule keys_ok_update_run) simp
  have "claimable now2 ?r = (now1 + s_claim_ttl cfg1 < now2)"
    using r(2) by (simp add: claimable_def claim_free_def)
  with row keys assms(3) show ?thesis
    by (simp add: tc acquireClaim_changes sql_simps)
qed

lemma claims_are_exclusive_witness:
  "let db = world_db (sdemo (sdemo_create @ [WShutdown]));
       p1 = tryClaim (as_process sdemo_cfg ''p1'') demo_id 50 (new_process db);
       p2 = tryClaim (as_process sdemo_cfg ''p2'') demo_id 60 (new_process (g_db (snd p1)))
   in \<not> fst p2 \<and> getRun demo_id (g_db (snd p2)) = getRun demo_id (g_db (snd p1))"
proof -
  let ?db = "world_db (sdemo (sdemo_create @ [WShutdown]))"
  let ?p1 = "tryClaim (as_process sdemo_cfg ''p1'') demo_id 50 (new_process ?db)"
  have k: "keys_ok (g_db (new_process ?db))"
    using world_ok_db [OF sql_reachable_ok [OF sdemo_run(2) [OF sdemo_shut]]] by (simp add: new_process_def db_ok_def)
  have "fst ?p1" by code_simp
  then have p1: "?p1 = (True, snd ?p1)" by (simp add: prod_eq_iff)
  have "g_db (new_process (g_db (snd ?p1))) = g_db (snd ?p1)" by (simp add: new_process_def)
  from claims_are_exclusive [OF k p1 this, of "as_process sdemo_cfg ''p2''" 60] show ?thesis
    by (simp add: Let_def sdemo_cfg_def)
qed

section \<open>Which requests throw\<close>

definition throws :: "sql_reply \<Rightarrow> bool" where
  "throws res \<longleftrightarrow> (case fst res of Inl m \<Rightarrow> True | Inr rep \<Rightarrow> False)"

lemma throws_pair [simp]: "throws (Inl m, h)" "\<not> throws (Inr rep, h)"
  by (simp_all add: throws_def)

lemma with_run_throws:
  "(\<And>r. getRun rid (g_db h) = Some r \<Longrightarrow> \<not> throws (k r)) \<Longrightarrow> \<not> throws (sql_with_run cfg rq h rid k)"
  by (simp add: sql_with_run_def split: option.split)

lemma handlers_throw:
  assumes ok: "db_ok ws (g_db h)"
  shows "\<not> throws (sql_handleGetRun cfg rq rid h)" "\<not> throws (sql_handleEventsPoll cfg rq rid h)"
    "\<not> throws (sql_handleEventsSse cfg rq rid h)" "\<not> throws (sql_handleDebugBundle cfg en rq rid h)"
    "\<not> throws (sql_handleCancelRun cfg rq rid h)"
proof -
  have row: "json_parse (q_inputs_json r) \<noteq> None" "error_field r \<noteq> None" if "getRun rid (g_db h) = Some r" for r
    using db_ok_run [OF ok that] error_ok_field [of r] by (auto simp: run_row_ok_def)
  have rows: "events_of_rows (getEventsAfter rid x (g_db h)) \<noteq> None" for x
    using sql_event_rows [OF ok, of "getEventsAfter rid x (g_db h)"] by (auto simp: getEventsAfter_def rows_of_def)
  show "\<not> throws (sql_handleGetRun cfg rq rid h)" "\<not> throws (sql_handleEventsPoll cfg rq rid h)"
    "\<not> throws (sql_handleEventsSse cfg rq rid h)" "\<not> throws (sql_handleDebugBundle cfg en rq rid h)"
    "\<not> throws (sql_handleCancelRun cfg rq rid h)"
    unfolding sql_handleGetRun_def sql_handleEventsPoll_def sql_handleEventsSse_def sql_handleDebugBundle_def
      sql_handleCancelRun_def
    by (rule with_run_throws; simp add: row rows Let_def split: option.split)+
qed

lemma createRun_throws:
  assumes "getRun (new_run_id en) (g_db h) = None"
    and "\<And>k. key = Some k \<Longrightarrow> getIdempotency (buildIdempotencyCacheKey (s_sha256 cfg) ''POST /v1/runs'' k) (t_idem (g_db h)) = None"
  shows "\<not> throws (sql_createRun cfg en wid inputs key hash h)"
proof -
  obtain db where "insertRun (new_run_id en) wid Pending (stringify inputs) (iso en) (g_db h) = Inr db"
    "t_idem db = t_idem (g_db h)"
    using assms(1) by (simp add: insertRun_def getRun_def)
  with assms(2) show ?thesis
    by (cases key) (auto simp: sql_createRun_def Let_def insertIdempotency_def getIdempotency_def)
qed

lemma handleCreateRun_throws:
  assumes "getRun (new_run_id en) (g_db h) = None"
  shows "throws (sql_handleCreateRun cfg en rq h) \<longleftrightarrow>
    authorized (s_api_key cfg) rq \<and> json_parse (rq_body rq) = Some JNull"
proof (cases "check_create (s_api_key cfg) (s_workflows cfg) rq")
  case (Accepts wid inputs)
  let ?rows = "pruneIdempotency (now_ms en) (t_idem (g_db h))"
  let ?h1 = "commit ((g_db h)\<lparr>t_idem := ?rows\<rparr>) h"
  have new: "getRun (new_run_id en) (g_db ?h1) = None"
    using assms by (simp add: getRun_def)
  have "\<not> throws (sql_createRun cfg en wid inputs (Some k) hash ?h1)"
    if "getIdempotency (buildIdempotencyCacheKey (s_sha256 cfg) ''POST /v1/runs'' k) ?rows = None" for k hash
    using that by (intro createRun_throws [OF new]) simp
  then have "\<not> throws (sql_handleCreateRun cfg en rq h)"
    using Accepts createRun_throws [OF assms, of None]
    by (auto simp: sql_handleCreateRun_def Let_def split: option.split)
  moreover have "json_parse (rq_body rq) \<noteq> Some JNull" using Accepts by (auto simp: check_create_Accepts)
  ultimately show ?thesis by simp
next
  case (Rejects rep)
  then have "\<not> (authorized (s_api_key cfg) rq \<and> json_parse (rq_body rq) = Some JNull)"
    using check_create_Throws [of "s_api_key cfg" "s_workflows cfg" rq null_workflowId_message] by auto
  with Rejects show ?thesis by (simp add: sql_handleCreateRun_def)
next
  case (Throws m)
  then have "authorized (s_api_key cfg) rq \<and> json_parse (rq_body rq) = Some JNull"
    using check_create_Throws by metis
  with Throws show ?thesis by (simp add: sql_handleCreateRun_def)
qed

text \<open>C26. In every reachable state, after any crash, the database can be read back: no handler
  throws, with two exceptions, a URL that does not parse and an authorized create whose body is
  the JSON text \<^verbatim>\<open>null\<close>; and no request brings the process down.\<close>

theorem handlers_do_not_throw:
  assumes "sql_reachable cfg (Up pid h)" and "getRun (new_run_id en) (g_db h) = None"
  shows "throws (sql_route (as_process cfg pid) en rq h) =
      (rq_path rq = None \<or>
       create_request rq \<and> authorized (s_api_key cfg) rq \<and> json_parse (rq_body rq) = Some JNull) \<and>
    \<not> g_crashed (snd (sql_serve (as_process cfg pid) en rq (h\<lparr>g_commits := []\<rparr>)))"
proof
  let ?cfg = "as_process cfg pid"
  note ok = sql_reachable_ok [OF assms(1)]
  have db: "db_ok (s_workflows cfg) (g_db h)" using world_ok_db [OF ok] by simp
  let ?bad = "rq_path rq = None \<or> create_request rq \<and> authorized (s_api_key cfg) rq \<and> json_parse (rq_body rq) = Some JNull"
  have "throws (sql_route ?cfg en rq h) \<longrightarrow> ?bad"
    by (rule sql_route_cases)
       (use handleCreateRun_throws [OF assms(2), of ?cfg] handlers_throw [OF db] in auto)
  moreover have "throws (sql_route ?cfg en rq h)" if ?bad
  proof (cases "rq_path rq")
    case None
    then show ?thesis by (simp add: sql_route_def)
  next
    case (Some path)
    with that have "sql_route ?cfg en rq h = sql_handleCreateRun ?cfg en rq h"
      by (auto simp: create_request_def sql_route_def)
    with Some that handleCreateRun_throws [OF assms(2), of ?cfg] show ?thesis by auto
  qed
  ultimately show "throws (sql_route ?cfg en rq h) = ?bad" by blast
  have "host_inv ?cfg (g_db h) (h\<lparr>g_commits := []\<rparr>)" using ok by (simp add: world_ok_def)
  from sql_serve_inv [OF this, of en rq] assms(2)
  show "\<not> g_crashed (snd (sql_serve ?cfg en rq (h\<lparr>g_commits := []\<rparr>)))" by (simp add: host_inv_facts)
qed

lemma handlers_do_not_throw_witness:
  "\<not> throws (sql_route (as_process sdemo_cfg ''p1'') (demo_env 1 ''v'') (demo_request ''GET'' [] demo_id) (sdemo_host sdemo_create))"
proof -
  have "Option.is_none (getRun (new_run_id (demo_env 1 ''v'')) (g_db (sdemo_host sdemo_create)))" by code_simp
  then have "getRun (new_run_id (demo_env 1 ''v'')) (g_db (sdemo_host sdemo_create)) = None" by (simp add: Option.is_none_def split: option.splits)
  from handlers_do_not_throw [OF sdemo_host_reachable this, of "demo_request ''GET'' [] demo_id"] show ?thesis
    by (simp add: demo_request_def create_request_def)
qed

end
