(* ===== verification/SqlRaces.thy ===== *)
theory SqlRaces
  imports SqlDemo SqlRestart
begin

text \<open>
  Where the SQLite host gives less than its comments promise: a crash between the row of a new
  run and its idempotency entry, and an executor whose claim another process has taken over.
\<close>

section \<open>A crash while a run is created\<close>

text \<open>A create that finds no entry of its key.\<close>

lemma createRun_fresh:
  assumes "getRun (new_run_id en) (g_db h) = None" and "getIdempotency (sql_idem_key cfg key) (t_idem (g_db h)) = None"
  obtains db db1 where "insertRun (new_run_id en) wid Pending (stringify inputs) (iso en) (g_db h) = Inr db"
    and "t_idem db = t_idem (g_db h)" and "t_runs db1 = t_runs db"
    and "sql_createRun cfg en wid inputs (Some key) hash h =
      (Inr (sendText 201 ''application/json'' (stringify (created_body (new_run_id en) wid (iso en)))
          [(''WOP-Idempotent-Replay'', ''false'')]),
       resume_one cfg (now_ms en) (iso en) (new_run_id en) (commit db1 (commit db h)))"
proof -
  obtain db where db: "insertRun (new_run_id en) wid Pending (stringify inputs) (iso en) (g_db h) = Inr db"
      "t_idem db = t_idem (g_db h)"
    using assms(1) by (simp add: insertRun_def getRun_def)
  let ?e = "\<lparr>d_status = 201, d_body = stringify (created_body (new_run_id en) wid (iso en)),
      d_body_hash = hash, d_stored_at = now_ms en\<rparr>"
  have "insertIdempotency (sql_idem_key cfg key) ?e (t_idem db) = Inr (t_idem db @ [(sql_idem_key cfg key, ?e)])"
    using assms(2) db(2) by (simp add: insertIdempotency_def getIdempotency_def)
  then have "sql_createRun cfg en wid inputs (Some key) hash h =
      (Inr (sendText 201 ''application/json'' (stringify (created_body (new_run_id en) wid (iso en)))
          [(''WOP-Idempotent-Replay'', ''false'')]),
       resume_one cfg (now_ms en) (iso en) (new_run_id en)
         (commit (db\<lparr>t_idem := t_idem db @ [(sql_idem_key cfg key, ?e)]\<rparr>) (commit db h)))"
    using db(1) by (simp add: sql_createRun_def Let_def sql_idem_key_def)
  with db show thesis
    by (intro that [of db "db\<lparr>t_idem := t_idem db @ [(sql_idem_key cfg key, ?e)]\<rparr>"]) simp_all
qed

lemma serve_fresh:
  assumes "create_request rq" and "rq_headers rq ''idempotency-key'' = Some key"
    and "check_create (s_api_key cfg) (s_workflows cfg) rq = Accepts wid inputs"
    and "getRun (new_run_id en) (g_db h) = None" and "getIdempotency (sql_idem_key cfg key) (t_idem (g_db h)) = None"
  obtains db db0 db1 where "insertRun (new_run_id en) wid Pending (stringify inputs) (iso en) db0 = Inr db"
    and "t_runs db0 = t_runs (g_db h)" and "getIdempotency (sql_idem_key cfg key) (t_idem db) = None" and "t_runs db1 = t_runs db"
    and "sql_serve cfg en rq h =
      (sendText 201 ''application/json'' (stringify (created_body (new_run_id en) wid (iso en)))
          [(''WOP-Idempotent-Replay'', ''false'')],
       resume_one cfg (now_ms en) (iso en) (new_run_id en) (commit db1 (commit db (commit db0 h))))"
proof -
  let ?db0 = "(g_db h)\<lparr>t_idem := pruneIdempotency (now_ms en) (t_idem (g_db h))\<rparr>"
  have none: "getIdempotency (sql_idem_key cfg key) (t_idem (g_db (commit ?db0 h))) = None"
    using assms(5) by (auto simp: getIdempotency_def pruneIdempotency_def map_of_eq_None_iff)
  have fresh: "sql_idem.decide (now_ms en) (sql_idem_key cfg key) b (t_idem (g_db h)) = Fresh" for b
    using none by (simp add: sql_idem.decide_def)
  note none
  moreover have "getRun (new_run_id en) (g_db (commit ?db0 h)) = None" using assms(4) by (simp add: getRun_def)
  ultimately obtain db db1 where
    db: "insertRun (new_run_id en) wid Pending (stringify inputs) (iso en) (g_db (commit ?db0 h)) = Inr db"
      "t_idem db = t_idem (g_db (commit ?db0 h))" "t_runs db1 = t_runs db"
      "sql_createRun cfg en wid inputs (Some key) (s_sha256 cfg (rq_body rq)) (commit ?db0 h) =
      (Inr (sendText 201 ''application/json'' (stringify (created_body (new_run_id en) wid (iso en)))
          [(''WOP-Idempotent-Replay'', ''false'')]),
       resume_one cfg (now_ms en) (iso en) (new_run_id en) (commit db1 (commit db (commit ?db0 h))))"
    using createRun_fresh [of en "commit ?db0 h" cfg key wid inputs "s_sha256 cfg (rq_body rq)"] by blast
  show thesis
    by (rule that [of ?db0 db db1])
       (use db none fresh sql_serve_create_decide [OF assms(1-3), of en h] in \<open>simp_all add: as_reply_def Let_def\<close>)
qed

lemma getRun_inserted:
  assumes "insertRun rid wid st inputs t db0 = Inr db"
  shows "\<exists>r. getRun rid db = Some r \<and> q_claim_holder r = None"
proof -
  have "find_run rid (rs @ [r]) = Some r" if "find_run rid rs = None" "q_run_id r = rid" for rs r
    using that by (induction rs) (auto simp: find_run_def split: if_splits)
  with assms show ?thesis by (auto simp: insertRun_def getRun_def split: if_splits)
qed

lemma resume_keeps_commits: "\<exists>dbs. g_commits (resume_one cfg now t rid h) = g_commits h @ dbs"
  using idem_table.R_resume_one [of h cfg now t rid] by (auto simp: idem_kept_def)

text \<open>What is in the database when the process dies after the second statement of such a create.\<close>

lemma torn_create:
  assumes "create_request rq" and "rq_headers rq ''idempotency-key'' = Some key"
    and "check_create (s_api_key cfg) (s_workflows cfg) rq = Accepts wid inputs"
    and "getIdempotency (sql_idem_key cfg key) (t_idem (g_db h)) = None" and "getRun (new_run_id en) (g_db h) = None"
  obtains db r where "sql_step cfg (Up pid h) (WTorn (QRequest en rq) 1) (Down db)"
    and "getRun (new_run_id en) db = Some r" and "q_claim_holder r = None"
    and "getIdempotency (sql_idem_key cfg key) (t_idem db) = None"
    and "\<And>rid. rid \<noteq> new_run_id en \<Longrightarrow> getRun rid db = getRun rid (g_db h)"
proof -
  let ?h = "h\<lparr>g_commits := []\<rparr>" and ?C = "as_process cfg pid"
  have key: "sql_idem_key ?C key = sql_idem_key cfg key" by (simp add: sql_idem_key_def)
  have check: "check_create (s_api_key ?C) (s_workflows ?C) rq = Accepts wid inputs" using assms(3) by simp
  have p1: "getRun (new_run_id en) (g_db ?h) = None"
    and p2: "getIdempotency (sql_idem_key ?C key) (t_idem (g_db ?h)) = None"
    using assms(4,5) by (simp_all add: key)
  obtain db db0 db1 where db: "insertRun (new_run_id en) wid Pending (stringify inputs) (iso en) db0 = Inr db"
      "t_runs db0 = t_runs (g_db h)" "getIdempotency (sql_idem_key cfg key) (t_idem db) = None"
    and serve: "snd (sql_serve ?C en rq ?h) =
      resume_one ?C (now_ms en) (iso en) (new_run_id en) (commit db1 (commit db (commit db0 ?h)))"
    by (rule serve_fresh [OF assms(1,2) check p1 p2]) (rule that, simp_all add: key)
  from resume_keeps_commits [of ?C "now_ms en" "iso en" "new_run_id en" "commit db1 (commit db (commit db0 ?h))"]
  have n: "1 < length (g_commits (snd (sql_serve ?C en rq ?h)))" "g_commits (snd (sql_serve ?C en rq ?h)) ! 1 = db"
    unfolding serve by (auto simp: commit_def)
  have act: "sql_act ?C ?h (QRequest en rq) (snd (sql_serve ?C en rq ?h))"
    by (rule act_request) (simp add: assms(5))
  obtain r where "getRun (new_run_id en) db = Some r" "q_claim_holder r = None" using getRun_inserted [OF db(1)] by blast
  moreover have "getRun rid db = getRun rid (g_db h)" if "rid \<noteq> new_run_id en" for rid
    using insertRun_others [OF db(1) that] db(2) by (simp add: getRun_def)
  ultimately show thesis using that step_torn [OF act n(1)] n(2) db(3) by simp
qed

text \<open>A start leaves the idempotency table alone and adds and removes no run.\<close>

lemma boot_keeps_tables:
  "t_idem (g_db (sql_boot cfg now t db)) = t_idem db"
  "getRun rid (g_db (sql_boot cfg now t db)) = None \<longleftrightarrow> getRun rid db = None"
proof -
  have fold: "t_idem (g_db (fold (resume_one cfg now t) rids h)) = t_idem (g_db h) \<and>
      map q_run_id (t_runs (g_db (fold (resume_one cfg now t) rids h))) = map q_run_id (t_runs (g_db h))" for rids h
  proof (induction rids arbitrary: h)
    case (Cons rid rids)
    have "t_idem (g_db (resume_one cfg now t rid h)) = t_idem (g_db h)"
      using idem_table.R_resume_one [of h cfg now t rid] by (simp add: idem_kept_def)
    with Cons.IH show ?case
      using run_ids.R_resume_one [where rid = rid and h = h and cfg = cfg and now = now and t = t] by simp
  qed simp
  then have ids: "map q_run_id (t_runs (g_db (sql_boot cfg now t db))) = map q_run_id (t_runs db)"
    unfolding sql_boot_fold by (simp add: new_process_def)
  from fold show "t_idem (g_db (sql_boot cfg now t db)) = t_idem db"
    unfolding sql_boot_fold by (simp add: new_process_def)
  show "getRun rid (g_db (sql_boot cfg now t db)) = None \<longleftrightarrow> getRun rid db = None"
    using getRun_ids [of rid db] getRun_ids [of rid "g_db (sql_boot cfg now t db)"] unfolding ids by blast
qed

text \<open>A create without an entry is answered as fresh; its run is there, and the others stay.\<close>

lemma fresh_create_adds:
  assumes "create_request rq" and "rq_headers rq ''idempotency-key'' = Some key"
    and "check_create (s_api_key cfg) (s_workflows cfg) rq = Accepts wid inputs"
    and "getRun (new_run_id en) (g_db h) = None" and "getIdempotency (sql_idem_key cfg key) (t_idem (g_db h)) = None"
  shows "reply_status (fst (sql_serve cfg en rq h)) = 201"
    and "(''WOP-Idempotent-Replay'', ''false'') \<in> set (reply_headers (fst (sql_serve cfg en rq h)))"
    and "rid = new_run_id en \<or> getRun rid (g_db h) \<noteq> None \<Longrightarrow> getRun rid (g_db (snd (sql_serve cfg en rq h))) \<noteq> None"
proof -
  obtain db db0 db1 where db: "insertRun (new_run_id en) wid Pending (stringify inputs) (iso en) db0 = Inr db"
      "t_runs db0 = t_runs (g_db h)" "t_runs db1 = t_runs db"
    and serve: "sql_serve cfg en rq h =
      (sendText 201 ''application/json'' (stringify (created_body (new_run_id en) wid (iso en)))
          [(''WOP-Idempotent-Replay'', ''false'')],
       resume_one cfg (now_ms en) (iso en) (new_run_id en) (commit db1 (commit db (commit db0 h))))"
    by (rule serve_fresh [OF assms]) (rule that, assumption+)
  show "reply_status (fst (sql_serve cfg en rq h)) = 201"
    "(''WOP-Idempotent-Replay'', ''false'') \<in> set (reply_headers (fst (sql_serve cfg en rq h)))"
    unfolding serve by (simp_all add: sendText_def)
  assume rid: "rid = new_run_id en \<or> getRun rid (g_db h) \<noteq> None"
  have "getRun rid db \<noteq> None"
    using rid getRun_inserted [OF db(1)] insertRun_others [OF db(1), of rid] db(2)
    by (cases "rid = new_run_id en") (auto simp: getRun_def)
  then show "getRun rid (g_db (snd (sql_serve cfg en rq h))) \<noteq> None"
    unfolding serve snd_conv by (intro resume_keeps_run) (use db(3) in \<open>simp add: getRun_def\<close>)
qed

text \<open>C19. The window in idempotent creation: the host inserts the row of the run before the
  entry of the key. A process that dies between these two statements leaves a run without an
  entry, and the same request, sent again with the same key to the process that starts next, is
  answered 201 as fresh and makes a second run; the first one is there too, and the start has
  seen to it that it is executed or over.\<close>

theorem crash_forgets_the_key:
  assumes "create_request rq" and "rq_headers rq ''idempotency-key'' = Some key"
    and "check_create (s_api_key cfg) (s_workflows cfg) rq = Accepts wid inputs"
    and "sql_reachable cfg (Up pid h)" and "getIdempotency (sql_idem_key cfg key) (t_idem (g_db h)) = None"
    and "getRun (new_run_id en) (g_db h) = None" and "getRun (new_run_id en2) (g_db h) = None"
    and "new_run_id en2 \<noteq> new_run_id en"
  shows "\<exists>db h2 rep h3. sql_step cfg (Up pid h) (WTorn (QRequest en rq) 1) (Down db) \<and>
    getRun (new_run_id en) db \<noteq> None \<and> getIdempotency (sql_idem_key cfg key) (t_idem db) = None \<and>
    sql_step cfg (Down db) (WStart pid2 now t) (Up pid2 h2) \<and> attended (new_run_id en) h2 \<and>
    sql_serve (as_process cfg pid2) en2 rq h2 = (rep, h3) \<and> reply_status rep = 201 \<and>
    (''WOP-Idempotent-Replay'', ''false'') \<in> set (reply_headers rep) \<and>
    getRun (new_run_id en) (g_db h3) \<noteq> None \<and> getRun (new_run_id en2) (g_db h3) \<noteq> None"
proof -
  note ok = sql_reachable_ok [OF assms(4)]
  let ?C = "as_process cfg pid2"
  have key: "sql_idem_key ?C key = sql_idem_key cfg key" by (simp add: sql_idem_key_def)
  have check: "check_create (s_api_key ?C) (s_workflows ?C) rq = Accepts wid inputs" using assms(3) by simp
  obtain db r where torn: "sql_step cfg (Up pid h) (WTorn (QRequest en rq) 1) (Down db)"
    and r: "getRun (new_run_id en) db = Some r" "q_claim_holder r = None"
    and none: "getIdempotency (sql_idem_key cfg key) (t_idem db) = None"
    and same: "\<And>rid. rid \<noteq> new_run_id en \<Longrightarrow> getRun rid db = getRun rid (g_db h)"
    using torn_create [OF assms(1-3,5,6)] by blast
  have okd: "world_ok cfg (Down db)" using sql_step_ok [OF torn ok] by simp
  let ?h2 = "sql_boot ?C now t db"
  note start = boot_step(1) [OF okd, of pid2 now t]
  have att: "attended (new_run_id en) ?h2"
    by (rule boot_attends [OF _ r(1)]) (use okd r(2) in \<open>simp_all add: world_ok_def claim_free_def\<close>)
  have q1: "getRun (new_run_id en2) (g_db ?h2) = None"
    and q2: "getIdempotency (sql_idem_key ?C key) (t_idem (g_db ?h2)) = None"
    and first: "getRun (new_run_id en) (g_db ?h2) \<noteq> None"
    using same [OF assms(8)] assms(7) none r(1) by (simp_all only: key boot_keeps_tables option.distinct(2) not_False_eq_True)
  note adds = fresh_create_adds [OF assms(1,2) check q1 q2]
  show ?thesis
    using torn r(1) none start att adds(1,2) adds(3) [of "new_run_id en"] adds(3) [of "new_run_id en2"] first
    by (intro exI conjI prod.collapse [symmetric]) auto
qed

lemma crash_forgets_the_key_witness:
  "\<exists>db h2 rep h3. sql_step sdemo_cfg (Up ''p1'' (sdemo_host [WStart ''p1'' 0 ''T''])) (WTorn (QRequest (demo_env 0 ''u'') demo_create) 1) (Down db) \<and>
    sql_step sdemo_cfg (Down db) (WStart ''p2'' 10 ''T'') (Up ''p2'' h2) \<and>
    sql_serve (as_process sdemo_cfg ''p2'') (demo_env 20 ''v'') demo_create h2 = (rep, h3) \<and>
    getRun (new_run_id (demo_env 0 ''u'')) (g_db h3) \<noteq> None \<and> getRun (new_run_id (demo_env 20 ''v'')) (g_db h3) \<noteq> None"
proof -
  let ?h = "sdemo_host [WStart ''p1'' 0 ''T'']"
  have check: "check_create (s_api_key sdemo_cfg) (s_workflows sdemo_cfg) demo_create = Accepts ''w'' (JObj [])"
    using demo_check by (simp add: demo_cfg_def sdemo_cfg_def)
  have run: "sql_run sdemo_cfg [WStart ''p1'' 0 ''T''] (Down empty_db) = Some (Up ''p1'' ?h)"
    by (simp add: sdemo_host_def sdemo_def after_act_def sql_boot_fold findOrphansStmt_def new_process_def empty_db_def)
  have db: "t_idem (g_db ?h) = []" "t_runs (g_db ?h) = []"
    by (simp_all add: sdemo_host_def sdemo_def after_act_def sql_boot_fold findOrphansStmt_def new_process_def empty_db_def)
  have reach: "sql_reachable sdemo_cfg (Up ''p1'' ?h)" unfolding sql_reachable_def by (rule exI [of _ "[WStart ''p1'' 0 ''T'']"]) (rule sql_run_trace [OF run])
  have none: "getIdempotency k (t_idem (g_db ?h)) = None" "getRun rid (g_db ?h) = None" for k rid
    using db by (simp_all add: getIdempotency_def getRun_def find_run_def)
  have "new_run_id (demo_env 20 ''v'') \<noteq> new_run_id (demo_env 0 ''u'')" by (simp add: new_run_id_def demo_env_def)
  from crash_forgets_the_key [OF demo_create_request demo_create_key check reach none none(2) this, of "''p2''" 10 "''T''"]
  show ?thesis by blast
qed

section \<open>An executor without its claim\<close>

text \<open>
  The next step of an executor writes to the log, on any database that has the run: the claim
  columns are not read, nor is the status looked at before the first event of the step.
\<close>

definition at_segment :: "pc \<Rightarrow> bool" where
  "at_segment p \<longleftrightarrow> (case p of Woken i \<Rightarrow> True | Aborted i \<Rightarrow> True | Outcome i oc \<Rightarrow> True | _ \<Rightarrow> False)"

definition writes :: "string \<Rightarrow> sql_host \<Rightarrow> sql_host \<Rightarrow> bool" where
  "writes rid h h' \<longleftrightarrow> length (rows_of rid (g_db h)) < length (rows_of rid (g_db h'))"

lemma append_writes:
  assumes "keys_ok (g_db h)" and "getRun rid (g_db h) \<noteq> None"
  shows "fst (sql_appendEvent rid ty n d t h) = None" and "writes rid h (snd (sql_appendEvent rid ty n d t h))"
  using insertEvent_next [OF assms, of "row_of_event \<lparr>e_seq = countEvents rid (g_db h), e_runId = rid, e_type = ty,
      e_nodeId = n, e_data = null_as_none d, e_timestamp = t\<rparr>"]
  by (simp_all add: sql_appendEvent_def Let_def row_of_event_def writes_def rows_of_def commit_def)

lemma writes_more:
  "writes rid h h1 \<Longrightarrow> length (rows_of rid (g_db h1)) \<le> length (rows_of rid (g_db h2)) \<Longrightarrow> writes rid h h2"
  by (simp add: writes_def)

lemma then_writes:
  assumes "keys_ok (g_db h)" and "getRun rid (g_db h) \<noteq> None"
    and "\<And>h1. length (rows_of rid (g_db h1)) \<le> length (rows_of rid (g_db (snd (g h1))))"
  shows "writes rid h (snd (then_do (sql_appendEvent rid ty n d t) g h))"
  using append_writes [OF assms(1,2), of ty n d t] assms(3) writes_more
  by (cases "sql_appendEvent rid ty n d t h") (auto simp: then_do_def)

lemma pc_rows [simp]: "g_db (set_pc rid p h) = g_db h"
  by (simp add: set_pc_def)

lemma finish_writes:
  assumes "keys_ok (g_db h)" and "getRun rid (g_db h) \<noteq> None"
  shows "writes rid h (snd (sql_finish cfg rid st ty e t h))"
  unfolding sql_finish_def using assms
  by (rule then_writes) (use more_events.R_setRunTerminal in simp)

lemma executeNode_writes:
  assumes "keys_ok (g_db h)" and "getRun rid (g_db h) \<noteq> None"
  shows "writes rid h (snd (sql_executeNode rid n i a j t h))"
proof -
  have app: "length (rows_of rid (g_db h1)) \<le> length (rows_of rid (g_db (snd (then_do (sql_appendEvent rid ty nid d t)
      (\<lambda>h. (None, set_pc rid p h)) h1))))" for ty nid d p h1
    by (rule more_events.R_then_do [OF more_events.R_append]) simp
  show ?thesis
    unfolding sql_executeNode_def by (auto intro!: then_writes assms app simp del: snd_conv) (simp_all add: app)
qed

lemma outcome_writes:
  assumes "keys_ok (g_db h)" and "getRun rid (g_db h) \<noteq> None"
  shows "writes rid h (snd (sql_outcome cfg rid x i oc t h))"
  by (cases oc) (simp_all add: sql_outcome_def sql_loop_def finish_writes executeNode_writes assms)

lemma segment_writes:
  assumes "g_exec h rid = Some x" and "at_segment (x_pc x)" and "keys_ok (g_db h)" and "getRun rid (g_db h) \<noteq> None"
  shows "\<exists>h'. sql_segment cfg rid t h = Some h' \<and> writes rid h h'"
proof -
  have go: "writes rid h (sql_catch cfg rid t (sql_try cfg rid t body h))" if "writes rid h (snd (body h))" for body
  proof -
    have "length (rows_of rid (g_db (snd (body h)))) \<le> length (rows_of rid (g_db (sql_catch cfg rid t (sql_try cfg rid t (\<lambda>_. body h) (snd (body h))))))"
      by (rule more_events.R_catch, rule more_events.R_try) simp
    moreover have "sql_try cfg rid t (\<lambda>_. body h) (snd (body h)) = sql_try cfg rid t body h"
      by (simp add: sql_try_def)
    ultimately show ?thesis using that writes_more by simp
  qed
  have app: "writes rid h (snd (then_do (sql_appendEvent rid ty n d t) (\<lambda>h. (None, set_pc rid p h)) h))" for ty n d p
    by (rule then_writes [OF assms(3,4)]) simp
  show ?thesis
    using assms(1,2) by (auto simp: sql_segment_def Let_def at_segment_def split: pc.splits
        intro!: go app outcome_writes assms(3,4))
qed

end
