(* ===== verification/MemStreams.thy ===== *)
theory MemStreams
  imports MemProps
begin

text \<open>
  The event streams of the in-memory host, from the request that opens one on: what is written
  to it is what the log has then after its resume point, and every event appended later.
\<close>

section \<open>One stream of a run\<close>

text \<open>Response \<open>j\<close> of the run gets every event that is appended.\<close>

definition fed :: "nat \<Rightarrow> run \<Rightarrow> run \<Rightarrow> bool" where
  "fed j r r' \<longleftrightarrow>
     length (r_subs r) \<le> length (r_subs r') \<and>
     (\<exists>l. r_events r' = r_events r @ l \<and> r_subs r' ! j = fold onEvent l (r_subs r ! j))"

lemma fed_refl [simp, intro]: "fed j r r"
  by (auto simp: fed_def intro: exI [of _ "[]"])

lemma fed_trans: "fed j r1 r2 \<Longrightarrow> fed j r2 r3 \<Longrightarrow> fed j r1 r3"
  by (auto simp: fed_def)

lemma fed_update [simp]:
  "fed j r (r'\<lparr>r_status := s\<rparr>) = fed j r r'" "fed j r (r'\<lparr>r_pc := p\<rparr>) = fed j r r'"
  "fed j r (r'\<lparr>r_endedAt := x\<rparr>) = fed j r r'" "fed j r (r'\<lparr>r_error := e\<rparr>) = fed j r r'"
  "fed j (r\<lparr>r_status := s\<rparr>) r' = fed j r r'" "fed j (r\<lparr>r_error := e\<rparr>) r' = fed j r r'"
  by (simp_all add: fed_def)

lemma fed_append:
  assumes "j < length (r_subs r)"
  shows "fed j r (appendEvent r ty n d t)"
  unfolding fed_def
  by (intro conjI exI [of _ "[\<lparr>e_seq = length (r_events r), e_runId = r_runId r, e_type = ty, e_nodeId = n, e_data = d, e_timestamp = t\<rparr>]"])
     (use assms in \<open>simp_all add: appendEvent_def Let_def\<close>)

lemma fed_append2: "j < length (r_subs r) \<Longrightarrow> fed j r r' \<Longrightarrow> fed j r (appendEvent r' ty n d t)"
  by (rule fed_trans [OF _ fed_append]) (auto simp: fed_def)

lemma fed_finish: "j < length (r_subs r) \<Longrightarrow> fed j r (finish r st ty d t)"
  using fed_append [of j "r\<lparr>r_status := st\<rparr>"] by (simp add: finish_def)

lemma fed_executeNode: "j < length (r_subs r) \<Longrightarrow> fed j r (executeNode r n i t)"
  by (auto simp: executeNode_def Let_def intro!: fed_append2)

lemma fed_workflow_loop: "j < length (r_subs r) \<Longrightarrow> fed j r (workflow_loop r w i t)"
  by (simp add: workflow_loop_def fed_finish fed_executeNode)

lemma fed_segment: "exec_segment r w t = Some r' \<Longrightarrow> j < length (r_subs r) \<Longrightarrow> fed j r r'"
  by (auto simp: exec_segment_def executeNode_woken_def executeNode_aborted_def runWorkflow_outcome_def
      fed_append fed_finish fed_workflow_loop split: pc.splits node_outcome.splits)

lemma fed_timer: "timer_fires r = Some r' \<Longrightarrow> fed j r r'"
  by (auto simp: timer_fires_def split: pc.splits)

lemma fed_cancel: "fed j r (request_cancel r)"
  by (auto simp: fed_def request_cancel_def intro: exI [of _ "[]"])

lemma fed_subscribe: "j < length (r_subs r) \<Longrightarrow> fed j r (r\<lparr>r_subs := r_subs r @ [s]\<rparr>)"
  by (auto simp: fed_def nth_append intro: exI [of _ "[]"])

lemma fed_close: "k \<noteq> j \<Longrightarrow> fed j r (client_closes k r)"
  by (auto simp: fed_def client_closes_def intro: exI [of _ "[]"])

lemma step_feeds:
  assumes "mem_step cfg h a h'" and "h_runs h rid = Some r" and "j < length (r_subs r)" and "a \<noteq> AClose rid j"
  shows "\<exists>r'. h_runs h' rid = Some r' \<and> fed j r r'"
  using assms
proof (induction rule: mem_step.induct)
  case (request h en rq)
  obtain ef where runs: "h_runs (fst (mem_serve cfg en rq h)) = apply_effect cfg en ef (h_runs h)"
    using mem_serve_effect unfolding has_effect_def by blast
  have "rid \<noteq> new_run_id en" using request by auto
  with runs request show ?case
    by (cases ef) (auto simp: fed_cancel fed_subscribe split: option.splits)
next
  case (segment h x rx w t r')
  then show ?case by (cases "x = rid") (auto simp: set_run_def fed_segment)
next
  case (timer h x rx r')
  then show ?case by (cases "x = rid") (auto simp: set_run_def fed_timer)
next
  case (close h x rx k)
  then show ?case by (cases "x = rid") (auto simp: set_run_def fed_close)
qed

lemma trace_feeds:
  assumes "mem_trace cfg h as h'" and "h_runs h rid = Some r" and "j < length (r_subs r)" and "AClose rid j \<notin> set as"
  shows "\<exists>r'. h_runs h' rid = Some r' \<and> fed j r r'"
  using assms
proof (induction arbitrary: r rule: trace.induct)
  case (trace_cons h1 a h2 as h3)
  from step_feeds [OF trace_cons.hyps(1) trace_cons.prems(1,2)] trace_cons.prems(3)
  obtain r2 where r2: "h_runs h2 rid = Some r2" "fed j r r2" by auto
  then have "j < length (r_subs r2)" using trace_cons.prems(2) by (simp add: fed_def)
  with trace_cons.IH [OF r2(1)] trace_cons.prems(3) r2(2) show ?case by (auto intro: fed_trans)
qed auto

text \<open>What a listening response makes of events of which only the last may end the stream.\<close>

lemma listening_gets_all:
  assumes "s_listening s" and "\<not> s_ended s" and "\<forall>e \<in> set (butlast l). \<not> ends_stream (e_type e)"
  shows "s_out (fold onEvent l s) = s_out s @ l \<and>
    s_listening (fold onEvent l s) = (l = [] \<or> \<not> ends_stream (e_type (last l))) \<and>
    s_ended (fold onEvent l s) = (l \<noteq> [] \<and> ends_stream (e_type (last l)))"
  using assms(3)
proof (induction l rule: rev_induct)
  case (snoc e l)
  then have "\<forall>e \<in> set l. \<not> ends_stream (e_type e)" by simp
  then have "\<forall>e \<in> set (butlast l). \<not> ends_stream (e_type e)" "l = [] \<or> \<not> ends_stream (e_type (last l))"
    by (auto dest: in_set_butlastD)
  with snoc.IH show ?case by (auto simp: onEvent_def Let_def)
qed (use assms(1,2) in simp)

lemma closed_gets_nothing: "\<not> s_listening s \<Longrightarrow> fold onEvent l s = s"
  by (induction l) (simp_all add: onEvent_def)

section \<open>From the request on\<close>

text \<open>C6. An event stream delivers exactly its events: opened by an authorized request, it has been
  sent, at any later moment and as long as the client keeps it open, the events that the log
  had then after the resume point of the request, and every event appended since, each once
  and in order; it is ended when and only when the run is over, and served as long as it is not.\<close>

theorem event_streams_deliver_exactly:
  assumes "mem_reachable cfg h" and "h_runs h rid = Some r"
    and "run_request ''GET'' [''events''] rid rq" and "authorized (c_api_key cfg) rq"
    and "mem_trace cfg h (ARequest en rq # as) h'" and "AClose rid (length (r_subs r)) \<notin> set as"
  shows "\<exists>r' s. h_runs h' rid = Some r' \<and> length (r_subs r) < length (r_subs r') \<and> s = r_subs r' ! length (r_subs r) \<and>
    s_out s = events_after (resume_after rq) (r_events r) @ drop (length (r_events r)) (r_events r') \<and>
    (s_ended s \<longleftrightarrow> is_terminal (r_status r')) \<and> (s_listening s \<longleftrightarrow> \<not> is_terminal (r_status r'))"
proof -
  let ?j = "length (r_subs r)"
  let ?s0 = "subscribe (resume_after rq) (is_terminal (r_status r)) (r_events r)"
  let ?r1 = "r\<lparr>r_subs := r_subs r @ [?s0]\<rparr>"
  from assms(5) obtain h1 where step: "mem_step cfg h (ARequest en rq) h1" and tr: "mem_trace cfg h1 as h'"
    by (auto simp: trace_Cons_iff)
  have "checkAuth (c_api_key cfg) rq = None" using assms(4) by (simp add: checkAuth_None)
  with step assms(2) have r1: "h_runs h1 rid = Some ?r1"
    by (auto simp: mem_step_request_iff mem_serve_def mem_route_sse [OF assms(3)] mem_handleEventsSse_def mem_with_run_def set_run_def)
  from trace_feeds [OF tr r1 _ assms(6)] obtain r' where r': "h_runs h' rid = Some r'" "fed ?j ?r1 r'" by auto
  then obtain l where l: "r_events r' = r_events r @ l" "r_subs r' ! ?j = fold onEvent l ?s0" "?j < length (r_subs r')"
    by (auto simp: fed_def)
  obtain w :: workflow where ok: "run_ok (wf_nodes w) r" using mem_reachable_run [OF assms(1,2)] .
  obtain w' :: workflow where ok': "run_ok (wf_nodes w') r'"
    using mem_reachable_run [OF mem_reachable_trace [OF assms(1,5)] r'(1)] .
  have ends: "is_terminal (r_status r') \<longleftrightarrow> l \<noteq> [] \<and> ends_stream (e_type (last l))" "\<forall>e \<in> set (butlast l). \<not> ends_stream (e_type e)"
    if "\<not> is_terminal (r_status r)"
  proof -
    have closing: "ends_stream (terminal_type st)" if "is_terminal st" for st using that by (cases st) simp_all
    have "\<forall>e \<in> set (r_events r). \<not> ends_stream (e_type e)"
      using run_ok_open_log [OF ok that] by (auto simp: open_log_def shapes_def ev_shape_def)
    moreover have "r_events r' \<noteq> [] \<and> ends_stream (e_type (last (r_events r'))) \<and> (\<forall>e \<in> set (butlast (r_events r')). \<not> ends_stream (e_type e))"
      if "is_terminal (r_status r')"
      using final_log_last [OF run_ok_final_log [OF ok' that]] closing
      by (auto simp: open_log_def shapes_def ev_shape_def last_map map_butlast [symmetric])
    moreover have "\<forall>e \<in> set (r_events r'). \<not> ends_stream (e_type e)" if "\<not> is_terminal (r_status r')"
      using run_ok_open_log [OF ok' that] by (auto simp: open_log_def shapes_def ev_shape_def)
    ultimately show "is_terminal (r_status r') \<longleftrightarrow> l \<noteq> [] \<and> ends_stream (e_type (last l))" "\<forall>e \<in> set (butlast l). \<not> ends_stream (e_type e)"
      using l(1) by (cases "is_terminal (r_status r')"; auto simp: butlast_append dest: in_set_butlastD split: if_splits)+
  qed
  show ?thesis
  proof (cases "is_terminal (r_status r)")
    case True
    from mem_sys.trace_run [OF assms(5) mem_reachable_ok [OF assms(1)] assms(2)] r'(1)
    have "r'\<lparr>r_subs := []\<rparr> = r\<lparr>r_subs := []\<rparr>" using True by (auto simp: run_evolves_def)
    then have "r_status (r'\<lparr>r_subs := []\<rparr>) = r_status (r\<lparr>r_subs := []\<rparr>)" "r_events (r'\<lparr>r_subs := []\<rparr>) = r_events (r\<lparr>r_subs := []\<rparr>)"
      by presburger+
    then have "r_status r' = r_status r" "r_events r' = r_events r" by simp_all
    with True l r'(1) show ?thesis by (simp add: subscribe_def closed_gets_nothing)
  next
    case False
    with listening_gets_all [of ?s0 l] ends l r'(1) show ?thesis by (auto simp: subscribe_def)
  qed
qed

text \<open>A stream that is opened while the run sleeps, and gets the whole log as it comes.\<close>

lemma event_streams_deliver_exactly_witness:
  "\<exists>(h' :: mem_host) r' s. h_runs h' demo_id = Some r' \<and> is_terminal (r_status r') \<and> s_ended s \<and> s \<in> set (r_subs r') \<and>
    s_out s = r_events r' \<and> \<not> is_terminal (r_status (demo_run 0))"
proof -
  let ?rq = "demo_request ''GET'' [''events''] demo_id" and ?en = "demo_env 1 ''v''"
  let ?h1 = "fst (mem_serve demo_cfg ?en ?rq (demo_host 0))"
  have "demo_id \<noteq> new_run_id ?en" by (simp add: demo_id_def new_run_id_def demo_env_def)
  then have "h_runs (demo_host 0) (new_run_id ?en) = None"
    by (simp add: demo_host_def set_run_def demo_serve_create mem_createRun_runs demo_id_def [symmetric])
       (simp add: init_host_def)
  then have step: "mem_step demo_cfg (demo_host 0) (ARequest ?en ?rq) ?h1" by (rule mem_step.request)
  have ok: "host_ok demo_cfg ?h1" using mem_sys.step_ok [OF step mem_reachable_ok [OF demo_reachable_0]] .
  have "checkAuth (c_api_key demo_cfg) ?rq = None" by (simp add: checkAuth_None)
  then obtain r1 where r1: "h_runs ?h1 demo_id = Some r1" "r_workflowId r1 = ''w''"
    by (simp add: mem_serve_def mem_route_sse [OF demo_run_request] mem_handleEventsSse_def mem_with_run_def set_run_def demo_run_0)
  obtain as h' r' where tr: "mem_trace demo_cfg ?h1 as h'" "list_all (own_step demo_id) as" "h_runs h' demo_id = Some r'"
    "is_terminal (r_status r')" using mem_run_terminates [OF ok r1(1)] r1(2) by auto
  have auth: "authorized (c_api_key demo_cfg) ?rq" by simp
  have keeps: "AClose demo_id (length (r_subs (demo_run 0))) \<notin> set as" using tr(2) by (auto simp: list_all_iff)
  from event_streams_deliver_exactly [OF demo_reachable_0 demo_host_run demo_run_request auth trace_cons [OF step tr(1)] keeps] tr(3,4)
  obtain s where s: "0 < length (r_subs r')" "s = r_subs r' ! 0" "s_ended s"
    "s_out s = events_after (resume_after ?rq) (r_events (demo_run 0)) @ drop (length (r_events (demo_run 0))) (r_events r')"
    by (auto simp: demo_run_0)
  have "h_runs h' demo_id = Some r' \<Longrightarrow> prefix (r_events (demo_run 0)) (r_events r')"
    using mem_sys.trace_run [OF trace_cons [OF step tr(1)] mem_reachable_ok [OF demo_reachable_0] demo_host_run]
    by (auto simp: run_evolves_def grows_def)
  then obtain l where "r_events r' = r_events (demo_run 0) @ l" using tr(3) by (auto simp: prefix_def)
  moreover have "resume_after ?rq = num_of_int (- 1)" by (simp add: resume_after_def demo_request_def)
  ultimately have "s_out s = r_events r'" using s(4) by simp
  with s tr(3,4) show ?thesis by (intro exI [of _ h'] exI [of _ r'] exI [of _ s]) (simp add: demo_run_0)
qed

end
