(* ===== verification/MemRefine.thy ===== *)
theory MemRefine
  imports MemProps
begin

text \<open>
  What a run is, without the executor: an abstract machine that says in which order a run's
  events may come, and the refinement of it by the in-memory host. The machine knows nothing
  of promises, timers, abort signals or of how much happens in one synchronous stretch of
  code; a step of the host is a sequence of its steps, possibly empty.
\<close>

section \<open>The abstract run\<close>

text \<open>
  Between two nodes, in a node, stopped by a node that failed or was cancelled, or ended.
  The log is the list of the events' types and nodes.
\<close>

datatype phase = At nat | In nat | Stopped run_status | Ended run_status

record spec_run =
  sp_phase :: phase
  sp_cancel :: bool
  sp_log :: "shape list"

definition spec_init :: spec_run where
  "spec_init = \<lparr>sp_phase = At 0, sp_cancel = False, sp_log = [(RunStarted, None)]\<rparr>"

inductive spec_step :: "node list \<Rightarrow> spec_run \<Rightarrow> spec_run \<Rightarrow> bool" for ns where
  enter: "i < length ns \<Longrightarrow> \<not> c \<Longrightarrow>
     spec_step ns \<lparr>sp_phase = At i, sp_cancel = c, sp_log = l\<rparr>
       \<lparr>sp_phase = In i, sp_cancel = c, sp_log = l @ [(NodeStarted, Some (n_id (ns ! i)))]\<rparr>"
| leave: "supported (ns ! i) \<Longrightarrow>
     spec_step ns \<lparr>sp_phase = In i, sp_cancel = c, sp_log = l\<rparr>
       \<lparr>sp_phase = At (Suc i), sp_cancel = c, sp_log = l @ [(NodeCompleted, Some (n_id (ns ! i)))]\<rparr>"
| fail: "\<not> supported (ns ! i) \<Longrightarrow>
     spec_step ns \<lparr>sp_phase = In i, sp_cancel = c, sp_log = l\<rparr>
       \<lparr>sp_phase = Stopped Failed, sp_cancel = c, sp_log = l @ [(NodeFailed, Some (n_id (ns ! i)))]\<rparr>"
| abort: "is_delay (ns ! i) \<Longrightarrow> c \<Longrightarrow>
     spec_step ns \<lparr>sp_phase = In i, sp_cancel = c, sp_log = l\<rparr>
       \<lparr>sp_phase = Stopped Cancelled, sp_cancel = c, sp_log = l @ [(NodeCancelled, Some (n_id (ns ! i)))]\<rparr>"
| complete: "\<not> c \<Longrightarrow>
     spec_step ns \<lparr>sp_phase = At (length ns), sp_cancel = c, sp_log = l\<rparr>
       \<lparr>sp_phase = Ended Completed, sp_cancel = c, sp_log = l @ [(RunCompleted, None)]\<rparr>"
| give_up: "c \<Longrightarrow>
     spec_step ns \<lparr>sp_phase = At i, sp_cancel = c, sp_log = l\<rparr>
       \<lparr>sp_phase = Ended Cancelled, sp_cancel = c, sp_log = l @ [(RunCancelled, None)]\<rparr>"
| stop: "spec_step ns \<lparr>sp_phase = Stopped st, sp_cancel = c, sp_log = l\<rparr>
       \<lparr>sp_phase = Ended st, sp_cancel = c, sp_log = l @ [(terminal_type st, None)]\<rparr>"
| cancel: "(\<And>st. p \<noteq> Ended st) \<Longrightarrow>
     spec_step ns \<lparr>sp_phase = p, sp_cancel = c, sp_log = l\<rparr> \<lparr>sp_phase = p, sp_cancel = True, sp_log = l\<rparr>"

inductive_cases spec_step_endedE: "spec_step ns \<lparr>sp_phase = Ended st, sp_cancel = c, sp_log = l\<rparr> s"

abbreviation spec_steps :: "node list \<Rightarrow> spec_run \<Rightarrow> spec_run \<Rightarrow> bool" where
  "spec_steps ns \<equiv> (spec_step ns)\<^sup>*\<^sup>*"

text \<open>What the machine promises of its logs, phase by phase.\<close>

fun spec_ok :: "node list \<Rightarrow> spec_run \<Rightarrow> bool" where
  "spec_ok ns \<lparr>sp_phase = At i, sp_cancel = c, sp_log = l\<rparr> \<longleftrightarrow>
     i \<le> length ns \<and> all_supported ns i \<and> l = log_upto ns i"
| "spec_ok ns \<lparr>sp_phase = In i, sp_cancel = c, sp_log = l\<rparr> \<longleftrightarrow>
     i < length ns \<and> all_supported ns i \<and> l = log_upto ns i @ [(NodeStarted, Some (n_id (ns ! i)))]"
| "spec_ok ns \<lparr>sp_phase = Stopped st, sp_cancel = c, sp_log = l\<rparr> \<longleftrightarrow> final_log ns st (l @ [(terminal_type st, None)])"
| "spec_ok ns \<lparr>sp_phase = Ended st, sp_cancel = c, sp_log = l\<rparr> \<longleftrightarrow> final_log ns st l"

lemma spec_ok_init: "spec_ok ns spec_init"
  by (simp add: spec_init_def)

lemma spec_step_ok: "spec_step ns s s' \<Longrightarrow> spec_ok ns s \<Longrightarrow> spec_ok ns s'"
proof (induction rule: spec_step.induct)
  case (leave i c l)
  then show ?case by (simp add: all_supported_Suc log_upto_Suc node_done_def)
next
  case (fail i c l)
  then show ?case by (auto simp: final_log_def failed_log_def)
next
  case (abort i c l)
  then show ?case by (auto simp: final_log_def cancelled_log_def intro!: exI [of _ i])
next
  case (complete c l)
  then show ?case by (simp add: final_log_def completed_log_def)
next
  case (give_up c i l)
  then show ?case by (auto simp: final_log_def cancelled_log_def)
next
  case (cancel p c l)
  then show ?case by (cases p) auto
qed auto

lemma spec_steps_ok: "spec_steps ns s s' \<Longrightarrow> spec_ok ns s \<Longrightarrow> spec_ok ns s'"
  by (induction rule: rtranclp_induct) (auto intro: spec_step_ok)

section \<open>The abstraction of a run\<close>

definition phase_of :: "run \<Rightarrow> phase" where
  "phase_of r =
     (case r_pc r of
        Sleeping i ms \<Rightarrow> In i | Woken i \<Rightarrow> In i | Aborted i \<Rightarrow> In i
      | Outcome i NCompleted \<Rightarrow> At (Suc i)
      | Outcome i NCancelled \<Rightarrow> Stopped Cancelled
      | Outcome i NFailed \<Rightarrow> Stopped Failed
      | Halted \<Rightarrow> Ended (r_status r))"

definition abs_run :: "run \<Rightarrow> spec_run" where
  "abs_run r = \<lparr>sp_phase = phase_of r, sp_cancel = r_cancelRequested r, sp_log = shapes r\<rparr>"

text \<open>The top of the loop in iteration \<open>i\<close> has no program counter of its own.\<close>

definition abs_loop :: "nat \<Rightarrow> run \<Rightarrow> spec_run" where
  "abs_loop i r = \<lparr>sp_phase = At i, sp_cancel = r_cancelRequested r, sp_log = shapes r\<rparr>"

lemma abs_finish: "abs_run (finish r st ty d t) = \<lparr>sp_phase = Ended st, sp_cancel = r_cancelRequested r, sp_log = shapes r @ [(ty, None)]\<rparr>"
  by (simp add: abs_run_def phase_of_def finish_def run_simps)

lemma refine_executeNode:
  assumes "i < length ns" and "\<not> r_cancelRequested r" and "\<not> r_aborted r"
  shows "spec_steps ns (abs_loop i r) (abs_run (executeNode r (ns ! i) i t))"
proof -
  let ?l = "shapes r @ [(NodeStarted, Some (n_id (ns ! i)))]"
  let ?in = "\<lparr>sp_phase = In i, sp_cancel = False, sp_log = ?l\<rparr>"
  have "spec_step ns (abs_loop i r) ?in"
    using spec_step.enter [OF assms(1), of False "shapes r"] assms(2) by (simp add: abs_loop_def)
  moreover have "spec_steps ns ?in (abs_run (executeNode r (ns ! i) i t))"
  proof (cases "supported (ns ! i)")
    case True
    show ?thesis
    proof (cases "is_delay (ns ! i)")
      case True
      then show ?thesis
        using assms(2,3) by (simp add: executeNode_def Let_def is_delay_def sleep_def abs_run_def phase_of_def run_simps)
    next
      case False
      with spec_step.leave [OF \<open>supported (ns ! i)\<close>, of False ?l] supported_cases [OF \<open>supported (ns ! i)\<close>] assms(2)
      show ?thesis
        by (simp add: executeNode_def Let_def abs_run_def phase_of_def run_simps r_into_rtranclp)
    qed
  next
    case False
    with spec_step.fail [OF False, of False ?l] assms(2) show ?thesis
      by (simp add: executeNode_def Let_def abs_run_def phase_of_def run_simps supported_def r_into_rtranclp)
  qed
  ultimately show ?thesis by (rule converse_rtranclp_into_rtranclp)
qed

lemma refine_loop:
  assumes "i \<le> length (wf_nodes w)" and "r_aborted r \<longleftrightarrow> r_cancelRequested r"
  shows "spec_steps (wf_nodes w) (abs_loop i r) (abs_run (workflow_loop r w i t))"
proof (cases "r_cancelRequested r")
  case True
  with spec_step.give_up [of True "wf_nodes w" i "shapes r"] show ?thesis
    by (simp add: workflow_loop_def abs_finish abs_loop_def r_into_rtranclp)
next
  case not: False
  show ?thesis
  proof (cases "i < length (wf_nodes w)")
    case True
    with not assms(2) refine_executeNode show ?thesis by (simp add: workflow_loop_def)
  next
    case False
    with assms(1) have "i = length (wf_nodes w)" by simp
    with not spec_step.complete [of False "wf_nodes w" "shapes r"] show ?thesis
      by (simp add: workflow_loop_def abs_finish abs_loop_def r_into_rtranclp)
  qed
qed

lemma refine_segment:
  assumes "run_ok (wf_nodes w) r" and "exec_segment r w t = Some r'"
  shows "spec_steps (wf_nodes w) (abs_run r) (abs_run r')"
proof -
  let ?ns = "wf_nodes w"
  note ok = assms(1) [unfolded run_ok_def pc_ok_def]
  show ?thesis
  proof (cases "r_pc r")
    case (Woken i)
    with ok have "supported (?ns ! i)" by (simp add: supported_def is_delay_def)
    from spec_step.leave [OF this, of "r_cancelRequested r" "shapes r"] Woken assms(2) show ?thesis
      by (auto simp: exec_segment_def executeNode_woken_def abs_run_def phase_of_def run_simps)
  next
    case (Aborted i)
    with ok have "is_delay (?ns ! i)" "r_cancelRequested r" by simp_all
    from spec_step.abort [OF this, of "shapes r"] Aborted assms(2) show ?thesis
      by (auto simp: exec_segment_def executeNode_aborted_def abs_run_def phase_of_def run_simps)
  next
    case (Outcome i oc)
    show ?thesis
    proof (cases oc)
      case NCompleted
      have "spec_steps ?ns (abs_loop (Suc i) r) (abs_run (workflow_loop r w (Suc i) t))"
        using ok Outcome NCompleted by (intro refine_loop) auto
      with Outcome NCompleted assms(2) show ?thesis
        by (auto simp: exec_segment_def runWorkflow_outcome_def abs_run_def phase_of_def abs_loop_def)
    next
      case NCancelled
      with Outcome assms(2) spec_step.stop [of ?ns Cancelled "r_cancelRequested r" "shapes r"] show ?thesis
        by (auto simp: exec_segment_def runWorkflow_outcome_def abs_finish) (simp add: abs_run_def phase_of_def r_into_rtranclp)
    next
      case NFailed
      with Outcome assms(2) spec_step.stop [of ?ns Failed "r_cancelRequested r" "shapes r"] show ?thesis
        by (auto simp: exec_segment_def runWorkflow_outcome_def abs_finish) (simp add: abs_run_def phase_of_def r_into_rtranclp)
    qed
  qed (use assms(2) in \<open>simp_all add: exec_segment_def\<close>)
qed

lemma refine_timer: "timer_fires r = Some r' \<Longrightarrow> abs_run r' = abs_run r"
  by (auto simp: timer_fires_def abs_run_def phase_of_def shapes_def split: pc.splits)

lemma refine_cancel:
  assumes "run_ok ns r" and "\<not> is_terminal (r_status r)"
  shows "spec_steps ns (abs_run r) (abs_run (request_cancel r))"
proof -
  have "r_pc r \<noteq> Halted" using run_ok_terminal_iff [OF assms(1)] assms(2) by simp
  then have "phase_of (request_cancel r) = phase_of r" "\<And>st. phase_of r \<noteq> Ended st"
    by (auto simp: request_cancel_def phase_of_def split: pc.splits node_outcome.splits)
  with spec_step.cancel [of "phase_of r" ns "r_cancelRequested r" "shapes r"] show ?thesis
    by (simp add: abs_run_def) (simp add: request_cancel_def shapes_def r_into_rtranclp)
qed

lemma refine_created:
  assumes "c_workflows cfg wid = Some w"
  shows "spec_steps (wf_nodes w) spec_init (abs_run (created_run cfg en wid inputs))"
proof -
  let ?r = "appendEvent ((new_run (new_run_id en) wid inputs (iso en))\<lparr>r_status := Running\<rparr>) RunStarted None None (iso en)"
  have "abs_loop 0 ?r = spec_init" by (simp add: abs_loop_def spec_init_def run_simps) (simp add: new_run_def shapes_def)
  moreover have "spec_steps (wf_nodes w) (abs_loop 0 ?r) (abs_run (workflow_loop ?r w 0 (iso en)))"
    by (rule refine_loop) (simp_all add: new_run_def run_simps)
  ultimately show ?thesis using assms by (simp add: created_run_def runWorkflow_def new_run_def)
qed

section \<open>The host refines the abstract run\<close>

text \<open>A second reading of the host as a system of runs: each run moves by steps of its machine.\<close>

definition moves :: "mem_config \<Rightarrow> run \<Rightarrow> run \<Rightarrow> bool" where
  "moves cfg r r' \<longleftrightarrow> r_workflowId r' = r_workflowId r \<and>
     (\<forall>w. c_workflows cfg (r_workflowId r) = Some w \<longrightarrow> spec_steps (wf_nodes w) (abs_run r) (abs_run r'))"

lemma moves_same: "r_workflowId r' = r_workflowId r \<Longrightarrow> abs_run r' = abs_run r \<Longrightarrow> moves cfg r r'"
  by (simp add: moves_def)

lemma moves_run:
  assumes "run_in cfg rid r" and "r_workflowId r' = r_workflowId r"
    and "\<And>w. c_workflows cfg (r_workflowId r) = Some w \<Longrightarrow> run_ok (wf_nodes w) r \<Longrightarrow> spec_steps (wf_nodes w) (abs_run r) (abs_run r')"
  shows "moves cfg r r'"
  using assms by (auto simp: moves_def run_in_def)

lemma abs_subs: "abs_run (r\<lparr>r_subs := ss\<rparr>) = abs_run r"
  by (cases "r_pc r") (simp_all add: abs_run_def phase_of_def shapes_def split: node_outcome.split)

lemma effect_moves:
  assumes "has_effect cfg en h h'" and "host_ok cfg h" and "h_runs h (new_run_id en) = None" and "h_runs h rid = Some r"
  shows "\<exists>r'. h_runs h' rid = Some r' \<and> moves cfg r r'"
proof -
  from assms(1) obtain ef where runs: "h_runs h' = apply_effect cfg en ef (h_runs h)" unfolding has_effect_def by blast
  have refl: "moves cfg r r" by (rule moves_same) simp_all
  have r: "run_in cfg rid r" using assms(2,4) by (simp add: host_ok_def)
  show ?thesis
  proof (cases ef)
    case (Creates wid inputs)
    with assms(3,4) runs refl show ?thesis by auto
  next
    case (Cancels x)
    have "moves cfg r (request_cancel r)" if "\<not> is_terminal (r_status r)"
      using that by (intro moves_run [OF r] refine_cancel) (simp_all add: request_cancel_def)
    with assms(4) runs Cancels refl show ?thesis by (auto split: option.split)
  next
    case (Subscribes x y)
    have "moves cfg r (r\<lparr>r_subs := ss\<rparr>)" for ss by (rule moves_same) (simp_all add: abs_subs)
    with assms(4) runs Subscribes refl show ?thesis by (auto split: option.split)
  qed (use assms(4) runs refl in simp)
qed

lemma mem_step_moves:
  assumes "mem_step cfg h a h'" and "host_ok cfg h" and "h_runs h rid = Some r"
  shows "\<exists>r'. h_runs h' rid = Some r' \<and> moves cfg r r'"
  using assms
proof (induction rule: mem_step.induct)
  case (request h en rq)
  then show ?case using effect_moves [OF mem_serve_effect] by blast
next
  case (segment h x q w t q')
  have "r_workflowId q' = r_workflowId q" using grows_exec_segment [OF segment.hyps(3)] by (simp add: grows_def)
  moreover have "run_in cfg x q" using segment by (simp add: host_ok_def)
  ultimately have "moves cfg q q'" using segment.hyps(2,3) by (intro moves_run) (auto intro: refine_segment)
  with segment show ?case using moves_same [of r r cfg] by (auto simp: set_run_def)
next
  case (timer h x q q')
  have "moves cfg q q'" using timer.hyps(2) refine_timer grows_timer_fires
    by (intro moves_same) (auto simp: grows_def)
  with timer show ?case using moves_same [of r r cfg] by (auto simp: set_run_def)
next
  case (close h x q j)
  have "moves cfg q (client_closes j q)" by (rule moves_same) (simp_all add: client_closes_def abs_subs)
  with close show ?case using moves_same [of r r cfg] by (auto simp: set_run_def)
qed

interpretation mem_spec: run_system "mem_step cfg" "host_ok cfg" h_runs "moves cfg" for cfg
proof unfold_locales
  show "moves cfg r1 r3" if "moves cfg r1 r2" "moves cfg r2 r3" for r1 r2 r3
    using that unfolding moves_def by (metis rtranclp_trans)
qed (auto intro: moves_same mem_step_moves dest: mem_sys.step_ok)

text \<open>Where a run is when a request has created it.\<close>

definition born :: "mem_config \<Rightarrow> run \<Rightarrow> bool" where
  "born cfg r \<longleftrightarrow> (\<forall>w. c_workflows cfg (r_workflowId r) = Some w \<longrightarrow> spec_steps (wf_nodes w) spec_init (abs_run r))"

lemma born_created: "born cfg (created_run cfg en wid inputs)"
proof -
  have "r_workflowId (created_run cfg en wid inputs) = wid"
    using grows_runWorkflow [of "new_run (new_run_id en) wid inputs (iso en)"] by (simp add: created_run_def grows_def new_run_def)
  then show ?thesis using refine_created by (simp add: born_def)
qed

lemma born_moves: "moves cfg r r' \<Longrightarrow> born cfg r \<Longrightarrow> born cfg r'"
  unfolding moves_def born_def by (metis rtranclp_trans)

lemma mem_step_new:
  assumes "mem_step cfg h a h'" and "h_runs h rid = None" and "h_runs h' rid = Some r'"
  shows "born cfg r'"
  using assms
proof (induction rule: mem_step.induct)
  case (request h en rq)
  from mem_serve_effect [of cfg en h rq] obtain ef
    where runs: "h_runs (fst (mem_serve cfg en rq h)) = apply_effect cfg en ef (h_runs h)" unfolding has_effect_def by blast
  with request born_created show ?case
    by (cases ef) (auto split: option.splits if_splits)
qed (auto simp: set_run_def split: if_splits)

definition all_born :: "mem_config \<Rightarrow> mem_host \<Rightarrow> bool" where
  "all_born cfg h \<longleftrightarrow> (\<forall>rid r. h_runs h rid = Some r \<longrightarrow> born cfg r)"

lemma mem_step_born:
  assumes "mem_step cfg h a h'" and "host_ok cfg h" and "all_born cfg h"
  shows "all_born cfg h'"
  unfolding all_born_def
proof (intro allI impI)
  fix rid r'
  assume r': "h_runs h' rid = Some r'"
  show "born cfg r'"
  proof (cases "h_runs h rid")
    case None
    from mem_step_new [OF assms(1) this r'] show ?thesis .
  next
    case (Some r)
    with mem_step_moves [OF assms(1,2) Some] r' assms(3) born_moves show ?thesis by (auto simp: all_born_def)
  qed
qed

lemma mem_reachable_born: "mem_reachable cfg h \<Longrightarrow> all_born cfg h"
proof -
  have "trace (mem_step cfg) h0 as h' \<Longrightarrow> host_ok cfg h0 \<Longrightarrow> all_born cfg h0 \<Longrightarrow> all_born cfg h'" for h0 as h'
    by (induction rule: trace.induct) (auto intro: mem_step_born mem_sys.step_ok)
  moreover have "all_born cfg init_host" by (simp add: all_born_def init_host_def)
  ultimately show "mem_reachable cfg h \<Longrightarrow> all_born cfg h" unfolding mem_reachable_def using host_ok_init by blast
qed

text \<open>C10. The in-memory host refines the abstract run: in every reachable state a run stands where
  its machine can stand after some steps from the start, and over any further execution it
  moves on by a sequence of steps of the machine. So what the machine promises of its logs
  holds of the host's, and with each status there is the log that goes with it.\<close>

theorem mem_host_refines_abstract_runs:
  assumes "mem_reachable cfg h" and "mem_trace cfg h as h'" and "h_runs h rid = Some r"
    and "c_workflows cfg (r_workflowId r) = Some w"
  shows "spec_steps (wf_nodes w) spec_init (abs_run r) \<and> spec_ok (wf_nodes w) (abs_run r) \<and>
    (\<exists>r'. h_runs h' rid = Some r' \<and> spec_steps (wf_nodes w) (abs_run r) (abs_run r'))"
proof (intro conjI)
  show 1: "spec_steps (wf_nodes w) spec_init (abs_run r)"
    using mem_reachable_born [OF assms(1)] assms(3,4) by (auto simp: all_born_def born_def)
  show "spec_ok (wf_nodes w) (abs_run r)" by (rule spec_steps_ok [OF 1 spec_ok_init])
  show "\<exists>r'. h_runs h' rid = Some r' \<and> spec_steps (wf_nodes w) (abs_run r) (abs_run r')"
    using mem_spec.trace_run [OF assms(2) mem_reachable_ok [OF assms(1)] assms(3)] assms(4) by (auto simp: moves_def)
qed

lemma mem_host_refines_abstract_runs_witness:
  "spec_steps (wf_nodes demo_workflow) spec_init (abs_run (demo_run 0)) \<and>
   spec_ok (wf_nodes demo_workflow) (abs_run (demo_run 0))"
  using mem_host_refines_abstract_runs [OF demo_reachable_0 trace_nil demo_host_run, of demo_workflow]
  by (simp add: demo_run_0)

section \<open>Bounds\<close>

lemma length_log_upto: "i \<le> length ns \<Longrightarrow> length (log_upto ns i) = 2 * i + 1"
  by (induction i) (simp_all add: log_upto_Suc node_done_def)

lemma final_log_length:
  assumes "final_log ns st l"
  shows "length l \<le> 2 * length ns + 2" "st = Completed \<Longrightarrow> length l = 2 * length ns + 2"
  using assms by (cases st; auto simp: final_log_def completed_log_def failed_log_def cancelled_log_def length_log_upto)+

lemma spec_ok_length: "spec_ok ns s \<Longrightarrow> length (sp_log s) \<le> 2 * length ns + 2"
  by (induction ns s rule: spec_ok.induct) (auto simp: length_log_upto dest: final_log_length(1))

lemma sub_ok_length:
  assumes "sub_ok evs b s"
  shows "length (s_out s) \<le> length evs"
proof -
  obtain k m where k: "k \<le> length evs" "sub_sent evs s k m" using assms unfolding sub_ok_def by blast
  have "length (filter p (take k evs)) \<le> k" for p using length_filter_le [of p "take k evs"] by simp
  note this [of "\<lambda>e. nat_gt_num (e_seq e) (s_after s)"]
  with k show ?thesis by (simp add: sub_sent_def)
qed

text \<open>C11. Logs are bounded: in every reachable state of the in-memory host a run has at most two
  events for each node of its workflow and two more, a completed run exactly that many; the
  numbers of its events stay below that bound, and no stream has written more.\<close>

theorem run_logs_are_bounded:
  assumes "mem_reachable cfg h" and "h_runs h rid = Some r" and "c_workflows cfg (r_workflowId r) = Some w"
  shows "length (r_events r) \<le> 2 * length (wf_nodes w) + 2 \<and>
    (r_status r = Completed \<longrightarrow> length (r_events r) = 2 * length (wf_nodes w) + 2) \<and>
    list_all (\<lambda>e. e_seq e < 2 * length (wf_nodes w) + 2) (r_events r) \<and>
    list_all (\<lambda>s. length (s_out s) \<le> 2 * length (wf_nodes w) + 2) (r_subs r)"
proof -
  obtain w' where "c_workflows cfg (r_workflowId r) = Some w'" and ok': "run_ok (wf_nodes w') r"
    using mem_reachable_run [OF assms(1,2)] by metis
  with assms(3) have ok: "run_ok (wf_nodes w) r" by simp
  have "spec_steps (wf_nodes w) spec_init (abs_run r)"
    using mem_reachable_born [OF assms(1)] assms(2,3) by (auto simp: all_born_def born_def)
  from spec_ok_length [OF spec_steps_ok [OF this spec_ok_init]]
  have len: "length (r_events r) \<le> 2 * length (wf_nodes w) + 2" by (simp add: abs_run_def shapes_def)
  moreover have "length (r_events r) = 2 * length (wf_nodes w) + 2" if "r_status r = Completed"
    using final_log_length(2) [OF run_ok_final_log [OF ok]] that by (simp add: shapes_def)
  moreover have "e_seq e < length (r_events r)" if "e \<in> set (r_events r)" for e
    using that ok numbered_nth [of "r_events r"] seqs_ok_numbered [of r] by (auto simp: run_ok_def in_set_conv_nth)
  moreover have "length (s_out s) \<le> length (r_events r)" if "s \<in> set (r_subs r)" for s
    using that ok sub_ok_length by (auto simp: run_ok_def subs_ok_def)
  ultimately show ?thesis by (auto simp: list_all_iff intro: less_le_trans le_trans)
qed

lemma run_logs_are_bounded_witness: "length (r_events (demo_run 3)) \<le> 4"
proof -
  obtain w where w: "c_workflows demo_cfg (r_workflowId (demo_run 3)) = Some w"
    using mem_reachable_run [OF demo_reachable_3 demo_host_run] by metis
  then have "w = demo_workflow" by (simp add: demo_cfg_def split: if_splits)
  with run_logs_are_bounded [OF demo_reachable_3 demo_host_run w] show ?thesis by (simp add: demo_workflow_def)
qed

end
