(* ===== verification/Wire.thy ===== *)
theory Wire
  imports MemHttp
begin

text \<open>
  Requests on the wire: what a client hands to \<^verbatim>\<open>fetch\<close>, how its URL is encoded, and
  what of it reaches a handler of a host as a \<^typ>\<open>request\<close>.
\<close>

section \<open>URL encoding\<close>

text \<open>
  \<^verbatim>\<open>encodeURIComponent\<close> and the two directions of \<^verbatim>\<open>URLSearchParams\<close>, byte by
  byte. A \<^verbatim>\<open>%\<close> that two hexadecimal digits do not follow stands for itself.
\<close>

definition is_alnum :: "char \<Rightarrow> bool" where
  "is_alnum c \<longleftrightarrow> (let n = of_char c :: nat in 48 \<le> n \<and> n \<le> 57 \<or> 65 \<le> n \<and> n \<le> 90 \<or> 97 \<le> n \<and> n \<le> 122)"

definition upper_hex :: "nat \<Rightarrow> char" where
  "upper_hex d = (if d < 10 then digit_char d else char_of (55 + d))"

definition percent :: "char \<Rightarrow> string" where
  "percent c = (let n = of_char c :: nat in [CHR ''%'', upper_hex (n div 16), upper_hex (n mod 16)])"

definition uri_safe :: "char \<Rightarrow> bool" where
  "uri_safe c \<longleftrightarrow> is_alnum c \<or> c \<in> set (''-_.!~*()'' @ [CHR 0x27])"

definition encodeURIComponent :: "string \<Rightarrow> string" where
  "encodeURIComponent s = concat (map (\<lambda>c. if uri_safe c then [c] else percent c) s)"

definition form_safe :: "char \<Rightarrow> bool" where
  "form_safe c \<longleftrightarrow> is_alnum c \<or> c \<in> set ''*-._''"

definition form_encode :: "string \<Rightarrow> string" where
  "form_encode s = concat (map (\<lambda>c. if form_safe c then [c] else if c = CHR '' '' then ''+'' else percent c) s)"

definition query_string :: "(string \<times> string) list \<Rightarrow> string" where
  "query_string params = join_with ''&'' (map (\<lambda>(k, v). form_encode k @ ''='' @ form_encode v) params)"

text \<open>\<^verbatim>\<open>String(n)\<close>.\<close>

fun num_text :: "num \<Rightarrow> string" where
  "num_text NotANumber = ''NaN''"
| "num_text (Infinite p) = (if p then ''Infinity'' else ''-Infinity'')"
| "num_text (Decimal m d) = dec_str m d"

text \<open>\<^verbatim>\<open>String(v)\<close>, for objects without methods of their own.\<close>

fun js_String :: "json \<Rightarrow> string" where
  "js_String JNull = ''null''"
| "js_String (JBool b) = (if b then ''true'' else ''false'')"
| "js_String (JNum n) = num_text n"
| "js_String (JStr s) = s"
| "js_String (JArr xs) = join_with '','' (map (\<lambda>x. if x = JNull then [] else js_String x) xs)"
| "js_String (JObj fs) = ''[object Object]''"

fun form_decode :: "string \<Rightarrow> string" where
  "form_decode [] = []"
| "form_decode (c # s) =
     (if c = CHR ''+'' then CHR '' '' # form_decode s
      else if c = CHR ''%'' then
        (case s of
           a # b # r \<Rightarrow> (case radix_val 16 0 [a, b] of
                            Some n \<Rightarrow> char_of n # form_decode r | None \<Rightarrow> c # form_decode s)
         | _ \<Rightarrow> c # form_decode s)
      else c # form_decode s)"

definition parse_pair :: "string \<Rightarrow> string \<times> string" where
  "parse_pair s =
     (case index_of ''='' s of
        None \<Rightarrow> (form_decode s, [])
      | Some i \<Rightarrow> (form_decode (take i s), form_decode (drop (Suc i) s)))"

definition parse_query :: "string \<Rightarrow> (string \<times> string) list" where
  "parse_query s = map parse_pair (filter (\<lambda>x. x \<noteq> []) (split_on CHR ''&'' s))"

section \<open>Requests and their delivery\<close>

record http_request =
  hr_method :: string
  hr_url :: string
  hr_headers :: "(string \<times> string) list"
  hr_body :: "string option"

definition ascii_lower :: "string \<Rightarrow> string" where
  "ascii_lower s = map (\<lambda>c. let n = of_char c :: nat in if 65 \<le> n \<and> n \<le> 90 then char_of (n + 32) else c) s"

text \<open>
  The request as the handlers of a host at \<open>origin\<close> see it: the target split at the first
  \<^verbatim>\<open>?\<close>, header names in lower case. This is the URL parser's result for targets
  without dot segments, and the clients here send no two names that differ in case only.
\<close>

definition deliver :: "string \<Rightarrow> http_request \<Rightarrow> request" where
  "deliver origin hr =
     (let target = drop (length origin) (hr_url hr);
          path = takeWhile (\<lambda>c. c \<noteq> CHR ''?'') target
      in \<lparr>rq_method = hr_method hr, rq_path = Some path,
          rq_query = parse_query (drop (Suc (length path)) target),
          rq_headers = map_of (map (\<lambda>(k, v). (ascii_lower k, v)) (hr_headers hr)),
          rq_body = (case hr_body hr of None \<Rightarrow> [] | Some b \<Rightarrow> b)\<rparr>)"

text \<open>\<^verbatim>\<open>headers[k] = v\<close> on a headers object.\<close>

fun put_header :: "string \<Rightarrow> string \<Rightarrow> (string \<times> string) list \<Rightarrow> (string \<times> string) list" where
  "put_header k v [] = [(k, v)]"
| "put_header k v ((k', v') # hs) = (if k = k' then (k, v) # hs else (k', v') # put_header k v hs)"

text \<open>\<^verbatim>\<open>{...a, ...b}\<close>.\<close>

definition spread_headers :: "(string \<times> string) list \<Rightarrow> (string \<times> string) list \<Rightarrow> (string \<times> string) list" where
  "spread_headers a b = fold (\<lambda>(k, v). put_header k v) b a"

text \<open>What \<^verbatim>\<open>fetch\<close> and reading the body text give.\<close>

datatype fetched = NetworkError string | Fetched response

definition response_ok :: "nat \<Rightarrow> bool" where
  "response_ok status \<longleftrightarrow> 200 \<le> status \<and> status \<le> 299"

text \<open>A strip of one trailing slash, as the clients do with their base URL.\<close>

definition strip_slash :: "string \<Rightarrow> string" where
  "strip_slash s = strip_last CHR ''/'' s"

section \<open>Laws\<close>

lemma upper_hex_digit: "d < 16 \<Longrightarrow> radix_digit 16 (upper_hex d) = Some d"
  by (auto simp: upper_hex_def digit_char_def radix_digit_def Let_def)

lemma form_decode_percent [simp]: "form_decode (percent c @ s) = c # form_decode s"
proof -
  have "of_char c < (256 :: nat)" by simp
  then have "(of_char c :: nat) div 16 < 16" by (simp only: less_mult_imp_div_less)
  then have "radix_val 16 0 [upper_hex (of_char c div 16), upper_hex (of_char c mod 16)] = Some (of_char c)"
    by (simp add: upper_hex_digit)
  then show ?thesis by (simp add: percent_def Let_def)
qed

lemma form_safe_excludes: "form_safe c \<Longrightarrow> c \<noteq> CHR ''+'' \<and> c \<noteq> CHR ''%'' \<and> c \<noteq> CHR ''&'' \<and> c \<noteq> CHR ''=''"
  by (auto simp: form_safe_def is_alnum_def)

lemma form_encode_simps [simp]:
  "form_encode [] = []"
  "form_encode (c # s) = (if form_safe c then [c] else if c = CHR '' '' then ''+'' else percent c) @ form_encode s"
  by (simp_all add: form_encode_def)

lemma form_roundtrip [simp]: "form_decode (form_encode s) = s"
  by (induction s) (auto dest: form_safe_excludes)

lemma upper_hex_plain: "d < 16 \<Longrightarrow> is_alnum (upper_hex d)"
  by (auto simp: upper_hex_def is_alnum_def digit_char_def Let_def)

lemma percent_chars: "x \<in> set (percent c) \<Longrightarrow> x = CHR ''%'' \<or> is_alnum x"
proof -
  have "of_char c < (256 :: nat)" by simp
  then have "(of_char c :: nat) div 16 < 16" by (simp only: less_mult_imp_div_less)
  then show "x \<in> set (percent c) \<Longrightarrow> x = CHR ''%'' \<or> is_alnum x"
    by (auto simp: percent_def Let_def upper_hex_plain)
qed

lemma form_encode_plain: "CHR ''&'' \<notin> set (form_encode s)" "CHR ''='' \<notin> set (form_encode s)"
proof -
  have "x \<noteq> CHR ''&'' \<and> x \<noteq> CHR ''=''" if "x \<in> set (form_encode s)" for x
    using that by (induction s) (auto split: if_splits dest: form_safe_excludes percent_chars simp: is_alnum_def)
  then show "CHR ''&'' \<notin> set (form_encode s)" "CHR ''='' \<notin> set (form_encode s)" by blast+
qed

lemma split_join:
  "ss \<noteq> [] \<Longrightarrow> list_all (\<lambda>s. c \<notin> set s) ss \<Longrightarrow> split_on c (join_with [c] ss) = ss"
proof (induction ss)
  case (Cons x ss)
  then show ?case
    using split_on_append [of c x "join_with [c] ss"] by (cases "ss = []") (simp_all add: split_on_no_sep join_with_Cons)
qed simp

lemma index_of_single: "x \<notin> set s \<Longrightarrow> index_of [x] (s @ x # t) = Some (length s)"
  by (induction s) auto

lemma parse_pair_of [simp]: "parse_pair (form_encode k @ ''='' @ form_encode v) = (k, v)"
  by (simp add: parse_pair_def index_of_single form_encode_plain)

lemma parse_query_string: "parse_query (query_string ps) = ps"
proof (cases "ps = []")
  case True
  then show ?thesis by (simp add: query_string_def parse_query_def)
next
  case False
  let ?ss = "map (\<lambda>(k, v). form_encode k @ ''='' @ form_encode v) ps"
  have plain: "list_all (\<lambda>s. CHR ''&'' \<notin> set s) ?ss" by (auto simp: list_all_iff form_encode_plain)
  with False have "split_on CHR ''&'' (query_string ps) = ?ss"
    unfolding query_string_def by (intro split_join) auto
  moreover have "filter (\<lambda>x. x \<noteq> []) ?ss = ?ss" by (rule filter_True) auto
  moreover have "map parse_pair ?ss = ps" by (induction ps) (auto simp del: append_Cons)
  ultimately show ?thesis by (simp add: parse_query_def)
qed

lemma encode_safe: "list_all uri_safe s \<Longrightarrow> encodeURIComponent s = s"
  by (induction s) (simp_all add: encodeURIComponent_def)

lemma uri_safe_excludes: "uri_safe c \<Longrightarrow> c \<noteq> CHR ''?'' \<and> c \<noteq> CHR ''/'' \<and> c \<noteq> CHR ''#''"
  by (auto simp: uri_safe_def is_alnum_def)

lemma put_header_other: "k \<noteq> k' \<Longrightarrow> map_of (put_header k v hs) k' = map_of hs k'"
  by (induction k v hs rule: put_header.induct) auto

lemma put_header_same: "map_of (put_header k v hs) k = Some v"
  by (induction k v hs rule: put_header.induct) auto

lemma map_of_put_header: "map_of (put_header k v hs) = (map_of hs)(k \<mapsto> v)"
  by (rule ext) (simp add: put_header_other put_header_same)

text \<open>A target whose path has no question mark is delivered whole.\<close>

lemma deliver_target:
  assumes "hr_url hr = origin @ path @ (if ps = [] then [] else CHR ''?'' # query_string ps)"
    and "CHR ''?'' \<notin> set path"
  shows "rq_path (deliver origin hr) = Some path" "rq_query (deliver origin hr) = ps"
proof -
  let ?q = "if ps = [] then [] else CHR ''?'' # query_string ps"
  have "takeWhile (\<lambda>c. c \<noteq> CHR ''?'') (path @ ?q) = path"
    by (rule takeWhile_all_append [THEN conjunct1]) (use assms(2) in auto)
  then show "rq_path (deliver origin hr) = Some path" "rq_query (deliver origin hr) = ps"
    by (simp_all add: deliver_def assms(1) Let_def parse_query_string) (simp add: parse_query_def)
qed

end
