(* ===== verification/Sse.thy ===== *)
theory Sse
  imports Wire
begin

text \<open>
  The two readers of server-sent events: \<^verbatim>\<open>sdk/typescript/src/sse.ts\<close> and
  \<^verbatim>\<open>conformance/src/lib/sse.ts\<close>. They share the loop that cuts the stream into
  lines and the fields into a pending event, and differ in what a blank line makes of it.
  The network is the parameter \<open>fetch\<close>: what a request is answered with, as a list of
  chunks and how the reading ends. Texts are byte strings here as everywhere in the model, and
  a chunk is what the incremental decoder gives for it.
\<close>

section \<open>Pending events and fields\<close>

record sse_pending =
  p_event :: string
  p_data :: "string list"
  p_id :: "string option"

definition fresh_pending :: sse_pending where
  "fresh_pending = \<lparr>p_event = ''message'', p_data = [], p_id = None\<rparr>"

text \<open>A line that is neither blank nor a comment: its field name and its value.\<close>

definition split_field :: "string \<Rightarrow> string \<times> string" where
  "split_field rawLine =
     (let colon = index_of '':'' rawLine;
          field = (case colon of None \<Rightarrow> rawLine | Some i \<Rightarrow> take i rawLine);
          valueRaw = (case colon of None \<Rightarrow> [] | Some i \<Rightarrow> drop (Suc i) rawLine)
      in (field, if starts_with valueRaw '' '' then drop 1 valueRaw else valueRaw))"

definition on_field :: "string \<times> string \<Rightarrow> sse_pending \<Rightarrow> sse_pending" where
  "on_field fv p =
     (if fst fv = ''event'' then p\<lparr>p_event := snd fv\<rparr>
      else if fst fv = ''data'' then p\<lparr>p_data := p_data p @ [snd fv]\<rparr>
      else if fst fv = ''id'' then p\<lparr>p_id := Some (snd fv)\<rparr>
      else p)"

text \<open>One line. \<open>flush\<close> is the reader's own: the pending event reset, and what it gives out.\<close>

definition on_line :: "(sse_pending \<Rightarrow> sse_pending \<times> 'e list) \<Rightarrow> string \<Rightarrow> sse_pending \<times> 'e list \<Rightarrow> sse_pending \<times> 'e list" where
  "on_line flush rawLine st =
     (if rawLine = [] then (let (p, evs) = flush (fst st) in (p, snd st @ evs))
      else if starts_with rawLine '':'' then st
      else (on_field (split_field rawLine) (fst st), snd st))"

section \<open>The reading loop\<close>

lemma index_of_length: "index_of p s = Some i \<Longrightarrow> p \<noteq> [] \<Longrightarrow> i < length s"
  using index_of_Some [of p s i] by (cases p) auto

text \<open>The inner loop: every line that ends in the buffer; what is left has no line end.\<close>

function drain :: "(sse_pending \<Rightarrow> sse_pending \<times> 'e list) \<Rightarrow> string \<Rightarrow> sse_pending \<times> 'e list \<Rightarrow> string \<times> sse_pending \<times> 'e list" where
  "drain flush buffer st =
     (case index_of [CHR 0x0A] buffer of
        None \<Rightarrow> (buffer, st)
      | Some nlIdx \<Rightarrow>
          drain flush (drop (Suc nlIdx) buffer) (on_line flush (strip_last CHR 0x0D (take nlIdx buffer)) st))"
  by pat_completeness auto

termination
  by (relation "measure (\<lambda>(f, b, st). length b)") (auto dest: index_of_length)

declare drain.simps [simp del]

text \<open>The outer loop over the chunks.\<close>

fun read_chunks :: "(sse_pending \<Rightarrow> sse_pending \<times> 'e list) \<Rightarrow> string list \<Rightarrow> string \<times> sse_pending \<times> 'e list \<Rightarrow> string \<times> sse_pending \<times> 'e list" where
  "read_chunks flush [] s = s"
| "read_chunks flush (value # cs) (buffer, st) = read_chunks flush cs (drain flush (buffer @ value) st)"

definition start_state :: "string \<times> sse_pending \<times> 'e list" where
  "start_state = ([], fresh_pending, [])"

text \<open>The events given out when the stream has ended: the last flush included.\<close>

definition events_at_end :: "(sse_pending \<Rightarrow> sse_pending \<times> 'e list) \<Rightarrow> string list \<Rightarrow> 'e list" where
  "events_at_end flush chunks =
     (let (buffer, p, evs) = read_chunks flush chunks start_state in evs @ snd (flush p))"

definition events_so_far :: "(sse_pending \<Rightarrow> sse_pending \<times> 'e list) \<Rightarrow> string list \<Rightarrow> 'e list" where
  "events_so_far flush chunks = snd (snd (read_chunks flush chunks start_state))"

section \<open>The two flushes\<close>

text \<open>The SDK: JSON values, one for each event or the elements of a batch.\<close>

definition flushAndYield :: "sse_pending \<Rightarrow> sse_pending \<times> json list" where
  "flushAndYield p =
     (fresh_pending,
      if p_data p = [] then []
      else (case json_parse (join_with [CHR 0x0A] (p_data p)) of
              None \<Rightarrow> []
            | Some parsed \<Rightarrow>
                (case parsed of
                   JArr xs \<Rightarrow> if p_event p = ''batch'' then xs else [parsed]
                 | _ \<Rightarrow> [parsed])))"

text \<open>The conformance suite: the raw events.\<close>

record sse_event =
  se_event :: string
  se_data :: string
  se_id :: "string option"

definition flushEvent :: "sse_pending \<Rightarrow> sse_pending \<times> sse_event list" where
  "flushEvent p =
     (fresh_pending,
      if p_data p = [] then []
      else [\<lparr>se_event = p_event p, se_data = join_with [CHR 0x0A] (p_data p), se_id = p_id p\<rparr>])"

section \<open>Requests and responses\<close>

datatype stream_end = EndDone | EndAborted bool \<comment> \<open>by the caller's signal\<close> | EndError string

text \<open>A response: its status, and its body unless it is \<^verbatim>\<open>null\<close>.\<close>

datatype stream_answer = FetchThrows string | Answer nat "(string list \<times> stream_end) option"

section \<open>streamEvents of the SDK\<close>

datatype stream_mode = OneMode string | ManyModes "string list"

record stream_opts =
  so_streamMode :: "stream_mode option"
  so_lastEventId :: "string option"
  so_bufferMs :: "num option"

record sdk_ctx =
  k_baseUrl :: string
  k_apiKey :: string

definition stream_params :: "stream_opts \<Rightarrow> (string \<times> string) list" where
  "stream_params opts =
     (case so_streamMode opts of
        None \<Rightarrow> []
      | Some (OneMode m) \<Rightarrow> if m = [] then [] else [(''streamMode'', m)]
      | Some (ManyModes ms) \<Rightarrow> [(''streamMode'', join_with '','' ms)]) @
     (case so_bufferMs opts of None \<Rightarrow> [] | Some n \<Rightarrow> [(''bufferMs'', num_text n)])"

definition stream_headers :: "string \<Rightarrow> string option \<Rightarrow> (string \<times> string) list" where
  "stream_headers apiKey lastEventId =
     [(''Accept'', ''text/event-stream''), (''Authorization'', ''Bearer '' @ apiKey), (''Cache-Control'', ''no-cache'')] @
     (case lastEventId of None \<Rightarrow> [] | Some i \<Rightarrow> if i = [] then [] else [(''Last-Event-ID'', i)])"

definition get_stream :: "string \<Rightarrow> (string \<times> string) list \<Rightarrow> http_request" where
  "get_stream url headers = \<lparr>hr_method = ''GET'', hr_url = url, hr_headers = headers, hr_body = None\<rparr>"

text \<open>What a consumer of the generator sees: the events it yields, and how it ends.\<close>

datatype stream_result = Yields "json list" "string option" \<comment> \<open>and the message it throws at the end\<close>

definition read_answer :: "stream_answer \<Rightarrow> stream_result" where
  "read_answer res =
     (case res of
        FetchThrows m \<Rightarrow> Yields [] (Some m)
      | Answer status body \<Rightarrow>
          (if \<not> response_ok status then Yields [] (Some (''SSE subscribe failed: HTTP '' @ nat_str status))
           else case body of
             None \<Rightarrow> Yields [] (Some (''SSE subscribe failed: HTTP '' @ nat_str status))
           | Some (chunks, EndDone) \<Rightarrow> Yields (events_at_end flushAndYield chunks) None
           | Some (chunks, EndAborted c) \<Rightarrow> Yields (events_so_far flushAndYield chunks) (Some ''AbortError'')
           | Some (chunks, EndError m) \<Rightarrow> Yields (events_so_far flushAndYield chunks) (Some m)))"

definition streamEvents :: "(http_request \<Rightarrow> stream_answer) \<Rightarrow> sdk_ctx \<Rightarrow> string \<Rightarrow> stream_opts \<Rightarrow> stream_result" where
  "streamEvents fetch ctx runId opts =
     (let qs = query_string (stream_params opts);
          url = k_baseUrl ctx @ ''/v1/runs/'' @ encodeURIComponent runId @ ''/events'' @ (if qs \<noteq> [] then ''?'' @ qs else [])
      in read_answer (fetch (get_stream url (stream_headers (k_apiKey ctx) (so_lastEventId opts)))))"

section \<open>subscribe of the conformance suite\<close>

datatype closed_by = ByServer | ByTimeout | ByCaller

record subscribe_result =
  sb_events :: "sse_event list"
  sb_status :: nat
  sb_closedBy :: closed_by

definition collect_answer :: "stream_answer \<Rightarrow> string + subscribe_result" where
  "collect_answer res =
     (case res of
        FetchThrows m \<Rightarrow> Inl m
      | Answer status body \<Rightarrow>
          (let closed = (\<lambda>chunks by. Inr \<lparr>sb_events = events_at_end flushEvent chunks, sb_status = status, sb_closedBy = by\<rparr>) in
           if \<not> response_ok status then Inr \<lparr>sb_events = [], sb_status = status, sb_closedBy = ByServer\<rparr>
           else case body of
             None \<Rightarrow> Inr \<lparr>sb_events = [], sb_status = status, sb_closedBy = ByServer\<rparr>
           | Some (chunks, EndDone) \<Rightarrow> closed chunks ByServer
           | Some (chunks, EndAborted c) \<Rightarrow> closed chunks (if c then ByCaller else ByTimeout)
           | Some (chunks, EndError m) \<Rightarrow> Inl m))"

definition subscribe_sse :: "(http_request \<Rightarrow> stream_answer) \<Rightarrow> sdk_ctx \<Rightarrow> string \<Rightarrow> string option \<Rightarrow> string + subscribe_result" where
  "subscribe_sse fetch env pathWithQuery lastEventId =
     collect_answer (fetch (get_stream (k_baseUrl env @ pathWithQuery) (stream_headers (k_apiKey env) lastEventId)))"

end
