(* ===== verification/SseLaws.thy ===== *)
theory SseLaws
  imports Sse
begin

text \<open>
  Laws of the event-stream readers. The interface \<open>sse_reader\<close> is what the reading loop needs
  of a flush: it resets the pending event and gives out nothing when there is no data. Under
  it, reading does not depend on how the stream is cut into chunks, and the frames the hosts
  write are read back one by one; both readers are instances.
\<close>

section \<open>Lines\<close>

lemma index_of_char_append: "index_of [x] s = Some i \<Longrightarrow> index_of [x] (s @ t) = Some i"
  by (induction s arbitrary: i) (auto split: if_splits)

lemma index_of_char_first: "x \<notin> set s \<Longrightarrow> index_of [x] (s @ x # t) = Some (length s)"
  by (induction s) auto

lemma index_of_char_None: "index_of [x] s = None \<longleftrightarrow> x \<notin> set s"
  by (induction s) auto

lemma drain_line:
  "CHR 0x0A \<notin> set l \<Longrightarrow>
     drain flush (l @ CHR 0x0A # rest) st = drain flush rest (on_line flush (strip_last CHR 0x0D l) st)"
  by (subst drain.simps) (simp add: index_of_char_first)

lemma drain_none: "CHR 0x0A \<notin> set b \<Longrightarrow> drain flush b st = (b, st)"
  by (subst drain.simps) (simp add: index_of_char_None [symmetric])

lemma drain_rest: "CHR 0x0A \<notin> set (fst (drain flush b st))"
proof (induction flush b st rule: drain.induct)
  case (1 flush b st)
  show ?case
  proof (cases "index_of [CHR 0x0A] b")
    case None
    then show ?thesis by (simp add: drain_none index_of_char_None)
  next
    case (Some i)
    with 1 [OF Some] show ?thesis by (subst drain.simps) simp
  qed
qed

lemma drain_append:
  "drain flush (b @ c) st = (let (b', st') = drain flush b st in drain flush (b' @ c) st')"
proof (induction flush b st rule: drain.induct)
  case (1 flush b st)
  show ?case
  proof (cases "index_of [CHR 0x0A] b")
    case None
    then show ?thesis by (simp add: drain_none index_of_char_None)
  next
    case (Some i)
    then have i: "i < length b" "index_of [CHR 0x0A] (b @ c) = Some i"
      by (auto dest: index_of_length index_of_char_append)
    have "drain flush (b @ c) st =
        drain flush (drop (Suc i) b @ c) (on_line flush (strip_last CHR 0x0D (take i b)) st)"
      using i by (subst drain.simps) simp
    also have "\<dots> = (let (b', st') = drain flush b st in drain flush (b' @ c) st')"
      using 1 [OF Some] Some by (subst (2) drain.simps) simp
    finally show ?thesis .
  qed
qed

section \<open>Chunks\<close>

lemma read_chunks_concat:
  "CHR 0x0A \<notin> set b \<Longrightarrow> read_chunks flush cs (b, st) = drain flush (b @ concat cs) st"
proof (induction cs arbitrary: b st)
  case (Cons v cs)
  obtain b' st' where d: "drain flush (b @ v) st = (b', st')" by (cases "drain flush (b @ v) st")
  with drain_rest [of flush "b @ v" st] have "CHR 0x0A \<notin> set b'" by simp
  from Cons.IH [OF this, of st'] d drain_append [of flush "b @ v" "concat cs" st] show ?case by simp
qed (simp add: drain_none)

lemma read_chunks_start: "read_chunks flush cs start_state = drain flush (concat cs) (fresh_pending, [])"
  by (simp add: start_state_def read_chunks_concat)

lemma events_at_end_drain:
  "events_at_end flush cs =
     (let (b, p, evs) = drain flush (concat cs) (fresh_pending, []) in evs @ snd (flush p))"
  by (simp add: events_at_end_def read_chunks_start)

section \<open>The interface of a reader\<close>

text \<open>The lines of a frame, as the hosts write them.\<close>

definition frame_text :: "string \<Rightarrow> string \<Rightarrow> string \<Rightarrow> string" where
  "frame_text i ty d =
     ''id: '' @ i @ [CHR 0x0A] @ ''event: '' @ ty @ [CHR 0x0A] @ ''data: '' @ d @ [CHR 0x0A, CHR 0x0A]"

lemma sse_frame_text: "sse_frame ej e = frame_text (nat_str (e_seq e)) (type_str (e_type e)) (stringify (ej e))"
  by (simp add: sse_frame_def frame_text_def)

definition one_line :: "string \<Rightarrow> bool" where
  "one_line s \<longleftrightarrow> CHR 0x0A \<notin> set s \<and> CHR 0x0D \<notin> set s"

lemma one_line_simps [simp]: "one_line (c # s) \<longleftrightarrow> c \<noteq> CHR 0x0A \<and> c \<noteq> CHR 0x0D \<and> one_line s" "one_line []"
  by (auto simp: one_line_def)

lemma one_line_texts: "one_line (nat_str n)" "one_line (type_str ty)" "one_line (stringify j)"
proof -
  show "one_line (nat_str n)"
    using nat_str_digits [of "CHR 0x0A" n] nat_str_digits [of "CHR 0x0D" n]
    by (auto simp: one_line_def is_digit_def)
  show "one_line (type_str ty)" by (cases ty) (simp_all add: one_line_def)
  show "one_line (stringify j)" by (simp add: one_line_def stringify_no_line_end)
qed

lemma split_field_of: "CHR '':'' \<notin> set f \<Longrightarrow> split_field (f @ '': '' @ v) = (f, v)"
  using index_of_char_first [of "CHR '':''" f "CHR '' '' # v"] by (simp add: split_field_def)

text \<open>Text without carriage returns and without blank lines.\<close>

definition quiet :: "string \<Rightarrow> bool" where
  "quiet t \<longleftrightarrow> CHR 0x0D \<notin> set t \<and> \<not> starts_with t [CHR 0x0A] \<and> \<not> contains t [CHR 0x0A, CHR 0x0A]"

lemma quiet_prefix: "quiet (t @ u) \<Longrightarrow> quiet t"
proof -
  have "contains (t @ u) t" using contains_append [of "[]" t u] by simp
  then show "quiet (t @ u) \<Longrightarrow> quiet t"
    using contains_trans [of "t @ u" t] by (auto simp: quiet_def starts_with_iff)
qed

lemma quiet_line:
  assumes "quiet t" and "index_of [CHR 0x0A] t = Some i"
  shows "\<exists>l t'. t = l @ CHR 0x0A # t' \<and> CHR 0x0A \<notin> set l \<and> l \<noteq> [] \<and> CHR 0x0D \<notin> set l \<and> quiet t'"
proof -
  have "CHR 0x0A \<in> set t" using assms(2) index_of_char_None [of "CHR 0x0A" t] by auto
  then obtain l t' where t: "t = l @ CHR 0x0A # t'" "CHR 0x0A \<notin> set l" by (meson split_list_first)
  have "l \<noteq> []" using assms(1) t(1) by (auto simp: quiet_def)
  have "CHR 0x0D \<notin> set t" using assms(1) by (simp add: quiet_def)
  moreover have "\<not> starts_with t' [CHR 0x0A]"
  proof
    assume "starts_with t' [CHR 0x0A]"
    then obtain r where "t' = CHR 0x0A # r" by (auto simp: starts_with_iff)
    with t(1) have "contains t [CHR 0x0A, CHR 0x0A]" using contains_append [of l "[CHR 0x0A, CHR 0x0A]" r] by simp
    with assms(1) show False by (simp add: quiet_def)
  qed
  moreover have "\<not> contains t' [CHR 0x0A, CHR 0x0A]"
  proof
    assume "contains t' [CHR 0x0A, CHR 0x0A]"
    then obtain u v where "t' = u @ [CHR 0x0A, CHR 0x0A] @ v" by (auto simp: contains_def)
    with t(1) have "contains t [CHR 0x0A, CHR 0x0A]"
      using contains_append [of "l @ CHR 0x0A # u" "[CHR 0x0A, CHR 0x0A]" v] by simp
    with assms(1) show False by (simp add: quiet_def)
  qed
  ultimately have "quiet t'" "CHR 0x0D \<notin> set l" using t(1) by (simp_all add: quiet_def)
  with t \<open>l \<noteq> []\<close> show ?thesis by blast
qed

lemma quiet_append_line:
  assumes "one_line l" and "l \<noteq> []" and "t = [] \<or> quiet t"
  shows "quiet (l @ CHR 0x0A # t)"
proof -
  have "\<not> contains (l @ CHR 0x0A # t) [CHR 0x0A, CHR 0x0A]"
  proof
    assume "contains (l @ CHR 0x0A # t) [CHR 0x0A, CHR 0x0A]"
    then obtain u v where uv: "l @ CHR 0x0A # t = u @ CHR 0x0A # CHR 0x0A # v" by (auto simp: contains_def)
    have "us = []" if "us @ CHR 0x0A # t = CHR 0x0A # w" and "l = u @ us" for us w
      using that assms(1) by (cases us) (auto simp: one_line_def)
    with uv obtain w where w: "u = l @ w" by (auto simp: append_eq_append_conv2)
    with uv show False using assms(3)
      by (cases w) (auto simp: quiet_def contains_def)
  qed
  moreover have "\<not> starts_with (l @ CHR 0x0A # t) [CHR 0x0A]"
    using assms(1,2) by (cases l) auto
  ultimately show ?thesis using assms(1,3) by (auto simp: quiet_def one_line_def)
qed

lemma quiet_frame:
  assumes "one_line i" and "one_line ty" and "one_line d" and "n < length (frame_text i ty d)"
  shows "quiet (take n (frame_text i ty d))"
proof -
  let ?body = "''id: '' @ i @ CHR 0x0A # ''event: '' @ ty @ CHR 0x0A # ''data: '' @ d @ CHR 0x0A # []"
  have ol: "one_line (''id: '' @ i)" "one_line (''event: '' @ ty)" "one_line (''data: '' @ d)"
    using assms(1-3) by (simp_all add: one_line_def)
  have "quiet ((''data: '' @ d) @ CHR 0x0A # [])" by (rule quiet_append_line [OF ol(3)]) simp_all
  then have "quiet ((''event: '' @ ty) @ CHR 0x0A # (''data: '' @ d) @ CHR 0x0A # [])"
    by (intro quiet_append_line [OF ol(2)]) simp_all
  then have "quiet ((''id: '' @ i) @ CHR 0x0A # (''event: '' @ ty) @ CHR 0x0A # (''data: '' @ d) @ CHR 0x0A # [])"
    by (intro quiet_append_line [OF ol(1)]) simp_all
  then have q: "quiet ?body" by simp
  have f: "frame_text i ty d = ?body @ [CHR 0x0A]" by (simp add: frame_text_def)
  have "n \<le> length ?body" using assms(4) unfolding f length_append by simp
  then have "take n (frame_text i ty d) = take n ?body" unfolding f take_append by simp
  moreover have "quiet (take n ?body @ drop n ?body)" using q by (simp only: append_take_drop_id)
  ultimately show ?thesis using quiet_prefix by metis
qed

locale sse_reader =
  fixes flush :: "sse_pending \<Rightarrow> sse_pending \<times> 'e list"
  assumes flush_resets: "fst (flush p) = fresh_pending"
    and flush_empty: "p_data p = [] \<Longrightarrow> snd (flush p) = []"
begin

lemma field_line:
  assumes "one_line v" and "one_line f" and "CHR '':'' \<notin> set f" and "f \<noteq> []"
  shows "drain flush (f @ '': '' @ v @ CHR 0x0A # rest) (p, out) = drain flush rest (on_field (f, v) p, out)"
proof -
  let ?l = "f @ '': '' @ v"
  have l: "CHR 0x0A \<notin> set ?l" "strip_last CHR 0x0D ?l = ?l"
    using assms(1,2) by (auto simp: one_line_def intro!: strip_last_id)
  have "on_line flush ?l (p, out) = (on_field (f, v) p, out)"
    using assms(3,4) split_field_of [OF assms(3), of v] by (cases f) (auto simp: on_line_def)
  with drain_line [OF l(1), of flush rest "(p, out)"] l(2) show ?thesis by simp
qed

lemma blank_line: "drain flush (CHR 0x0A # rest) (p, out) = drain flush rest (fresh_pending, out @ snd (flush p))"
  using drain_line [of "[]" flush rest "(p, out)"] flush_resets [of p]
  by (simp add: on_line_def strip_last_def split_beta)

lemma read_frame:
  assumes "one_line i" and "one_line ty" and "one_line d"
  shows "drain flush (frame_text i ty d @ rest) (fresh_pending, out) =
    drain flush rest (fresh_pending, out @ snd (flush \<lparr>p_event = ty, p_data = [d], p_id = Some i\<rparr>))"
proof -
  have "drain flush (frame_text i ty d @ rest) (fresh_pending, out) =
      drain flush (''event: '' @ ty @ CHR 0x0A # ''data: '' @ d @ CHR 0x0A # CHR 0x0A # rest)
        (on_field (''id'', i) fresh_pending, out)"
    using field_line [of i "''id''" "''event: '' @ ty @ CHR 0x0A # ''data: '' @ d @ CHR 0x0A # CHR 0x0A # rest" fresh_pending out]
      assms(1) by (simp add: frame_text_def)
  also have "\<dots> = drain flush (''data: '' @ d @ CHR 0x0A # CHR 0x0A # rest)
      (on_field (''event'', ty) (on_field (''id'', i) fresh_pending), out)"
    using field_line [of ty "''event''" "''data: '' @ d @ CHR 0x0A # CHR 0x0A # rest" "on_field (''id'', i) fresh_pending" out]
      assms(2) by simp
  also have "\<dots> = drain flush (CHR 0x0A # rest)
      (on_field (''data'', d) (on_field (''event'', ty) (on_field (''id'', i) fresh_pending)), out)"
    using field_line [of d "''data''" "CHR 0x0A # rest" "on_field (''event'', ty) (on_field (''id'', i) fresh_pending)" out]
      assms(3) by simp
  also have "on_field (''data'', d) (on_field (''event'', ty) (on_field (''id'', i) fresh_pending)) =
      \<lparr>p_event = ty, p_data = [d], p_id = Some i\<rparr>"
    by (simp add: on_field_def fresh_pending_def)
  finally show ?thesis by (simp only: blank_line)
qed

text \<open>Text with no blank line in it gives nothing out.\<close>

lemma quiet_silent:
  assumes "quiet t" and "drain flush t (p, out) = (b, p', out')"
  shows "out' = out"
  using assms
proof (induction "length t" arbitrary: t p rule: less_induct)
  case less
  show ?case
  proof (cases "index_of [CHR 0x0A] t")
    case None
    with less.prems show ?thesis by (simp add: drain_none index_of_char_None)
  next
    case (Some i)
    from quiet_line [OF less.prems(1) Some]
    obtain l t' where t: "t = l @ CHR 0x0A # t'" "CHR 0x0A \<notin> set l" "l \<noteq> []" "CHR 0x0D \<notin> set l" "quiet t'"
      by blast
    then have "snd (on_line flush l (p, out)) = out" by (simp add: on_line_def)
    then obtain p1 where "on_line flush l (p, out) = (p1, out)" by (cases "on_line flush l (p, out)") simp
    then have "drain flush t' (p1, out) = (b, p', out')"
      using less.prems(2) t(1) drain_line [OF t(2), of flush t' "(p, out)"] strip_last_id [OF t(4)] by simp
    with less.hyps [of t' p1] t show ?thesis by simp
  qed
qed

text \<open>A frame that was cut off before its blank line gives nothing out.\<close>

lemma read_cut_frame:
  assumes "one_line i" and "one_line ty" and "one_line d" and "n < length (frame_text i ty d)"
  shows "snd (snd (drain flush (take n (frame_text i ty d)) (p, out))) = out"
proof (cases "drain flush (take n (frame_text i ty d)) (p, out)")
  case (fields b p' out')
  with quiet_silent [OF quiet_frame [OF assms] fields] show ?thesis by simp
qed

text \<open>The frames of a list of events, and nothing after them.\<close>

lemma read_frames:
  "drain flush (concat (map (sse_frame ej) es)) (fresh_pending, out) = ([], fresh_pending, out @
     concat (map (\<lambda>e. snd (flush \<lparr>p_event = type_str (e_type e), p_data = [stringify (ej e)],
                                  p_id = Some (nat_str (e_seq e))\<rparr>)) es))"
proof (induction es arbitrary: out)
  case Nil
  then show ?case by (simp add: drain_none)
next
  case (Cons e es)
  from read_frame [OF one_line_texts(1,2,3)] Cons.IH show ?case by (simp add: sse_frame_text)
qed

lemma events_of_frames:
  assumes "concat chunks = concat (map (sse_frame ej) es)"
  shows "events_at_end flush chunks =
    concat (map (\<lambda>e. snd (flush \<lparr>p_event = type_str (e_type e), p_data = [stringify (ej e)],
                                 p_id = Some (nat_str (e_seq e))\<rparr>)) es)"
proof -
  have "snd (flush fresh_pending) = []" by (rule flush_empty) (simp add: fresh_pending_def)
  then show ?thesis by (simp add: events_at_end_drain assms read_frames)
qed

end

section \<open>The two readers\<close>

interpretation sdk_reader: sse_reader flushAndYield
  by unfold_locales (simp_all add: flushAndYield_def)

interpretation conf_reader: sse_reader flushEvent
  by unfold_locales (simp_all add: flushEvent_def)

section \<open>Reading frames back\<close>

lemma events_so_far_drain:
  "events_so_far flush cs = snd (snd (drain flush (concat cs) (fresh_pending, [])))"
  by (simp add: events_so_far_def read_chunks_start)

text \<open>A frame's data, given out by the SDK: its JSON value, unless the type is \<^verbatim>\<open>batch\<close>.\<close>

lemma flush_frame:
  "wf_json j \<Longrightarrow> ty \<noteq> ''batch'' \<Longrightarrow>
     snd (flushAndYield \<lparr>p_event = ty, p_data = [stringify j], p_id = i\<rparr>) = [j]"
  "list_all wf_json xs \<Longrightarrow>
     snd (flushAndYield \<lparr>p_event = ''batch'', p_data = [stringify (JArr xs)], p_id = i\<rparr>) = xs"
  using json_roundtrip [of j] json_roundtrip [of "JArr xs"]
  by (auto simp: flushAndYield_def list_all_iff split: json.split)

lemma type_not_batch: "type_str ty \<noteq> ''batch''"
  by (cases ty) simp_all

lemma sdk_frames:
  assumes "list_all (\<lambda>e. wf_json (ej e)) es"
  shows "concat (map (\<lambda>e. snd (flushAndYield \<lparr>p_event = type_str (e_type e), p_data = [stringify (ej e)],
      p_id = Some (nat_str (e_seq e))\<rparr>)) es) = map ej es"
  using assms by (induction es) (simp_all add: flush_frame type_not_batch)

text \<open>The events of the conformance reader for the frames of a host.\<close>

definition frame_event :: "(run_event \<Rightarrow> json) \<Rightarrow> run_event \<Rightarrow> sse_event" where
  "frame_event ej e = \<lparr>se_event = type_str (e_type e), se_data = stringify (ej e), se_id = Some (nat_str (e_seq e))\<rparr>"

lemma conf_frames:
  "concat (map (\<lambda>e. snd (flushEvent \<lparr>p_event = type_str (e_type e), p_data = [stringify (ej e)],
      p_id = Some (nat_str (e_seq e))\<rparr>)) es) = map (frame_event ej) es"
  by (induction es) (simp_all add: flushEvent_def frame_event_def)

lemmas frames_read = sdk_reader.events_of_frames [unfolded sdk_frames] conf_reader.events_of_frames [unfolded conf_frames]

section \<open>The events of the hosts are JSON\<close>

lemma opt_field_keys [simp]:
  "map fst (opt_field k v) = (if v = None then [] else [k])"
  by (simp add: opt_field_def split: option.split)

lemma wf_mem_event: "data_wf (e_data e) \<Longrightarrow> wf_json (mem_event_json e)"
  by (auto simp: mem_event_json_def opt_field_def split: option.splits)

end
