(* ===== verification/Sdk.thy ===== *)
theory Sdk
  imports Sse
begin

text \<open>
  The TypeScript client (\<^verbatim>\<open>sdk/typescript/src/client.ts\<close> and the error class of
  \<^verbatim>\<open>types.ts\<close>). \<^verbatim>\<open>fetch\<close> is the parameter of every operation; a call
  returns the decoded body (\<open>None\<close> for \<^verbatim>\<open>undefined\<close>) or what it throws.
\<close>

section \<open>The error class\<close>

definition is_hex :: "char \<Rightarrow> bool" where
  "is_hex c \<longleftrightarrow> radix_digit 16 c \<noteq> None"

definition extractTraceId :: "string \<Rightarrow> string option" where
  "extractTraceId traceparent =
     (let parts = split_on CHR ''-'' traceparent
      in if length parts < 3 then None
         else if length (parts ! 1) = 32 \<and> list_all is_hex (parts ! 1) then Some (parts ! 1) else None)"

record wop_error =
  we_message :: string
  we_status :: nat
  we_rawText :: string
  we_envelope :: "json option"
  we_traceparent :: "string option"
  we_traceId :: "string option"

definition mk_wop_error :: "nat \<Rightarrow> string \<Rightarrow> json option \<Rightarrow> string option \<Rightarrow> wop_error" where
  "mk_wop_error status rawText envelope traceparent =
     (let traceId = (case traceparent of None \<Rightarrow> None | Some t \<Rightarrow> if t = [] then None else extractTraceId t);
          baseMessage = (case envelope of
             None \<Rightarrow> ''WOP request failed: HTTP '' @ nat_str status
           | Some e \<Rightarrow> (case js_prop e ''message'' of
                          Some m \<Rightarrow> if m = JNull then ''WOP request failed: HTTP '' @ nat_str status else js_String m
                        | None \<Rightarrow> ''WOP request failed: HTTP '' @ nat_str status))
      in \<lparr>we_message = (case traceId of None \<Rightarrow> baseMessage | Some t \<Rightarrow> baseMessage @ '' (trace='' @ t @ '')''),
          we_status = status, we_rawText = rawText, we_envelope = envelope,
          we_traceparent = traceparent, we_traceId = traceId\<rparr>)"

datatype sdk_error = FetchFailed string | WopError wop_error

section \<open>The client and its request\<close>

record wop_client =
  cl_baseUrl :: string
  cl_apiKey :: string
  cl_acceptLanguage :: "string option"

definition new_WopClient :: "string \<Rightarrow> string \<Rightarrow> string option \<Rightarrow> string + wop_client" where
  "new_WopClient baseUrl apiKey acceptLanguage =
     (if baseUrl = [] then Inl ''WopClient: baseUrl is required''
      else if apiKey = [] then Inl ''WopClient: apiKey is required''
      else Inr \<lparr>cl_baseUrl = strip_slash baseUrl, cl_apiKey = apiKey, cl_acceptLanguage = acceptLanguage\<rparr>)"

record mutation_opts =
  mo_idempotencyKey :: "string option"
  mo_dedup :: "string option"

text \<open>\<^verbatim>\<open>if (x) h[k] = x\<close>: the empty string is no value.\<close>

definition header_if :: "string \<Rightarrow> string option \<Rightarrow> (string \<times> string) list \<Rightarrow> (string \<times> string) list" where
  "header_if k v h = (case v of None \<Rightarrow> h | Some x \<Rightarrow> if x = [] then h else put_header k x h)"

definition mutationHeaders :: "mutation_opts \<Rightarrow> (string \<times> string) list" where
  "mutationHeaders opts =
     header_if ''X-Dedup'' (mo_dedup opts) (header_if ''Idempotency-Key'' (mo_idempotencyKey opts) [])"

record raw_request =
  ro_method :: string
  ro_path :: string
  ro_body :: "json option"
  ro_headers :: "(string \<times> string) list"

definition request_headers :: "wop_client \<Rightarrow> raw_request \<Rightarrow> bool \<Rightarrow> (string \<times> string) list" where
  "request_headers cl opts authenticated =
     (let h0 = spread_headers [(''Accept'', ''application/json'')] (ro_headers opts);
          h1 = (if ro_body opts \<noteq> None \<and> map_of h0 ''Content-Type'' = None
                then put_header ''Content-Type'' ''application/json'' h0 else h0);
          h2 = (if authenticated then put_header ''Authorization'' (''Bearer '' @ cl_apiKey cl) h1 else h1)
      in header_if ''Accept-Language'' (cl_acceptLanguage cl) h2)"

definition sent_request :: "wop_client \<Rightarrow> raw_request \<Rightarrow> bool \<Rightarrow> http_request" where
  "sent_request cl opts authenticated =
     \<lparr>hr_method = ro_method opts, hr_url = cl_baseUrl cl @ ro_path opts,
      hr_headers = request_headers cl opts authenticated, hr_body = map_option stringify (ro_body opts)\<rparr>"

text \<open>\<^verbatim>\<open>headers.get(k)\<close>: names without regard to case, several values joined.\<close>

definition get_header :: "string \<Rightarrow> (string \<times> string) list \<Rightarrow> string option" where
  "get_header k hs =
     (let vs = map snd (filter (\<lambda>(k', v). ascii_lower k' = ascii_lower k) hs)
      in if vs = [] then None else Some (join_with '', '' vs))"

text \<open>The envelope of an error response: a JSON object with both fields.\<close>

definition error_envelope :: "string \<Rightarrow> json option" where
  "error_envelope txt =
     (if txt = [] then None
      else (case json_parse txt of
              Some (JObj fs) \<Rightarrow> if ''error'' \<in> fst ` set fs \<and> ''message'' \<in> fst ` set fs then Some (JObj fs) else None
            | _ \<Rightarrow> None))"

definition decode_response :: "response \<Rightarrow> sdk_error + json option" where
  "decode_response res =
     (let traceparent = get_header ''traceparent'' (rs_headers res)
      in if \<not> response_ok (rs_status res) then
           Inl (WopError (mk_wop_error (rs_status res) (rs_body res) (error_envelope (rs_body res)) traceparent))
         else if rs_body res = [] then Inr None
         else (case json_parse (rs_body res) of
                 Some v \<Rightarrow> Inr (Some v)
               | None \<Rightarrow> Inl (WopError (mk_wop_error (rs_status res) (rs_body res)
                   (Some (error_body ''invalid_json'' ''Server returned non-JSON body for a 2xx response'')) traceparent))))"

definition sdk_request :: "(http_request \<Rightarrow> fetched) \<Rightarrow> wop_client \<Rightarrow> raw_request \<Rightarrow> bool \<Rightarrow> sdk_error + json option" where
  "sdk_request fetch cl opts authenticated =
     (case fetch (sent_request cl opts authenticated) of
        NetworkError m \<Rightarrow> Inl (FetchFailed m)
      | Fetched res \<Rightarrow> decode_response res)"

section \<open>The endpoints\<close>

definition get_of :: "string \<Rightarrow> raw_request" where
  "get_of path = \<lparr>ro_method = ''GET'', ro_path = path, ro_body = None, ro_headers = []\<rparr>"

definition post_of :: "string \<Rightarrow> json \<Rightarrow> mutation_opts \<Rightarrow> raw_request" where
  "post_of path body opts = \<lparr>ro_method = ''POST'', ro_path = path, ro_body = Some body, ro_headers = mutationHeaders opts\<rparr>"

definition run_url :: "string \<Rightarrow> string \<Rightarrow> string" where
  "run_url runId rest = ''/v1/runs/'' @ encodeURIComponent runId @ rest"

definition sdk_capabilities :: "(http_request \<Rightarrow> fetched) \<Rightarrow> wop_client \<Rightarrow> sdk_error + json option" where
  "sdk_capabilities fetch cl = sdk_request fetch cl (get_of ''/.well-known/wop'') False"

definition sdk_openapi :: "(http_request \<Rightarrow> fetched) \<Rightarrow> wop_client \<Rightarrow> sdk_error + json option" where
  "sdk_openapi fetch cl = sdk_request fetch cl (get_of ''/v1/openapi.json'') False"

definition sdk_getWorkflow :: "(http_request \<Rightarrow> fetched) \<Rightarrow> wop_client \<Rightarrow> string \<Rightarrow> sdk_error + json option" where
  "sdk_getWorkflow fetch cl workflowId =
     sdk_request fetch cl (get_of (''/v1/workflows/'' @ encodeURIComponent workflowId)) True"

definition sdk_createRun :: "(http_request \<Rightarrow> fetched) \<Rightarrow> wop_client \<Rightarrow> json \<Rightarrow> mutation_opts \<Rightarrow> sdk_error + json option" where
  "sdk_createRun fetch cl body opts = sdk_request fetch cl (post_of ''/v1/runs'' body opts) True"

definition sdk_getRun :: "(http_request \<Rightarrow> fetched) \<Rightarrow> wop_client \<Rightarrow> string \<Rightarrow> sdk_error + json option" where
  "sdk_getRun fetch cl runId = sdk_request fetch cl (get_of (run_url runId [])) True"

definition sdk_cancelRun :: "(http_request \<Rightarrow> fetched) \<Rightarrow> wop_client \<Rightarrow> string \<Rightarrow> json \<Rightarrow> mutation_opts \<Rightarrow> sdk_error + json option" where
  "sdk_cancelRun fetch cl runId body opts = sdk_request fetch cl (post_of (run_url runId ''/cancel'') body opts) True"

definition sdk_forkRun :: "(http_request \<Rightarrow> fetched) \<Rightarrow> wop_client \<Rightarrow> string \<Rightarrow> json \<Rightarrow> mutation_opts \<Rightarrow> sdk_error + json option" where
  "sdk_forkRun fetch cl runId body opts = sdk_request fetch cl (post_of (run_url runId '':fork'') body opts) True"

definition poll_params :: "num option \<Rightarrow> num option \<Rightarrow> (string \<times> string) list" where
  "poll_params lastSequence timeoutSeconds =
     (case lastSequence of None \<Rightarrow> [] | Some n \<Rightarrow> [(''lastSequence'', num_text n)]) @
     (case timeoutSeconds of None \<Rightarrow> [] | Some n \<Rightarrow> [(''timeout'', num_text n)])"

definition sdk_pollEvents :: "(http_request \<Rightarrow> fetched) \<Rightarrow> wop_client \<Rightarrow> string \<Rightarrow> num option \<Rightarrow> num option \<Rightarrow> sdk_error + json option" where
  "sdk_pollEvents fetch cl runId lastSequence timeoutSeconds =
     (let qs = query_string (poll_params lastSequence timeoutSeconds)
      in sdk_request fetch cl (get_of (run_url runId (''/events/poll'' @ (if qs \<noteq> [] then ''?'' @ qs else [])))) True)"

definition sdk_events :: "(http_request \<Rightarrow> stream_answer) \<Rightarrow> wop_client \<Rightarrow> string \<Rightarrow> stream_opts \<Rightarrow> stream_result" where
  "sdk_events fetch cl runId opts = streamEvents fetch \<lparr>k_baseUrl = cl_baseUrl cl, k_apiKey = cl_apiKey cl\<rparr> runId opts"

definition sdk_resolveByRun :: "(http_request \<Rightarrow> fetched) \<Rightarrow> wop_client \<Rightarrow> string \<Rightarrow> string \<Rightarrow> json \<Rightarrow> mutation_opts \<Rightarrow> sdk_error + json option" where
  "sdk_resolveByRun fetch cl runId nodeId body opts =
     sdk_request fetch cl (post_of (run_url runId (''/interrupts/'' @ encodeURIComponent nodeId)) body opts) True"

definition sdk_inspectByToken :: "(http_request \<Rightarrow> fetched) \<Rightarrow> wop_client \<Rightarrow> string \<Rightarrow> sdk_error + json option" where
  "sdk_inspectByToken fetch cl token = sdk_request fetch cl (get_of (''/v1/interrupts/'' @ encodeURIComponent token)) False"

definition sdk_resolveByToken :: "(http_request \<Rightarrow> fetched) \<Rightarrow> wop_client \<Rightarrow> string \<Rightarrow> json \<Rightarrow> mutation_opts \<Rightarrow> sdk_error + json option" where
  "sdk_resolveByToken fetch cl token body opts =
     sdk_request fetch cl (post_of (''/v1/interrupts/'' @ encodeURIComponent token) body opts) False"

end
