(* ===== verification/Network.thy ===== *)
theory Network
  imports SseLaws Sdk SqlLaws
begin

text \<open>
  Client and host put together: a host at an origin as the \<^verbatim>\<open>fetch\<close> of a client.
  A request is delivered, served, and its reply comes back; a stream's text comes in whatever
  chunks \<open>chop\<close> makes of it. Then what the SDK's requests are on the host's side.
\<close>

section \<open>The hosts as fetch\<close>

text \<open>For the JSON operations, none of which asks for a stream.\<close>

fun of_reply :: "reply \<Rightarrow> fetched" where
  "of_reply (Full r) = Fetched r"
| "of_reply (Stream hs) = NetworkError ''the response has not ended''"

definition mem_fetch :: "mem_config \<Rightarrow> env \<Rightarrow> string \<Rightarrow> mem_host \<Rightarrow> http_request \<Rightarrow> fetched" where
  "mem_fetch cfg en origin h hr = of_reply (snd (mem_serve cfg en (deliver origin hr) h))"

text \<open>For a stream that the host has ended: its text, and the end of the body.\<close>

fun stream_of_reply :: "(string \<Rightarrow> string list) \<Rightarrow> string \<Rightarrow> reply \<Rightarrow> stream_answer" where
  "stream_of_reply chop txt (Full r) = Answer (rs_status r) (Some (chop (rs_body r), EndDone))"
| "stream_of_reply chop txt (Stream hs) = Answer 200 (Some (chop txt, EndDone))"

definition stream_text :: "(run_event \<Rightarrow> json) \<Rightarrow> sub \<Rightarrow> string" where
  "stream_text ej s = concat (map (sse_frame ej) (s_out s))"

definition mem_stream :: "mem_config \<Rightarrow> env \<Rightarrow> string \<Rightarrow> (string \<Rightarrow> string list) \<Rightarrow> mem_host \<Rightarrow> string \<Rightarrow> http_request \<Rightarrow> stream_answer" where
  "mem_stream cfg en origin chop h rid hr =
     (let (h1, rep) = mem_serve cfg en (deliver origin hr) h
      in stream_of_reply chop (stream_text mem_event_json (last (r_subs (the (h_runs h1 rid))))) rep)"

definition sql_stream :: "sql_config \<Rightarrow> env \<Rightarrow> string \<Rightarrow> (string \<Rightarrow> string list) \<Rightarrow> sql_host \<Rightarrow> string \<Rightarrow> http_request \<Rightarrow> stream_answer" where
  "sql_stream cfg en origin chop h rid hr =
     (let (rep, h1) = sql_serve cfg en (deliver origin hr) h
      in stream_of_reply chop (stream_text sql_event_json (last (g_subs h1 rid))) rep)"

text \<open>The runs a URL can name, and the keys a header can carry.\<close>

definition plain_id :: "string \<Rightarrow> bool" where
  "plain_id rid \<longleftrightarrow> rid \<noteq> [] \<and> list_all uri_safe rid"

definition plain_key :: "string \<Rightarrow> bool" where
  "plain_key k \<longleftrightarrow> js_trim k = k"

section \<open>What the SDK sends\<close>

lemma deliver_fields [simp]:
  "rq_method (deliver origin hr) = hr_method hr"
  "rq_body (deliver origin hr) = (case hr_body hr of None \<Rightarrow> [] | Some b \<Rightarrow> b)"
  "rq_headers (deliver origin hr) = map_of (map (\<lambda>(k, v). (ascii_lower k, v)) (hr_headers hr))"
  by (simp_all add: deliver_def Let_def)

lemma lower_names:
  "ascii_lower ''Accept'' = ''accept''" "ascii_lower ''Authorization'' = ''authorization''"
  "ascii_lower ''Content-Type'' = ''content-type''" "ascii_lower ''Accept-Language'' = ''accept-language''"
  "ascii_lower ''Idempotency-Key'' = ''idempotency-key''" "ascii_lower ''X-Dedup'' = ''x-dedup''"
  "ascii_lower ''Cache-Control'' = ''cache-control''" "ascii_lower ''Last-Event-ID'' = ''last-event-id''"
  by code_simp+

text \<open>The header names of the SDK: delivery in lower case confuses no two of them.\<close>

definition sdk_names :: "string set" where
  "sdk_names = {''Accept'', ''Authorization'', ''Content-Type'', ''Accept-Language'', ''Idempotency-Key'', ''X-Dedup''}"

definition lower_map :: "(string \<times> string) list \<Rightarrow> string \<rightharpoonup> string" where
  "lower_map hs = map_of (map (\<lambda>(k, v). (ascii_lower k, v)) hs)"

definition std_headers :: "(string \<times> string) list \<Rightarrow> bool" where
  "std_headers hs \<longleftrightarrow> fst ` set hs \<subseteq> sdk_names"

lemma lower_names_inj: "inj_on ascii_lower sdk_names"
  by (simp add: sdk_names_def lower_names)

lemma put_header_names: "fst ` set (put_header k v hs) = insert k (fst ` set hs)"
  by (induction k v hs rule: put_header.induct) auto

lemma put_header_std:
  assumes "std_headers hs" and "k \<in> sdk_names"
  shows "std_headers (put_header k v hs)" "lower_map (put_header k v hs) = (lower_map hs)(ascii_lower k \<mapsto> v)"
proof -
  show "std_headers (put_header k v hs)" using assms by (simp add: std_headers_def put_header_names)
  from assms have "\<forall>k' \<in> fst ` set hs. ascii_lower k' = ascii_lower k \<longrightarrow> k' = k"
    using lower_names_inj by (auto simp: std_headers_def inj_on_def)
  then show "lower_map (put_header k v hs) = (lower_map hs)(ascii_lower k \<mapsto> v)"
    by (induction k v hs rule: put_header.induct) (auto simp: lower_map_def fun_upd_twist)
qed

lemma header_if_std:
  assumes "std_headers hs" and "k \<in> sdk_names"
  shows "std_headers (header_if k v hs)"
    "lower_map (header_if k v hs) x = (if x = ascii_lower k \<and> v \<noteq> None \<and> v \<noteq> Some [] then v else lower_map hs x)"
  using assms put_header_std [OF assms] by (auto simp: header_if_def split: option.split)

text \<open>The headers before the body's, and what a mutation adds to them.\<close>

definition given :: "string \<Rightarrow> string option \<Rightarrow> (string \<times> string) list" where
  "given k v = (case v of None \<Rightarrow> [] | Some x \<Rightarrow> if x = [] then [] else [(k, x)])"

lemma mutation_spread:
  "spread_headers [(''Accept'', ''application/json'')] (mutationHeaders opts) =
     (''Accept'', ''application/json'') # given ''Idempotency-Key'' (mo_idempotencyKey opts) @ given ''X-Dedup'' (mo_dedup opts)"
  by (simp add: spread_headers_def mutationHeaders_def header_if_def given_def split: option.split)

lemma given_std:
  assumes "k \<in> sdk_names"
  shows "std_headers (given k v)"
  using assms by (auto simp: std_headers_def given_def split: option.split)

lemma std_append: "std_headers (xs @ ys) \<longleftrightarrow> std_headers xs \<and> std_headers ys"
  by (auto simp: std_headers_def)

text \<open>The headers of a request with a given body, as delivered.\<close>

lemma request_headers_lower:
  assumes "std_headers (spread_headers [(''Accept'', ''application/json'')] (ro_headers opts))"
    and "x \<notin> {''content-type'', ''accept-language''}"
  shows "lower_map (request_headers cl opts a) x =
    (if a \<and> x = ''authorization'' then Some (''Bearer '' @ cl_apiKey cl)
     else lower_map (spread_headers [(''Accept'', ''application/json'')] (ro_headers opts)) x)"
proof -
  let ?h0 = "spread_headers [(''Accept'', ''application/json'')] (ro_headers opts)"
  let ?h1 = "if ro_body opts \<noteq> None \<and> map_of ?h0 ''Content-Type'' = None then put_header ''Content-Type'' ''application/json'' ?h0 else ?h0"
  let ?h2 = "if a then put_header ''Authorization'' (''Bearer '' @ cl_apiKey cl) ?h1 else ?h1"
  have n: "''Content-Type'' \<in> sdk_names" "''Authorization'' \<in> sdk_names" "''Accept-Language'' \<in> sdk_names"
    by (simp_all add: sdk_names_def)
  have 1: "std_headers ?h1" "lower_map ?h1 x = lower_map ?h0 x"
    using assms put_header_std [OF assms(1) n(1)] by (auto simp: lower_names)
  then have 2: "std_headers ?h2" "lower_map ?h2 x = (if a \<and> x = ''authorization'' then Some (''Bearer '' @ cl_apiKey cl) else lower_map ?h0 x)"
    using put_header_std [OF 1(1) n(2)] by (auto simp: lower_names)
  have "lower_map (header_if ''Accept-Language'' (cl_acceptLanguage cl) ?h2) x = lower_map ?h2 x"
    using header_if_std(2) [OF 2(1) n(3)] assms(2) by (auto simp: lower_names)
  with 2(2) show ?thesis by (simp only: request_headers_def Let_def)
qed

lemma delivered_headers: "rq_headers (deliver origin hr) = lower_map (hr_headers hr)"
  by (simp add: lower_map_def)

lemma sdk_h0:
  "std_headers (spread_headers [(''Accept'', ''application/json'')] (ro_headers (get_of p)))"
  "std_headers (spread_headers [(''Accept'', ''application/json'')] (ro_headers (post_of p b opts)))"
proof -
  have "std_headers [(''Accept'', ''application/json'')]" by (simp add: std_headers_def sdk_names_def)
  moreover have "std_headers (given ''Idempotency-Key'' v)" "std_headers (given ''X-Dedup'' v)" for v
    by (rule given_std, simp add: sdk_names_def)+
  ultimately show "std_headers (spread_headers [(''Accept'', ''application/json'')] (ro_headers (get_of p)))"
    "std_headers (spread_headers [(''Accept'', ''application/json'')] (ro_headers (post_of p b opts)))"
    using std_append [of "[(''Accept'', ''application/json'')]"]
    by (simp_all add: get_of_def post_of_def mutation_spread std_append) (simp add: spread_headers_def)
qed

lemma sent_auth:
  "rq_headers (deliver origin (sent_request cl (get_of p) True)) ''authorization'' = Some (''Bearer '' @ cl_apiKey cl)"
  "rq_headers (deliver origin (sent_request cl (post_of p b opts) True)) ''authorization'' = Some (''Bearer '' @ cl_apiKey cl)"
  unfolding delivered_headers sent_request_def http_request.simps
  by (simp_all add: request_headers_lower sdk_h0)

lemma sent_idempotency_key:
  "rq_headers (deliver origin (sent_request cl (post_of p b opts) True)) ''idempotency-key'' =
     (case mo_idempotencyKey opts of None \<Rightarrow> None | Some k \<Rightarrow> if k = [] then None else Some k)"
proof -
  have "lower_map ((''Accept'', ''application/json'') # given ''Idempotency-Key'' v @ given ''X-Dedup'' w) ''idempotency-key'' =
      (case v of None \<Rightarrow> None | Some k \<Rightarrow> if k = [] then None else Some k)" for v w
    by (auto simp: lower_map_def given_def lower_names split: option.split)
  then show ?thesis
    unfolding delivered_headers sent_request_def http_request.simps
    by (simp add: request_headers_lower sdk_h0) (simp add: post_of_def mutation_spread)
qed

lemma sent_authorized:
  assumes "cl_apiKey cl = k" and "plain_key k"
  shows "authorized k (deliver origin (sent_request cl (get_of p) True))"
    "authorized k (deliver origin (sent_request cl (post_of p b opts) True))"
  using assms unfolding authorized_def sent_auth plain_key_def by auto

lemma stream_auth:
  assumes "plain_key k"
  shows "authorized k (deliver origin (get_stream url (stream_headers k lid)))"
  using assms unfolding authorized_def plain_key_def
  by (intro exI [of _ k]) (simp add: get_stream_def stream_headers_def lower_names)

lemma stream_resume:
  "rq_headers (deliver origin (get_stream url (stream_headers k (map_option nat_str n)))) ''last-event-id'' = map_option nat_str n"
  by (cases n) (simp_all add: get_stream_def stream_headers_def lower_names)

lemma stream_resume_after:
  "resume_after (deliver origin (get_stream url (stream_headers k (map_option nat_str n)))) =
     (case n of None \<Rightarrow> num_of_int (- 1) | Some m \<Rightarrow> num_of_nat m)"
  using stream_resume [of origin url k n] by (cases n) (simp_all add: resume_after_def)

text \<open>A run's URL is delivered as the path of that run.\<close>

lemma plain_id_excludes: "plain_id rid \<Longrightarrow> rid \<noteq> [] \<and> CHR ''/'' \<notin> set rid \<and> CHR ''?'' \<notin> set rid"
  unfolding plain_id_def list_all_iff using uri_safe_excludes by blast

lemma run_url_path:
  assumes "plain_id rid"
  shows "run_url rid (concat (map (\<lambda>s. CHR ''/'' # s) sfx)) = path_of rid sfx"
proof -
  have "join_with ''/'' (x # sfx) = x @ concat (map (\<lambda>s. CHR ''/'' # s) sfx)" for x :: string
    by (induction sfx arbitrary: x) (simp_all add: join_with_Cons)
  with assms show ?thesis
    by (simp add: run_url_def path_of_def encode_safe plain_id_def join_with_Cons)
qed

lemma run_request_url:
  assumes "plain_id rid" and "hr_method hr = m" and "list_all (\<lambda>s. CHR ''?'' \<notin> set s) sfx"
    and "hr_url hr = origin @ run_url rid (concat (map (\<lambda>s. CHR ''/'' # s) sfx)) @ (if ps = [] then [] else CHR ''?'' # query_string ps)"
  shows "run_request m sfx rid (deliver origin hr)" "rq_query (deliver origin hr) = ps"
proof -
  note id = plain_id_excludes [OF assms(1)]
  have "CHR ''?'' \<notin> set (path_of rid sfx)"
    using id assms(1,3) unfolding run_url_path [OF assms(1), symmetric]
    by (auto simp: run_url_def encode_safe plain_id_def list_all_iff)
  note d = deliver_target [OF assms(4) [unfolded run_url_path [OF assms(1)]] this]
  show "run_request m sfx rid (deliver origin hr)" using d(1) id assms(2) by (simp add: run_request_def)
  show "rq_query (deliver origin hr) = ps" by (rule d(2))
qed

text \<open>The requests of the SDK for one run.\<close>

lemma sdk_run_requests:
  assumes "plain_id rid"
  shows "run_request ''GET'' [] rid (deliver (cl_baseUrl cl) (sent_request cl (get_of (run_url rid [])) True))"
    "run_request ''POST'' [''cancel''] rid (deliver (cl_baseUrl cl) (sent_request cl (post_of (run_url rid ''/cancel'') b opts) True))"
  using run_request_url(1) [OF assms, of _ _ _ _ "[]"]
  by (auto simp: sent_request_def get_of_def post_of_def)

lemma stream_run_request:
  assumes "plain_id rid"
    and "url = origin @ ''/v1/runs/'' @ encodeURIComponent rid @ ''/events'' @ (if qs \<noteq> [] then ''?'' @ qs else [])"
    and "qs = query_string ps"
  shows "run_request ''GET'' [''events''] rid (deliver origin (get_stream url hs))"
proof -
  have "qs = [] \<longleftrightarrow> ps = []"
  proof
    assume "qs = []"
    with assms(3) parse_query_string [of ps] show "ps = []" by (simp add: parse_query_def)
  qed (simp add: assms(3) query_string_def)
  then show ?thesis
    using assms(2,3) by (intro run_request_url(1) [OF assms(1), of _ _ _ _ ps]) (auto simp: get_stream_def run_url_def)
qed

section \<open>What comes back\<close>

lemma stringify_not_Nil: "wf_json j \<Longrightarrow> stringify j \<noteq> []"
proof
  assume "wf_json j" and "stringify j = []"
  with json_roundtrip [of j] have "json_parse [] = Some j" by simp
  moreover have "json_parse [] = None" by code_simp
  ultimately show False by simp
qed

lemma decode_json:
  assumes "wf_json j" and "response_ok (rs_status r)" and "rs_body r = stringify j"
  shows "decode_response r = Inr (Some j)"
  using assms json_roundtrip [OF assms(1)] stringify_not_Nil [OF assms(1)] by (simp add: decode_response_def)

lemma decode_sendError:
  assumes "\<not> response_ok st" and "of_reply (sendError st c m) = Fetched r"
  shows "decode_response r = Inl (WopError \<lparr>we_message = m, we_status = st, we_rawText = stringify (error_body c m),
    we_envelope = Some (error_body c m), we_traceparent = None, we_traceId = None\<rparr>)"
proof -
  have "error_envelope (stringify (error_body c m)) = Some (error_body c m)"
    using stringify_not_Nil [OF wf_error_body, of c m] json_roundtrip [OF wf_error_body, of c m]
    by (simp add: error_envelope_def) (simp add: error_body_def)
  moreover have "js_prop (error_body c m) ''message'' = Some (JStr m)" by (simp add: error_body_def)
  moreover have "r = \<lparr>rs_status = st, rs_headers = [(''Content-Type'', ''application/json''),
      (''Content-Length'', nat_str (length (stringify (error_body c m))))], rs_body = stringify (error_body c m)\<rparr>"
    using assms(2) by (simp add: sendError_def sendJSON_def sendText_def)
  moreover have "ascii_lower ''Content-Length'' = ''content-length''" "ascii_lower ''traceparent'' = ''traceparent''"
    by code_simp+
  ultimately show ?thesis
    using assms(1) by (simp add: decode_response_def get_header_def lower_names mk_wop_error_def Let_def)
qed

end
