(* ===== verification/SdkCalls.thy ===== *)
theory SdkCalls
  imports Network
begin

text \<open>
  What the calls of the TypeScript SDK return when the reference hosts answer them: one lemma
  per endpoint, from the request the client builds to the value it decodes. The properties
  of client and host rest on these.
\<close>

section \<open>Decoding an answer of the hosts\<close>

lemma sdk_request_json:
  assumes "mem_serve cfg en (deliver (cl_baseUrl cl) (sent_request cl raw a)) h = (h', sendJSON st v ex)"
    and "response_ok st" and "wf_json v"
  shows "sdk_request (mem_fetch cfg en (cl_baseUrl cl) h) cl raw a = Inr (Some v)"
  using decode_json [OF assms(3)] assms(1,2) by (simp add: sdk_request_def mem_fetch_def sendJSON_def sendText_def)

definition sql_fetch :: "sql_config \<Rightarrow> env \<Rightarrow> string \<Rightarrow> sql_host \<Rightarrow> http_request \<Rightarrow> fetched" where
  "sql_fetch cfg en origin h hr = of_reply (fst (sql_serve cfg en (deliver origin hr) h))"

lemma sdk_request_sql:
  assumes "sql_route cfg en (deliver (cl_baseUrl cl) (sent_request cl raw a)) h = (Inr (sendJSON st v ex), h')"
    and "response_ok st" and "wf_json v"
  shows "sdk_request (sql_fetch cfg en (cl_baseUrl cl) h) cl raw a = Inr (Some v)"
  using decode_json [OF assms(3)] assms(1,2) by (simp add: sdk_request_def sql_fetch_def sql_serve_def sendJSON_def sendText_def)

section \<open>The in-memory host\<close>

lemma wf_discovery: "wf_json (discovery_payload name)"
  by (simp add: discovery_payload_def)

lemma mem_serve_discovery:
  "mem_serve cfg en (deliver (cl_baseUrl cl) (sent_request cl (get_of ''/.well-known/wop'') False)) h = (h, mem_handleDiscovery)"
proof -
  let ?hr = "sent_request cl (get_of ''/.well-known/wop'') False"
  have "hr_url ?hr = cl_baseUrl cl @ ''/.well-known/wop'' @ (if [] = [] then [] else CHR ''?'' # query_string [])"
    by (simp add: sent_request_def get_of_def)
  from deliver_target(1) [OF this] have "rq_path (deliver (cl_baseUrl cl) ?hr) = Some ''/.well-known/wop''" by simp
  moreover have "rq_method (deliver (cl_baseUrl cl) ?hr) = ''GET''" by (simp add: sent_request_def get_of_def)
  ultimately show ?thesis by (simp add: mem_serve_def mem_route_def)
qed

lemma sdk_capabilities_mem:
  "sdk_capabilities (mem_fetch cfg en (cl_baseUrl cl) h) cl = Inr (Some (discovery_payload ''wop-host-in-memory''))"
  unfolding sdk_capabilities_def
  by (rule sdk_request_json [OF mem_serve_discovery [unfolded mem_handleDiscovery_def]]) (simp_all add: wf_discovery response_ok_def)

lemma mem_snapshot_wf: "wf_json (r_inputs r) \<Longrightarrow> wf_json (mem_snapshot r)"
  by (cases "r_endedAt r"; cases "r_error r") (simp_all add: mem_snapshot_def opt_field_def)

lemma sdk_getRun_mem:
  assumes "h_runs h rid = Some r" and "wf_json (r_inputs r)"
    and "plain_id rid" and "plain_key (c_api_key cfg)" and "cl_apiKey cl = c_api_key cfg"
  shows "sdk_getRun (mem_fetch cfg en (cl_baseUrl cl) h) cl rid = Inr (Some (mem_snapshot r))"
proof -
  have "mem_serve cfg en (deliver (cl_baseUrl cl) (sent_request cl (get_of (run_url rid [])) True)) h =
      (h, sendJSON 200 (mem_snapshot r) [])"
    using assms(1) sent_authorized(1) [OF assms(5,4)]
    by (simp add: mem_serve_def mem_route_get [OF sdk_run_requests(1) [OF assms(3)]] mem_handleGetRun_def mem_with_run_def
        checkAuth_None [symmetric])
  from sdk_request_json [OF this _ mem_snapshot_wf [OF assms(2)]] show ?thesis by (simp add: sdk_getRun_def response_ok_def)
qed

definition cancelled_body :: "string \<Rightarrow> run_status \<Rightarrow> json" where
  "cancelled_body rid st = (if is_terminal st
     then JObj [(''runId'', JStr rid), (''status'', JStr (status_str st)), (''alreadyTerminal'', JBool True)]
     else JObj [(''runId'', JStr rid), (''status'', JStr ''cancelling'')])"

lemma sdk_cancelRun_mem:
  assumes "h_runs h rid = Some r"
    and "plain_id rid" and "plain_key (c_api_key cfg)" and "cl_apiKey cl = c_api_key cfg"
  shows "sdk_cancelRun (mem_fetch cfg en (cl_baseUrl cl) h) cl rid body opts = Inr (Some (cancelled_body rid (r_status r)))"
proof -
  have "mem_serve cfg en (deliver (cl_baseUrl cl) (sent_request cl (post_of (run_url rid ''/cancel'') body opts) True)) h =
      (if is_terminal (r_status r) then h else set_run h rid (request_cancel r), sendJSON 200 (cancelled_body rid (r_status r)) [])"
    using assms(1) sent_authorized(2) [OF assms(4,3)]
    by (simp add: mem_serve_def mem_route_cancel [OF sdk_run_requests(2) [OF assms(2)]] mem_handleCancelRun_def mem_with_run_def
        checkAuth_None [symmetric] cancelled_body_def)
  from sdk_request_json [OF this] show ?thesis by (simp add: sdk_cancelRun_def response_ok_def cancelled_body_def)
qed

lemma query_string_empty: "query_string ps = [] \<longleftrightarrow> ps = []"
proof
  assume "query_string ps = []"
  with parse_query_string [of ps] show "ps = []" by (simp add: parse_query_def)
qed (simp add: query_string_def)

definition poll_raw :: "string \<Rightarrow> num option \<Rightarrow> num option \<Rightarrow> raw_request" where
  "poll_raw rid ls ts =
     (let qs = query_string (poll_params ls ts)
      in get_of (run_url rid (''/events/poll'' @ (if qs \<noteq> [] then ''?'' @ qs else []))))"

lemma sdk_poll_request:
  assumes "plain_id rid"
  shows "run_request ''GET'' [''events'', ''poll''] rid (deliver (cl_baseUrl cl) (sent_request cl (poll_raw rid ls ts) True))"
    "rq_query (deliver (cl_baseUrl cl) (sent_request cl (poll_raw rid ls ts) True)) = poll_params ls ts"
proof -
  let ?hr = "sent_request cl (poll_raw rid ls ts) True"
  have "hr_method ?hr = ''GET''" "list_all (\<lambda>s. CHR ''?'' \<notin> set s) [''events'', ''poll'']"
    "hr_url ?hr = cl_baseUrl cl @ run_url rid (concat (map (\<lambda>s. CHR ''/'' # s) [''events'', ''poll''])) @
       (if poll_params ls ts = [] then [] else CHR ''?'' # query_string (poll_params ls ts))"
    by (simp_all add: sent_request_def poll_raw_def get_of_def Let_def query_string_empty run_url_def)
  note r = run_request_url [OF assms this]
  show "run_request ''GET'' [''events'', ''poll''] rid (deliver (cl_baseUrl cl) ?hr)" by (rule r(1))
  show "rq_query (deliver (cl_baseUrl cl) ?hr) = poll_params ls ts" by (rule r(2))
qed

lemma sdk_pollEvents_raw: "sdk_pollEvents fetch cl rid ls ts = sdk_request fetch cl (poll_raw rid ls ts) True"
  by (simp add: sdk_pollEvents_def poll_raw_def Let_def)

lemma poll_raw_get: "\<exists>p. poll_raw rid ls ts = get_of p"
  unfolding poll_raw_def Let_def by blast

lemma wf_poll_body:
  assumes "list_all (\<lambda>e. wf_json (ej e)) evs" and "is_finite since" and "normal_num since"
  shows "wf_json (poll_body ej rid evs since st)"
  using assms by (auto simp: poll_body_def last_seq_def list_all_iff)

lemma sdk_pollEvents_mem:
  assumes "mem_reachable cfg h" and "h_runs h rid = Some r"
    and "plain_id rid" and "plain_key (c_api_key cfg)" and "cl_apiKey cl = c_api_key cfg"
  shows "sdk_pollEvents (mem_fetch cfg en (cl_baseUrl cl) h) cl rid lastSequence timeoutSeconds =
    Inr (Some (poll_body mem_event_json rid (r_events r) (num_of_int (- 1)) (r_status r)))"
proof -
  let ?rq = "deliver (cl_baseUrl cl) (sent_request cl (poll_raw rid lastSequence timeoutSeconds) True)"
  let ?v = "poll_body mem_event_json rid (r_events r) (num_of_int (- 1)) (r_status r)"
  have "since_param ?rq = num_of_int (- 1)"
    unfolding since_param_def sdk_poll_request(2) [OF assms(3)] by (auto simp: poll_params_def split: option.split)
  moreover have "checkAuth (c_api_key cfg) ?rq = None"
    using sent_authorized(1) [OF assms(5,4)] poll_raw_get [of rid lastSequence timeoutSeconds] by (auto simp: checkAuth_None)
  ultimately have serve: "mem_serve cfg en ?rq h = (h, sendJSON 200 ?v [])"
    using assms(2) by (simp add: mem_serve_def mem_route_poll [OF sdk_poll_request(1) [OF assms(3)]]
        mem_handleEventsPoll_def mem_with_run_def)
  have "wf_json ?v"
    using mem_reachable_data [OF assms(1,2)] wf_mem_event by (intro wf_poll_body) (auto simp: list_all_iff)
  from sdk_request_json [OF serve _ this] show ?thesis by (simp add: sdk_pollEvents_raw response_ok_def)
qed

section \<open>The SQLite host\<close>

lemma sql_route_run:
  "run_request ''GET'' [] x rq \<Longrightarrow> sql_route cfg en rq h = sql_handleGetRun cfg rq x h"
  "run_request ''POST'' [''cancel''] x rq \<Longrightarrow> sql_route cfg en rq h = sql_handleCancelRun cfg rq x h"
  by (simp_all add: run_request_def sql_route_def patterns_path_of)

lemma sql_snapshot_json:
  assumes "sql_reachable cfg (Up pid h)" and "getRun rid (g_db h) = Some r"
  obtains inputs err where "json_parse (q_inputs_json r) = Some inputs" and "wf_json inputs"
    and "error_field r = Some (map_option error_json err)"
proof -
  have "run_row_ok (s_workflows cfg) r (shapes_of rid (g_db h))"
    using db_ok_run world_ok_db [OF sql_reachable_ok [OF assms(1)]] assms(2) by simp
  then show thesis using that error_ok_field [of r] json_parse_wf by (auto simp: run_row_ok_def)
qed

end
