(* ===== verification/SseFormat.thy ===== *)
theory SseFormat
  imports SseLaws
begin

text \<open>
  The format of event streams, said of a whole text instead of by a reading loop: its lines,
  the blocks between blank lines, the fields of a block and the event it stands for. What the
  reading loops of theory \<open>Sse\<close> do is equivalent to it.
\<close>

section \<open>The format\<close>

text \<open>The lines that end in the text; what follows the last line end is no line.\<close>

definition text_lines :: "string \<Rightarrow> string list" where
  "text_lines t = map (strip_last CHR 0x0D) (butlast (split_on CHR 0x0A t))"

definition text_blocks :: "string \<Rightarrow> string list list" where
  "text_blocks t = split_on [] (text_lines t)"

fun without_space :: "string \<Rightarrow> string" where
  "without_space (CHR '' '' # v) = v"
| "without_space v = v"

definition field_of :: "string \<Rightarrow> string \<times> string" where
  "field_of l = (takeWhile (\<lambda>c. c \<noteq> CHR '':'') l, without_space (tl (dropWhile (\<lambda>c. c \<noteq> CHR '':'') l)))"

definition is_comment :: "string \<Rightarrow> bool" where
  "is_comment l \<longleftrightarrow> hd l = CHR '':''"

definition block_values :: "string \<Rightarrow> string list \<Rightarrow> string list" where
  "block_values k b = map snd (filter (\<lambda>f. fst f = k) (map field_of (filter (\<lambda>l. \<not> is_comment l) b)))"

text \<open>A block without data is no event; type and id are the last ones given.\<close>

definition block_event :: "string list \<Rightarrow> sse_event option" where
  "block_event b =
     (if block_values ''data'' b = [] then None
      else Some \<lparr>se_event = last (''message'' # block_values ''event'' b),
                 se_data = join_with [CHR 0x0A] (block_values ''data'' b),
                 se_id = (if block_values ''id'' b = [] then None else Some (last (block_values ''id'' b)))\<rparr>)"

text \<open>The JSON values of an event: none when its data is no JSON, several for a batch.\<close>

definition event_jsons :: "sse_event \<Rightarrow> json list" where
  "event_jsons e =
     (case json_parse (se_data e) of
        None \<Rightarrow> []
      | Some (JArr xs) \<Rightarrow> if se_event e = ''batch'' then xs else [JArr xs]
      | Some v \<Rightarrow> [v])"

text \<open>Every block counts at the end of a stream, only the closed ones when it breaks off.\<close>

definition all_events :: "string \<Rightarrow> sse_event list" where
  "all_events t = List.map_filter block_event (text_blocks t)"

definition closed_events :: "string \<Rightarrow> sse_event list" where
  "closed_events t = List.map_filter block_event (butlast (text_blocks t))"

section \<open>Lines and fields\<close>

lemma split_on_first:
  assumes "c \<in> set s"
  obtains l r where "s = l @ c # r" and "c \<notin> set l" and "split_on c s = l # split_on c r"
  using split_list_first [OF assms] split_on_append by metis

lemma drain_text:
  "drain flush s st = (last (split_on CHR 0x0A s), fold (on_line flush) (text_lines s) st)"
proof (induction "length s" arbitrary: s st rule: less_induct)
  case less
  show ?case
  proof (cases "CHR 0x0A \<in> set s")
    case False
    then show ?thesis by (simp add: drain_none split_on_no_sep text_lines_def)
  next
    case True
    then obtain l r where s: "s = l @ CHR 0x0A # r" "CHR 0x0A \<notin> set l" "split_on CHR 0x0A s = l # split_on CHR 0x0A r"
      by (rule split_on_first)
    from less [of r] s show ?thesis by (simp add: drain_line text_lines_def)
  qed
qed

lemma drop_one_space: "(if starts_with v '' '' then drop 1 v else v) = without_space v"
  by (cases v rule: without_space.cases) (auto simp: starts_with_iff split: if_splits)

lemma split_field_eq: "split_field l = field_of l"
proof (cases "CHR '':'' \<in> set l")
  case True
  then obtain f v where l: "l = f @ CHR '':'' # v" "CHR '':'' \<notin> set f" by (meson split_list_first)
  then have "takeWhile (\<lambda>c. c \<noteq> CHR '':'') l = f" "dropWhile (\<lambda>c. c \<noteq> CHR '':'') l = CHR '':'' # v"
    unfolding l(1) using l(2) by (induction f) auto
  with l show ?thesis by (simp add: split_field_def field_of_def Let_def index_of_char_first drop_one_space)
next
  case False
  then have "takeWhile (\<lambda>c. c \<noteq> CHR '':'') l = l \<and> dropWhile (\<lambda>c. c \<noteq> CHR '':'') l = []" by (induction l) auto
  with False show ?thesis
    by (simp only: split_field_def field_of_def Let_def index_of_char_None [symmetric] option.case drop_one_space) simp
qed

section \<open>Blocks\<close>

text \<open>The pending event after the lines of a block.\<close>

definition pending_of :: "string list \<Rightarrow> sse_pending" where
  "pending_of b =
     \<lparr>p_event = last (''message'' # block_values ''event'' b), p_data = block_values ''data'' b,
      p_id = (if block_values ''id'' b = [] then None else Some (last (block_values ''id'' b)))\<rparr>"

lemma block_values_snoc [simp]:
  "block_values k [] = []"
  "block_values k (b @ [l]) = block_values k b @ (if \<not> is_comment l \<and> fst (field_of l) = k then [snd (field_of l)] else [])"
  by (simp_all add: block_values_def)

lemma comment_line: "l \<noteq> [] \<Longrightarrow> starts_with l '':'' \<longleftrightarrow> is_comment l"
  by (cases l) (auto simp: is_comment_def starts_with_iff)

lemma on_block_line:
  "l \<noteq> [] \<Longrightarrow> on_line flush l (pending_of b, out) = (pending_of (b @ [l]), out)"
  by (auto simp: on_line_def comment_line split_field_eq on_field_def pending_of_def)

lemma on_block: "[] \<notin> set b \<Longrightarrow> fold (on_line flush) b (fresh_pending, out) = (pending_of b, out)"
proof (induction b rule: rev_induct)
  case Nil
  show ?case by (simp add: pending_of_def fresh_pending_def)
qed (auto simp: on_block_line)

context sse_reader begin

lemma on_lines:
  "fold (on_line flush) ls (fresh_pending, out) =
    (pending_of (last (split_on [] ls)), out @ concat (map (\<lambda>b. snd (flush (pending_of b))) (butlast (split_on [] ls))))"
proof (induction "length ls" arbitrary: ls out rule: less_induct)
  case less
  show ?case
  proof (cases "[] \<in> set ls")
    case False
    then show ?thesis by (simp add: on_block split_on_no_sep)
  next
    case True
    then obtain b r where ls: "ls = b @ [] # r" "[] \<notin> set b" "split_on [] ls = b # split_on [] r"
      by (rule split_on_first)
    have "on_line flush [] (pending_of b, out) = (fresh_pending, out @ snd (flush (pending_of b)))"
      using flush_resets [of "pending_of b"] by (simp add: on_line_def split_beta)
    with less [of r "out @ snd (flush (pending_of b))"] ls on_block [OF ls(2), of flush out] show ?thesis by simp
  qed
qed

lemma reads_text:
  "events_so_far flush chunks = concat (map (\<lambda>b. snd (flush (pending_of b))) (butlast (text_blocks (concat chunks))))"
  "events_at_end flush chunks = concat (map (\<lambda>b. snd (flush (pending_of b))) (text_blocks (concat chunks)))"
proof -
  let ?bs = "text_blocks (concat chunks)"
  have "?bs = butlast ?bs @ [last ?bs]" by (simp add: text_blocks_def)
  then have "concat (map (\<lambda>b. snd (flush (pending_of b))) ?bs) =
      concat (map (\<lambda>b. snd (flush (pending_of b))) (butlast ?bs)) @ snd (flush (pending_of (last ?bs)))"
    by (metis (no_types, lifting) append_Nil2 concat.simps concat_append list.simps(8,9) map_append)
  then show "events_so_far flush chunks = concat (map (\<lambda>b. snd (flush (pending_of b))) (butlast ?bs))"
    "events_at_end flush chunks = concat (map (\<lambda>b. snd (flush (pending_of b))) ?bs)"
    by (simp_all add: events_so_far_drain events_at_end_drain drain_text on_lines text_blocks_def)
qed

end

lemma flushes_block:
  "snd (flushEvent (pending_of b)) = (case block_event b of None \<Rightarrow> [] | Some e \<Rightarrow> [e])"
  "snd (flushAndYield (pending_of b)) = (case block_event b of None \<Rightarrow> [] | Some e \<Rightarrow> event_jsons e)"
  by (auto simp: flushEvent_def flushAndYield_def pending_of_def block_event_def event_jsons_def
      split: option.split json.split)

lemma concat_map_filter:
  "concat (map (\<lambda>x. case f x of None \<Rightarrow> [] | Some y \<Rightarrow> g y) xs) = concat (map g (List.map_filter f xs))"
  by (induction xs) (simp_all add: List.map_filter_simps split: option.split)

lemma readers_read:
  "events_at_end flushEvent chunks = all_events (concat chunks)"
  "events_so_far flushEvent chunks = closed_events (concat chunks)"
  "events_at_end flushAndYield chunks = concat (map event_jsons (all_events (concat chunks)))"
  "events_so_far flushAndYield chunks = concat (map event_jsons (closed_events (concat chunks)))"
  using concat_map_filter [where f = block_event and g = "\<lambda>e. [e]"]
  by (simp_all add: conf_reader.reads_text sdk_reader.reads_text flushes_block concat_map_filter all_events_def closed_events_def)

end
