(* ===== verification/SseProps.thy ===== *)
theory SseProps
  imports SseFormat
begin

text \<open>Properties of the two event-stream readers, each with an instance on a concrete stream.\<close>

section \<open>Chunks\<close>

text \<open>An answer with its body in one piece.\<close>

fun in_one_chunk :: "stream_answer \<Rightarrow> stream_answer" where
  "in_one_chunk (Answer status (Some (chunks, e))) = Answer status (Some ([concat chunks], e))"
| "in_one_chunk a = a"

lemma one_chunk_events:
  "events_at_end flush [concat cs] = events_at_end flush cs" "events_so_far flush [concat cs] = events_so_far flush cs"
  by (simp_all add: events_at_end_drain events_so_far_drain)

text \<open>C27. How the network cuts a response into chunks makes no difference: both readers give
  the same events and end the same way as if the body had come in one piece, also when it
  breaks off.\<close>

theorem readers_ignore_chunking:
  "streamEvents (\<lambda>hr. in_one_chunk (fetch hr)) ctx runId opts = streamEvents fetch ctx runId opts \<and>
   subscribe_sse (\<lambda>hr. in_one_chunk (fetch hr)) ctx path lastEventId = subscribe_sse fetch ctx path lastEventId"
proof -
  have "read_answer (in_one_chunk a) = read_answer a \<and> collect_answer (in_one_chunk a) = collect_answer a" for a
    by (cases a rule: in_one_chunk.cases)
      (simp_all add: read_answer_def collect_answer_def one_chunk_events split: stream_end.split)
  then show ?thesis by (simp add: streamEvents_def subscribe_sse_def Let_def)
qed

section \<open>The two readers\<close>

text \<open>C28. Both readers read the format: on every stream, however it is cut, the suite's reader gives
  one event for each block of lines that has data, with the data lines joined and the last
  type and id, and the SDK's reader gives the JSON values of these events, a batch event by
  event and nothing for data that is no JSON. At the end of a stream, and for the suite also
  when it is aborted, the last block counts though no blank line closes it; the SDK's reader
  drops it when the stream breaks off.\<close>

theorem readers_follow_the_format:
  "let all = all_events (concat chunks); closed = closed_events (concat chunks);
       stream = (\<lambda>e hr. Answer 200 (Some (chunks, e)))
   in subscribe_sse (stream EndDone) env path lid = Inr \<lparr>sb_events = all, sb_status = 200, sb_closedBy = ByServer\<rparr> \<and>
      subscribe_sse (stream (EndAborted c)) env path lid =
        Inr \<lparr>sb_events = all, sb_status = 200, sb_closedBy = (if c then ByCaller else ByTimeout)\<rparr> \<and>
      subscribe_sse (stream (EndError m)) env path lid = Inl m \<and>
      streamEvents (stream EndDone) ctx runId opts = Yields (concat (map event_jsons all)) None \<and>
      streamEvents (stream (EndAborted c)) ctx runId opts = Yields (concat (map event_jsons closed)) (Some ''AbortError'') \<and>
      streamEvents (stream (EndError m)) ctx runId opts = Yields (concat (map event_jsons closed)) (Some m)"
  by (simp add: subscribe_sse_def streamEvents_def collect_answer_def read_answer_def response_ok_def readers_read Let_def)

section \<open>Batches\<close>

text \<open>The frame of a batch of events.\<close>

definition batch_frame :: "nat \<Rightarrow> json list \<Rightarrow> string" where
  "batch_frame i xs = frame_text (nat_str i) ''batch'' (stringify (JArr xs))"

lemma read_batches:
  assumes "list_all (\<lambda>b. list_all wf_json (snd b)) bs"
  shows "drain flushAndYield (concat (map (\<lambda>(i, xs). batch_frame i xs) bs)) (fresh_pending, out) =
    ([], fresh_pending, out @ concat (map snd bs))"
  using assms
proof (induction bs arbitrary: out)
  case (Cons b bs)
  obtain i xs where b: "b = (i, xs)" by (cases b)
  with Cons.prems have xs: "list_all wf_json xs" by simp
  have "one_line ''batch''" by simp
  from sdk_reader.read_frame [OF one_line_texts(1) this one_line_texts(3)] flush_frame(2) [OF xs] Cons b
  show ?case by (simp add: batch_frame_def del: stringify.simps)
qed (simp add: drain_none)

text \<open>Batches are flattened: a stream of batch frames, in any chunks, is yielded event by
  event, in order, whatever the sizes of the batches.\<close>

theorem batches_are_flattened:
  assumes "list_all (\<lambda>b. list_all wf_json (snd b)) bs"
    and "concat chunks = concat (map (\<lambda>(i, xs). batch_frame i xs) bs)"
    and "\<And>hr. fetch hr = Answer 200 (Some (chunks, EndDone))"
  shows "streamEvents fetch ctx runId opts = Yields (concat (map snd bs)) None"
proof -
  have "events_at_end flushAndYield chunks = concat (map snd bs)"
    using read_batches [OF assms(1), of "[]"] sdk_reader.flush_empty [of fresh_pending]
    by (simp add: events_at_end_drain assms(2) fresh_pending_def)
  then show ?thesis by (simp add: streamEvents_def read_answer_def assms(3) response_ok_def Let_def)
qed

definition demo_ctx :: sdk_ctx where
  "demo_ctx = \<lparr>k_baseUrl = ''http://h'', k_apiKey = ''key''\<rparr>"

definition demo_opts :: stream_opts where
  "demo_opts = \<lparr>so_streamMode = None, so_lastEventId = None, so_bufferMs = None\<rparr>"

definition byte_chunks :: "string \<Rightarrow> string list" where
  "byte_chunks s = map (\<lambda>c. [c]) s"

lemma concat_byte_chunks [simp]: "concat (byte_chunks s) = s"
  by (induction s) (simp_all add: byte_chunks_def)

lemma batches_are_flattened_witness:
  "streamEvents (\<lambda>hr. Answer 200 (Some (byte_chunks (batch_frame 0 [JBool True, JNull] @ batch_frame 1 [JStr ''x'']), EndDone)))
     demo_ctx ''r'' demo_opts = Yields [JBool True, JNull, JStr ''x''] None"
  using batches_are_flattened [of "[(0, [JBool True, JNull]), (1, [JStr ''x''])]"
      "byte_chunks (batch_frame 0 [JBool True, JNull] @ batch_frame 1 [JStr ''x''])"] by simp

section \<open>Broken streams\<close>

text \<open>A stream that breaks off inside a frame yields every event whose frame was complete and
  nothing of the last one, and then throws; only the order of the bytes counts, not the
  chunks.\<close>

theorem broken_stream_yields_complete_events:
  assumes "list_all (\<lambda>e. wf_json (ej e)) es" and "n < length (sse_frame ej e)"
    and "concat chunks = concat (map (sse_frame ej) es) @ take n (sse_frame ej e)"
    and "\<And>hr. fetch hr = Answer 200 (Some (chunks, EndError m))"
  shows "streamEvents fetch ctx runId opts = Yields (map ej es) (Some m)"
proof -
  let ?cut = "take n (sse_frame ej e)"
  have "drain flushAndYield (concat chunks) (fresh_pending, []) = drain flushAndYield ?cut (fresh_pending, map ej es)"
    using drain_append [of flushAndYield "concat (map (sse_frame ej) es)" ?cut "(fresh_pending, [])"]
      sdk_reader.read_frames [of ej es "[]"] sdk_frames [OF assms(1)] by (simp add: assms(3))
  moreover have "snd (snd (drain flushAndYield ?cut (fresh_pending, map ej es))) = map ej es"
    unfolding sse_frame_text
    by (rule sdk_reader.read_cut_frame [OF one_line_texts]) (use assms(2) in \<open>simp add: sse_frame_text\<close>)
  ultimately have "events_so_far flushAndYield chunks = map ej es" by (simp add: events_so_far_drain)
  then show ?thesis by (simp add: streamEvents_def read_answer_def assms(4) response_ok_def Let_def)
qed

definition demo_event :: "nat \<Rightarrow> run_event" where
  "demo_event i = \<lparr>e_seq = i, e_runId = ''r'', e_type = NodeStarted, e_nodeId = Some ''n'', e_data = None, e_timestamp = ''T''\<rparr>"

lemma broken_stream_yields_complete_events_witness:
  "streamEvents (\<lambda>hr. Answer 200 (Some (byte_chunks (sse_frame mem_event_json (demo_event 0) @
       take 20 (sse_frame mem_event_json (demo_event 1))), EndError ''reset''))) demo_ctx ''r'' demo_opts =
     Yields [mem_event_json (demo_event 0)] (Some ''reset'')"
  using broken_stream_yields_complete_events [of mem_event_json "[demo_event 0]" 20 "demo_event 1"
      "byte_chunks (sse_frame mem_event_json (demo_event 0) @ take 20 (sse_frame mem_event_json (demo_event 1)))"]
  by (simp add: wf_mem_event demo_event_def sse_frame_def)

end
