(* ===== verification/NetProps.thy ===== *)
theory NetProps
  imports SdkCalls SseProps SqlDemo
begin

text \<open>
  Properties of a client and a host together: what a program that uses the TypeScript SDK
  gets from the reference hosts.
\<close>

section \<open>Reading a finished run\<close>

definition resume_index :: "nat option \<Rightarrow> nat" where
  "resume_index n = (case n of None \<Rightarrow> 0 | Some m \<Rightarrow> Suc m)"

lemma events_after_resume:
  assumes "numbered evs"
  shows "events_after (resume_after (deliver origin (get_stream url (stream_headers k (map_option nat_str n))))) evs =
    drop (resume_index n) evs"
  using events_after_nat [OF assms] by (cases n) (simp_all only: stream_resume_after option.case resume_index_def events_after_start drop_0)

text \<open>The URL of \<open>streamEvents\<close> names the run's stream.\<close>

lemma streamEvents_request:
  assumes "plain_id rid"
  obtains url where "\<And>fetch. streamEvents fetch ctx rid opts =
      read_answer (fetch (get_stream url (stream_headers (k_apiKey ctx) (so_lastEventId opts))))"
    and "run_request ''GET'' [''events''] rid (deliver (k_baseUrl ctx) (get_stream url (stream_headers (k_apiKey ctx) (so_lastEventId opts))))"
proof -
  let ?qs = "query_string (stream_params opts)"
  let ?url = "k_baseUrl ctx @ ''/v1/runs/'' @ encodeURIComponent rid @ ''/events'' @ (if ?qs \<noteq> [] then ''?'' @ ?qs else [])"
  show thesis
    by (rule that [of ?url]) (simp only: streamEvents_def Let_def, rule stream_run_request [OF assms refl refl])
qed

lemma read_ended_stream:
  assumes "list_all (\<lambda>e. wf_json (ej e)) (s_out s)" and "\<And>x. concat (chop x) = x"
  shows "read_answer (stream_of_reply chop (stream_text ej s) (Stream hs)) = Yields (map ej (s_out s)) None"
  using sdk_reader.events_of_frames [of "chop (stream_text ej s)" ej "s_out s"] sdk_frames [OF assms(1)] assms(2)
  by (simp add: read_answer_def response_ok_def stream_text_def)

text \<open>
  A host of finished runs: to an authorized stream request it answers with the frames of the
  events after the request's resume point, and ends the response.
\<close>

locale stream_host =
  fixes answer :: "(string \<Rightarrow> string list) \<Rightarrow> string \<Rightarrow> request \<Rightarrow> stream_answer"
    and log :: "string \<Rightarrow> run_event list"
    and ej :: "run_event \<Rightarrow> json"
    and key :: string
    and finished :: "string \<Rightarrow> bool"
  assumes answers: "finished rid \<Longrightarrow> run_request ''GET'' [''events''] rid rq \<Longrightarrow> authorized key rq \<Longrightarrow>
      \<exists>s hs. answer chop rid rq = stream_of_reply chop (stream_text ej s) (Stream hs) \<and>
        s_out s = events_after (resume_after rq) (log rid)"
    and log_numbered: "finished rid \<Longrightarrow> numbered (log rid)"
    and log_json: "finished rid \<Longrightarrow> list_all (\<lambda>e. wf_json (ej e)) (log rid)"
begin

lemma sdk_reads:
  assumes "finished rid" and "plain_id rid" and "plain_key key" and "cl_apiKey cl = key"
    and "so_lastEventId opts = map_option nat_str n" and "\<And>x. concat (chop x) = x"
    and "\<And>hr. fetch hr = answer chop rid (deliver (cl_baseUrl cl) hr)"
  shows "sdk_events fetch cl rid opts = Yields (map ej (drop (resume_index n) (log rid))) None"
proof -
  let ?ctx = "\<lparr>k_baseUrl = cl_baseUrl cl, k_apiKey = cl_apiKey cl\<rparr>"
  obtain url where url: "\<And>fetch. streamEvents fetch ?ctx rid opts =
      read_answer (fetch (get_stream url (stream_headers (cl_apiKey cl) (so_lastEventId opts))))"
    and run: "run_request ''GET'' [''events''] rid (deliver (cl_baseUrl cl) (get_stream url (stream_headers (cl_apiKey cl) (so_lastEventId opts))))"
    using streamEvents_request [OF assms(2), of ?ctx opts] by auto
  let ?rq = "deliver (cl_baseUrl cl) (get_stream url (stream_headers (cl_apiKey cl) (so_lastEventId opts)))"
  have "authorized key ?rq" using stream_auth [OF assms(3)] assms(4) by simp
  from answers [OF assms(1) run this] obtain s hs
    where s: "answer chop rid ?rq = stream_of_reply chop (stream_text ej s) (Stream hs)"
      "s_out s = events_after (resume_after ?rq) (log rid)" by blast
  then have out: "s_out s = drop (resume_index n) (log rid)"
    using events_after_resume [OF log_numbered [OF assms(1)]] by (simp add: assms(5))
  with log_json [OF assms(1)] have "list_all (\<lambda>e. wf_json (ej e)) (s_out s)"
    by (metis append_take_drop_id list_all_append)
  from read_ended_stream [OF this assms(6)] s(1) out show ?thesis by (simp add: sdk_events_def url assms(7))
qed

end

text \<open>Both hosts are such hosts, in every reachable state.\<close>

definition mem_finished :: "mem_config \<Rightarrow> mem_host \<Rightarrow> string \<Rightarrow> bool" where
  "mem_finished cfg h rid \<longleftrightarrow> mem_reachable cfg h \<and> (\<exists>r. h_runs h rid = Some r \<and> is_terminal (r_status r))"

definition mem_answer :: "mem_config \<Rightarrow> env \<Rightarrow> mem_host \<Rightarrow> (string \<Rightarrow> string list) \<Rightarrow> string \<Rightarrow> request \<Rightarrow> stream_answer" where
  "mem_answer cfg en h chop rid rq =
     (let (h1, rep) = mem_serve cfg en rq h
      in stream_of_reply chop (stream_text mem_event_json (last (r_subs (the (h_runs h1 rid))))) rep)"

interpretation mem_streams: stream_host "mem_answer cfg en h" "\<lambda>rid. r_events (the (h_runs h rid))" mem_event_json
  "c_api_key cfg" "mem_finished cfg h" for cfg en h
proof unfold_locales
  fix rid rq chop
  assume fin: "mem_finished cfg h rid"
  then obtain r where r: "mem_reachable cfg h" "h_runs h rid = Some r" "is_terminal (r_status r)"
    by (auto simp: mem_finished_def)
  obtain w :: workflow where "run_ok (wf_nodes w) r" using mem_reachable_run [OF r(1,2)] .
  then show "numbered (r_events (the (h_runs h rid)))" using seqs_ok_numbered r(2) by (simp add: run_ok_def)
  show "list_all (\<lambda>e. wf_json (mem_event_json e)) (r_events (the (h_runs h rid)))"
    using mem_reachable_data [OF r(1,2)] wf_mem_event r(2) by (simp add: list_all_iff)
  assume run: "run_request ''GET'' [''events''] rid rq" and auth: "authorized (c_api_key cfg) rq"
  let ?s = "subscribe (resume_after rq) True (r_events r)"
  have "mem_serve cfg en rq h = (set_run h rid (r\<lparr>r_subs := r_subs r @ [?s]\<rparr>), Stream sse_headers)"
    using r(2,3) auth
    by (simp add: checkAuth_None [symmetric] mem_serve_def mem_route_sse [OF run] mem_handleEventsSse_def mem_with_run_def)
  then show "\<exists>s hs. mem_answer cfg en h chop rid rq = stream_of_reply chop (stream_text mem_event_json s) (Stream hs) \<and>
      s_out s = events_after (resume_after rq) (r_events (the (h_runs h rid)))"
    using r(2) by (intro exI [of _ ?s] exI [of _ sse_headers]) (simp add: mem_answer_def set_run_def subscribe_def)
qed

definition sql_finished :: "sql_config \<Rightarrow> string \<Rightarrow> sql_host \<Rightarrow> string \<Rightarrow> bool" where
  "sql_finished cfg pid h rid \<longleftrightarrow>
     sql_reachable cfg (Up pid h) \<and> (\<exists>r. getRun rid (g_db h) = Some r \<and> is_terminal (q_status r))"

definition sql_answer :: "sql_config \<Rightarrow> env \<Rightarrow> sql_host \<Rightarrow> (string \<Rightarrow> string list) \<Rightarrow> string \<Rightarrow> request \<Rightarrow> stream_answer" where
  "sql_answer cfg en h chop rid rq =
     (let (rep, h1) = sql_serve cfg en rq h
      in stream_of_reply chop (stream_text sql_event_json (last (g_subs h1 rid))) rep)"

interpretation sql_streams: stream_host "sql_answer cfg en h" "\<lambda>rid. sql_log rid (g_db h)" sql_event_json
  "s_api_key cfg" "sql_finished cfg pid h" for cfg en pid h
proof unfold_locales
  fix rid rq chop
  assume fin: "sql_finished cfg pid h rid"
  then obtain r where r: "sql_reachable cfg (Up pid h)" "getRun rid (g_db h) = Some r" "is_terminal (q_status r)"
    by (auto simp: sql_finished_def)
  have "log_inv rid (g_db h)" using sql_log_inv [OF r(1), of rid] r(2) by simp
  then show "numbered (sql_log rid (g_db h))" by (rule sql_log.inv_numbered)
  show "list_all (\<lambda>e. wf_json (sql_event_json e)) (sql_log rid (g_db h))" using wf_sql_log by (auto simp: list_all_iff)
  assume run: "run_request ''GET'' [''events''] rid rq" and auth: "authorized (s_api_key cfg) rq"
  let ?s = "\<lparr>s_after = resume_after rq, s_out = events_after (resume_after rq) (sql_log rid (g_db h)), s_ended = True,
    s_listening = False\<rparr>"
  have "sql_route cfg en rq h = sql_handleEventsSse cfg rq rid h"
    using run by (simp add: run_request_def sql_route_def patterns_path_of)
  then have "sql_serve cfg en rq h = (Stream sse_headers, h\<lparr>g_subs := (g_subs h)(rid := g_subs h rid @ [?s])\<rparr>)"
    using r(2,3) auth sql_page [OF r(1,2)]
    by (simp add: checkAuth_None [symmetric] sql_serve_def sql_handleEventsSse_def sql_with_run_def)
  then show "\<exists>s hs. sql_answer cfg en h chop rid rq = stream_of_reply chop (stream_text sql_event_json s) (Stream hs) \<and>
      s_out s = events_after (resume_after rq) (sql_log rid (g_db h))"
    by (intro exI [of _ ?s] exI [of _ sse_headers]) (simp add: sql_answer_def)
qed

text \<open>C29. \<^verbatim>\<open>client.runs.events\<close> on a finished run of the in-memory host, from the URL it
  builds to the values it yields: exactly the run's events after the one it resumes from, in
  order, and then the generator returns, however the response is cut into chunks.\<close>

theorem sdk_reads_finished_run:
  assumes "mem_reachable cfg h" and "h_runs h rid = Some r" and "is_terminal (r_status r)"
    and "plain_id rid" and "plain_key (c_api_key cfg)" and "cl_apiKey cl = c_api_key cfg"
    and "so_lastEventId opts = map_option nat_str n" and "\<And>x. concat (chop x) = x"
  shows "sdk_events (mem_stream cfg en (cl_baseUrl cl) chop h rid) cl rid opts =
    Yields (map mem_event_json (drop (resume_index n) (r_events r))) None"
  using mem_streams.sdk_reads [of cfg h rid cl opts n chop "mem_stream cfg en (cl_baseUrl cl) chop h rid" en] assms
  by (auto simp: mem_finished_def mem_stream_def mem_answer_def)

definition demo_client :: wop_client where
  "demo_client = \<lparr>cl_baseUrl = ''http://h'', cl_apiKey = ''key'', cl_acceptLanguage = None\<rparr>"

lemma demo_client_simps [simp]: "cl_baseUrl demo_client = ''http://h''" "cl_apiKey demo_client = ''key''"
  by (simp_all add: demo_client_def)

lemma demo_plain [simp]: "plain_id demo_id" "plain_key ''key''"
  by code_simp+

lemma sdk_reads_finished_run_witness:
  "sdk_events (mem_stream demo_cfg (demo_env 1 ''v'') ''http://h'' byte_chunks (demo_host 3) demo_id) demo_client demo_id
     (demo_opts\<lparr>so_lastEventId := Some ''0''\<rparr>) =
   Yields (map mem_event_json (drop 1 (r_events (demo_run 3)))) None"
  using sdk_reads_finished_run [OF demo_reachable_3 demo_host_run demo_terminal demo_plain(1),
      where n = "Some 0" and cl = demo_client and chop = byte_chunks and opts = "demo_opts\<lparr>so_lastEventId := Some ''0''\<rparr>"]
  by (simp add: resume_index_def nat_str_0)

text \<open>The same of the SQLite host, over whatever crashes and restarts the run has been through.\<close>

theorem sdk_reads_finished_sqlite_run:
  assumes "sql_reachable cfg (Up pid h)" and "getRun rid (g_db h) = Some r" and "is_terminal (q_status r)"
    and "plain_id rid" and "plain_key (s_api_key cfg)" and "cl_apiKey cl = s_api_key cfg"
    and "so_lastEventId opts = map_option nat_str n" and "\<And>x. concat (chop x) = x"
  shows "sdk_events (sql_stream cfg en (cl_baseUrl cl) chop h rid) cl rid opts =
    Yields (map sql_event_json (drop (resume_index n) (sql_log rid (g_db h)))) None"
  using sql_streams.sdk_reads [of cfg pid h rid cl opts n chop "sql_stream cfg en (cl_baseUrl cl) chop h rid" en] assms
  by (auto simp: sql_finished_def sql_stream_def sql_answer_def)

lemma sdk_reads_finished_sqlite_run_witness:
  "let h = sdemo_host (sdemo_create @ sdemo_end)
   in sdk_events (sql_stream sdemo_cfg (demo_env 1 ''v'') ''http://h'' byte_chunks h demo_id) demo_client demo_id demo_opts =
     Yields (map sql_event_json (sql_log demo_id (g_db h))) None"
proof -
  let ?as = "sdemo_create @ sdemo_end"
  let ?h = "sdemo_host ?as"
  have up: "sdemo ?as = Up ''p1'' ?h" using sdemo_run(4) [OF sdemo_ended] by simp
  have "sql_reachable sdemo_cfg (Up ''p1'' ?h)" "getRun demo_id (g_db ?h) = Some (sdemo_row ?as)"
    using sdemo_run(2,3) [OF sdemo_ended] up by simp_all
  moreover have "is_terminal (q_status (sdemo_row ?as))" by code_simp
  moreover have "s_api_key sdemo_cfg = ''key''" by (simp add: sdemo_cfg_def)
  ultimately show ?thesis
    using sdk_reads_finished_sqlite_run [of sdemo_cfg "''p1''" ?h demo_id, where n = None and cl = demo_client
        and chop = byte_chunks and opts = demo_opts]
    by (simp add: demo_opts_def resume_index_def Let_def)
qed

section \<open>Polling through the SDK\<close>

text \<open>C30. The SDK and the reference hosts disagree on the name of the resume parameter: whatever
  \<^verbatim>\<open>lastSequence\<close> and \<^verbatim>\<open>timeoutSeconds\<close> a caller of
  \<^verbatim>\<open>client.runs.pollEvents\<close> gives, the in-memory host answers at once with the whole
  log from the first event; and its answer lacks the \<^verbatim>\<open>isComplete\<close> the SDK's type
  promises.\<close>

theorem sdk_poll_gets_everything:
  assumes "mem_reachable cfg h" and "h_runs h rid = Some r"
    and "plain_id rid" and "plain_key (c_api_key cfg)" and "cl_apiKey cl = c_api_key cfg"
  shows "\<exists>v. sdk_pollEvents (mem_fetch cfg en (cl_baseUrl cl) h) cl rid lastSequence timeoutSeconds = Inr (Some v) \<and>
    js_prop v ''events'' = Some (JArr (map mem_event_json (r_events r))) \<and>
    js_prop v ''isTerminal'' = Some (JBool (is_terminal (r_status r))) \<and> js_prop v ''isComplete'' = None"
  using sdk_pollEvents_mem [OF assms] by (simp add: poll_body_def)

lemma sdk_poll_gets_everything_witness:
  "\<exists>v. sdk_pollEvents (mem_fetch demo_cfg (demo_env 1 ''v'') ''http://h'' (demo_host 3)) demo_client demo_id
      (Some (num_of_nat 99999)) (Some (num_of_nat 1)) = Inr (Some v) \<and>
    js_prop v ''events'' = Some (JArr (map mem_event_json (r_events (demo_run 3))))"
  using sdk_poll_gets_everything [OF demo_reachable_3 demo_host_run demo_plain(1), of demo_client "demo_env 1 ''v''"
      "Some (num_of_nat 99999)" "Some (num_of_nat 1)"] by auto

section \<open>Errors through the SDK\<close>

definition thrown :: "nat \<Rightarrow> string \<Rightarrow> string \<Rightarrow> sdk_error + json option" where
  "thrown st c m = Inl (WopError \<lparr>we_message = m, we_status = st, we_rawText = stringify (error_body c m),
     we_envelope = Some (error_body c m), we_traceparent = None, we_traceId = None\<rparr>)"

lemma thrown_by:
  assumes "snd (mem_serve cfg en (deliver origin (sent_request cl raw a)) h) = sendError st c m" and "\<not> response_ok st"
  shows "sdk_request (mem_fetch cfg en origin h) cl raw a = thrown st c m"
proof -
  obtain r where r: "of_reply (sendError st c m) = Fetched r" by (simp add: sendError_def sendJSON_def sendText_def)
  with assms decode_sendError [OF assms(2) r] show ?thesis by (simp add: sdk_request_def mem_fetch_def thrown_def)
qed

text \<open>What a handler of one run answers to a request it will not serve.\<close>

lemma with_run_refuses:
  assumes "rq_headers rq ''authorization'' = Some (''Bearer '' @ key)" and "plain_key key"
    and "key \<noteq> c_api_key cfg \<or> h_runs h rid = None"
  shows "mem_with_run cfg rq h rid k =
    (h, if key \<noteq> c_api_key cfg then sendError 401 ''invalid_credential'' ''Bearer token rejected.'' else run_not_found rid)"
  using assms by (auto simp: mem_with_run_def checkAuth_def plain_key_def split: option.split)

definition create_raw :: "json \<Rightarrow> mutation_opts \<Rightarrow> raw_request" where
  "create_raw body opts = post_of ''/v1/runs'' body opts"

lemma sdk_create_request:
  "create_request (deliver (cl_baseUrl cl) (sent_request cl (create_raw body opts) True))"
  "rq_body (deliver (cl_baseUrl cl) (sent_request cl (create_raw body opts) True)) = stringify body"
proof -
  have "hr_url (sent_request cl (create_raw body opts) True) = cl_baseUrl cl @ ''/v1/runs'' @ (if [] = [] then [] else CHR ''?'' # query_string [])"
    by (simp add: sent_request_def create_raw_def post_of_def)
  from deliver_target(1) [OF this]
  show "create_request (deliver (cl_baseUrl cl) (sent_request cl (create_raw body opts) True))"
    by (simp add: create_request_def) (simp add: sent_request_def create_raw_def post_of_def)
  show "rq_body (deliver (cl_baseUrl cl) (sent_request cl (create_raw body opts) True)) = stringify body"
    by (simp add: sent_request_def create_raw_def post_of_def)
qed

lemma stream_bearer:
  "rq_headers (deliver origin (get_stream url (stream_headers k lid))) ''authorization'' = Some (''Bearer '' @ k)"
  by (simp add: get_stream_def stream_headers_def lower_names)

text \<open>What the SDK's iterator makes of a stream request that is refused.\<close>

lemma refused_stream:
  assumes "plain_id rid" and "plain_key (cl_apiKey cl)" and "cl_apiKey cl \<noteq> c_api_key cfg \<or> h_runs h rid = None"
  shows "sdk_events (mem_stream cfg en (cl_baseUrl cl) chop h rid) cl rid sopts =
    Yields [] (Some (''SSE subscribe failed: HTTP '' @ nat_str (if cl_apiKey cl \<noteq> c_api_key cfg then 401 else 404)))"
proof -
  let ?ctx = "\<lparr>k_baseUrl = cl_baseUrl cl, k_apiKey = cl_apiKey cl\<rparr>"
  let ?hr = "\<lambda>url. get_stream url (stream_headers (cl_apiKey cl) (so_lastEventId sopts))"
  obtain url where url: "\<And>fetch. streamEvents fetch ?ctx rid sopts = read_answer (fetch (?hr url))"
    and run: "run_request ''GET'' [''events''] rid (deliver (cl_baseUrl cl) (?hr url))"
    using streamEvents_request [OF assms(1), of ?ctx sopts] by auto
  have "mem_serve cfg en (deliver (cl_baseUrl cl) (?hr url)) h =
      (h, if cl_apiKey cl \<noteq> c_api_key cfg then sendError 401 ''invalid_credential'' ''Bearer token rejected.'' else run_not_found rid)"
    using with_run_refuses [OF stream_bearer assms(2,3)] by (simp add: mem_serve_def mem_route_sse [OF run] mem_handleEventsSse_def)
  then show ?thesis
    by (simp add: sdk_events_def url mem_stream_def run_not_found_def sendError_def sendJSON_def sendText_def read_answer_def response_ok_def)
qed

text \<open>C31. The host's errors arrive as they are. A wrong key makes creating, reading, cancelling and
  polling a run throw a \<^verbatim>\<open>WopError\<close> with the host's status, envelope and message,
  and so does an unknown run for the last three, whatever the other arguments are; the key is
  looked at first. The event iterator yields nothing then and throws an error that has the
  status in its text but no envelope.\<close>

theorem host_errors_reach_the_caller:
  assumes "plain_id rid" and "plain_key (cl_apiKey cl)" and "cl_apiKey cl \<noteq> c_api_key cfg \<or> h_runs h rid = None"
  shows "let fetch = mem_fetch cfg en (cl_baseUrl cl) h;
             wrong_key = thrown 401 ''invalid_credential'' ''Bearer token rejected.'';
             e = (if cl_apiKey cl \<noteq> c_api_key cfg then wrong_key else thrown 404 ''run_not_found'' (''Unknown runId: '' @ rid))
    in sdk_getRun fetch cl rid = e \<and> sdk_cancelRun fetch cl rid body opts = e \<and> sdk_pollEvents fetch cl rid ls ts = e \<and>
       (cl_apiKey cl \<noteq> c_api_key cfg \<longrightarrow> sdk_createRun fetch cl cbody copts = wrong_key) \<and>
       sdk_events (mem_stream cfg en (cl_baseUrl cl) chop h rid) cl rid sopts =
         Yields [] (Some (''SSE subscribe failed: HTTP '' @ nat_str (if cl_apiKey cl \<noteq> c_api_key cfg then 401 else 404)))"
proof -
  let ?e = "if cl_apiKey cl \<noteq> c_api_key cfg then thrown 401 ''invalid_credential'' ''Bearer token rejected.''
    else thrown 404 ''run_not_found'' (''Unknown runId: '' @ rid)"
  have call: "sdk_request (mem_fetch cfg en (cl_baseUrl cl) h) cl raw True = ?e"
    if "mem_serve cfg en (deliver (cl_baseUrl cl) (sent_request cl raw True)) h =
          mem_with_run cfg (deliver (cl_baseUrl cl) (sent_request cl raw True)) h rid k"
      and "rq_headers (deliver (cl_baseUrl cl) (sent_request cl raw True)) ''authorization'' = Some (''Bearer '' @ cl_apiKey cl)" for raw k
    using thrown_by [of cfg en "cl_baseUrl cl" cl raw True h] that(1) with_run_refuses [OF that(2) assms(2,3), of k]
    by (simp add: run_not_found_def response_ok_def)
  have auth: "rq_headers (deliver (cl_baseUrl cl) (sent_request cl (poll_raw rid ls ts) True)) ''authorization'' =
      Some (''Bearer '' @ cl_apiKey cl)"
    using poll_raw_get [of rid ls ts] sent_auth(1) by (elim exE) (simp only:)
  have "sdk_getRun (mem_fetch cfg en (cl_baseUrl cl) h) cl rid = ?e"
    unfolding sdk_getRun_def
    by (rule call [OF _ sent_auth(1)]) (simp add: mem_serve_def mem_route_get [OF sdk_run_requests(1) [OF assms(1)]] mem_handleGetRun_def)
  moreover have "sdk_cancelRun (mem_fetch cfg en (cl_baseUrl cl) h) cl rid body opts = ?e"
    unfolding sdk_cancelRun_def
    by (rule call [OF _ sent_auth(2)]) (simp add: mem_serve_def mem_route_cancel [OF sdk_run_requests(2) [OF assms(1)]] mem_handleCancelRun_def)
  moreover have "sdk_pollEvents (mem_fetch cfg en (cl_baseUrl cl) h) cl rid ls ts = ?e"
    unfolding sdk_pollEvents_raw
    by (rule call [OF _ auth]) (simp add: mem_serve_def mem_route_poll [OF sdk_poll_request(1) [OF assms(1)]] mem_handleEventsPoll_def)
  moreover have "sdk_createRun (mem_fetch cfg en (cl_baseUrl cl) h) cl cbody copts =
      thrown 401 ''invalid_credential'' ''Bearer token rejected.''" if "cl_apiKey cl \<noteq> c_api_key cfg"
  proof -
    let ?rq = "deliver (cl_baseUrl cl) (sent_request cl (create_raw cbody copts) True)"
    have "checkAuth (c_api_key cfg) ?rq = Some (sendError 401 ''invalid_credential'' ''Bearer token rejected.'')"
      using sent_auth(2) [of "cl_baseUrl cl" cl "''/v1/runs''" cbody copts] that assms(2)
      by (simp add: create_raw_def checkAuth_def plain_key_def)
    then have "snd (mem_serve cfg en ?rq h) = sendError 401 ''invalid_credential'' ''Bearer token rejected.''"
      by (simp add: mem_serve_def mem_route_create [OF sdk_create_request(1)] mem_handleCreateRun_def check_create_def)
    from thrown_by [OF this] show ?thesis by (simp add: sdk_createRun_def create_raw_def response_ok_def)
  qed
  moreover note refused_stream [OF assms, of en chop sopts]
  ultimately show ?thesis unfolding Let_def by blast
qed

lemma host_errors_reach_the_caller_witness:
  "sdk_getRun (mem_fetch demo_cfg (demo_env 1 ''v'') ''http://h'' (demo_host 3)) demo_client ''run-x'' =
     thrown 404 ''run_not_found'' ''Unknown runId: run-x''"
proof -
  have "plain_id ''run-x''" by code_simp
  moreover have "h_runs (demo_host 3) ''run-x'' = None" by code_simp
  ultimately show ?thesis
    using host_errors_reach_the_caller [of "''run-x''" demo_client demo_cfg "demo_host 3" "demo_env 1 ''v''"]
    by (simp add: Let_def)
qed

section \<open>Creating a run through the SDK\<close>

definition after_create :: "mem_config \<Rightarrow> env \<Rightarrow> wop_client \<Rightarrow> json \<Rightarrow> mutation_opts \<Rightarrow> mem_host \<Rightarrow> mem_host" where
  "after_create cfg en cl body opts h =
     fst (mem_serve cfg en (deliver (cl_baseUrl cl) (sent_request cl (create_raw body opts) True)) h)"

lemma sdk_create_check:
  assumes "wf_json body" and "js_prop body ''workflowId'' = Some (JStr wid)" and "c_workflows cfg wid \<noteq> None"
    and "plain_key (c_api_key cfg)" and "cl_apiKey cl = c_api_key cfg"
  shows "check_create (c_api_key cfg) (c_workflows cfg) (deliver (cl_baseUrl cl) (sent_request cl (create_raw body opts) True)) =
    Accepts wid (inputs_or_empty (js_prop body ''inputs''))"
  unfolding check_create_Accepts sdk_create_request(2)
  using assms json_roundtrip [OF assms(1)] sent_authorized(2) [OF assms(5,4)] by (auto simp: create_raw_def)

text \<open>Retrying a create through the SDK is safe: the first call with a fresh
  \<^verbatim>\<open>idempotencyKey\<close> returns the new run's document, and the same call any time
  within the 24 hours, after any other traffic, returns the same document and makes no
  second run.\<close>

theorem sdk_create_retry_is_safe:
  assumes "wf_json body" and "js_prop body ''workflowId'' = Some (JStr wid)" and "c_workflows cfg wid \<noteq> None"
    and "plain_key (c_api_key cfg)" and "cl_apiKey cl = c_api_key cfg"
    and "mo_idempotencyKey opts = Some key" and "key \<noteq> []" and "h_idem h (idem_key cfg key) = None"
    and "mem_trace cfg (after_create cfg en cl body opts h) as h2"
    and "list_all (served_by (now_ms en + IDEMPOTENCY_TTL_MS)) as" and "now_ms en2 \<le> now_ms en + IDEMPOTENCY_TTL_MS"
  shows "let doc = created_body (new_run_id en) wid (iso en)
    in sdk_createRun (mem_fetch cfg en (cl_baseUrl cl) h) cl body opts = Inr (Some doc) \<and>
       sdk_createRun (mem_fetch cfg en2 (cl_baseUrl cl) h2) cl body opts = Inr (Some doc) \<and>
       h_runs (after_create cfg en2 cl body opts h2) = h_runs h2"
proof -
  let ?rq = "deliver (cl_baseUrl cl) (sent_request cl (create_raw body opts) True)"
  let ?doc = "created_body (new_run_id en) wid (iso en)"
  let ?hash = "c_sha256 cfg (stringify body)"
  have key: "rq_headers ?rq ''idempotency-key'' = Some key"
    using sent_idempotency_key [of "cl_baseUrl cl" cl "''/v1/runs''" body opts] assms(6,7) by (simp add: create_raw_def)
  note d = mem_serve_create_decide [OF sdk_create_request(1) key sdk_create_check [OF assms(1-5)], unfolded sdk_create_request(2)]
  have "mem_idem.decide (now_ms en) (idem_key cfg key) ?hash (h_idem h) = Fresh"
    using assms(8) by (simp add: mem_idem.decide_def pruneIdempotencyCache_def)
  with d [of en h] have first: "mem_serve cfg en ?rq h = mem_createRun cfg en wid (inputs_or_empty (js_prop body ''inputs''))
      (Some key) ?hash (h\<lparr>h_idem := pruneIdempotencyCache (now_ms en) (h_idem h)\<rparr>)"
    by (simp add: Let_def)
  then have rep1: "snd (mem_serve cfg en ?rq h) = sendText 201 ''application/json'' (stringify ?doc) [(''WOP-Idempotent-Replay'', ''false'')]"
    by (simp add: mem_createRun_def Let_def)
  have "h_idem (after_create cfg en cl body opts h) (idem_key cfg key) = Some \<lparr>i_status = 201, i_body = stringify ?doc,
      i_contentType = ''application/json'', i_bodyHash = ?hash, i_storedAt = now_ms en\<rparr>"
    unfolding after_create_def first by (simp add: mem_createRun_idem idem_key_def)
  then have "mem_idem.decide (now_ms en2) (idem_key cfg key) ?hash (h_idem h2) = Replay \<lparr>i_status = 201, i_body = stringify ?doc,
      i_contentType = ''application/json'', i_bodyHash = ?hash, i_storedAt = now_ms en\<rparr>"
    using mem_idem.decide_kept [OF mem_trace_idem [OF assms(9,10)], of "idem_key cfg key" _ "now_ms en2" ?hash] assms(11) by simp
  with d [of en2 h2] have second: "mem_serve cfg en2 ?rq h2 = (h2\<lparr>h_idem := pruneIdempotencyCache (now_ms en2) (h_idem h2)\<rparr>,
      sendText 201 ''application/json'' (stringify ?doc) [(''WOP-Idempotent-Replay'', ''true'')])"
    by (simp add: Let_def)
  have "wf_json ?doc" by (simp add: created_body_def)
  from decode_json [OF this] rep1 second show ?thesis
    by (simp add: Let_def sdk_createRun_def sdk_request_def mem_fetch_def after_create_def create_raw_def [symmetric]
        sendText_def response_ok_def)
qed

lemma sdk_create_retry_is_safe_witness:
  "let opts = \<lparr>mo_idempotencyKey = Some ''k'', mo_dedup = None\<rparr>;
       h1 = after_create demo_cfg (demo_env 0 ''u'') demo_client demo_body opts init_host
   in sdk_createRun (mem_fetch demo_cfg (demo_env 1000 ''v'') ''http://h'' h1) demo_client demo_body opts =
      Inr (Some (created_body (new_run_id (demo_env 0 ''u'')) ''w'' ''T''))"
proof -
  have "wf_json demo_body" "js_prop demo_body ''workflowId'' = Some (JStr ''w'')" by (simp_all add: demo_body_def)
  moreover have "now_ms (demo_env 1000 ''v'') \<le> now_ms (demo_env 0 ''u'') + IDEMPOTENCY_TTL_MS" "iso (demo_env 0 ''u'') = ''T''"
    by (simp_all add: demo_env_def IDEMPOTENCY_TTL_MS_def)
  ultimately show ?thesis
    using sdk_create_retry_is_safe [of demo_body "''w''" demo_cfg demo_client "\<lparr>mo_idempotencyKey = Some ''k'', mo_dedup = None\<rparr>" "''k''"
        init_host "demo_env 0 ''u''" "[]" _ "demo_env 1000 ''v''", OF _ _ _ _ _ _ _ _ trace_nil]
    by (simp add: Let_def init_host_def)
qed

end
