(* ===== verification/SdkTypes.thy ===== *)
theory SdkTypes
  imports SdkCalls
begin

text \<open>
  The response types of the TypeScript SDK (\<^verbatim>\<open>sdk/typescript/src/types.ts\<close>) as types
  of JSON values. \<^verbatim>\<open>client.ts\<close> casts what \<^verbatim>\<open>JSON.parse\<close> returns to these types
  without looking at it, so whether a value has the type its caller sees is a property of
  client and host together.
\<close>

section \<open>Types of JSON values\<close>

text \<open>
  The type expressions that \<^verbatim>\<open>types.ts\<close> is written in. An interface is a list of fields,
  each with its name, whether it is optional (\<^verbatim>\<open>?\<close>) and its type; fields it does not
  name are allowed, as in TypeScript's structural typing. A JSON value has no
  \<^verbatim>\<open>undefined\<close>, so an optional field that is present must have its type.
\<close>

datatype ts_type =
  TString | TNumber | TBoolean | TUnknown
| TLiterals "string list"
| TArray ts_type
| TRecord ts_type
| TInterface "(string \<times> bool \<times> ts_type) list"

fun has_type :: "ts_type \<Rightarrow> json \<Rightarrow> bool"
  and has_fields :: "(string \<times> bool \<times> ts_type) list \<Rightarrow> json \<Rightarrow> bool" where
  "has_type TString v = (case v of JStr _ \<Rightarrow> True | _ \<Rightarrow> False)"
| "has_type TNumber v = (case v of JNum _ \<Rightarrow> True | _ \<Rightarrow> False)"
| "has_type TBoolean v = (case v of JBool _ \<Rightarrow> True | _ \<Rightarrow> False)"
| "has_type TUnknown v = True"
| "has_type (TLiterals ss) v = (case v of JStr s \<Rightarrow> s \<in> set ss | _ \<Rightarrow> False)"
| "has_type (TArray t) v = (case v of JArr xs \<Rightarrow> list_all (has_type t) xs | _ \<Rightarrow> False)"
| "has_type (TRecord t) v = (case v of JObj fs \<Rightarrow> list_all (\<lambda>(k, x). has_type t x) fs | _ \<Rightarrow> False)"
| "has_type (TInterface ts) v = (case v of JObj _ \<Rightarrow> has_fields ts v | _ \<Rightarrow> False)"
| "has_fields [] v = True"
| "has_fields ((k, opt, t) # ts) v =
     ((case js_prop v k of None \<Rightarrow> opt | Some x \<Rightarrow> has_type t x) \<and> has_fields ts v)"

definition req :: "string \<Rightarrow> ts_type \<Rightarrow> string \<times> bool \<times> ts_type" where
  "req k t = (k, False, t)"

definition opt :: "string \<Rightarrow> ts_type \<Rightarrow> string \<times> bool \<times> ts_type" where
  "opt k t = (k, True, t)"

section \<open>The declared types\<close>

definition RunStatus_t :: ts_type where
  "RunStatus_t = TLiterals [''pending'', ''running'', ''paused'', ''waiting-approval'', ''waiting-input'',
     ''completed'', ''failed'', ''cancelled'']"

definition Capabilities_t :: ts_type where
  "Capabilities_t = TInterface [
     req ''protocolVersion'' TString,
     req ''supportedEnvelopes'' (TArray TString),
     req ''schemaVersions'' (TRecord TNumber),
     req ''limits'' (TInterface [req ''clarificationRounds'' TNumber, req ''schemaRounds'' TNumber,
       req ''envelopesPerTurn'' TNumber, opt ''maxNodeExecutions'' TNumber]),
     opt ''extensions'' (TRecord TUnknown),
     opt ''implementation'' (TInterface [opt ''name'' TString, opt ''version'' TString, opt ''vendor'' TString]),
     opt ''engineVersion'' TNumber,
     opt ''eventLogSchemaVersion'' TNumber,
     opt ''supportedTransports'' (TArray (TLiterals [''rest'', ''mcp'', ''a2a'', ''grpc''])),
     opt ''configurable'' (TRecord TUnknown),
     opt ''observability'' (TRecord TUnknown),
     opt ''minClientVersion'' TString]"

definition RunSnapshot_t :: ts_type where
  "RunSnapshot_t = TInterface [
     req ''runId'' TString, req ''workflowId'' TString, req ''status'' RunStatus_t,
     opt ''currentNodeId'' TString, opt ''startedAt'' TString, opt ''completedAt'' TString,
     opt ''nodeStates'' (TRecord TUnknown), opt ''variables'' (TRecord TUnknown), opt ''channels'' (TRecord TUnknown),
     opt ''error'' (TInterface [opt ''code'' TString, opt ''message'' TString])]"

text \<open>\<^verbatim>\<open>RunConfigurable\<close> has an index signature: keys it does not name are allowed anyway.\<close>

definition RunConfigurable_t :: ts_type where
  "RunConfigurable_t = TInterface [
     opt ''recursionLimit'' TNumber, opt ''model'' TString, opt ''temperature'' TNumber, opt ''maxTokens'' TNumber,
     opt ''promptOverrides'' (TRecord TString)]"

definition CreateRunRequest_t :: ts_type where
  "CreateRunRequest_t = TInterface [
     req ''workflowId'' TString, opt ''inputs'' (TRecord TUnknown), opt ''tenantId'' TString,
     opt ''scopeId'' TString, opt ''callbackUrl'' TString, opt ''configurable'' RunConfigurable_t,
     opt ''tags'' (TArray TString), opt ''metadata'' (TRecord TUnknown)]"

definition CreateRunResponse_t :: ts_type where
  "CreateRunResponse_t = TInterface [
     req ''runId'' TString, req ''status'' RunStatus_t, req ''eventsUrl'' TString, opt ''statusUrl'' TString]"

definition CancelRunResponse_t :: ts_type where
  "CancelRunResponse_t = TInterface [req ''runId'' TString, req ''status'' (TLiterals [''cancelled'', ''cancelling''])]"

definition CancelRunRequest_t :: ts_type where
  "CancelRunRequest_t = TInterface [opt ''reason'' TString]"

definition ForkRunRequest_t :: ts_type where
  "ForkRunRequest_t = TInterface [req ''fromSeq'' TNumber, req ''mode'' (TLiterals [''replay'', ''branch'']),
     opt ''runOptionsOverlay'' (TRecord TUnknown)]"

definition ForkRunResponse_t :: ts_type where
  "ForkRunResponse_t = TInterface [
     req ''runId'' TString, req ''sourceRunId'' TString, opt ''fromSeq'' TNumber,
     req ''mode'' (TLiterals [''replay'', ''branch'']), req ''status'' RunStatus_t, req ''eventsUrl'' TString]"

definition ResolveInterruptRequest_t :: ts_type where
  "ResolveInterruptRequest_t = TInterface [req ''resumeValue'' TUnknown]"

definition ResolveInterruptResponse_t :: ts_type where
  "ResolveInterruptResponse_t = TInterface [req ''runId'' TString, req ''nodeId'' TString, req ''status'' RunStatus_t]"

definition InterruptByTokenInspection_t :: ts_type where
  "InterruptByTokenInspection_t = TInterface [
     req ''kind'' (TLiterals [''approval'', ''clarification'', ''external-event'', ''custom'']), req ''key'' TString,
     opt ''resumeSchema'' (TRecord TUnknown), opt ''timeoutMs'' TNumber, req ''data'' TUnknown]"

definition ResolveInterruptByTokenResponse_t :: ts_type where
  "ResolveInterruptByTokenResponse_t = TRecord TUnknown"

definition StreamMode_t :: ts_type where
  "StreamMode_t = TLiterals [''values'', ''updates'', ''messages'', ''debug'']"

definition RunEventDoc_t :: ts_type where
  "RunEventDoc_t = TInterface [
     req ''eventId'' TString, req ''runId'' TString, opt ''nodeId'' TString, req ''type'' TString,
     req ''payload'' TUnknown, req ''timestamp'' TString, req ''sequence'' TNumber,
     opt ''schemaVersion'' TNumber, opt ''engineVersion'' TString, opt ''causationId'' TString]"

definition PollEventsResponse_t :: ts_type where
  "PollEventsResponse_t = TInterface [req ''events'' (TArray RunEventDoc_t), req ''isComplete'' TBoolean]"

definition ErrorEnvelope_t :: ts_type where
  "ErrorEnvelope_t = TInterface [req ''error'' TString, req ''message'' TString, opt ''details'' (TRecord TUnknown)]"

lemmas response_types = RunStatus_t_def Capabilities_t_def RunSnapshot_t_def RunConfigurable_t_def CreateRunRequest_t_def
  CreateRunResponse_t_def
  CancelRunResponse_t_def RunEventDoc_t_def PollEventsResponse_t_def ErrorEnvelope_t_def req_def opt_def

section \<open>The hosts' answers as values of these types\<close>

lemma status_type: "has_type RunStatus_t (JStr (status_str st)) \<longleftrightarrow> st \<noteq> Cancelling"
  by (cases st) (simp_all add: RunStatus_t_def)

lemma snapshot_type:
  assumes "\<exists>e. err = map_option error_json e"
  shows "has_type RunSnapshot_t (JObj ([(''runId'', JStr rid), (''workflowId'', JStr wid), (''status'', JStr (status_str st)),
      (''inputs'', inputs), (''startedAt'', JStr t0), (''endedAt'', ended)] @ opt_field ''error'' err)) \<longleftrightarrow> st \<noteq> Cancelling"
  using assms status_type [of st]
  by (auto simp: RunSnapshot_t_def req_def opt_def opt_field_def error_json_def split: option.split)

lemma cancel_type: "has_type CancelRunResponse_t (cancelled_body rid st) \<longleftrightarrow> st \<noteq> Completed \<and> st \<noteq> Failed"
  by (cases st) (simp_all add: CancelRunResponse_t_def req_def cancelled_body_def)

end
