(* ===== verification/TypeProps.thy ===== *)
theory TypeProps
  imports SdkTypes NetProps
begin

text \<open>
  Client and host by their types: which answers of the reference hosts have the type that
  the SDK's caller sees, that every answer is JSON and every error an envelope, and that a
  request of the declared type is never refused as malformed.
\<close>

section \<open>Answers to the calls of the SDK\<close>

text \<open>C32. On a run of the in-memory host, the snapshot and the capabilities always have the type
  the SDK declares; the answer to a cancel has it unless the run had already completed or
  failed; the answer to a poll never has it.\<close>

theorem answers_have_their_types:
  assumes "mem_reachable cfg h" and "h_runs h rid = Some r"
    and "plain_id rid" and "plain_key (c_api_key cfg)" and "cl_apiKey cl = c_api_key cfg"
  shows "let fetch = mem_fetch cfg en (cl_baseUrl cl) h in
    (\<exists>v. sdk_capabilities fetch cl = Inr (Some v) \<and> has_type Capabilities_t v) \<and>
    (\<exists>v. sdk_getRun fetch cl rid = Inr (Some v) \<and> has_type RunSnapshot_t v) \<and>
    (\<exists>v. sdk_cancelRun fetch cl rid body opts = Inr (Some v) \<and>
         (has_type CancelRunResponse_t v \<longleftrightarrow> r_status r \<noteq> Completed \<and> r_status r \<noteq> Failed)) \<and>
    (\<exists>v. sdk_pollEvents fetch cl rid ls ts = Inr (Some v) \<and> \<not> has_type PollEventsResponse_t v)"
proof -
  obtain w :: workflow where ok: "run_ok (wf_nodes w) r" using mem_reachable_run [OF assms(1,2)] .
  have "r_status r \<noteq> Cancelling"
    using ok final_log_last by (cases "r_pc r = Halted") (force simp: run_ok_def pc_ok_def)+
  then have "has_type RunSnapshot_t (mem_snapshot r)"
    unfolding mem_snapshot_def using snapshot_type by blast
  moreover note cancel_type [of rid "r_status r"]
  moreover have "has_type Capabilities_t (discovery_payload name)" for name by code_simp
  moreover have "\<not> has_type PollEventsResponse_t (poll_body ej rid evs since st)" for ej evs since st
    by (simp add: PollEventsResponse_t_def poll_body_def req_def)
  ultimately show ?thesis
    using sdk_capabilities_mem sdk_getRun_mem [OF assms(2) mem_reachable_inputs [OF assms(1,2)] assms(3-5)]
      sdk_cancelRun_mem [OF assms(2-5)] sdk_pollEvents_mem [OF assms] by (simp add: Let_def)
qed

lemma answers_have_their_types_witness:
  "\<exists>v. sdk_getRun (mem_fetch demo_cfg (demo_env 1 ''v'') ''http://h'' (demo_host 3)) demo_client demo_id = Inr (Some v) \<and>
    has_type RunSnapshot_t v"
  using answers_have_their_types [OF demo_reachable_3 demo_host_run demo_plain(1), of demo_client "demo_env 1 ''v''"]
  by (simp add: Let_def)

text \<open>The SQLite host keeps the status \<^verbatim>\<open>cancelling\<close> in the run's row, which is no
  \<^verbatim>\<open>RunStatus\<close> of the SDK: a snapshot has its declared type exactly when the run
  is not being cancelled, and the answer to a cancel as in the in-memory host.\<close>

theorem sqlite_answers_have_their_types:
  assumes "sql_reachable cfg (Up pid h)" and "getRun rid (g_db h) = Some r"
    and "plain_id rid" and "plain_key (s_api_key cfg)" and "cl_apiKey cl = s_api_key cfg"
  shows "let fetch = sql_fetch cfg en (cl_baseUrl cl) h in
    (\<exists>v. sdk_getRun fetch cl rid = Inr (Some v) \<and> (has_type RunSnapshot_t v \<longleftrightarrow> q_status r \<noteq> Cancelling)) \<and>
    (\<exists>v. sdk_cancelRun fetch cl rid body opts = Inr (Some v) \<and>
         (has_type CancelRunResponse_t v \<longleftrightarrow> q_status r \<noteq> Completed \<and> q_status r \<noteq> Failed))"
proof -
  obtain inputs err where row: "json_parse (q_inputs_json r) = Some inputs" "wf_json inputs"
      "error_field r = Some (map_option error_json err)"
    using sql_snapshot_json [OF assms(1,2)] .
  let ?v = "JObj ([(''runId'', JStr (q_run_id r)), (''workflowId'', JStr (q_workflow_id r)),
      (''status'', JStr (status_str (q_status r))), (''inputs'', inputs), (''startedAt'', JStr (q_started_at r)),
      (''endedAt'', str_or_null (q_ended_at r))] @ opt_field ''error'' (map_option error_json err))"
  have "sql_route cfg en (deliver (cl_baseUrl cl) (sent_request cl (get_of (run_url rid [])) True)) h = (Inr (sendJSON 200 ?v []), h)"
    using assms(2) row(1,3) sent_authorized(1) [OF assms(5,4)]
    by (simp add: sql_route_run(1) [OF sdk_run_requests(1) [OF assms(3)]] sql_handleGetRun_def sql_with_run_def checkAuth_None [symmetric])
  moreover have "wf_json ?v"
    using row(2) by (cases "q_ended_at r"; cases err) (simp_all add: opt_field_def)
  ultimately have get: "sdk_getRun (sql_fetch cfg en (cl_baseUrl cl) h) cl rid = Inr (Some ?v)"
    unfolding sdk_getRun_def using sdk_request_sql [of cfg en cl "get_of (run_url rid [])" True h 200 ?v "[]" h] by (simp add: response_ok_def)
  let ?c = "cancelled_body rid (q_status r)"
  have "\<exists>h'. sql_route cfg en (deliver (cl_baseUrl cl) (sent_request cl (post_of (run_url rid ''/cancel'') body opts) True)) h =
      (Inr (sendJSON 200 ?c []), h')"
    using assms(2) sent_authorized(2) [OF assms(5,4)]
    by (simp add: sql_route_run(2) [OF sdk_run_requests(2) [OF assms(3)]] sql_handleCancelRun_def sql_with_run_def
        checkAuth_None [symmetric] cancelled_body_def)
  then have cancel: "sdk_cancelRun (sql_fetch cfg en (cl_baseUrl cl) h) cl rid body opts = Inr (Some ?c)"
    unfolding sdk_cancelRun_def using sdk_request_sql [of cfg en cl "post_of (run_url rid ''/cancel'') body opts" True h 200 ?c "[]"]
    by (auto simp: response_ok_def cancelled_body_def)
  have "has_type RunSnapshot_t ?v \<longleftrightarrow> q_status r \<noteq> Cancelling" by (rule snapshot_type) blast
  with get cancel cancel_type [of rid "q_status r"] show ?thesis by (simp add: Let_def)
qed

lemma sqlite_answers_have_their_types_witness:
  "\<exists>v. sdk_getRun (sql_fetch sdemo_cfg (demo_env 1 ''v'') ''http://h'' (sdemo_host sdemo_create)) demo_client demo_id = Inr (Some v) \<and>
    has_type RunSnapshot_t v"
proof -
  have "sql_reachable sdemo_cfg (Up ''p1'' (sdemo_host sdemo_create))"
    "getRun demo_id (g_db (sdemo_host sdemo_create)) = Some (sdemo_row sdemo_create)"
    using sdemo_host_reachable sdemo_run(3) [OF sdemo_created] sdemo_run(4) [OF sdemo_created] by simp_all
  moreover have "q_status (sdemo_row sdemo_create) \<noteq> Cancelling" by code_simp
  moreover have "s_api_key sdemo_cfg = ''key''" by (simp add: sdemo_cfg_def)
  ultimately show ?thesis
    using sqlite_answers_have_their_types [of sdemo_cfg "''p1''" "sdemo_host sdemo_create" demo_id "sdemo_row sdemo_create"
        demo_client "demo_env 1 ''v''"]
    by (auto simp: Let_def)
qed

section \<open>Every answer of the in-memory host\<close>

text \<open>What the idempotency cache holds: answers of create requests.\<close>

definition stored_ok :: "(string \<rightharpoonup> idem_entry) \<Rightarrow> bool" where
  "stored_ok c \<longleftrightarrow> (\<forall>k e. c k = Some e \<longrightarrow> i_status e = 201 \<and> (\<exists>rid wid t. i_body e = stringify (created_body rid wid t)))"

lemma stored_ok_prune: "stored_ok c \<Longrightarrow> stored_ok (pruneIdempotencyCache now c)"
  by (fastforce simp: stored_ok_def pruneIdempotencyCache_def split: option.splits if_splits)

lemma stored_ok_createRun: "stored_ok (h_idem h) \<Longrightarrow> stored_ok (h_idem (fst (mem_createRun cfg en wid inputs key hash h)))"
  by (auto simp: stored_ok_def mem_createRun_idem split: option.split)

definition stored_result :: "mem_host outcome \<Rightarrow> bool" where
  "stored_result res \<longleftrightarrow> (case res of Inl m \<Rightarrow> True | Inr x \<Rightarrow> stored_ok (h_idem (fst x)))"

lemma stored_ok_serve:
  assumes "stored_ok (h_idem h)"
  shows "stored_ok (h_idem (fst (mem_serve cfg en rq h)))"
proof -
  have run: "stored_result (Inr (mem_with_run cfg rq h x k))" if "\<And>r. h_idem (fst (k r)) = h_idem h" for x k
    using that assms by (simp add: mem_with_run_def stored_result_def split: option.split)
  have "stored_result (mem_route cfg en rq h)"
  proof (rule mem_route_cases)
    show "stored_result (mem_handleCreateRun cfg en rq h)"
      using assms stored_ok_createRun stored_ok_prune
      by (simp add: mem_handleCreateRun_def stored_result_def Let_def split: create_check.split option.split)
    show "stored_result (Inr (mem_handleEventsPoll cfg rq x h))" "stored_result (Inr (mem_handleEventsSse cfg rq x h))"
      "stored_result (Inr (mem_handleDebugBundle cfg en rq x h))" "stored_result (Inr (mem_handleCancelRun cfg rq x h))"
      "stored_result (Inr (mem_handleGetRun cfg rq x h))" for x
      unfolding mem_handleEventsPoll_def mem_handleEventsSse_def mem_handleDebugBundle_def
        mem_handleCancelRun_def mem_handleGetRun_def
      by (rule run; simp add: set_run_def Let_def)+
  qed (simp_all add: stored_result_def assms)
  then show ?thesis
    using assms by (cases "mem_route cfg en rq h") (simp_all add: mem_serve_def stored_result_def)
qed

lemma mem_step_stored: "mem_step cfg h a h' \<Longrightarrow> stored_ok (h_idem h) \<Longrightarrow> stored_ok (h_idem h')"
  by (induction rule: mem_step.induct) (simp_all add: stored_ok_serve set_run_def)

lemma mem_reachable_stored:
  assumes "mem_reachable cfg h"
  shows "stored_ok (h_idem h)"
proof -
  have "trace (mem_step cfg) h0 as h' \<Longrightarrow> stored_ok (h_idem h0) \<Longrightarrow> stored_ok (h_idem h')" for h0 as h'
    by (induction rule: trace.induct) (auto intro: mem_step_stored)
  moreover have "stored_ok (h_idem init_host)" by (simp add: stored_ok_def init_host_def)
  ultimately show ?thesis using assms unfolding mem_reachable_def by blast
qed

text \<open>A complete answer in good order: JSON, and an envelope where it is an error.\<close>

fun answer_ok :: "reply \<Rightarrow> bool" where
  "answer_ok (Stream hs) = True"
| "answer_ok (Full r) = (\<exists>v. json_parse (rs_body r) = Some v \<and> (rs_status r < 400 \<or> has_type ErrorEnvelope_t v))"

lemma answer_ok_send:
  "wf_json v \<Longrightarrow> st < 400 \<Longrightarrow> answer_ok (sendJSON st v ex)"
  "wf_json v \<Longrightarrow> st < 400 \<Longrightarrow> answer_ok (sendText st ct (stringify v) ex)"
  by (auto simp: sendJSON_def sendText_def json_roundtrip)

lemma error_body_type: "has_type ErrorEnvelope_t (error_body c m)"
  by (simp add: ErrorEnvelope_t_def error_body_def req_def opt_def)

lemma answer_ok_error: "answer_ok (sendError st c m)"
  using error_body_type [of c m] by (simp add: sendError_def sendJSON_def sendText_def json_roundtrip)

lemma answer_ok_auth: "checkAuth k rq = Some rep \<Longrightarrow> answer_ok rep"
  by (auto simp: checkAuth_def answer_ok_error split: option.splits if_splits)

lemma answer_ok_check: "check_create k ws rq = Rejects rep \<Longrightarrow> answer_ok rep"
  by (auto simp: check_create_def answer_ok_error answer_ok_auth split: option.splits json.splits if_splits)

lemma answer_ok_with_run:
  "(\<And>r. h_runs h rid = Some r \<Longrightarrow> answer_ok (snd (k r))) \<Longrightarrow> answer_ok (snd (mem_with_run cfg rq h rid k))"
  by (auto simp: mem_with_run_def run_not_found_def answer_ok_error answer_ok_auth split: option.split)

definition result_ok :: "mem_host outcome \<Rightarrow> bool" where
  "result_ok res \<longleftrightarrow> (case res of Inl m \<Rightarrow> True | Inr x \<Rightarrow> answer_ok (snd x))"

lemma stored_replays:
  assumes "stored_ok c" and "c k = Some e"
  shows "answer_ok (sendText (i_status e) ct (i_body e) ex)"
proof -
  obtain rid wid t where "i_status e = 201" "i_body e = stringify (created_body rid wid t)"
    using assms by (fastforce simp: stored_ok_def)
  then show ?thesis using answer_ok_send(2) [of "created_body rid wid t" 201] by (simp add: created_body_def)
qed

lemma create_result_ok:
  assumes "stored_ok (h_idem h)"
  shows "result_ok (mem_handleCreateRun cfg en rq h)"
proof -
  have made: "answer_ok (snd (mem_createRun cfg en wid inputs key hash h'))" for wid inputs key hash h'
    unfolding mem_createRun_def Let_def snd_conv by (rule answer_ok_send(2)) (simp_all add: created_body_def)
  show ?thesis
    using answer_ok_check made answer_ok_error stored_replays [OF stored_ok_prune [OF assms]]
    by (auto simp: mem_handleCreateRun_def result_ok_def Let_def split: create_check.split option.split)
qed

lemma wf_bundle:
  assumes "list_all (\<lambda>e. data_wf (e_data e)) evs" and "\<exists>e. err = map_option error_json e"
  shows "wf_json (debug_bundle host now rid wid st t0 ended err evs)"
proof -
  have "wf_json (bundle_event e)" if "data_wf (e_data e)" for e
    using that by (cases "e_nodeId e"; cases "e_data e") (simp_all add: bundle_event_def)
  with assms show ?thesis
    by (cases ended) (auto simp: debug_bundle_def opt_field_def list_all_iff split: option.split)
qed

text \<open>The resume point a poll echoes may be \<^verbatim>\<open>NaN\<close>, which prints as \<^verbatim>\<open>null\<close>.\<close>

lemma js_Number_normal: "normal_num (js_Number s)"
proof -
  have "normal_num (dec_value neg ds fs e)" for neg ds fs e
    using dec_value_wf [of neg ds fs e] by simp
  then have "normal_num (unsigned_number neg s)" for neg s
    by (simp add: unsigned_number_def Let_def split: prod.split option.split list.split)
  moreover have "normal_num (radix_number b s)" for b s
    by (simp add: radix_number_def split: option.split)
  ultimately show ?thesis by (simp add: js_Number_def Let_def split: list.split)
qed

lemma answer_ok_poll:
  assumes "list_all (\<lambda>e. wf_json (ej e)) evs" and "normal_num since"
  shows "answer_ok (sendJSON 200 (poll_body ej rid evs since st) ex)"
proof (cases "is_finite (last_seq since evs)")
  case True
  then have "wf_json (poll_body ej rid evs since st)"
    using assms by (auto simp: poll_body_def last_seq_def list_all_iff split: if_splits)
  then show ?thesis by (rule answer_ok_send(1)) simp
next
  case False
  let ?v = "JObj [(''runId'', JStr rid), (''events'', JArr (map ej evs)), (''lastEventSeq'', JNull),
      (''runStatus'', JStr (status_str st)), (''isTerminal'', JBool (is_terminal st))]"
  have "num_json (last_seq since evs) = ''null''" using False by (cases "last_seq since evs") simp_all
  then have "stringify (poll_body ej rid evs since st) = stringify ?v"
    by (simp add: poll_body_def stringify_fields.simps)
  moreover have "wf_json ?v" using assms(1) by (auto simp: list_all_iff)
  from answer_ok_send(1) [OF this] have "answer_ok (sendJSON 200 ?v ex)" by simp
  ultimately show ?thesis by (simp add: sendJSON_def sendText_def)
qed

lemma since_normal: "normal_num (since_param rq)"
  by (auto simp: since_param_def js_Number_normal split: option.split)

text \<open>C33. Whatever the request, in every reachable state: a complete answer of the in-memory host
  has a body that parses as JSON, and with a status of 400 or more its value has the type
  \<^verbatim>\<open>ErrorEnvelope\<close> of the SDK.\<close>

theorem answers_are_json_and_errors_envelopes:
  assumes "mem_reachable cfg h"
  shows "answer_ok (snd (mem_serve cfg en rq h))"
proof -
  have data: "list_all (\<lambda>e. data_wf (e_data e)) (r_events r)" if "h_runs h x = Some r" for x r
    using mem_reachable_data [OF assms that] by (simp add: list_all_iff)
  have "result_ok (mem_route cfg en rq h)"
  proof (rule mem_route_cases)
    show "result_ok (mem_handleCreateRun cfg en rq h)" by (rule create_result_ok [OF mem_reachable_stored [OF assms]])
    show "result_ok (Inr (mem_handleEventsSse cfg rq x h))" for x
      unfolding mem_handleEventsSse_def result_ok_def sum.case by (rule answer_ok_with_run) simp
    show "result_ok (Inr (mem_handleCancelRun cfg rq x h))" for x
      unfolding mem_handleCancelRun_def result_ok_def sum.case
      by (rule answer_ok_with_run) (simp add: answer_ok_send(1))
    show "result_ok (Inr (mem_handleGetRun cfg rq x h))" for x
      unfolding mem_handleGetRun_def result_ok_def sum.case
      by (rule answer_ok_with_run) (simp add: answer_ok_send(1) mem_snapshot_wf mem_reachable_inputs [OF assms])
    show "result_ok (Inr (mem_handleDebugBundle cfg en rq x h))" for x
      unfolding mem_handleDebugBundle_def result_ok_def sum.case
      by (rule answer_ok_with_run, unfold snd_conv, rule answer_ok_send(1)) (auto intro!: wf_bundle data)
    show "result_ok (Inr (mem_handleEventsPoll cfg rq x h))" for x
      unfolding mem_handleEventsPoll_def result_ok_def sum.case Let_def
      using data wf_mem_event
      by (intro answer_ok_with_run, unfold snd_conv, intro answer_ok_poll since_normal)
        (fastforce simp: list_all_iff events_after_def)
  qed (simp_all add: result_ok_def answer_ok_error mem_handleDiscovery_def mem_handleOpenApi_def openapi_op_def
      wf_discovery answer_ok_send)
  then show ?thesis
    by (cases "mem_route cfg en rq h") (simp_all add: mem_serve_def result_ok_def answer_ok_error)
qed

lemma answers_are_json_and_errors_envelopes_witness:
  "answer_ok (snd (mem_serve demo_cfg (demo_env 1 ''v'') (demo_request ''DELETE'' [] demo_id) (demo_host 3)))"
  by (rule answers_are_json_and_errors_envelopes [OF demo_reachable_3])

section \<open>Requests of the declared type\<close>

lemma create_typed:
  assumes "has_type CreateRunRequest_t body"
  obtains wid where "js_prop body ''workflowId'' = Some (JStr wid)"
  using assms by (auto simp: CreateRunRequest_t_def req_def split: json.splits option.splits)

lemma sdk_request_text:
  assumes "snd (mem_serve cfg en (deliver (cl_baseUrl cl) (sent_request cl raw a)) h) = sendText st ct (stringify v) ex"
    and "response_ok st" and "wf_json v"
  shows "sdk_request (mem_fetch cfg en (cl_baseUrl cl) h) cl raw a = Inr (Some v)"
  using decode_json [OF assms(3)] assms(1,2) by (simp add: sdk_request_def mem_fetch_def sendText_def)

definition conflict_message :: string where
  "conflict_message = ''Idempotency-Key reused with a different request body. A key MUST pin exactly one logical operation.''"

lemma created_reply: "\<exists>ex. snd (mem_createRun cfg en wid inputs key hash h) =
    sendText 201 ''application/json'' (stringify (created_body (new_run_id en) wid (iso en))) ex"
  unfolding mem_createRun_def Let_def snd_conv by blast

lemma accepted_reply:
  assumes "stored_ok (h_idem h)" and "create_request rq"
    and "check_create (c_api_key cfg) (c_workflows cfg) rq = Accepts wid inputs"
  shows "(\<exists>rid wid t ct ex. snd (mem_serve cfg en rq h) = sendText 201 ct (stringify (created_body rid wid t)) ex) \<or>
    snd (mem_serve cfg en rq h) = sendError 409 ''idempotency_key_conflict'' conflict_message"
proof -
  have serve: "mem_serve cfg en rq h = (case mem_handleCreateRun cfg en rq h of Inl m \<Rightarrow> (h, sendError 500 ''internal'' m) | Inr x \<Rightarrow> x)"
    by (simp add: mem_serve_def mem_route_create [OF assms(2)])
  have replay: "\<exists>rid wid t. i_status e = 201 \<and> i_body e = stringify (created_body rid wid t)"
    if "pruneIdempotencyCache (now_ms en) (h_idem h) k = Some e" for k e
    using stored_ok_prune [OF assms(1)] that by (auto simp: stored_ok_def)
  show ?thesis
  proof (cases "rq_headers rq ''idempotency-key''")
    case None
    with assms(3) created_reply [of cfg en wid inputs None _ h] show ?thesis
      by (simp add: serve mem_handleCreateRun_def Let_def) blast
  next
    case (Some key)
    let ?h = "h\<lparr>h_idem := pruneIdempotencyCache (now_ms en) (h_idem h)\<rparr>"
    show ?thesis
    proof (cases "h_idem ?h (buildIdempotencyCacheKey (c_sha256 cfg) ''POST /v1/runs'' key)")
      case None
      with assms(3) Some created_reply [of cfg en wid inputs "Some key" _ ?h] show ?thesis
        by (simp add: serve mem_handleCreateRun_def Let_def) blast
    next
      case (Some e)
      with replay have "i_status e = 201 \<and> (\<exists>rid wid t. i_body e = stringify (created_body rid wid t))" by simp
      with assms(3) Some \<open>rq_headers rq _ = _\<close> show ?thesis
        by (auto simp: serve mem_handleCreateRun_def Let_def conflict_message_def) blast
    qed
  qed
qed

text \<open>A create request of the SDK's type \<^verbatim>\<open>CreateRunRequest\<close>, with or without an
  idempotency key, is never refused as malformed and never makes the in-memory host throw:
  it is answered with a run's document, or by an unknown workflow or a reused key. But the
  document lacks the \<^verbatim>\<open>eventsUrl\<close> of the declared response type.\<close>

theorem typed_creates_are_never_invalid:
  assumes "mem_reachable cfg h" and "has_type CreateRunRequest_t body" and "wf_json body"
    and "plain_key (c_api_key cfg)" and "cl_apiKey cl = c_api_key cfg"
  shows "let res = sdk_createRun (mem_fetch cfg en (cl_baseUrl cl) h) cl body opts in
    (\<exists>rid wid t. res = Inr (Some (created_body rid wid t)) \<and> \<not> has_type CreateRunResponse_t (created_body rid wid t)) \<or>
    res = thrown 404 ''workflow_not_found'' ''Unknown workflowId.'' \<or>
    res = thrown 409 ''idempotency_key_conflict'' conflict_message"
proof -
  let ?rq = "deliver (cl_baseUrl cl) (sent_request cl (create_raw body opts) True)"
  let ?res = "sdk_request (mem_fetch cfg en (cl_baseUrl cl) h) cl (create_raw body opts) True"
  obtain wid where wid: "js_prop body ''workflowId'' = Some (JStr wid)" using create_typed [OF assms(2)] .
  have res: "sdk_createRun (mem_fetch cfg en (cl_baseUrl cl) h) cl body opts = ?res"
    by (simp add: sdk_createRun_def create_raw_def)
  have untyped: "\<not> has_type CreateRunResponse_t (created_body rid wid t)" for rid wid t
    by (simp add: CreateRunResponse_t_def created_body_def req_def)
  show ?thesis
  proof (cases "c_workflows cfg wid")
    case None
    have "check_create (c_api_key cfg) (c_workflows cfg) ?rq = Rejects (sendError 404 ''workflow_not_found'' ''Unknown workflowId.'')"
      using None wid json_roundtrip [OF assms(3)] sent_authorized(2) [OF assms(5,4)]
      unfolding check_create_def sdk_create_request(2) by (auto simp: checkAuth_None [symmetric] create_raw_def)
    then have "snd (mem_serve cfg en ?rq h) = sendError 404 ''workflow_not_found'' ''Unknown workflowId.''"
      by (simp add: mem_serve_def mem_route_create [OF sdk_create_request(1)] mem_handleCreateRun_def)
    from thrown_by [OF this] res show ?thesis by (simp add: response_ok_def)
  next
    case (Some w)
    then have "check_create (c_api_key cfg) (c_workflows cfg) ?rq = Accepts wid (inputs_or_empty (js_prop body ''inputs''))"
      using sdk_create_check [OF assms(3) wid _ assms(4,5)] by simp
    from accepted_reply [OF mem_reachable_stored [OF assms(1)] sdk_create_request(1) this, of en] show ?thesis
    proof (elim disjE exE)
      fix rid wid' t ct ex
      assume "snd (mem_serve cfg en ?rq h) = sendText 201 ct (stringify (created_body rid wid' t)) ex"
      from sdk_request_text [OF this] untyped res show ?thesis
        by (auto simp: response_ok_def created_body_def Let_def)
    next
      assume "snd (mem_serve cfg en ?rq h) = sendError 409 ''idempotency_key_conflict'' conflict_message"
      from thrown_by [OF this] res show ?thesis by (simp add: response_ok_def)
    qed
  qed
qed

lemma typed_creates_are_never_invalid_witness:
  "let res = sdk_createRun (mem_fetch demo_cfg (demo_env 1 ''v'') ''http://h'' (demo_host 3)) demo_client demo_body
       \<lparr>mo_idempotencyKey = None, mo_dedup = None\<rparr>
   in (\<exists>rid wid t. res = Inr (Some (created_body rid wid t)) \<and> \<not> has_type CreateRunResponse_t (created_body rid wid t)) \<or>
     res = thrown 404 ''workflow_not_found'' ''Unknown workflowId.'' \<or>
     res = thrown 409 ''idempotency_key_conflict'' conflict_message"
proof -
  have "has_type CreateRunRequest_t demo_body" by code_simp
  moreover have "wf_json demo_body" by (simp add: demo_body_def)
  ultimately show ?thesis
    using typed_creates_are_never_invalid [OF demo_reachable_3, of demo_body demo_client "demo_env 1 ''v''"] by simp
qed

end
