(* ===== verification/Profiles.thy ===== *)
theory Profiles
  imports MemHttp
begin

text \<open>
  The derivation of compatibility profiles from a discovery payload
  (\<^verbatim>\<open>conformance/src/lib/profiles.ts\<close>), as predicates on the payload's JSON. A
  missing property is \<open>None\<close>.
\<close>

section \<open>Shapes of values\<close>

fun is_str :: "json \<Rightarrow> bool" where
  "is_str (JStr _) \<longleftrightarrow> True"
| "is_str _ \<longleftrightarrow> False"

fun isStringArray :: "json option \<Rightarrow> bool" where
  "isStringArray (Some (JArr xs)) \<longleftrightarrow> list_all is_str xs"
| "isStringArray _ \<longleftrightarrow> False"

fun isNonNegativeInteger :: "json option \<Rightarrow> bool" where
  "isNonNegativeInteger (Some (JNum n)) \<longleftrightarrow> is_integer n \<and> num_nonneg n"
| "isNonNegativeInteger _ \<longleftrightarrow> False"

text \<open>\<^verbatim>\<open>xs.includes(s)\<close>, \<^verbatim>\<open>x == null\<close>, and an object that is not \<^verbatim>\<open>null\<close>.\<close>

fun includes_str :: "json option \<Rightarrow> string \<Rightarrow> bool" where
  "includes_str (Some (JArr xs)) s \<longleftrightarrow> JStr s \<in> set xs"
| "includes_str _ s \<longleftrightarrow> False"

definition nullish :: "json option \<Rightarrow> bool" where
  "nullish v \<longleftrightarrow> v = None \<or> v = Some JNull"

definition object_value :: "json option \<Rightarrow> bool" where
  "object_value v \<longleftrightarrow> (case v of None \<Rightarrow> False | Some j \<Rightarrow> is_object j)"

definition js_get :: "json option \<Rightarrow> string \<Rightarrow> json option" where
  "js_get v k = (case v of None \<Rightarrow> None | Some j \<Rightarrow> js_prop j k)"

section \<open>The profiles\<close>

datatype profile_name =
  WopCore | WopInterrupts | WopStreamSse | WopStreamPoll | WopSecrets | WopProviderPolicy | WopNodePacks | WopReplayFork

definition PROFILE_NAMES :: "profile_name list" where
  "PROFILE_NAMES = [WopCore, WopInterrupts, WopStreamSse, WopStreamPoll, WopSecrets, WopProviderPolicy, WopNodePacks, WopReplayFork]"

fun profile_str :: "profile_name \<Rightarrow> string" where
  "profile_str WopCore = ''wop-core''"
| "profile_str WopInterrupts = ''wop-interrupts''"
| "profile_str WopStreamSse = ''wop-stream-sse''"
| "profile_str WopStreamPoll = ''wop-stream-poll''"
| "profile_str WopSecrets = ''wop-secrets''"
| "profile_str WopProviderPolicy = ''wop-provider-policy''"
| "profile_str WopNodePacks = ''wop-node-packs''"
| "profile_str WopReplayFork = ''wop-replay-fork''"

text \<open>The order of the catalog.\<close>

fun profile_rank :: "profile_name \<Rightarrow> nat" where
  "profile_rank WopCore = 0"
| "profile_rank WopInterrupts = 1"
| "profile_rank WopStreamSse = 2"
| "profile_rank WopStreamPoll = 3"
| "profile_rank WopSecrets = 4"
| "profile_rank WopProviderPolicy = 5"
| "profile_rank WopNodePacks = 6"
| "profile_rank WopReplayFork = 7"

lemma profile_rank_inj: "profile_rank p = profile_rank q \<Longrightarrow> p = q"
  by (cases p; cases q) simp_all

instantiation profile_name :: linorder
begin

definition less_eq_profile_name :: "profile_name \<Rightarrow> profile_name \<Rightarrow> bool" where
  "less_eq_profile_name p q \<longleftrightarrow> profile_rank p \<le> profile_rank q"

definition less_profile_name :: "profile_name \<Rightarrow> profile_name \<Rightarrow> bool" where
  "less_profile_name p q \<longleftrightarrow> profile_rank p < profile_rank q"

instance
  by standard (auto simp: less_eq_profile_name_def less_profile_name_def dest: profile_rank_inj)

end

section \<open>The predicates\<close>

definition isCore :: "json \<Rightarrow> bool" where
  "isCore c \<longleftrightarrow>
     (case js_prop c ''protocolVersion'' of
        Some (JStr v) \<Rightarrow>
          starts_with v ''1.'' \<and> isStringArray (js_prop c ''supportedEnvelopes'') \<and>
          object_value (js_prop c ''schemaVersions'') \<and> object_value (js_prop c ''limits'') \<and>
          isNonNegativeInteger (js_get (js_prop c ''limits'') ''clarificationRounds'') \<and>
          isNonNegativeInteger (js_get (js_prop c ''limits'') ''schemaRounds'') \<and>
          isNonNegativeInteger (js_get (js_prop c ''limits'') ''envelopesPerTurn'')
      | _ \<Rightarrow> False)"

definition isInterrupts :: "json \<Rightarrow> bool" where
  "isInterrupts c \<longleftrightarrow> isCore c \<and> isStringArray (js_prop c ''supportedEnvelopes'') \<and>
     includes_str (js_prop c ''supportedEnvelopes'') ''clarification.request''"

definition isStreamSse :: "json \<Rightarrow> bool" where
  "isStreamSse c \<longleftrightarrow> isCore c \<and>
     (nullish (js_prop c ''supportedTransports'') \<or>
      isStringArray (js_prop c ''supportedTransports'') \<and> includes_str (js_prop c ''supportedTransports'') ''rest'')"

definition isStreamPoll :: "json \<Rightarrow> bool" where
  "isStreamPoll c \<longleftrightarrow> isCore c \<and>
     (nullish (js_prop c ''supportedTransports'') \<or>
      isStringArray (js_prop c ''supportedTransports'') \<and> includes_str (js_prop c ''supportedTransports'') ''rest'')"

definition isSecrets :: "json \<Rightarrow> bool" where
  "isSecrets c \<longleftrightarrow> isCore c \<and> object_value (js_prop c ''secrets'') \<and>
     js_get (js_prop c ''secrets'') ''supported'' = Some (JBool True) \<and>
     isStringArray (js_get (js_prop c ''secrets'') ''scopes'') \<and> includes_str (js_get (js_prop c ''secrets'') ''scopes'') ''user''"

definition isProviderPolicy :: "json \<Rightarrow> bool" where
  "isProviderPolicy c \<longleftrightarrow> isCore c \<and> object_value (js_prop c ''aiProviders'') \<and>
     (let policies = js_get (js_prop c ''aiProviders'') ''policies''; modes = js_get policies ''modes''
      in object_value policies \<and> isStringArray modes \<and> modes \<noteq> Some (JArr []) \<and> includes_str modes ''optional'')"

definition isNodePacksDiscovery :: "json \<Rightarrow> bool" where
  "isNodePacksDiscovery c \<longleftrightarrow> isCore c"

definition isReplayFork :: "json \<Rightarrow> bool" where
  "isReplayFork c \<longleftrightarrow> isCore c \<and> object_value (js_prop c ''replay'') \<and>
     js_get (js_prop c ''replay'') ''supported'' = Some (JBool True) \<and>
     (let modes = js_get (js_prop c ''replay'') ''modes'' in isStringArray modes \<and> modes \<noteq> Some (JArr []))"

definition deriveProfiles :: "json \<Rightarrow> profile_name list" where
  "deriveProfiles c =
     (if isCore c then [WopCore] else []) @
     (if isInterrupts c then [WopInterrupts] else []) @
     (if isStreamSse c then [WopStreamSse] else []) @
     (if isStreamPoll c then [WopStreamPoll] else []) @
     (if isSecrets c then [WopSecrets] else []) @
     (if isProviderPolicy c then [WopProviderPolicy] else []) @
     (if isNodePacksDiscovery c then [WopNodePacks] else []) @
     (if isReplayFork c then [WopReplayFork] else [])"

fun hasProfile :: "json \<Rightarrow> profile_name \<Rightarrow> bool" where
  "hasProfile c WopCore = isCore c"
| "hasProfile c WopInterrupts = isInterrupts c"
| "hasProfile c WopStreamSse = isStreamSse c"
| "hasProfile c WopStreamPoll = isStreamPoll c"
| "hasProfile c WopSecrets = isSecrets c"
| "hasProfile c WopProviderPolicy = isProviderPolicy c"
| "hasProfile c WopNodePacks = isNodePacksDiscovery c"
| "hasProfile c WopReplayFork = isReplayFork c"

lemma deriveProfiles_filter: "deriveProfiles c = filter (hasProfile c) PROFILE_NAMES"
  by (simp add: deriveProfiles_def PROFILE_NAMES_def)

lemma hasProfile_core: "hasProfile c p \<Longrightarrow> isCore c"
  by (cases p) (simp_all add: isInterrupts_def isStreamSse_def isStreamPoll_def isSecrets_def isProviderPolicy_def
      isNodePacksDiscovery_def isReplayFork_def)

lemma PROFILE_NAMES_sorted: "sorted_wrt (<) PROFILE_NAMES"
  by (simp add: PROFILE_NAMES_def less_profile_name_def)

lemma PROFILE_NAMES_all: "set PROFILE_NAMES = UNIV"
proof -
  have "p \<in> set PROFILE_NAMES" for p by (cases p) (simp_all add: PROFILE_NAMES_def)
  then show ?thesis by blast
qed

end
