(* ===== verification/Canaries.thy ===== *)
theory Canaries
  imports Json
begin

text \<open>
  The canary fixtures and the leak detector of the conformance suite
  (\<^verbatim>\<open>conformance/src/lib/canaries.ts\<close>). Positions count the elements of the byte
  string. The detector's laws are at the end: what it reports is there, and what is there
  it reports.
\<close>

section \<open>The canaries\<close>

definition CANARY_MARKER :: string where
  "CANARY_MARKER = ''CANARY-WOP-CONFORMANCE-NEVER-SECRET''"

definition buildCanary :: "string \<Rightarrow> string \<Rightarrow> string" where
  "buildCanary pre body = pre @ CANARY_MARKER @ ''-'' @ body"

record canary =
  k_label :: string
  k_value :: string

definition CANARIES :: "canary list" where
  "CANARIES = [
     \<lparr>k_label = ''openai'', k_value = buildCanary ''sk-'' ''oai9Lt7Nw2QrZ0aB8mYjPpQe''\<rparr>,
     \<lparr>k_label = ''anthropic'', k_value = buildCanary (''sk-'' @ ''ant-'') ''ant3Ko0LqFqzv9Sb1J7mNcR''\<rparr>,
     \<lparr>k_label = ''google'', k_value = ''AIza'' @ CANARY_MARKER @ ''Goog12345abcdef9876''\<rparr>,
     \<lparr>k_label = ''jwt-bearer'',
      k_value = ''eyJhbGciOiJIUzI1NiJ9.'' @ ''eyJjYW5hcnkiOnRydWV9.'' @ CANARY_MARKER @ ''-jwt-signature-xyz''\<rparr>,
     \<lparr>k_label = ''byok-credential-ref'', k_value = buildCanary ''cred_'' ''OpaqueRefAlphaNumX9Y8Z7''\<rparr>]"

section \<open>The detector\<close>

record canary_leak =
  l_label :: string
  l_value :: string
  l_position :: nat

text \<open>Pass 1: the first occurrence of each value.\<close>

definition exact_leaks :: "string \<Rightarrow> canary_leak list" where
  "exact_leaks txt =
     concat (map (\<lambda>c. case index_of (k_value c) txt of
                        None \<Rightarrow> []
                      | Some pos \<Rightarrow> [\<lparr>l_label = k_label c, l_value = k_value c, l_position = pos\<rparr>]) CANARIES)"

definition covers :: "nat \<Rightarrow> canary_leak \<Rightarrow> bool" where
  "covers pos l \<longleftrightarrow> l_position l \<le> pos \<and> pos < l_position l + length (l_value l)"

text \<open>Pass 2: every further marker, from \<open>scanFrom\<close> on.\<close>

lemma index_from_bounds: "index_from p s k = Some pos \<Longrightarrow> k \<le> length s \<Longrightarrow> k \<le> pos \<and> pos \<le> length s"
  using index_from_Some [of p s k pos] by auto

function scan_markers :: "string \<Rightarrow> nat \<Rightarrow> canary_leak list \<Rightarrow> canary_leak list" where
  "scan_markers txt scanFrom leaks =
     (if scanFrom < length txt then
        (case index_from CANARY_MARKER txt scanFrom of
           None \<Rightarrow> leaks
         | Some pos \<Rightarrow>
             scan_markers txt (pos + length CANARY_MARKER)
               (if list_ex (covers pos) leaks then leaks
                else leaks @ [\<lparr>l_label = ''marker-only'', l_value = CANARY_MARKER, l_position = pos\<rparr>]))
      else leaks)"
  by pat_completeness auto

termination scan_markers
  by (relation "measure (\<lambda>(t, k, l). length t - k)") (auto dest: index_from_bounds simp: CANARY_MARKER_def)

declare scan_markers.simps [simp del]

definition findCanaryLeaks :: "string \<Rightarrow> canary_leak list" where
  "findCanaryLeaks txt = scan_markers txt 0 (exact_leaks txt)"

definition getCanary :: "string \<Rightarrow> string + canary" where
  "getCanary label =
     (case List.find (\<lambda>c. k_label c = label) CANARIES of
        None \<Rightarrow> Inl (''Unknown canary label: '' @ label)
      | Some c \<Rightarrow> Inr c)"

text \<open>A captured value is a text or JSON; a JSON value always has a text.\<close>

definition captureToText :: "json \<Rightarrow> string" where
  "captureToText captured = (case captured of JStr s \<Rightarrow> s | _ \<Rightarrow> stringify captured)"

definition leak_line :: "string \<Rightarrow> canary_leak \<Rightarrow> string" where
  "leak_line txt l =
     (let start = l_position l - 32;
          stop = min (length txt) (l_position l + length (l_value l) + 32)
      in ''  - ['' @ l_label l @ ''] @'' @ nat_str (l_position l) @ '': ...'' @ drop start (take stop txt) @ ''...'')"

text \<open>\<open>None\<close> when it returns, else the message it throws.\<close>

definition assertNoCanaryLeak :: "string \<Rightarrow> string \<Rightarrow> string option" where
  "assertNoCanaryLeak capturedText surfaceLabel =
     (let leaks = findCanaryLeaks capturedText
      in if leaks = [] then None
         else Some (''Canary leak detected in surface '' @ [CHR 0x22] @ surfaceLabel @ [CHR 0x22, CHR '':'', CHR 0x0A] @
                    join_with [CHR 0x0A] (map (leak_line capturedText) leaks) @ [CHR 0x0A, CHR 0x0A] @
                    ''Per capabilities.md '' @ utf8 167 @ [CHR 0x22] @ ''Secrets'' @ [CHR 0x22] @
                    '' + NFR-7, this surface MUST NOT echo back canary content. Either redact at the emission boundary or document the surface as out-of-scope for redaction obligations.''))"

section \<open>Laws of the detector\<close>

text \<open>An occurrence of \<open>p\<close> at \<open>i\<close>; \<open>index_of\<close> finds the first one.\<close>

definition occurs_at :: "string \<Rightarrow> string \<Rightarrow> nat \<Rightarrow> bool" where
  "occurs_at p s i \<longleftrightarrow> starts_with (drop i s) p"

lemma index_of_first: "index_of p s = Some i \<Longrightarrow> occurs_at p s i \<and> (\<forall>j < i. \<not> occurs_at p s j)"
proof (induction s arbitrary: i)
  case (Cons c s)
  show ?case
  proof (cases "starts_with (c # s) p")
    case False
    with Cons.prems obtain i' where i: "i = Suc i'" "index_of p s = Some i'" by auto
    from Cons.IH [OF i(2)] False show ?thesis
      by (auto simp: occurs_at_def i(1) less_Suc_eq_0_disj)
  qed (use Cons.prems in \<open>simp add: occurs_at_def\<close>)
qed (simp add: occurs_at_def split: if_splits)

lemma contains_occurs: "contains s p \<longleftrightarrow> (\<exists>i. occurs_at p s i)"
proof
  assume "contains s p"
  then obtain u v where "s = u @ p @ v" by (auto simp: contains_def)
  then show "\<exists>i. occurs_at p s i" by (intro exI [of _ "length u"]) (simp add: occurs_at_def)
next
  assume "\<exists>i. occurs_at p s i"
  then obtain i r where "drop i s = p @ r" by (auto simp: occurs_at_def starts_with_iff)
  then have "s = take i s @ p @ r" by (metis append_take_drop_id)
  then show "contains s p" unfolding contains_def by blast
qed

lemma index_from_first:
  assumes "index_from p s k = Some i"
  shows "k \<le> i \<and> occurs_at p s i \<and> (\<forall>j. k \<le> j \<and> j < i \<longrightarrow> \<not> occurs_at p s j)"
proof -
  from assms obtain d where d: "index_of p (drop k s) = Some d" "i = k + d" by (auto simp: index_from_def)
  have "\<not> occurs_at p s j" if "k \<le> j" "j < i" for j
    using index_of_first [OF d(1)] d(2) that by (auto simp: occurs_at_def dest: spec [of _ "j - k"])
  with index_of_first [OF d(1)] d(2) show ?thesis by (simp add: occurs_at_def add.commute)
qed

lemma index_from_later:
  assumes "index_from p s k = None" and "k \<le> j"
  shows "\<not> occurs_at p s j"
proof
  assume "occurs_at p s j"
  with assms(2) have "occurs_at p (drop k s) (j - k)" by (simp add: occurs_at_def)
  then have "contains (drop k s) p" using contains_occurs by blast
  with assms(1) show False by (simp add: index_from_None)
qed

text \<open>The marker does not overlap itself.\<close>

lemma marker_shifts: "list_all (\<lambda>d. take (length CANARY_MARKER - d) CANARY_MARKER \<noteq> drop d CANARY_MARKER) [1..<length CANARY_MARKER]"
  by code_simp

lemma shift_prefix:
  assumes "drop d m @ r = m @ r'"
  shows "take (length m - d) m = drop d m"
proof -
  have "take (length m - d) (drop d m @ r) = drop d m" by simp
  moreover have "take (length m - d) (m @ r') = take (length m - d) m" by simp
  ultimately show ?thesis using assms by simp
qed

lemma marker_apart:
  assumes "occurs_at CANARY_MARKER s i" and "occurs_at CANARY_MARKER s j" and "i < j"
  shows "i + length CANARY_MARKER \<le> j"
proof (rule ccontr)
  assume "\<not> i + length CANARY_MARKER \<le> j"
  then have d: "j - i \<in> set [1..<length CANARY_MARKER]" using assms(3) by auto
  obtain r r' where r: "drop i s = CANARY_MARKER @ r" "drop j s = CANARY_MARKER @ r'"
    using assms(1,2) by (auto simp: occurs_at_def starts_with_iff)
  have "drop j s = drop (j - i) (drop i s)" using assms(3) by simp
  also have "\<dots> = drop (j - i) CANARY_MARKER @ drop (j - i - length CANARY_MARKER) r" unfolding r(1) by (rule drop_append)
  also have "j - i - length CANARY_MARKER = 0" using d by auto
  finally have "drop (j - i) CANARY_MARKER @ r = CANARY_MARKER @ r'" using r(2) by (simp only: drop_0)
  from shift_prefix [OF this] have "take (length CANARY_MARKER - (j - i)) CANARY_MARKER = drop (j - i) CANARY_MARKER" .
  with d marker_shifts show False unfolding list_all_iff by blast
qed

text \<open>Every canary carries the marker, and none is empty.\<close>

lemma canary_marked: "c \<in> set CANARIES \<Longrightarrow> contains (k_value c) CANARY_MARKER"
proof -
  have "list_all (\<lambda>c. index_of CANARY_MARKER (k_value c) \<noteq> None) CANARIES" by code_simp
  then show "c \<in> set CANARIES \<Longrightarrow> contains (k_value c) CANARY_MARKER"
    by (simp add: list_all_iff index_of_None)
qed

lemma exact_leaks_real: "l \<in> set (exact_leaks s) \<Longrightarrow> occurs_at (l_value l) s (l_position l) \<and> contains (l_value l) CANARY_MARKER"
  by (auto simp: exact_leaks_def canary_marked split: option.splits dest!: sym [of "Some _"] index_of_first)

lemma scan_markers_keeps: "set leaks \<subseteq> set (scan_markers s k leaks)"
proof (induction s k leaks rule: scan_markers.induct)
  case (1 s k leaks)
  then show ?case by (subst scan_markers.simps) (force split: option.split)
qed

lemma scan_markers_stop: "\<not> k < length s \<or> index_from CANARY_MARKER s k = None \<Longrightarrow> scan_markers s k leaks = leaks"
  by (subst scan_markers.simps) (auto split: option.split)

lemma scan_markers_step:
  assumes "k < length s" and "index_from CANARY_MARKER s k = Some pos"
  shows "scan_markers s k leaks = scan_markers s (pos + length CANARY_MARKER)
    (if list_ex (covers pos) leaks then leaks
     else leaks @ [\<lparr>l_label = ''marker-only'', l_value = CANARY_MARKER, l_position = pos\<rparr>])"
  using assms by (subst scan_markers.simps) simp

lemma scan_markers_real:
  assumes "\<forall>l \<in> set leaks. occurs_at (l_value l) s (l_position l)"
  shows "\<forall>l \<in> set (scan_markers s k leaks). occurs_at (l_value l) s (l_position l)"
  using assms
proof (induction s k leaks rule: scan_markers.induct)
  case (1 s k leaks)
  show ?case
  proof (cases "k < length s \<and> index_from CANARY_MARKER s k \<noteq> None")
    case True
    then obtain pos where pos: "k < length s" "index_from CANARY_MARKER s k = Some pos" by blast
    let ?leaks = "if list_ex (covers pos) leaks then leaks
      else leaks @ [\<lparr>l_label = ''marker-only'', l_value = CANARY_MARKER, l_position = pos\<rparr>]"
    have "\<forall>l \<in> set ?leaks. occurs_at (l_value l) s (l_position l)"
      using 1(2) index_from_first [OF pos(2)] by simp
    from 1(1) [OF pos this] show ?thesis unfolding scan_markers_step [OF pos] .
  next
    case False
    with 1(2) scan_markers_stop [of k s leaks] show ?thesis by auto
  qed
qed

lemma scan_markers_finds:
  assumes "occurs_at CANARY_MARKER s q" and "k \<le> q"
  shows "\<exists>l \<in> set (scan_markers s k leaks). covers q l"
  using assms
proof (induction s k leaks rule: scan_markers.induct)
  case (1 s k leaks)
  have "q < length s"
  proof (rule ccontr)
    assume "\<not> q < length s"
    with 1(2) show False by (simp add: occurs_at_def CANARY_MARKER_def)
  qed
  with 1(3) have k: "k < length s" by simp
  from 1(2,3) index_from_later obtain pos where pos: "index_from CANARY_MARKER s k = Some pos"
    by (cases "index_from CANARY_MARKER s k") auto
  note first = index_from_first [OF pos]
  let ?leaks = "if list_ex (covers pos) leaks then leaks
    else leaks @ [\<lparr>l_label = ''marker-only'', l_value = CANARY_MARKER, l_position = pos\<rparr>]"
  note step = scan_markers_step [OF k pos, of leaks]
  show ?case
  proof (cases "q = pos")
    case True
    have "\<exists>l \<in> set ?leaks. covers q l" by (auto simp: True list_ex_iff covers_def CANARY_MARKER_def)
    then show ?thesis unfolding step using scan_markers_keeps by blast
  next
    case False
    with first 1(2,3) have "pos < q" by (metis linorder_neqE_nat)
    with first 1(2) have "pos + length CANARY_MARKER \<le> q" using marker_apart by blast
    with 1(1) [OF k pos] 1(2) show ?thesis unfolding step by blast
  qed
qed

lemma no_marker_no_leak:
  assumes "\<not> contains s CANARY_MARKER"
  shows "findCanaryLeaks s = []"
proof -
  have "index_of (k_value c) s = None" if "c \<in> set CANARIES" for c
    using assms contains_trans canary_marked [OF that] by (auto simp: index_of_None)
  then have "exact_leaks s = []" by (simp add: exact_leaks_def)
  moreover have "index_from CANARY_MARKER s 0 = None" using assms by (simp add: index_from_None)
  ultimately show ?thesis by (simp add: findCanaryLeaks_def scan_markers.simps)
qed

end
