(* ===== verification/Suite.thy ===== *)
theory Suite
  imports Wire
begin

text \<open>
  The HTTP side of the conformance suite: its environment (\<^verbatim>\<open>env.ts\<close>), its driver
  (\<^verbatim>\<open>driver.ts\<close>) and its polling helpers (\<^verbatim>\<open>polling.ts\<close>), all under
  \<^verbatim>\<open>conformance/src/lib\<close>. The process environment, the clock and what each request
  is answered are parameters; \<open>Inl\<close> is a thrown error's message.
\<close>

section \<open>The environment\<close>

record conf_env =
  v_baseUrl :: string
  v_apiKey :: string
  v_implementationName :: string
  v_implementationVersion :: string

definition env_or_unknown :: "(string \<rightharpoonup> string) \<Rightarrow> string \<Rightarrow> string" where
  "env_or_unknown penv k = (case penv k of None \<Rightarrow> ''unknown'' | Some v \<Rightarrow> js_trim v)"

text \<open>The module's cache is threaded through: the result, and the cache afterwards.\<close>

definition loadEnv :: "(string \<rightharpoonup> string) \<Rightarrow> conf_env option \<Rightarrow> (string + conf_env) \<times> conf_env option" where
  "loadEnv penv cached =
     (case cached of
        Some e \<Rightarrow> (Inr e, cached)
      | None \<Rightarrow>
          (let baseUrl = map_option js_trim (penv ''WOP_BASE_URL'');
               apiKey = map_option js_trim (penv ''WOP_API_KEY'')
           in case baseUrl of
                None \<Rightarrow> (Inl ''WOP_BASE_URL env var is required. Example: WOP_BASE_URL=https://api.example.com'', None)
              | Some b \<Rightarrow>
                  if b = [] then (Inl ''WOP_BASE_URL env var is required. Example: WOP_BASE_URL=https://api.example.com'', None)
                  else (case apiKey of
                    None \<Rightarrow> (Inl ''WOP_API_KEY env var is required. See docs/wop-spec/v1/auth.md for credential format.'', None)
                  | Some k \<Rightarrow>
                      if k = [] then (Inl ''WOP_API_KEY env var is required. See docs/wop-spec/v1/auth.md for credential format.'', None)
                      else (let e = \<lparr>v_baseUrl = strip_slash b, v_apiKey = k,
                                     v_implementationName = env_or_unknown penv ''WOP_IMPLEMENTATION_NAME'',
                                     v_implementationVersion = env_or_unknown penv ''WOP_IMPLEMENTATION_VERSION''\<rparr>
                            in (Inr e, Some e)))))"

section \<open>The driver\<close>

record wop_request_init =
  ri_headers :: "(string \<times> string) list"
  ri_body :: "json option"
  ri_authenticated :: "bool option"

record wop_response =
  wr_status :: nat
  wr_headers :: "(string \<times> string) list"
  wr_text :: string
  wr_json :: "json option"

definition no_init :: wop_request_init where
  "no_init = \<lparr>ri_headers = [], ri_body = None, ri_authenticated = None\<rparr>"

definition driver_headers :: "conf_env \<Rightarrow> wop_request_init \<Rightarrow> (string \<times> string) list" where
  "driver_headers env ini =
     (let h0 = spread_headers [(''Accept'', ''application/json'')] (ri_headers ini);
          h1 = (if ri_body ini \<noteq> None \<and> map_of h0 ''Content-Type'' = None
                then put_header ''Content-Type'' ''application/json'' h0 else h0)
      in if ri_authenticated ini \<noteq> Some False then put_header ''Authorization'' (''Bearer '' @ v_apiKey env) h1 else h1)"

definition driver_sent :: "conf_env \<Rightarrow> string \<Rightarrow> string \<Rightarrow> wop_request_init \<Rightarrow> http_request" where
  "driver_sent env m path ini =
     \<lparr>hr_method = m, hr_url = v_baseUrl env @ path, hr_headers = driver_headers env ini,
      hr_body = map_option stringify (ri_body ini)\<rparr>"

definition driver_request :: "(http_request \<Rightarrow> fetched) \<Rightarrow> conf_env \<Rightarrow> string \<Rightarrow> string \<Rightarrow> wop_request_init \<Rightarrow> string + wop_response" where
  "driver_request fetch env m path ini =
     (case fetch (driver_sent env m path ini) of
        NetworkError e \<Rightarrow> Inl e
      | Fetched res \<Rightarrow> Inr \<lparr>wr_status = rs_status res, wr_headers = rs_headers res, wr_text = rs_body res,
          wr_json = (if rs_body res = [] then None else json_parse (rs_body res))\<rparr>)"

definition driver_get :: "(http_request \<Rightarrow> fetched) \<Rightarrow> conf_env \<Rightarrow> string \<Rightarrow> wop_request_init \<Rightarrow> string + wop_response" where
  "driver_get fetch env path ini = driver_request fetch env ''GET'' path ini"

definition driver_post :: "(http_request \<Rightarrow> fetched) \<Rightarrow> conf_env \<Rightarrow> string \<Rightarrow> json \<Rightarrow> wop_request_init \<Rightarrow> string + wop_response" where
  "driver_post fetch env path body ini = driver_request fetch env ''POST'' path (ini\<lparr>ri_body := Some body\<rparr>)"

definition describe :: "conf_env \<Rightarrow> string \<Rightarrow> string \<Rightarrow> string" where
  "describe env specSection requirement =
     ''['' @ v_implementationName env @ ''@'' @ v_implementationVersion env @ ''] '' @ specSection @ '': '' @ requirement"

section \<open>Polling\<close>

definition TERMINAL :: "string set" where
  "TERMINAL = {''completed'', ''failed'', ''cancelled''}"

text \<open>A snapshot is the decoded body: \<open>None\<close> is \<^verbatim>\<open>undefined\<close>.\<close>

definition suite_getRun :: "(http_request \<Rightarrow> fetched) \<Rightarrow> conf_env \<Rightarrow> string \<Rightarrow> string + json option" where
  "suite_getRun fetch env runId =
     (case driver_get fetch env (''/v1/runs/'' @ encodeURIComponent runId) no_init of
        Inl e \<Rightarrow> Inl e
      | Inr res \<Rightarrow>
          if wr_status res \<noteq> 200 then
            Inl (''GET /v1/runs/'' @ runId @ '' returned '' @ nat_str (wr_status res) @ '': '' @ take 200 (wr_text res))
          else Inr (wr_json res))"

text \<open>\<^verbatim>\<open>s.status\<close>: reading it of \<^verbatim>\<open>undefined\<close> or \<^verbatim>\<open>null\<close> throws (\<open>None\<close>).\<close>

definition snap_status :: "json option \<Rightarrow> json option option" where
  "snap_status snap = (case snap of None \<Rightarrow> None | Some j \<Rightarrow> if j = JNull then None else Some (js_prop j ''status''))"

definition has_status :: "string set \<Rightarrow> json option \<Rightarrow> bool option" where
  "has_status S snap = map_option (\<lambda>st. case st of Some (JStr s) \<Rightarrow> s \<in> S | _ \<Rightarrow> False) (snap_status snap)"

definition last_status :: "json option option \<Rightarrow> string" where
  "last_status lst =
     (case lst of
        Some (Some j) \<Rightarrow>
          (case js_prop j ''status'' of Some v \<Rightarrow> if v = JNull then ''unknown'' else js_String v | None \<Rightarrow> ''unknown'')
      | _ \<Rightarrow> ''unknown'')"

definition poll_timeout :: "string \<Rightarrow> string \<Rightarrow> nat \<Rightarrow> json option option \<Rightarrow> string" where
  "poll_timeout runId label timeoutMs lst =
     ''Run '' @ runId @ '' did not satisfy '' @ label @ '' within '' @ nat_str timeoutMs @ ''ms (last status: '' @ last_status lst @ '')''"

text \<open>
  The loop. Round \<open>i\<close> reads the clock as \<open>now i\<close> and asks for the run, which is
  answered \<open>answer i\<close>; errors and exceptions of the predicate are swallowed. \<open>None\<close> is
  a loop that never ends.
\<close>

partial_function (option) poll_loop ::
  "(nat \<Rightarrow> int) \<Rightarrow> (nat \<Rightarrow> string + json option) \<Rightarrow> (json option \<Rightarrow> bool option) \<Rightarrow> int \<Rightarrow> (json option option \<Rightarrow> string) \<Rightarrow>
    nat \<Rightarrow> json option option \<Rightarrow> (string + json option) option" where
  "poll_loop now answer pred deadline timed_out i lst =
     (if now i < deadline then
        (case answer i of
           Inl e \<Rightarrow> poll_loop now answer pred deadline timed_out (Suc i) lst
         | Inr snap \<Rightarrow>
             if pred snap = Some True then Some (Inr snap)
             else poll_loop now answer pred deadline timed_out (Suc i) (Some snap))
      else Some (Inl (timed_out lst)))"

definition pollUntil :: "(nat \<Rightarrow> int) \<Rightarrow> int \<Rightarrow> (nat \<Rightarrow> string + json option) \<Rightarrow> string \<Rightarrow> (json option \<Rightarrow> bool option) \<Rightarrow> nat \<Rightarrow> string \<Rightarrow>
    (string + json option) option" where
  "pollUntil now start answer runId pred timeoutMs label =
     poll_loop now answer pred (start + int timeoutMs) (poll_timeout runId label timeoutMs) 0 None"

definition pollUntilTerminal :: "(nat \<Rightarrow> int) \<Rightarrow> int \<Rightarrow> (nat \<Rightarrow> string + json option) \<Rightarrow> string \<Rightarrow> nat \<Rightarrow> (string + json option) option" where
  "pollUntilTerminal now start answer runId timeoutMs =
     pollUntil now start answer runId (has_status TERMINAL) timeoutMs ''terminal status''"

definition pollUntilStatus :: "(nat \<Rightarrow> int) \<Rightarrow> int \<Rightarrow> (nat \<Rightarrow> string + json option) \<Rightarrow> string \<Rightarrow> string \<Rightarrow> nat \<Rightarrow> (string + json option) option" where
  "pollUntilStatus now start answer runId expected timeoutMs =
     pollUntil now start answer runId (has_status {expected}) timeoutMs (''status === '' @ expected)"

end
