(* ===== verification/Cli.thy ===== *)
theory Cli
  imports Prelude
begin

text \<open>
  The command line of the conformance suite (\<^verbatim>\<open>conformance/src/cli.ts\<close>): its argument
  parser, and what \<^verbatim>\<open>main\<close> does with the arguments and the environment. Running the
  tests is the parameter \<open>spawn\<close>.
\<close>

section \<open>Arguments\<close>

record parsed_args =
  a_baseUrl :: "string option"
  a_apiKey :: "string option"
  a_offline :: bool
  a_filter :: "string option"
  a_help :: bool
  a_impl :: "string option"
  a_implVersion :: "string option"

definition no_args :: parsed_args where
  "no_args = \<lparr>a_baseUrl = None, a_apiKey = None, a_offline = False, a_filter = None, a_help = False,
     a_impl = None, a_implVersion = None\<rparr>"

text \<open>The flag and the inline value of an argument.\<close>

definition split_flag :: "string \<Rightarrow> string \<times> string option" where
  "split_flag arg =
     (case index_of ''='' arg of None \<Rightarrow> (arg, None) | Some eq \<Rightarrow> (take eq arg, Some (drop (Suc eq) arg)))"

text \<open>\<^verbatim>\<open>nextValue()\<close>: the value, and the arguments left after it.\<close>

definition nextValue :: "string option \<Rightarrow> string list \<Rightarrow> string option \<times> string list" where
  "nextValue inlineValue rest =
     (case inlineValue of
        Some v \<Rightarrow> (Some v, rest)
      | None \<Rightarrow>
          (case rest of
             [] \<Rightarrow> (None, [])
           | n # rest' \<Rightarrow> if \<not> starts_with n ''-'' then (Some n, rest') else (None, rest)))"

text \<open>The flags that take a value, and where it goes.\<close>

definition set_flag :: "string \<Rightarrow> (string option \<Rightarrow> parsed_args \<Rightarrow> parsed_args) option" where
  "set_flag flag =
     (if flag = ''--base-url'' then Some (\<lambda>v a. a\<lparr>a_baseUrl := v\<rparr>)
      else if flag = ''--api-key'' then Some (\<lambda>v a. a\<lparr>a_apiKey := v\<rparr>)
      else if flag = ''--filter'' then Some (\<lambda>v a. a\<lparr>a_filter := v\<rparr>)
      else if flag = ''--impl'' \<or> flag = ''--implementation-name'' then Some (\<lambda>v a. a\<lparr>a_impl := v\<rparr>)
      else if flag = ''--impl-version'' \<or> flag = ''--implementation-version'' then Some (\<lambda>v a. a\<lparr>a_implVersion := v\<rparr>)
      else None)"

lemma nextValue_shorter: "length (snd (nextValue v rest)) \<le> length rest"
  by (simp add: nextValue_def split: option.split list.split)

function parse_loop :: "string list \<Rightarrow> parsed_args \<Rightarrow> parsed_args" where
  "parse_loop [] a = a"
| "parse_loop (arg # rest) a =
     (if arg = ''-h'' \<or> arg = ''--help'' then parse_loop rest (a\<lparr>a_help := True\<rparr>)
      else if arg = ''--offline'' then parse_loop rest (a\<lparr>a_offline := True\<rparr>)
      else (case set_flag (fst (split_flag arg)) of
              None \<Rightarrow> parse_loop rest a
            | Some upd \<Rightarrow>
                parse_loop (snd (nextValue (snd (split_flag arg)) rest)) (upd (fst (nextValue (snd (split_flag arg)) rest)) a)))"
  by pat_completeness auto

termination parse_loop
  by (relation "measure (\<lambda>(args, a). length args)") (auto simp: less_Suc_eq_le nextValue_shorter)

definition parseArgs :: "string list \<Rightarrow> parsed_args" where
  "parseArgs argv = parse_loop argv no_args"

section \<open>The main program\<close>

datatype spawn_result = SpawnFailed string | SpawnExit "nat option"

record cli_outcome =
  o_stdout :: string
  o_stderr :: string
  o_exit :: nat

text \<open>\<^verbatim>\<open>if (value) env[name] = value\<close>.\<close>

definition set_env :: "string \<Rightarrow> string option \<Rightarrow> (string \<rightharpoonup> string) \<Rightarrow> (string \<rightharpoonup> string)" where
  "set_env k v penv = (case v of None \<Rightarrow> penv | Some x \<Rightarrow> if x = [] then penv else penv(k \<mapsto> x))"

definition suite_env :: "parsed_args \<Rightarrow> (string \<rightharpoonup> string) \<Rightarrow> (string \<rightharpoonup> string)" where
  "suite_env args penv =
     set_env ''WOP_IMPLEMENTATION_VERSION'' (a_implVersion args)
       (set_env ''WOP_IMPLEMENTATION_NAME'' (a_impl args)
         (set_env ''WOP_API_KEY'' (a_apiKey args)
           (set_env ''WOP_BASE_URL'' (a_baseUrl args) penv)))"

definition truthy :: "string option \<Rightarrow> bool" where
  "truthy v \<longleftrightarrow> v \<noteq> None \<and> v \<noteq> Some []"

definition vitestArgs :: "string \<Rightarrow> parsed_args \<Rightarrow> string list" where
  "vitestArgs conformanceRoot args =
     [''run'', ''--config'', conformanceRoot @ ''/vitest.config.ts''] @
     (if a_offline args then [''src/scenarios/fixtures-valid.test.ts'', ''src/scenarios/spec-corpus-validity.test.ts''] else []) @
     (case a_filter args of None \<Rightarrow> [] | Some f \<Rightarrow> if f = [] then [] else [''--testNamePattern'', f])"

text \<open>\<open>help\<close> is the help text.\<close>

definition cli_main :: "string \<Rightarrow> (string list \<Rightarrow> (string \<rightharpoonup> string) \<Rightarrow> spawn_result) \<Rightarrow> string \<Rightarrow> (string \<rightharpoonup> string) \<Rightarrow> string list \<Rightarrow> cli_outcome" where
  "cli_main help spawn conformanceRoot penv argv =
     (let args = parseArgs argv; env = suite_env args penv in
      if a_help args then \<lparr>o_stdout = help, o_stderr = [], o_exit = 0\<rparr>
      else if \<not> a_offline args \<and> \<not> (truthy (env ''WOP_BASE_URL'') \<and> truthy (env ''WOP_API_KEY'')) then
        \<lparr>o_stdout = [], o_stderr = ''wop-conformance: --base-url and --api-key are required (or use --offline).'' @ [CHR 0x0A] @
           ''Run `wop-conformance --help` for usage.'' @ [CHR 0x0A], o_exit = 2\<rparr>
      else (case spawn (''vitest'' # vitestArgs conformanceRoot args) env of
              SpawnFailed e \<Rightarrow> \<lparr>o_stdout = [], o_stderr = ''wop-conformance: failed to spawn vitest: '' @ e @ [CHR 0x0A], o_exit = 2\<rparr>
            | SpawnExit st \<Rightarrow> \<lparr>o_stdout = [], o_stderr = [], o_exit = (case st of None \<Rightarrow> 1 | Some n \<Rightarrow> n)\<rparr>))"

section \<open>Written arguments\<close>

text \<open>An option as a user writes it: a switch, or a flag with its value in either form.\<close>

datatype cli_option = Help | Offline | Inline string string | Separate string string

fun write_option :: "cli_option \<Rightarrow> string list" where
  "write_option Help = [''--help'']"
| "write_option Offline = [''--offline'']"
| "write_option (Inline f v) = [f @ ''='' @ v]"
| "write_option (Separate f v) = [f, v]"

text \<open>The names of the flags that take a value, by what they set.\<close>

definition FLAG_NAMES :: "string list" where
  "FLAG_NAMES = [''--base-url'', ''--api-key'', ''--filter'', ''--impl'', ''--implementation-name'',
     ''--impl-version'', ''--implementation-version'']"

fun option_ok :: "cli_option \<Rightarrow> bool" where
  "option_ok (Inline f v) \<longleftrightarrow> f \<in> set FLAG_NAMES"
| "option_ok (Separate f v) \<longleftrightarrow> f \<in> set FLAG_NAMES \<and> \<not> starts_with v ''-''"
| "option_ok _ \<longleftrightarrow> True"

text \<open>The last value that was written for any of some names.\<close>

fun value_for :: "string list \<Rightarrow> cli_option \<Rightarrow> string option" where
  "value_for names (Inline f v) = (if f \<in> set names then Some v else None)"
| "value_for names (Separate f v) = (if f \<in> set names then Some v else None)"
| "value_for names _ = None"

definition last_value :: "string list \<Rightarrow> cli_option list \<Rightarrow> string option" where
  "last_value names os =
     (let vs = List.map_filter (value_for names) os in if vs = [] then None else Some (last vs))"

definition written_args :: "cli_option list \<Rightarrow> parsed_args" where
  "written_args os =
     \<lparr>a_baseUrl = last_value [''--base-url''] os,
      a_apiKey = last_value [''--api-key''] os,
      a_offline = Offline \<in> set os,
      a_filter = last_value [''--filter''] os,
      a_help = Help \<in> set os,
      a_impl = last_value [''--impl'', ''--implementation-name''] os,
      a_implVersion = last_value [''--impl-version'', ''--implementation-version''] os\<rparr>"

lemma flag_shape:
  assumes "f \<in> set FLAG_NAMES"
  shows "CHR ''='' \<notin> set f \<and> f \<noteq> ''-h'' \<and> f \<noteq> ''--help'' \<and> f \<noteq> ''--offline''"
  using assms unfolding FLAG_NAMES_def list.set insert_iff empty_iff by (elim disjE) simp_all

text \<open>A flag, its field, and the written arguments with one more option.\<close>

lemma last_value_snoc [simp]:
  "last_value names (os @ [o1]) = (case value_for names o1 of None \<Rightarrow> last_value names os | Some v \<Rightarrow> Some v)"
  by (simp add: last_value_def List.map_filter_def split: option.split)

lemma set_flag_writes:
  assumes "f \<in> set FLAG_NAMES" and "value_for [f] o1 = Some v" and "o1 = Inline f v \<or> o1 = Separate f v"
  shows "\<exists>upd. set_flag f = Some upd \<and> upd (Some v) (written_args os) = written_args (os @ [o1])"
  using assms(1,3) unfolding FLAG_NAMES_def list.set insert_iff empty_iff
  by (elim disjE) (simp_all add: set_flag_def written_args_def)

lemma index_of_absent: "x \<notin> set s \<Longrightarrow> index_of [x] s = None"
  by (induction s) auto

lemma index_of_after: "x \<notin> set s \<Longrightarrow> index_of [x] (s @ x # t) = Some (length s)"
  by (induction s) auto

lemma parse_option:
  assumes "option_ok o1"
  shows "parse_loop (write_option o1 @ rest) (written_args os) = parse_loop rest (written_args (os @ [o1]))"
proof (cases o1)
  case (Inline f v)
  with assms have f: "f \<in> set FLAG_NAMES" by simp
  note shape = flag_shape [OF f]
  then have "split_flag (f @ ''='' @ v) = (f, Some v)" by (simp add: split_flag_def index_of_after)
  moreover have "f @ ''='' @ v \<noteq> s" if "CHR ''='' \<notin> set s" for s using that by auto
  then have "f @ ''='' @ v \<noteq> ''-h''" "f @ ''='' @ v \<noteq> ''--help''" "f @ ''='' @ v \<noteq> ''--offline''" by simp_all
  ultimately show ?thesis using set_flag_writes [OF f, of o1 v os] Inline by (auto simp: nextValue_def)
next
  case (Separate f v)
  with assms have f: "f \<in> set FLAG_NAMES" "\<not> starts_with v ''-''" by simp_all
  note shape = flag_shape [OF f(1)]
  then have "split_flag f = (f, None)" by (simp add: split_flag_def index_of_absent)
  with set_flag_writes [OF f(1), of o1 v os] f shape Separate show ?thesis by (auto simp: nextValue_def)
qed (simp_all add: written_args_def)

lemma parse_written: "list_all option_ok os \<Longrightarrow> parseArgs (concat (map write_option os)) = written_args os"
proof -
  have "parse_loop (concat (map write_option os2)) (written_args os1) = written_args (os1 @ os2)"
    if "list_all option_ok os2" for os1 os2
    using that by (induction os2 arbitrary: os1) (simp_all add: parse_option)
  from this [of os "[]"] show "list_all option_ok os \<Longrightarrow> parseArgs (concat (map write_option os)) = written_args os"
    by (simp add: parseArgs_def written_args_def no_args_def last_value_def List.map_filter_def)
qed

end
