(* ===== verification/SuiteProps.thy ===== *)
theory SuiteProps
  imports Profiles Canaries Suite Cli SdkCalls
begin

text \<open>
  Properties of the conformance suite's library: profile derivation, the leak detector, the
  polling helper and the command line, and what the suite finds of the reference hosts.
\<close>

section \<open>Profiles\<close>

text \<open>The derived profiles are those whose predicate holds, in the order of the catalog and
  without repetition, and a host that has any has \<^verbatim>\<open>wop-core\<close>, as the first.\<close>

theorem profiles_are_derived_in_order:
  "set (deriveProfiles c) = {p. hasProfile c p} \<and> sorted_wrt (<) (deriveProfiles c) \<and>
   (deriveProfiles c = [] \<or> hd (deriveProfiles c) = WopCore)"
proof (intro conjI)
  show "set (deriveProfiles c) = {p. hasProfile c p}" by (simp add: deriveProfiles_filter PROFILE_NAMES_all)
  show "sorted_wrt (<) (deriveProfiles c)"
    unfolding deriveProfiles_filter by (rule sorted_wrt_filter [OF PROFILE_NAMES_sorted])
  show "deriveProfiles c = [] \<or> hd (deriveProfiles c) = WopCore"
  proof (cases "isCore c")
    case True
    then show ?thesis by (simp add: deriveProfiles_def)
  next
    case False
    with hasProfile_core have "filter (hasProfile c) PROFILE_NAMES = []" by (auto simp: filter_empty_conv)
    then show ?thesis by (simp add: deriveProfiles_filter)
  qed
qed

text \<open>Both reference hosts have, by their discovery payload, the profiles core, SSE, polling
  and also node packs, whose endpoints neither has: the discovery predicate of that profile
  is core. The SDK reads the payload without credentials, in every state of the host.\<close>

theorem reference_hosts_profiles:
  "sdk_capabilities (mem_fetch cfg en (cl_baseUrl cl) h) cl = Inr (Some (discovery_payload ''wop-host-in-memory'')) \<and>
   json_parse (reply_body sql_handleDiscovery) = Some (discovery_payload ''wop-host-sqlite'') \<and>
   deriveProfiles (discovery_payload name) = [WopCore, WopStreamSse, WopStreamPoll, WopNodePacks]"
proof (intro conjI)
  show "sdk_capabilities (mem_fetch cfg en (cl_baseUrl cl) h) cl = Inr (Some (discovery_payload ''wop-host-in-memory''))"
    by (rule sdk_capabilities_mem)
  show "json_parse (reply_body sql_handleDiscovery) = Some (discovery_payload ''wop-host-sqlite'')"
    using json_roundtrip [OF wf_discovery [of "''wop-host-sqlite''"]] by (simp add: sql_handleDiscovery_def)
  show "deriveProfiles (discovery_payload name) = [WopCore, WopStreamSse, WopStreamPoll, WopNodePacks]"
    by code_simp
qed

section \<open>The leak detector\<close>

text \<open>C38. The leak detector is exact: the assertion passes just when the text does not contain the
  marker; every occurrence of the marker lies in a reported leak, and every reported leak is
  in the text, at the position reported.\<close>

theorem canary_detector_is_exact:
  "(assertNoCanaryLeak txt surface = None \<longleftrightarrow> \<not> contains txt CANARY_MARKER) \<and>
   {q. occurs_at CANARY_MARKER txt q} \<subseteq> {q. list_ex (covers q) (findCanaryLeaks txt)} \<and>
   list_all (\<lambda>l. occurs_at (l_value l) txt (l_position l)) (findCanaryLeaks txt)"
proof (intro conjI)
  have found: "list_ex (covers q) (findCanaryLeaks txt)" if "occurs_at CANARY_MARKER txt q" for q
    using scan_markers_finds [OF that, of 0] by (simp add: findCanaryLeaks_def list_ex_iff)
  then show "{q. occurs_at CANARY_MARKER txt q} \<subseteq> {q. list_ex (covers q) (findCanaryLeaks txt)}" by blast
  have "findCanaryLeaks txt = [] \<longleftrightarrow> \<not> contains txt CANARY_MARKER"
  proof
    assume "findCanaryLeaks txt = []"
    then have "\<not> occurs_at CANARY_MARKER txt q" for q using found [of q] by auto
    then show "\<not> contains txt CANARY_MARKER" by (simp add: contains_occurs)
  qed (rule no_marker_no_leak)
  then show "assertNoCanaryLeak txt surface = None \<longleftrightarrow> \<not> contains txt CANARY_MARKER"
    by (simp add: assertNoCanaryLeak_def Let_def)
  have "\<forall>l \<in> set (exact_leaks txt). occurs_at (l_value l) txt (l_position l)" using exact_leaks_real by blast
  from scan_markers_real [OF this, of 0]
  show "list_all (\<lambda>l. occurs_at (l_value l) txt (l_position l)) (findCanaryLeaks txt)"
    by (simp add: findCanaryLeaks_def list_all_iff)
qed

section \<open>Polling\<close>

definition satisfies :: "(json option \<Rightarrow> bool option) \<Rightarrow> string + json option \<Rightarrow> bool" where
  "satisfies pred a \<longleftrightarrow> (case a of Inl e \<Rightarrow> False | Inr snap \<Rightarrow> pred snap = Some True)"

text \<open>The result of a loop that starts with round \<open>m\<close> and passes over \<open>n\<close> rounds.\<close>

definition polled :: "(nat \<Rightarrow> int) \<Rightarrow> (nat \<Rightarrow> string + json option) \<Rightarrow> (json option \<Rightarrow> bool option) \<Rightarrow> int \<Rightarrow>
    (json option option \<Rightarrow> string) \<Rightarrow> nat \<Rightarrow> nat \<Rightarrow> (string + json option) option \<Rightarrow> bool" where
  "polled now answer pred deadline timed_out m n res \<longleftrightarrow>
     {i. m \<le> i \<and> i < m + n \<and> (deadline \<le> now i \<or> satisfies pred (answer i))} = {} \<and>
     (if now (m + n) < deadline then \<exists>snap. answer (m + n) = Inr snap \<and> pred snap = Some True \<and> res = Some (Inr snap)
      else \<exists>l. res = Some (Inl (timed_out l)))"

lemma polled_now:
  assumes "\<not> (now m < deadline \<and> \<not> satisfies pred (answer m))"
  shows "polled now answer pred deadline timed_out m 0 (poll_loop now answer pred deadline timed_out m lst)"
  using assms by (subst poll_loop.simps) (auto simp: polled_def satisfies_def split: sum.splits)

lemma polled_later:
  assumes "now m < deadline \<and> \<not> satisfies pred (answer m)" and "polled now answer pred deadline timed_out (Suc m) n res"
  shows "polled now answer pred deadline timed_out m (Suc n) res"
proof -
  have "m = i \<or> Suc m \<le> i" if "m \<le> i" for i using that by auto
  with assms show ?thesis by (fastforce simp: polled_def)
qed

lemma poll_loop_ends:
  assumes "\<And>i. now i + 250 \<le> now (Suc i)"
  shows "\<exists>n. polled now answer pred deadline timed_out m n (poll_loop now answer pred deadline timed_out m lst)"
proof (induction "nat (deadline - now m)" arbitrary: m lst rule: less_induct)
  case less
  show ?case
  proof (cases "now m < deadline \<and> \<not> satisfies pred (answer m)")
    case True
    let ?lst = "case answer m of Inl e \<Rightarrow> lst | Inr snap \<Rightarrow> Some snap"
    have "nat (deadline - now (Suc m)) < nat (deadline - now m)" using True assms [of m] by simp
    from less [OF this, of ?lst] obtain n
      where "polled now answer pred deadline timed_out (Suc m) n (poll_loop now answer pred deadline timed_out (Suc m) ?lst)" by blast
    moreover have "poll_loop now answer pred deadline timed_out m lst = poll_loop now answer pred deadline timed_out (Suc m) ?lst"
      using True by (subst poll_loop.simps) (auto simp: satisfies_def split: sum.splits)
    ultimately show ?thesis using polled_later [of now m deadline pred answer, OF True] by auto
  qed (use polled_now in blast)
qed

text \<open>Polling always ends: when the clock moves on by the interval in each round,
  \<^verbatim>\<open>pollUntil\<close> returns within the timeout. It returns the first snapshot that
  satisfies the predicate, if one does before the deadline, and else throws: no
  satisfying answer is passed over, and errors on the way change nothing.\<close>

theorem polling_ends:
  assumes "\<And>i. now i + 250 \<le> now (Suc i)" and "start \<le> now 0"
  shows "\<exists>n. 250 * n \<le> timeoutMs + 249 \<and> {i. i < n \<and> satisfies pred (answer i)} = {} \<and>
    (if now n < start + int timeoutMs
     then \<exists>snap. answer n = Inr snap \<and> pred snap = Some True \<and>
       pollUntil now start answer runId pred timeoutMs label = Some (Inr snap)
     else \<exists>l. pollUntil now start answer runId pred timeoutMs label = Some (Inl (poll_timeout runId label timeoutMs l)))"
proof -
  have late: "start + 250 * int i \<le> now i" for i
  proof (induction i)
    case (Suc i)
    with assms(1) [of i] show ?case by simp
  qed (use assms(2) in simp)
  obtain n where n: "polled now answer pred (start + int timeoutMs) (poll_timeout runId label timeoutMs) 0 n
      (pollUntil now start answer runId pred timeoutMs label)"
    using poll_loop_ends [of now, OF assms(1)] unfolding pollUntil_def by blast
  have "250 * n \<le> timeoutMs + 249"
  proof (cases n)
    case (Suc k)
    with n have "now k < start + int timeoutMs" by (force simp: polled_def)
    with late [of k] Suc show ?thesis by simp
  qed simp
  with n show ?thesis by (intro exI [of _ n]) (auto simp: polled_def)
qed

text \<open>A host that fails twice and then shows the run completed.\<close>

definition demo_answer :: "nat \<Rightarrow> string + json option" where
  "demo_answer i = (if i < 2 then Inl ''ECONNREFUSED'' else Inr (Some (JObj [(''status'', JStr ''completed'')])))"

lemma polling_ends_witness:
  "pollUntil (\<lambda>i. 250 * int i) 0 demo_answer ''r'' (has_status TERMINAL) 10000 ''terminal status'' =
     Some (Inr (Some (JObj [(''status'', JStr ''completed'')])))"
proof -
  let ?now = "\<lambda>i. 250 * int i" and ?res = "pollUntil (\<lambda>i. 250 * int i) 0 demo_answer ''r'' (has_status TERMINAL) 10000 ''terminal status''"
  have "?now i + 250 \<le> ?now (Suc i)" for i by simp
  from polling_ends [of ?now, OF this, of 0 10000 "has_status TERMINAL" demo_answer "''r''" "''terminal status''"]
  obtain n where n: "{i. i < n \<and> satisfies (has_status TERMINAL) (demo_answer i)} = {}"
    and e: "if 250 * int n < 0 + int 10000 then \<exists>snap. demo_answer n = Inr snap \<and> has_status TERMINAL snap = Some True \<and> ?res = Some (Inr snap)
      else \<exists>l. ?res = Some (Inl (poll_timeout ''r'' ''terminal status'' 10000 l))"
    by auto
  have "satisfies (has_status TERMINAL) (demo_answer 2)"
    by (simp add: satisfies_def demo_answer_def has_status_def snap_status_def TERMINAL_def)
  with n have "n \<le> 2" by (metis (mono_tags, lifting) empty_iff mem_Collect_eq not_le)
  then have "250 * int n < 0 + int 10000" by simp
  with e obtain snap where "demo_answer n = Inr snap" "?res = Some (Inr snap)" by (simp only: if_True) blast
  then show ?thesis by (simp add: demo_answer_def split: if_splits)
qed

section \<open>The command line\<close>

lemma set_env_lookup: "set_env k v penv x = (if x = k \<and> truthy v then v else penv x)"
  by (auto simp: set_env_def truthy_def split: option.split)

text \<open>C39. The argument parser reads back what a user writes: from any list of switches and options,
  each value inline or as the next argument (then not starting with a dash), each field of the
  record gets the last value written under one of its flag's names, and the switches say
  whether they were written. Each of the four variables of the tests' environment has the
  flag's value when that is not empty, against what the program's own comment says, and else
  is as it was; no other variable changes.\<close>

theorem command_line_is_read_back:
  assumes "list_all option_ok os"
  shows "let args = parseArgs (concat (map write_option os)) in
    args = \<lparr>a_baseUrl = last_value [''--base-url''] os, a_apiKey = last_value [''--api-key''] os,
      a_offline = (Offline \<in> set os), a_filter = last_value [''--filter''] os, a_help = (Help \<in> set os),
      a_impl = last_value [''--impl'', ''--implementation-name''] os,
      a_implVersion = last_value [''--impl-version'', ''--implementation-version''] os\<rparr> \<and>
    suite_env args penv = (\<lambda>x.
      let given = (if x = ''WOP_BASE_URL'' then last_value [''--base-url''] os
          else if x = ''WOP_API_KEY'' then last_value [''--api-key''] os
          else if x = ''WOP_IMPLEMENTATION_NAME'' then last_value [''--impl'', ''--implementation-name''] os
          else if x = ''WOP_IMPLEMENTATION_VERSION'' then last_value [''--impl-version'', ''--implementation-version''] os
          else None)
      in if truthy given then given else penv x)"
  using parse_written [OF assms]
  by (auto simp: written_args_def suite_env_def set_env_lookup Let_def fun_eq_iff truthy_def)

lemma command_line_is_read_back_witness:
  "a_baseUrl (parseArgs [''--offline'', ''--base-url'', ''http://h'', ''--base-url=-x'']) = Some ''-x''"
proof -
  let ?os = "[Offline, Separate ''--base-url'' ''http://h'', Inline ''--base-url'' ''-x'']"
  have "list_all option_ok ?os" by (simp add: FLAG_NAMES_def)
  from command_line_is_read_back [OF this] show ?thesis by (simp add: last_value_def List.map_filter_def Let_def)
qed

end
