(* ===== verification/Examples.thy ===== *)
theory Examples
  imports Network "HOL-Library.Char_ord" "HOL-Library.List_Lexorder"
begin

text \<open>
  Four of the example programs (\<^verbatim>\<open>examples/*/*.mjs\<close>): the idempotent runs, the
  streaming client with its own frame parser, the tiny workflow with its polling loop, and
  the canonical JSON, the manifest and the signature of the node-pack example. A program
  yields the lines it prints and how it ends; \<^verbatim>\<open>fetch\<close>, the clock, the UUID and
  the signing function are parameters.
\<close>

section \<open>Programs that print\<close>

datatype line = Out string | Err string

text \<open>Normal completion, an exception that is not caught, or \<^verbatim>\<open>process.exit\<close>.\<close>

datatype 'a flow = Next 'a | Throw string | Exit nat

type_synonym 'a prog = "line list \<times> 'a flow"

definition say :: "line list \<Rightarrow> unit prog" where
  "say ls = (ls, Next ())"

definition give :: "'a \<Rightarrow> 'a prog" where
  "give x = ([], Next x)"

definition throw :: "string \<Rightarrow> 'a prog" where
  "throw m = ([], Throw m)"

definition exit_with :: "nat \<Rightarrow> 'a prog" where
  "exit_with n = ([], Exit n)"

definition and_then :: "'a prog \<Rightarrow> ('a \<Rightarrow> 'b prog) \<Rightarrow> 'b prog" where
  "and_then p f =
     (case snd p of
        Next x \<Rightarrow> (fst p @ fst (f x), snd (f x))
      | Throw m \<Rightarrow> (fst p, Throw m)
      | Exit n \<Rightarrow> (fst p, Exit n))"

text \<open>The marks the programs print, in UTF-8.\<close>

definition arrow :: string where
  "arrow = [CHR 0xE2, CHR 0x86, CHR 0x92, CHR '' '']"

definition tick :: string where
  "tick = [CHR 0xE2, CHR 0x9C, CHR 0x93, CHR '' '']"

definition cross :: string where
  "cross = [CHR 0xE2, CHR 0x9C, CHR 0x97, CHR '' '']"

definition dash :: string where
  "dash = [CHR 0xE2, CHR 0x80, CHR 0x94]"

text \<open>\<^verbatim>\<open>main().catch(err => { console.error(`... ${err.message}`); process.exit(1); })\<close>:
  what is printed and the exit code.\<close>

definition run_main :: "unit prog \<Rightarrow> line list \<times> nat" where
  "run_main p =
     (case snd p of
        Next x \<Rightarrow> (fst p, 0)
      | Throw m \<Rightarrow> (fst p @ [Err (cross @ m)], 1)
      | Exit n \<Rightarrow> (fst p, n))"

lemmas prog_defs = say_def give_def throw_def exit_with_def and_then_def run_main_def

text \<open>\<^verbatim>\<open>`${v}`\<close>, \<^verbatim>\<open>v?.k\<close>, \<^verbatim>\<open>v.k\<close>, truth and \<^verbatim>\<open>===\<close> of values
  that may be \<^verbatim>\<open>undefined\<close>; objects of different responses are never identical.\<close>

definition show_opt :: "json option \<Rightarrow> string" where
  "show_opt v = (case v of None \<Rightarrow> ''undefined'' | Some j \<Rightarrow> js_String j)"

definition opt_prop :: "json \<Rightarrow> string \<Rightarrow> json option" where
  "opt_prop v k = (if v = JNull then None else js_prop v k)"

definition null_read :: "string \<Rightarrow> string" where
  "null_read k = ''Cannot read properties of null (reading '' @ [CHR 0x27] @ k @ [CHR 0x27] @ '')''"

definition read_prop :: "json \<Rightarrow> string \<Rightarrow> json option prog" where
  "read_prop v k = (if v = JNull then throw (null_read k) else give (js_prop v k))"

definition js_nullish :: "json option \<Rightarrow> bool" where
  "js_nullish v \<longleftrightarrow> v = None \<or> v = Some JNull"

fun js_truthy :: "json option \<Rightarrow> bool" where
  "js_truthy None \<longleftrightarrow> False"
| "js_truthy (Some JNull) \<longleftrightarrow> False"
| "js_truthy (Some (JBool b)) \<longleftrightarrow> b"
| "js_truthy (Some (JNum x)) \<longleftrightarrow> (case x of NotANumber \<Rightarrow> False | Infinite p \<Rightarrow> True | Decimal m d \<Rightarrow> m \<noteq> 0)"
| "js_truthy (Some (JStr s)) \<longleftrightarrow> s \<noteq> []"
| "js_truthy (Some _) \<longleftrightarrow> True"

fun strict_eq :: "json option \<Rightarrow> json option \<Rightarrow> bool" where
  "strict_eq None None \<longleftrightarrow> True"
| "strict_eq (Some (JArr xs)) (Some v) \<longleftrightarrow> False"
| "strict_eq (Some (JObj fs)) (Some v) \<longleftrightarrow> False"
| "strict_eq (Some (JNum x)) (Some (JNum y)) \<longleftrightarrow> x = y \<and> x \<noteq> NotANumber"
| "strict_eq (Some v) (Some w) \<longleftrightarrow> v = w"
| "strict_eq _ _ \<longleftrightarrow> False"

section \<open>Configuration and requests\<close>

text \<open>\<open>x_syntax\<close> is the message of the \<^verbatim>\<open>SyntaxError\<close> that \<^verbatim>\<open>res.json()\<close> throws.\<close>

record ex_config =
  x_base :: string
  x_key :: string
  x_workflow :: string
  x_syntax :: string

definition example_config :: "(string \<rightharpoonup> string) \<Rightarrow> string \<Rightarrow> ex_config" where
  "example_config env syntax =
     \<lparr>x_base = (case env ''WOP_BASE_URL'' of None \<Rightarrow> ''http://127.0.0.1:3737'' | Some s \<Rightarrow> s),
      x_key = (case env ''WOP_API_KEY'' of None \<Rightarrow> ''wop-inmem-dev-key'' | Some s \<Rightarrow> s),
      x_workflow = (case env ''WOP_WORKFLOW'' of None \<Rightarrow> ''conformance-noop'' | Some s \<Rightarrow> s),
      x_syntax = syntax\<rparr>"

definition fetched_prog :: "fetched \<Rightarrow> response prog" where
  "fetched_prog a = (case a of NetworkError m \<Rightarrow> throw m | Fetched r \<Rightarrow> give r)"

definition body_json :: "ex_config \<Rightarrow> response \<Rightarrow> json prog" where
  "body_json cfg r = (case json_parse (rs_body r) of None \<Rightarrow> throw (x_syntax cfg) | Some v \<Rightarrow> give v)"

definition auth_header :: "ex_config \<Rightarrow> string \<times> string" where
  "auth_header cfg = (''Authorization'', ''Bearer '' @ x_key cfg)"

definition create_post :: "ex_config \<Rightarrow> json \<Rightarrow> (string \<times> string) list \<Rightarrow> http_request" where
  "create_post cfg body extra =
     \<lparr>hr_method = ''POST'', hr_url = x_base cfg @ ''/v1/runs'',
      hr_headers = [auth_header cfg, (''Content-Type'', ''application/json'')] @ extra,
      hr_body = Some (stringify body)\<rparr>"

definition plain_get :: "ex_config \<Rightarrow> string \<Rightarrow> (string \<times> string) list \<Rightarrow> http_request" where
  "plain_get cfg path hs = \<lparr>hr_method = ''GET'', hr_url = x_base cfg @ path, hr_headers = hs, hr_body = None\<rparr>"

text \<open>\<^verbatim>\<open>createRun\<close>, the same function in two of the examples.\<close>

definition ex_createRun :: "ex_config \<Rightarrow> (http_request \<Rightarrow> fetched) \<Rightarrow> string \<Rightarrow> json prog" where
  "ex_createRun cfg fetch workflowId =
     and_then (fetched_prog (fetch (create_post cfg (JObj [(''workflowId'', JStr workflowId)]) []))) (\<lambda>res.
       if rs_status res \<noteq> 201 then throw (''Run create failed: '' @ nat_str (rs_status res) @ '' '' @ rs_body res)
       else body_json cfg res)"

section \<open>idempotent-runs\<close>

record post_answer =
  pa_status :: nat
  pa_replay :: "string option"
  pa_body :: json

definition json_or_null :: "string \<Rightarrow> json" where
  "json_or_null s = (case json_parse s of None \<Rightarrow> JNull | Some v \<Rightarrow> v)"

definition postRun :: "ex_config \<Rightarrow> (http_request \<Rightarrow> fetched) \<Rightarrow> string \<Rightarrow> json \<Rightarrow> post_answer prog" where
  "postRun cfg fetch idempotencyKey body =
     and_then (fetched_prog (fetch (create_post cfg body [(''Idempotency-Key'', idempotencyKey)]))) (\<lambda>res.
       give \<lparr>pa_status = rs_status res, pa_replay = get_header ''wop-idempotent-replay'' (rs_headers res),
             pa_body = json_or_null (rs_body res)\<rparr>)"

definition run_of :: "post_answer \<Rightarrow> json option" where
  "run_of a = opt_prop (pa_body a) ''runId''"

definition nonce_body :: "string \<Rightarrow> json" where
  "nonce_body n = JObj [(''workflowId'', JStr ''conformance-idempotent''), (''inputs'', JObj [(''nonce'', JStr n)])]"

definition report_call :: "post_answer \<Rightarrow> line list" where
  "report_call a =
     [Out (''  status:  '' @ nat_str (pa_status a)),
      Out (''  runId:   '' @ show_opt (run_of a)),
      Out (''  replay:  '' @ (case pa_replay a of None \<Rightarrow> ''null'' | Some s \<Rightarrow> s))]"

text \<open>One of the calls: announced, made, reported. The \<open>n\<close>-th request is answered by \<open>fetch n\<close>.\<close>

definition demo_call :: "ex_config \<Rightarrow> (http_request \<Rightarrow> fetched) \<Rightarrow> string \<Rightarrow> string \<Rightarrow> post_answer prog" where
  "demo_call cfg fetch key title =
     and_then (say [Out (arrow @ title)]) (\<lambda>_.
     and_then (postRun cfg fetch key (nonce_body ''first-attempt'')) (\<lambda>a.
     and_then (say (report_call a)) (\<lambda>_. give a)))"

definition idempotent_main :: "ex_config \<Rightarrow> (nat \<Rightarrow> http_request \<Rightarrow> fetched) \<Rightarrow> string \<Rightarrow> unit prog" where
  "idempotent_main cfg fetch randomUUID =
     (let key = ''idempotent-example-'' @ randomUUID
      in and_then (say [Out (''Idempotency-Key: '' @ key), Out []]) (\<lambda>_.
         and_then (demo_call cfg (fetch 0) key ''Call 1 (fresh)'') (\<lambda>a.
         and_then (demo_call cfg (fetch 1) key (''Call 2 (same key, same body '' @ dash @ '' expect cached replay)'')) (\<lambda>b.
         and_then (demo_call cfg (fetch 2) key (''Call 3 (same key, same body '' @ dash @ '' expect cached replay)'')) (\<lambda>c.
         and_then (say [Out []]) (\<lambda>_.
         if \<not> strict_eq (run_of a) (run_of b) \<or> \<not> strict_eq (run_of a) (run_of c) then
           and_then (say [Err (cross @ ''runIds differ across replays'')]) (\<lambda>_. exit_with 1)
         else
         and_then (say [Out (tick @ ''All three responses share runId '' @ show_opt (run_of a)), Out [],
                        Out (arrow @ ''Call 4 (same key, DIFFERENT body '' @ dash @ '' expect 409 conflict)'')]) (\<lambda>_.
         and_then (postRun cfg (fetch 3) key (nonce_body ''DIFFERENT-attempt'')) (\<lambda>conflict.
         and_then (say [Out (''  status: '' @ nat_str (pa_status conflict)),
                        Out (''  error:  '' @ show_opt (opt_prop (pa_body conflict) ''error''))]) (\<lambda>_.
         if pa_status conflict \<noteq> 409 then
           and_then (say [Err (cross @ ''Expected 409 idempotency_key_conflict'')]) (\<lambda>_. exit_with 1)
         else say [Out (tick @ ''Body conflict correctly rejected'')])))))))))"

section \<open>streaming-client\<close>

record sx_frame =
  fx_event :: string
  fx_data :: string
  fx_id :: "string option"

text \<open>The fields of a frame, line by line; lines without a colon are skipped.\<close>

definition add_field :: "string \<Rightarrow> string \<Rightarrow> (string \<times> string) list \<Rightarrow> (string \<times> string) list" where
  "add_field name value flds =
     put_header name ((case map_of flds name of None \<Rightarrow> [] | Some old \<Rightarrow> old) @ value) flds"

definition frame_line :: "string \<Rightarrow> (string \<times> string) list \<Rightarrow> (string \<times> string) list" where
  "frame_line ln flds =
     (case index_of '':'' ln of
        None \<Rightarrow> flds
      | Some colon \<Rightarrow> add_field (js_trim (take colon ln)) (js_trim (drop (Suc colon) ln)) flds)"

definition frame_fields :: "string \<Rightarrow> (string \<times> string) list" where
  "frame_fields frame = fold frame_line (split_on (CHR 0x0A) frame) []"

definition given_field :: "(string \<times> string) list \<Rightarrow> string \<Rightarrow> bool" where
  "given_field flds k \<longleftrightarrow> (case map_of flds k of None \<Rightarrow> False | Some s \<Rightarrow> s \<noteq> [])"

definition field_or :: "string \<Rightarrow> (string \<times> string) list \<Rightarrow> string \<Rightarrow> string" where
  "field_or dflt flds k = (case map_of flds k of None \<Rightarrow> dflt | Some s \<Rightarrow> s)"

definition sx_frame_of :: "string \<Rightarrow> sx_frame list" where
  "sx_frame_of frame =
     (let flds = frame_fields frame
      in if given_field flds ''event'' \<or> given_field flds ''data'' then
           [\<lparr>fx_event = field_or ''message'' flds ''event'', fx_data = field_or [] flds ''data'',
             fx_id = map_of flds ''id''\<rparr>]
         else [])"

text \<open>The loop over the buffer: the frames of its complete part, and what is carried over.\<close>

function sx_frames :: "string \<Rightarrow> sx_frame list \<times> string" where
  "sx_frames buffer =
     (case index_of [CHR 0x0A, CHR 0x0A] buffer of
        None \<Rightarrow> ([], buffer)
      | Some blankLine \<Rightarrow>
          (let (frames, rest) = sx_frames (drop (blankLine + 2) buffer)
           in (sx_frame_of (take blankLine buffer) @ frames, rest)))"
  by pat_completeness auto

termination sx_frames
  by (relation "measure length") (auto dest: index_of_Some)

declare sx_frames.simps [simp del]

definition parseSseFrames :: "string \<Rightarrow> string \<Rightarrow> sx_frame list \<times> string" where
  "parseSseFrames txt carry = sx_frames (carry @ txt)"

text \<open>The callback of \<^verbatim>\<open>main\<close>: what it prints for an event, and whether it stops.\<close>

definition frame_payload :: "sx_frame \<Rightarrow> json" where
  "frame_payload f = (case json_parse (fx_data f) of None \<Rightarrow> JObj [(''raw'', JStr (fx_data f))] | Some v \<Rightarrow> v)"

definition event_line :: "string \<Rightarrow> json \<Rightarrow> line" where
  "event_line eventType payload =
     (let s = js_prop payload ''seq'';
          s' = (if js_nullish s then js_prop payload ''sequence'' else s);
          seq = (if js_nullish s' then ''?'' else show_opt s');
          nid = js_prop payload ''nodeId'';
          node = (if js_truthy nid then '' node='' @ show_opt nid else [])
      in Out (''  ['' @ seq @ ''] '' @ eventType @ node))"

definition ends_client :: "string \<Rightarrow> bool" where
  "ends_client eventType \<longleftrightarrow> eventType \<in> {''run.completed'', ''run.failed'', ''run.cancelled''}"

text \<open>The callback over frames: the count so far, and whether it asked to stop.\<close>

fun on_frames :: "sx_frame list \<Rightarrow> nat \<Rightarrow> (nat \<times> bool) prog" where
  "on_frames [] count = give (count, False)"
| "on_frames (f # fs) count =
     (let payload = frame_payload f
      in if payload = JNull then throw (null_read ''seq'')
         else and_then (say [event_line (fx_event f) payload]) (\<lambda>_.
           if ends_client (fx_event f) then give (Suc count, True) else on_frames fs (Suc count)))"

text \<open>The read loop over the chunks of the body; what an error of the reader throws.\<close>

fun read_body :: "string list \<Rightarrow> stream_end \<Rightarrow> string \<Rightarrow> nat \<Rightarrow> nat prog" where
  "read_body [] e carry count =
     (case e of EndDone \<Rightarrow> give count | EndAborted b \<Rightarrow> throw ''This operation was aborted'' | EndError m \<Rightarrow> throw m)"
| "read_body (chunk # chunks) e carry count =
     (let (frames, newCarry) = parseSseFrames chunk carry
      in and_then (on_frames frames count) (\<lambda>(n, stop).
           if stop then give n else read_body chunks e newCarry n))"

definition sx_streamEvents :: "ex_config \<Rightarrow> (http_request \<Rightarrow> stream_answer) \<Rightarrow> string \<Rightarrow> nat prog" where
  "sx_streamEvents cfg fetch runId =
     (case fetch (plain_get cfg (''/v1/runs/'' @ encodeURIComponent runId @ ''/events'')
                    [auth_header cfg, (''Accept'', ''text/event-stream'')]) of
        FetchThrows m \<Rightarrow> throw m
      | Answer status body \<Rightarrow>
          if \<not> response_ok status then throw (''Stream connect failed: '' @ nat_str status)
          else (case body of
                  None \<Rightarrow> throw ''Response body is not streamable''
                | Some (chunks, e) \<Rightarrow> read_body chunks e [] 0))"

definition streaming_main :: "ex_config \<Rightarrow> (http_request \<Rightarrow> fetched) \<Rightarrow> (http_request \<Rightarrow> stream_answer) \<Rightarrow> unit prog" where
  "streaming_main cfg fetch stream =
     and_then (say [Out (arrow @ ''POST /v1/runs { workflowId: '' @ [CHR 0x22] @ x_workflow cfg @ [CHR 0x22] @ '' }'')]) (\<lambda>_.
     and_then (ex_createRun cfg fetch (x_workflow cfg)) (\<lambda>created.
     and_then (read_prop created ''runId'') (\<lambda>runId.
     and_then (say [Out (''  runId: '' @ show_opt runId),
                    Out (arrow @ ''Streaming /v1/runs/'' @ show_opt runId @ ''/events'')]) (\<lambda>_.
     and_then (sx_streamEvents cfg stream (show_opt runId)) (\<lambda>count.
     say [Out (tick @ ''Stream closed after '' @ nat_str count @ '' events'')])))))"

section \<open>tiny-workflow\<close>

definition discover :: "ex_config \<Rightarrow> (http_request \<Rightarrow> fetched) \<Rightarrow> json prog" where
  "discover cfg fetch =
     and_then (fetched_prog (fetch (plain_get cfg ''/.well-known/wop'' []))) (\<lambda>res.
       if \<not> response_ok (rs_status res) then throw (''Discovery failed: '' @ nat_str (rs_status res))
       else body_json cfg res)"

definition ex_getRun :: "ex_config \<Rightarrow> (http_request \<Rightarrow> fetched) \<Rightarrow> string \<Rightarrow> json prog" where
  "ex_getRun cfg fetch runId =
     and_then (fetched_prog (fetch (plain_get cfg (''/v1/runs/'' @ encodeURIComponent runId) [auth_header cfg]))) (\<lambda>res.
       if \<not> response_ok (rs_status res) then throw (''Snapshot failed: '' @ nat_str (rs_status res))
       else body_json cfg res)"

definition is_status :: "json option \<Rightarrow> string set \<Rightarrow> bool" where
  "is_status v ss \<longleftrightarrow> (case v of Some (JStr s) \<Rightarrow> s \<in> ss | _ \<Rightarrow> False)"

definition TERMINAL_STATUSES :: "string set" where
  "TERMINAL_STATUSES = {''completed'', ''failed'', ''cancelled''}"

text \<open>
  The polling loop: round \<open>i\<close> reads the clock as \<open>now i\<close> and asks \<open>snap i\<close>. Unlike the
  suite's loop it does not swallow errors. \<open>None\<close> is a loop that never ends.
\<close>

partial_function (option) tiny_loop ::
  "(nat \<Rightarrow> int) \<Rightarrow> (nat \<Rightarrow> json prog) \<Rightarrow> int \<Rightarrow> string \<Rightarrow> nat \<Rightarrow> (json \<times> json option) prog option" where
  "tiny_loop now snap deadline timed_out i =
     (if now i < deadline then
        (case and_then (snap i) (\<lambda>v. and_then (read_prop v ''status'') (\<lambda>st. give (v, st))) of
           (ls, Next (v, st)) \<Rightarrow>
             if is_status st TERMINAL_STATUSES then Some (ls, Next (v, st))
             else Option.bind (tiny_loop now snap deadline timed_out (Suc i)) (\<lambda>p. Some (ls @ fst p, snd p))
         | p \<Rightarrow> Some p)
      else Some (throw timed_out))"

definition tiny_poll :: "(nat \<Rightarrow> int) \<Rightarrow> int \<Rightarrow> (nat \<Rightarrow> json prog) \<Rightarrow> string \<Rightarrow> (json \<times> json option) prog option" where
  "tiny_poll now start snap runId =
     tiny_loop now snap (start + 10000) (''Run '' @ runId @ '' did not terminate within 10000ms'') 0"

definition tiny_start :: "ex_config \<Rightarrow> (nat \<Rightarrow> http_request \<Rightarrow> fetched) \<Rightarrow> json option prog" where
  "tiny_start cfg fetch =
     and_then (say [Out (arrow @ ''Discovery: '' @ x_base cfg @ ''/.well-known/wop'')]) (\<lambda>_.
     and_then (discover cfg (fetch 0)) (\<lambda>caps.
     and_then (read_prop caps ''protocolVersion'') (\<lambda>ver.
     and_then (say [Out (''  protocolVersion: '' @ show_opt ver)]) (\<lambda>_.
     let impl = js_prop caps ''implementation'';
         name = (case impl of None \<Rightarrow> None | Some j \<Rightarrow> opt_prop j ''name'')
     in and_then (say [Out (''  implementation:  '' @ (if js_nullish name then ''<unknown>'' else show_opt name)), Out (arrow @
          ''POST /v1/runs { workflowId: '' @ [CHR 0x22] @ ''conformance-noop'' @ [CHR 0x22] @ '' }'')]) (\<lambda>_.
     and_then (ex_createRun cfg (fetch 1) ''conformance-noop'') (\<lambda>created.
     and_then (read_prop created ''runId'') (\<lambda>runId.
     and_then (say [Out (''  runId:  '' @ show_opt runId), Out (''  status: '' @ show_opt (js_prop created ''status'')),
                    Out (arrow @ ''Polling until terminal...'')]) (\<lambda>_. give runId))))))))"

definition tiny_finish :: "json \<times> json option \<Rightarrow> unit prog" where
  "tiny_finish vs =
     (case vs of (v, st) \<Rightarrow>
        let ended = js_prop v ''endedAt''
        in and_then (say [Out (''  status: '' @ show_opt st),
                          Out (''  ended:  '' @ (if js_nullish ended then ''<not set>'' else show_opt ended))]) (\<lambda>_.
           if st \<noteq> Some (JStr ''completed'') then
             and_then (say [Err (cross @ ''Expected completed, got '' @ show_opt st)]) (\<lambda>_. exit_with 1)
           else say [Out (tick @ ''Run completed successfully'')]))"

definition tiny_main :: "ex_config \<Rightarrow> (nat \<Rightarrow> http_request \<Rightarrow> fetched) \<Rightarrow> (nat \<Rightarrow> int) \<Rightarrow> int \<Rightarrow> unit prog option" where
  "tiny_main cfg fetch now start =
     (case tiny_start cfg fetch of
        (ls, Next runId) \<Rightarrow>
          map_option (\<lambda>p. and_then (say ls) (\<lambda>_. and_then p tiny_finish))
            (tiny_poll now start (\<lambda>i. ex_getRun cfg (fetch (i + 2)) (show_opt runId)) (show_opt runId))
      | (ls, Throw m) \<Rightarrow> Some (ls, Throw m)
      | (ls, Exit n) \<Rightarrow> Some (ls, Exit n))"

section \<open>node-pack-publishing\<close>

lemma map_of_size: "map_of fs k = Some v \<Longrightarrow> size v < Suc (size_list (size_prod (\<lambda>x. 0) size) fs)"
  by (induction fs) (auto split: if_splits)

text \<open>
  \<^verbatim>\<open>Object.keys(obj).sort()\<close> orders by UTF-16 code units. On UTF-8 bytes that is the
  lexicographic order in which the lead bytes EE and EF (of the code points from U+E000 to
  U+FFFF) come after F0 to F4 (of the code points that UTF-16 writes with surrogates).
\<close>

definition unit_rank :: "char \<Rightarrow> nat" where
  "unit_rank c = (if of_char c = (0xEE :: nat) \<or> of_char c = (0xEF :: nat) then of_char c + 256 else of_char c)"

definition sort_keys :: "string list \<Rightarrow> string list" where
  "sort_keys = sort_key (map unit_rank)"

text \<open>Every key is then looked up.\<close>

function canonicalJson :: "json \<Rightarrow> string" where
  "canonicalJson (JArr xs) = ''['' @ join_with '','' (map canonicalJson xs) @ '']''"
| "canonicalJson (JObj fs) =
     (let sortedKeys = sort_keys (map fst fs);
          entries = map (\<lambda>k. quote k @ '':'' @ (case map_of fs k of None \<Rightarrow> ''undefined'' | Some v \<Rightarrow> canonicalJson v)) sortedKeys
      in ''{'' @ join_with '','' entries @ ''}'')"
| "canonicalJson JNull = stringify JNull"
| "canonicalJson (JBool b) = stringify (JBool b)"
| "canonicalJson (JNum x) = stringify (JNum x)"
| "canonicalJson (JStr s) = stringify (JStr s)"
  by pat_completeness auto

termination canonicalJson
  by (relation "measure size") (auto dest: map_of_size simp: less_Suc_eq_le size_list_estimation')

definition buildManifest :: json where
  "buildManifest = JObj [
     (''name'', JStr ''private.local-example.echo-tool''),
     (''version'', JStr ''0.1.0''),
     (''description'', JStr (''Reference example pack '' @ dash @ '' single core.noop-style node, demonstration only.'')),
     (''license'', JStr ''Apache-2.0''),
     (''runtime'', JObj [(''engine'', JStr ''wop-v1'')]),
     (''nodes'', JArr [JObj [(''id'', JStr ''echo''), (''typeId'', JStr ''core.noop''), (''entry'', JStr ''dist/echo.js'')]]),
     (''signing'', JObj [(''algorithm'', JStr ''ed25519''), (''signatureRef'', JStr ''detached'')])]"

text \<open>\<open>ed25519Sign\<close> and the base64 encoding are those of Node, parameters.\<close>

record signed_pack =
  sg_canonical :: string
  sg_signatureBase64 :: string

definition buildSignature :: "('k \<Rightarrow> string \<Rightarrow> string) \<Rightarrow> (string \<Rightarrow> string) \<Rightarrow> json \<Rightarrow> 'k \<Rightarrow> signed_pack" where
  "buildSignature ed25519Sign base64 manifest privateKey =
     (let canonical = canonicalJson manifest
      in \<lparr>sg_canonical = canonical, sg_signatureBase64 = base64 (ed25519Sign privateKey canonical)\<rparr>)"

end
