(* ===== verification/ExampleLaws.thy ===== *)
theory ExampleLaws
  imports Examples NetProps
begin

text \<open>
  Lemmas on the example programs: the canonical JSON of the node-pack example as the ordinary
  text of a sorted value, the streaming client's frame parser (chunks, and the hosts'
  frames), and what the example programs' requests are on the host's side.
\<close>

section \<open>Canonical JSON\<close>

text \<open>Equality of JSON values up to the order of the fields, at every level.\<close>

inductive same_json :: "json \<Rightarrow> json \<Rightarrow> bool" where
  null: "same_json JNull JNull"
| bool: "same_json (JBool b) (JBool b)"
| num: "same_json (JNum x) (JNum x)"
| str: "same_json (JStr s) (JStr s)"
| arr: "list_all2 same_json xs ys \<Longrightarrow> same_json (JArr xs) (JArr ys)"
| obj: "(\<And>k. rel_option same_json (map_of fs k) (map_of gs k)) \<Longrightarrow> same_json (JObj fs) (JObj gs)"

inductive_simps same_json_simps: "same_json JNull v" "same_json (JBool b) v" "same_json (JNum x) v" "same_json (JStr s) v"
  "same_json (JArr xs) v" "same_json (JObj fs) v"

text \<open>Sorting keys gives one order of a set of keys.\<close>

lemma unit_rank_inj: "inj unit_rank"
proof (rule injI)
  fix a b :: char
  assume "unit_rank a = unit_rank b"
  then have "of_char a = (of_char b :: nat) \<or> (of_char a :: nat) = of_char b + 256 \<or> (of_char b :: nat) = of_char a + 256"
    unfolding unit_rank_def by presburger
  moreover have "of_char a < (256 :: nat)" "of_char b < (256 :: nat)" by (rule nat_of_char_less_256)+
  ultimately have "of_char a = (of_char b :: nat)" by linarith
  then show "a = b" by simp
qed

lemma set_sort_keys [simp]: "set (sort_keys ks) = set ks"
  by (simp add: sort_keys_def)

lemma distinct_sort_keys [simp]: "distinct (sort_keys ks) = distinct ks"
  by (simp add: sort_keys_def)

lemma sort_keys_unique:
  assumes "distinct ks" and "distinct ls" and "set ks = set ls"
  shows "sort_keys ks = sort_keys ls"
proof -
  have inj: "inj (map unit_rank)" using unit_rank_inj by (rule inj_mapI)
  have "map (map unit_rank) (sort_keys ks) = map (map unit_rank) (sort_keys ls)"
    using assms inj_on_subset [OF inj]
    by (intro sorted_distinct_set_unique) (simp_all add: sort_keys_def distinct_map)
  with inj show ?thesis by (simp add: inj_map_eq_map)
qed

text \<open>The value that the canonical text is the ordinary text of.\<close>

function sort_json :: "json \<Rightarrow> json" where
  "sort_json (JArr xs) = JArr (map sort_json xs)"
| "sort_json (JObj fs) = JObj (map (\<lambda>k. (k, case map_of fs k of None \<Rightarrow> JNull | Some v \<Rightarrow> sort_json v)) (sort_keys (map fst fs)))"
| "sort_json JNull = JNull"
| "sort_json (JBool b) = JBool b"
| "sort_json (JNum x) = JNum x"
| "sort_json (JStr s) = JStr s"
  by pat_completeness auto

termination sort_json
  by (relation "measure size") (auto dest: map_of_size simp: less_Suc_eq_le size_list_estimation')

lemma stringify_elems_join: "stringify_elems xs = join_with '','' (map stringify xs)"
proof (induction xs)
  case (Cons x xs)
  then show ?case by (cases "xs = []") (simp_all add: join_with_Cons stringify_elems_Cons)
qed simp

lemma stringify_fields_join: "stringify_fields fs = join_with '','' (map (\<lambda>(k, v). quote k @ '':'' @ stringify v) fs)"
proof (induction fs)
  case (Cons p fs)
  then show ?case by (cases "fs = []") (simp_all add: join_with_Cons stringify_fields_Cons case_prod_beta)
qed simp

lemma canonical_stringify: "canonicalJson v = stringify (sort_json v)"
proof (induction v rule: canonicalJson.induct)
  case (1 xs)
  then have "map canonicalJson xs = map (stringify \<circ> sort_json) xs" by simp
  then show ?case by (simp add: stringify_elems_join del: map_eq_conv)
next
  case (2 fs)
  have "quote k @ '':'' @ (case map_of fs k of None \<Rightarrow> ''undefined'' | Some v \<Rightarrow> canonicalJson v) =
      quote k @ '':'' @ stringify (case map_of fs k of None \<Rightarrow> JNull | Some v \<Rightarrow> sort_json v)" if "k \<in> set (sort_keys (map fst fs))" for k
  proof -
    from that obtain v where v: "map_of fs k = Some v"
      by (metis list.set_map map_of_eq_None_iff not_None_eq set_sort_keys)
    from 2 [OF refl that v] v show ?thesis by simp
  qed
  then have "map (\<lambda>k. quote k @ '':'' @ (case map_of fs k of None \<Rightarrow> ''undefined'' | Some v \<Rightarrow> canonicalJson v)) (sort_keys (map fst fs)) =
      map (\<lambda>k. quote k @ '':'' @ stringify (case map_of fs k of None \<Rightarrow> JNull | Some v \<Rightarrow> sort_json v)) (sort_keys (map fst fs))"
    by (intro map_cong refl)
  then show ?case by (simp add: stringify_fields_join o_def del: map_eq_conv)
qed simp_all

lemma wf_sort_json: "wf_json v \<Longrightarrow> wf_json (sort_json v)"
proof (induction v rule: sort_json.induct)
  case (2 fs)
  have "wf_json (case map_of fs k of None \<Rightarrow> JNull | Some v \<Rightarrow> sort_json v)" if k: "k \<in> set (sort_keys (map fst fs))" for k
  proof (cases "map_of fs k")
    case (Some v)
    with 2(2) have "wf_json v" by (auto dest: map_of_SomeD)
    with 2(1) [OF k Some] Some show ?thesis by simp
  qed simp
  moreover have "distinct (sort_keys (map fst fs))" using 2(2) by simp
  ultimately show ?case by (simp add: o_def)
qed auto

text \<open>Two values have the same sorted form exactly when they are the same up to order.\<close>

lemma same_json_sorted: "same_json v w \<Longrightarrow> wf_json v \<Longrightarrow> wf_json w \<Longrightarrow> sort_json v = sort_json w"
proof (induction rule: same_json.induct)
  case (arr xs ys)
  then show ?case by (auto simp: list_all2_conv_all_nth intro: nth_equalityI)
next
  case (obj fs gs)
  have dom: "map_of fs k = None \<longleftrightarrow> map_of gs k = None" for k
    using obj.IH [of k] by (cases "map_of fs k"; cases "map_of gs k") auto
  then have "set (map fst fs) = set (map fst gs)" by (auto simp: map_of_eq_None_iff set_eq_iff)
  then have keys: "sort_keys (map fst fs) = sort_keys (map fst gs)"
    using obj.prems by (intro sort_keys_unique) simp_all
  have val: "(case map_of fs k of None \<Rightarrow> JNull | Some v \<Rightarrow> sort_json v) = (case map_of gs k of None \<Rightarrow> JNull | Some v \<Rightarrow> sort_json v)" for k
  proof (cases "map_of fs k")
    case (Some v)
    with obj.IH [of k] obtain w where w: "map_of gs k = Some w" and eq: "wf_json v \<Longrightarrow> wf_json w \<Longrightarrow> sort_json v = sort_json w"
      by (auto simp: option_rel_Some1)
    have "wf_json v" "wf_json w" using obj.prems Some w by (auto dest: map_of_SomeD)
    with Some w eq show ?thesis by simp
  next
    case None
    with dom [of k] have "map_of gs k = None" by simp
    with None show ?thesis by simp
  qed
  show ?case using keys val by simp
qed simp_all

lemma sort_json_scalar:
  "JNull = sort_json w \<longleftrightarrow> w = JNull" "JBool b = sort_json w \<longleftrightarrow> w = JBool b"
  "JNum x = sort_json w \<longleftrightarrow> w = JNum x" "JStr s = sort_json w \<longleftrightarrow> w = JStr s"
  by (cases w; auto)+

lemma sorted_same_json: "sort_json v = sort_json w \<Longrightarrow> wf_json v \<Longrightarrow> wf_json w \<Longrightarrow> same_json v w"
proof (induction v arbitrary: w rule: sort_json.induct)
  case (1 xs)
  from 1(2) obtain ys where w: "w = JArr ys" by (cases w) auto
  with 1 show ?case
    by (auto simp: same_json_simps list_all2_conv_all_nth list_eq_iff_nth_eq)
next
  case (2 fs)
  from 2(2) obtain gs where w: "w = JObj gs" by (cases w) auto
  let ?s = "\<lambda>hs. sort_keys (map fst hs)"
  let ?v = "\<lambda>hs k. case map_of hs k of None \<Rightarrow> JNull | Some v \<Rightarrow> sort_json v"
  have eq: "map (\<lambda>k. (k, ?v fs k)) (?s fs) = map (\<lambda>k. (k, ?v gs k)) (?s gs)" using 2(2) w by simp
  then have keys: "?s fs = ?s gs" by (metis (no_types, lifting) comp_apply fst_conv list.map_comp map_idI)
  have "rel_option same_json (map_of fs k) (map_of gs k)" for k
  proof (cases "k \<in> set (?s fs)")
    case True
    then obtain v w' where v: "map_of fs k = Some v" and w': "map_of gs k = Some w'"
      using keys by (metis list.set_map map_of_eq_None_iff not_None_eq set_sort_keys)
    have "map_of (map (\<lambda>k. (k, ?v fs k)) (?s fs)) k = map_of (map (\<lambda>k. (k, ?v gs k)) (?s gs)) k"
      using eq by (rule arg_cong)
    then have "?v fs k = ?v gs k"
      using True keys by (simp only: map_of_map_restrict restrict_map_def o_apply if_True option.inject)
    moreover have "wf_json v" "wf_json w'" using 2(3,4) v w' w by (auto dest: map_of_SomeD)
    ultimately show ?thesis using 2(1) [OF True v] v w' by simp
  next
    case False
    moreover from this have "k \<notin> set (?s gs)" using keys by simp
    ultimately show ?thesis by (simp add: map_of_eq_None_iff [symmetric])
  qed
  then show ?case using w by (simp add: same_json.obj)
qed (simp_all add: same_json_simps sort_json_scalar)

lemma sort_json_idem: "wf_json v \<Longrightarrow> same_json v (sort_json v)"
proof (induction v rule: sort_json.induct)
  case (1 xs)
  then show ?case by (auto simp: same_json_simps list_all2_conv_all_nth)
next
  case (2 fs)
  have "rel_option same_json (map_of fs k)
      (map_of (map (\<lambda>k. (k, case map_of fs k of None \<Rightarrow> JNull | Some v \<Rightarrow> sort_json v)) (sort_keys (map fst fs))) k)" for k
  proof (cases "map_of fs k")
    case None
    then have "k \<notin> set (sort_keys (map fst fs))" by (simp add: map_of_eq_None_iff)
    with None show ?thesis by (simp only: map_of_map_restrict restrict_map_def if_False option.rel_inject)
  next
    case (Some v)
    then have k: "k \<in> set (sort_keys (map fst fs))" by (metis list.set_map map_of_eq_None_iff not_None_eq set_sort_keys)
    then have "map_of (map (\<lambda>k. (k, case map_of fs k of None \<Rightarrow> JNull | Some v \<Rightarrow> sort_json v)) (sort_keys (map fst fs))) k = Some (sort_json v)"
      using Some by (simp add: map_of_map_restrict restrict_map_def)
    moreover have "wf_json v" using 2(2) Some by (auto dest: map_of_SomeD)
    ultimately show ?thesis using 2(1) [OF k Some] Some by simp
  qed
  then show ?case by (simp add: same_json.obj)
qed (simp_all add: same_json_simps)

section \<open>The streaming client\<close>

lemma index_of_append:
  assumes "index_of p x = Some i"
  shows "index_of p (x @ y) = Some i"
  using assms
proof (induction x arbitrary: i)
  case Nil
  then show ?case by (cases y) (simp_all split: if_splits)
next
  case (Cons c x)
  show ?case
  proof (cases "starts_with (c # x) p")
    case True
    then have "starts_with ((c # x) @ y) p" unfolding starts_with_iff by (metis append.assoc)
    with True Cons.prems show ?thesis by simp
  next
    case False
    with Cons.prems obtain j where j: "index_of p x = Some j" "i = Suc j" by auto
    from index_of_Some [OF j(1)] have "length p \<le> length x" by simp
    then have "take (length p) ((c # x) @ y) = take (length p) (c # x)" by (simp del: append_Cons)
    with False have "\<not> starts_with ((c # x) @ y) p" by (simp add: starts_with_def)
    with Cons.IH [OF j(1)] j(2) show ?thesis by simp
  qed
qed

lemma sx_frames_append:
  "sx_frames (x @ y) = (let (fs, c) = sx_frames x; (gs, d) = sx_frames (c @ y) in (fs @ gs, d))"
proof (induction x rule: sx_frames.induct)
  case (1 x)
  show ?case
  proof (cases "index_of [CHR 0x0A, CHR 0x0A] x")
    case None
    then show ?thesis by (subst (2) sx_frames.simps) (simp add: case_prod_beta)
  next
    case (Some i)
    have "i + 2 \<le> length x" using index_of_Some [OF Some] by simp
    then have cut: "take i (x @ y) = take i x" "drop (i + 2) (x @ y) = drop (i + 2) x @ y" by simp_all
    have "sx_frames (x @ y) = (let (fs, c) = sx_frames (drop (i + 2) x @ y) in (sx_frame_of (take i x) @ fs, c))"
      by (subst sx_frames.simps) (simp only: index_of_append [OF Some] option.case cut)
    moreover have "sx_frames x = (let (fs, c) = sx_frames (drop (i + 2) x) in (sx_frame_of (take i x) @ fs, c))"
      by (subst sx_frames.simps) (simp only: Some option.case)
    ultimately show ?thesis using 1 [OF Some] by (simp add: Let_def case_prod_beta)
  qed
qed

lemma sx_carry: "sx_frames x = (fs, c) \<Longrightarrow> sx_frames c = ([], c)"
proof (induction x arbitrary: fs c rule: sx_frames.induct)
  case (1 x)
  show ?case
  proof (cases "index_of [CHR 0x0A, CHR 0x0A] x")
    case None
    with 1(2) show ?thesis by (subst (asm) sx_frames.simps) (subst sx_frames.simps, simp)
  next
    case (Some i)
    have "sx_frames x = (let (fs, c) = sx_frames (drop (i + 2) x) in (sx_frame_of (take i x) @ fs, c))"
      by (subst sx_frames.simps) (simp only: Some option.case)
    with 1(2) 1(1) [OF Some] show ?thesis
      by (cases "sx_frames (drop (i + 2) x)") simp
  qed
qed

text \<open>The callback over two lists of frames in a row.\<close>

lemma and_then_assoc: "and_then (and_then p f) g = and_then p (\<lambda>x. and_then (f x) g)"
  by (auto simp: and_then_def split: flow.split)

lemma and_then_give [simp]: "and_then (give x) f = f x"
  by (simp add: prog_defs)

lemma on_frames_append:
  "on_frames (fs @ gs) n = and_then (on_frames fs n) (\<lambda>(k, stop). if stop then give (k, True) else on_frames gs k)"
proof (induction fs arbitrary: n)
  case (Cons f fs)
  then show ?case
    by (auto simp: Let_def and_then_assoc throw_def) (auto simp: prog_defs split: flow.split)
qed simp

text \<open>However the body is cut into chunks, the client does what it does on the whole text.\<close>

lemma read_body_chunks:
  assumes "sx_frames carry = ([], carry)"
  shows "read_body chunks EndDone carry n = and_then (on_frames (fst (sx_frames (carry @ concat chunks))) n) (\<lambda>(k, stop). give k)"
  using assms
proof (induction chunks arbitrary: carry n)
  case (Cons v chunks)
  obtain fs c where s: "sx_frames (carry @ v) = (fs, c)" by fastforce
  obtain gs d where t: "sx_frames (c @ concat chunks) = (gs, d)" by fastforce
  have "sx_frames (carry @ concat (v # chunks)) = (fs @ gs, d)"
    using sx_frames_append [of "carry @ v" "concat chunks"] s t by simp
  then have "and_then (on_frames (fst (sx_frames (carry @ concat (v # chunks)))) n) (\<lambda>(k, stop). give k) =
      and_then (on_frames fs n) (\<lambda>x. and_then (case x of (k, stop) \<Rightarrow> if stop then give (k, True) else on_frames gs k) (\<lambda>(k, stop). give k))"
    by (simp add: on_frames_append and_then_assoc)
  also have "\<dots> = and_then (on_frames fs n) (\<lambda>(k, stop). if stop then give k else read_body chunks EndDone c k)"
    using Cons.IH [OF sx_carry [OF s]] t by (intro arg_cong2 [where f = and_then] refl ext) (auto split: prod.split)
  finally show ?case using s by (simp add: parseSseFrames_def)
qed simp

text \<open>A frame of the hosts: its three lines, and the blank line that ends it.\<close>

lemma index_of_blank_skip:
  "CHR 0x0A \<notin> set l \<Longrightarrow> index_of [CHR 0x0A, CHR 0x0A] (l @ s) = map_option (\<lambda>i. length l + i) (index_of [CHR 0x0A, CHR 0x0A] s)"
proof (induction l)
  case Nil
  then show ?case by (cases "index_of [CHR 0x0A, CHR 0x0A] s") simp_all
next
  case (Cons c l)
  then show ?case by (cases "index_of [CHR 0x0A, CHR 0x0A] s") (auto simp: starts_with_def)
qed

lemma index_of_three_lines:
  assumes "CHR 0x0A \<notin> set a" "CHR 0x0A \<notin> set b" "CHR 0x0A \<notin> set c" and "b \<noteq> []" "c \<noteq> []"
  shows "index_of [CHR 0x0A, CHR 0x0A] (a @ CHR 0x0A # b @ CHR 0x0A # c @ CHR 0x0A # CHR 0x0A # rest) =
    Some (length (a @ CHR 0x0A # b @ CHR 0x0A # c))"
proof -
  have step: "index_of [CHR 0x0A, CHR 0x0A] (CHR 0x0A # l @ s) = map_option (\<lambda>i. Suc (length l + i)) (index_of [CHR 0x0A, CHR 0x0A] s)"
    if "CHR 0x0A \<notin> set l" "l \<noteq> []" for l s
  proof -
    have "\<not> starts_with (CHR 0x0A # l @ s) [CHR 0x0A, CHR 0x0A]" using that by (cases l) (auto simp: starts_with_def)
    then show ?thesis using index_of_blank_skip [OF that(1), of s] by (simp add: option.map_comp o_def)
  qed
  show ?thesis
    by (simp only: index_of_blank_skip [OF assms(1)] step [OF assms(2,4)] step [OF assms(3,5)])
       (simp add: starts_with_def)
qed

lemma trim_value: "v \<noteq> [] \<Longrightarrow> \<not> is_ws (hd v) \<Longrightarrow> \<not> is_ws (last v) \<Longrightarrow> js_trim (CHR '' '' # v) = v"
  using js_trim_ends_id [of v] by (simp add: js_trim_def is_ws_def)

text \<open>Text that trimming leaves alone.\<close>

definition tight :: "string \<Rightarrow> bool" where
  "tight v \<longleftrightarrow> one_line v \<and> v \<noteq> [] \<and> \<not> is_ws (hd v) \<and> \<not> is_ws (last v)"

lemma frame_line_of:
  assumes "CHR '':'' \<notin> set f" and "js_trim f = f" and "tight v"
  shows "frame_line (f @ '': '' @ v) flds = add_field f v flds"
proof -
  have "index_of '':'' (f @ '': '' @ v) = Some (length f)"
    using index_of_char_first [OF assms(1), of "CHR '' '' # v"] by simp
  then show ?thesis using assms(2,3) trim_value by (simp add: frame_line_def tight_def)
qed

lemma sx_frames_block:
  assumes "index_of [CHR 0x0A, CHR 0x0A] (b @ CHR 0x0A # CHR 0x0A # rest) = Some (length b)"
  shows "sx_frames (b @ CHR 0x0A # CHR 0x0A # rest) = (sx_frame_of b @ fst (sx_frames rest), snd (sx_frames rest))"
  by (subst sx_frames.simps) (simp add: assms case_prod_beta)

lemma host_frame:
  assumes "tight i" and "tight ty" and "tight d"
  shows "sx_frames (frame_text i ty d @ rest) =
    (\<lparr>fx_event = ty, fx_data = d, fx_id = Some i\<rparr> # fst (sx_frames rest), snd (sx_frames rest))"
proof -
  let ?body = "(''id: '' @ i) @ CHR 0x0A # (''event: '' @ ty) @ CHR 0x0A # (''data: '' @ d)"
  have txt_eq: "frame_text i ty d = ?body @ [CHR 0x0A, CHR 0x0A]" by (simp add: frame_text_def)
  have ol: "CHR 0x0A \<notin> set (''id: '' @ i)" "CHR 0x0A \<notin> set (''event: '' @ ty)" "CHR 0x0A \<notin> set (''data: '' @ d)"
    using assms by (auto simp: tight_def one_line_def)
  have "index_of [CHR 0x0A, CHR 0x0A] (?body @ CHR 0x0A # CHR 0x0A # rest) = Some (length ?body)"
    using index_of_three_lines [OF ol, of rest] by simp
  note block = sx_frames_block [OF this]
  have "split_on (CHR 0x0A) ?body = [''id: '' @ i, ''event: '' @ ty, ''data: '' @ d]"
    using split_join [of "[''id: '' @ i, ''event: '' @ ty, ''data: '' @ d]" "CHR 0x0A"] ol by simp
  moreover have "js_trim ''id'' = ''id''" "js_trim ''event'' = ''event''" "js_trim ''data'' = ''data''" by code_simp+
  ultimately have "frame_fields ?body = [(''id'', i), (''event'', ty), (''data'', d)]"
    using frame_line_of [of "''id''" i] frame_line_of [of "''event''" ty] frame_line_of [of "''data''" d] assms
    unfolding frame_fields_def by (simp only:) (simp add: add_field_def)
  then have "sx_frame_of ?body = [\<lparr>fx_event = ty, fx_data = d, fx_id = Some i\<rparr>]"
    using assms(2) unfolding sx_frame_of_def by (simp only:) (simp add: given_field_def field_or_def tight_def)
  then show ?thesis unfolding txt_eq using block by (simp only: append_assoc append_Cons append_Nil list.simps)
qed

lemma tight_texts: "tight (nat_str n)" "tight (type_str ty)"
proof -
  have "\<not> is_ws c" if "is_digit c" for c using that by (auto simp: is_ws_def is_digit_def)
  then show "tight (nat_str n)"
    using one_line_texts(1) nat_str_not_Nil nat_str_digits [OF hd_in_set] nat_str_digits [OF last_in_set] by (simp add: tight_def)
  show "tight (type_str ty)" using one_line_texts(2) [of ty] by (cases ty) (simp_all add: tight_def is_ws_def)
qed

lemma tight_object: "tight (stringify (JObj fs))"
  using one_line_texts(3) [of "JObj fs"] by (simp add: tight_def is_ws_def)

definition host_frame_of :: "(run_event \<Rightarrow> json) \<Rightarrow> run_event \<Rightarrow> sx_frame" where
  "host_frame_of ej e = \<lparr>fx_event = type_str (e_type e), fx_data = stringify (ej e), fx_id = Some (nat_str (e_seq e))\<rparr>"

lemma sx_host_frames:
  assumes "\<And>e. tight (stringify (ej e))"
  shows "sx_frames (concat (map (sse_frame ej) evs)) = (map (host_frame_of ej) evs, [])"
proof (induction evs)
  case Nil
  then show ?case by (simp add: sx_frames.simps)
next
  case (Cons e evs)
  then show ?case
    using host_frame [OF tight_texts(1,2) assms, of "e_seq e" "e_type e" e] by (simp add: sse_frame_text host_frame_of_def)
qed

lemma on_host_frames:
  assumes "list_all (\<lambda>e. wf_json (ej e) \<and> ej e \<noteq> JNull) evs" and "list_all (\<lambda>e. \<not> ends_stream (e_type e)) evs"
    and "wf_json (ej f) \<and> ej f \<noteq> JNull" and "ends_stream (e_type f)"
  shows "on_frames (map (host_frame_of ej) (evs @ [f])) n =
    (map (\<lambda>e. event_line (type_str (e_type e)) (ej e)) (evs @ [f]), Next (n + Suc (length evs), True))"
  using assms(1,2)
proof (induction evs arbitrary: n)
  case Nil
  have "ends_client (type_str (e_type f))" using assms(4) by (cases "e_type f") (simp_all add: ends_client_def)
  with assms(3) show ?case
    by (simp add: host_frame_of_def frame_payload_def json_roundtrip prog_defs)
next
  case (Cons e evs)
  have "\<not> ends_client (type_str (e_type e))" using Cons.prems(2) by (cases "e_type e") (simp_all add: ends_client_def)
  with Cons show ?case
    by (simp add: host_frame_of_def frame_payload_def json_roundtrip prog_defs)
qed

section \<open>The requests of the examples\<close>

lemma plain_get_headers:
  assumes "plain_key (x_key cfg)"
  shows "authorized (x_key cfg) (deliver origin (plain_get cfg path (auth_header cfg # hs)))"
  using assms unfolding authorized_def plain_key_def
  by (intro exI [of _ "x_key cfg"]) (simp add: plain_get_def auth_header_def lower_names)

lemma plain_get_run:
  assumes "plain_id rid" and "list_all (\<lambda>s. CHR ''?'' \<notin> set s) sfx"
    and "path = ''/v1/runs/'' @ encodeURIComponent rid @ concat (map (\<lambda>s. CHR ''/'' # s) sfx)"
  shows "run_request ''GET'' sfx rid (deliver (x_base cfg) (plain_get cfg path hs))"
proof -
  have "hr_url (plain_get cfg path hs) = x_base cfg @ run_url rid (concat (map (\<lambda>s. CHR ''/'' # s) sfx)) @
      (if [] = [] then [] else CHR ''?'' # query_string [])"
    using assms(3) by (simp add: plain_get_def run_url_def)
  from run_request_url(1) [OF assms(1) _ assms(2) this] show ?thesis by (simp add: plain_get_def)
qed

text \<open>The creation request, with an idempotency key or without.\<close>

lemma create_post_request:
  "create_request (deliver (x_base cfg) (create_post cfg body extra))"
  "rq_body (deliver (x_base cfg) (create_post cfg body extra)) = stringify body"
proof -
  have "hr_url (create_post cfg body extra) = x_base cfg @ ''/v1/runs'' @ (if [] = [] then [] else CHR ''?'' # query_string [])"
    by (simp add: create_post_def)
  from deliver_target(1) [OF this] show "create_request (deliver (x_base cfg) (create_post cfg body extra))"
    by (simp add: create_request_def) (simp add: create_post_def)
qed (simp add: create_post_def)

lemma create_post_key:
  "rq_headers (deliver (x_base cfg) (create_post cfg body [])) ''idempotency-key'' = None"
  "rq_headers (deliver (x_base cfg) (create_post cfg body [(''Idempotency-Key'', k)])) ''idempotency-key'' = Some k"
  by (simp_all add: create_post_def auth_header_def lower_names)

lemma create_post_check:
  assumes "plain_key (x_key cfg)" and "x_key cfg = c_api_key mc" and "c_workflows mc wid \<noteq> None"
    and "wf_json body" and "js_prop body ''workflowId'' = Some (JStr wid)"
  shows "check_create (c_api_key mc) (c_workflows mc) (deliver (x_base cfg) (create_post cfg body extra)) =
    Accepts wid (inputs_or_empty (js_prop body ''inputs''))"
proof -
  have "authorized (c_api_key mc) (deliver (x_base cfg) (create_post cfg body extra))"
    using assms(1,2) unfolding authorized_def plain_key_def
    by (intro exI [of _ "x_key cfg"]) (simp add: create_post_def auth_header_def lower_names)
  then show ?thesis
    unfolding check_create_Accepts create_post_request(2)
    using assms(3-5) json_roundtrip [OF assms(4)] by auto
qed

lemma ex_createRun_mem:
  assumes "plain_key (x_key cfg)" and "x_key cfg = c_api_key mc" and "c_workflows mc wid \<noteq> None"
  shows "ex_createRun cfg (mem_fetch mc en (x_base cfg) h) wid = give (created_body (new_run_id en) wid (iso en))"
proof -
  let ?body = "JObj [(''workflowId'', JStr wid)]"
  have body: "wf_json ?body" "js_prop ?body ''workflowId'' = Some (JStr wid)" by simp_all
  have "snd (mem_serve mc en (deliver (x_base cfg) (create_post cfg ?body [])) h) =
      sendText 201 ''application/json'' (stringify (created_body (new_run_id en) wid (iso en))) [(''WOP-Idempotent-Replay'', [])]"
    by (simp add: mem_serve_def mem_route_create [OF create_post_request(1)] mem_handleCreateRun_def create_post_key
        create_post_check [OF assms body] Let_def mem_createRun_def del: deliver_fields)
  moreover have "wf_json (created_body (new_run_id en) wid (iso en))" by (simp add: created_body_def)
  ultimately show ?thesis
    using json_roundtrip [of "created_body (new_run_id en) wid (iso en)"]
    by (simp add: ex_createRun_def fetched_prog_def mem_fetch_def sendText_def body_json_def)
qed

section \<open>The stream of a finished run\<close>

context stream_host
begin

lemma plain_stream:
  assumes "finished rid" and "run_request ''GET'' [''events''] rid rq" and "authorized key rq"
    and "rq_headers rq ''last-event-id'' = None" and "\<And>x. concat (chop x) = x"
  shows "\<exists>chunks. answer chop rid rq = Answer 200 (Some (chunks, EndDone)) \<and> concat chunks = concat (map (sse_frame ej) (log rid))"
proof -
  from answers [OF assms(1-3)] obtain s hs where s: "answer chop rid rq = stream_of_reply chop (stream_text ej s) (Stream hs)"
    "s_out s = events_after (resume_after rq) (log rid)" by blast
  have "resume_after rq = num_of_int (- 1)" using assms(4) by (simp add: resume_after_def)
  with s assms(5) show ?thesis by (simp add: stream_text_def)
qed

text \<open>What the streaming client prints of it.\<close>

lemma client_reads:
  assumes "finished rid" and "plain_id rid" and "plain_key key" and "x_key cfg = key"
    and "\<And>x. concat (chop x) = x" and "\<And>hr. fetch hr = answer chop rid (deliver (x_base cfg) hr)"
    and "\<And>e. tight (stringify (ej e))" and "\<And>e. ej e \<noteq> JNull"
    and "log rid \<noteq> []" and "ends_stream (e_type (last (log rid)))"
    and "list_all (\<lambda>e. \<not> ends_stream (e_type e)) (butlast (log rid))"
  shows "sx_streamEvents cfg fetch rid =
    (map (\<lambda>e. event_line (type_str (e_type e)) (ej e)) (log rid), Next (length (log rid)))"
proof -
  let ?hr = "plain_get cfg (''/v1/runs/'' @ encodeURIComponent rid @ ''/events'') [auth_header cfg, (''Accept'', ''text/event-stream'')]"
  let ?rq = "deliver (x_base cfg) ?hr"
  have "run_request ''GET'' [''events''] rid ?rq" by (rule plain_get_run [OF assms(2)]) simp_all
  moreover have "authorized key ?rq" using plain_get_headers [of cfg] assms(3,4) by simp
  moreover have "rq_headers ?rq ''last-event-id'' = None" by (simp add: plain_get_def auth_header_def lower_names)
  ultimately obtain chunks where c: "answer chop rid ?rq = Answer 200 (Some (chunks, EndDone))"
    "concat chunks = concat (map (sse_frame ej) (log rid))" using plain_stream [OF assms(1)] assms(5) by blast
  have l: "butlast (log rid) @ [last (log rid)] = log rid" using assms(9) by simp
  have wf: "list_all (\<lambda>e. wf_json (ej e) \<and> ej e \<noteq> JNull) (log rid)" using log_json [OF assms(1)] assms(8) by (simp add: list_all_iff)
  have "on_frames (map (host_frame_of ej) (log rid)) 0 =
      (map (\<lambda>e. event_line (type_str (e_type e)) (ej e)) (log rid), Next (length (log rid), True))"
    using on_host_frames [of ej "butlast (log rid)" "last (log rid)" 0] assms(9-11) wf
    unfolding l by (simp add: list_all_iff in_set_butlastD)
  then have "read_body chunks EndDone [] 0 = (map (\<lambda>e. event_line (type_str (e_type e)) (ej e)) (log rid), Next (length (log rid)))"
    using read_body_chunks [of "[]" chunks 0] sx_host_frames [OF assms(7), where evs = "log rid"] c(2)
    by (simp add: sx_frames.simps) (simp add: prog_defs)
  then show ?thesis unfolding sx_streamEvents_def assms(6) c(1) by (simp add: response_ok_def)
qed

end

text \<open>The line printed for an event of the in-memory host.\<close>

lemma dec_str_nat [simp]: "dec_str (int n) 0 = nat_str n"
  by (simp add: dec_str_def)

lemma mem_event_line:
  "event_line ty (mem_event_json e) =
    Out (''  ['' @ nat_str (e_seq e) @ ''] '' @ ty @
      (case e_nodeId e of None \<Rightarrow> [] | Some n \<Rightarrow> if n = [] then [] else '' node='' @ n))"
  by (simp add: event_line_def mem_event_json_def js_nullish_def show_opt_def opt_field_def Let_def split: option.split)

section \<open>The tiny workflow\<close>

text \<open>What a round of the loop makes of its answer, and whether the loop goes on.\<close>

definition tiny_seen :: "json prog \<Rightarrow> (json \<times> json option) flow" where
  "tiny_seen p = snd (and_then p (\<lambda>v. and_then (read_prop v ''status'') (\<lambda>st. give (v, st))))"

definition goes_on :: "json prog \<Rightarrow> bool" where
  "goes_on p \<longleftrightarrow> (case tiny_seen p of Next (v, st) \<Rightarrow> \<not> is_status st TERMINAL_STATUSES | _ \<Rightarrow> False)"

definition tiny_ended :: "(nat \<Rightarrow> int) \<Rightarrow> (nat \<Rightarrow> json prog) \<Rightarrow> int \<Rightarrow> string \<Rightarrow> nat \<Rightarrow> nat \<Rightarrow> (json \<times> json option) prog option \<Rightarrow> bool" where
  "tiny_ended now snap deadline timed_out m n res \<longleftrightarrow>
     {i. m \<le> i \<and> i < m + n \<and> \<not> (now i < deadline \<and> goes_on (snap i))} = {} \<and>
     (if now (m + n) < deadline then \<not> goes_on (snap (m + n)) \<and> map_option snd res = Some (tiny_seen (snap (m + n)))
      else map_option snd res = Some (Throw timed_out))"

lemma tiny_ended_now:
  assumes "\<not> (now m < deadline \<and> goes_on (snap m))"
  shows "tiny_ended now snap deadline timed_out m 0 (tiny_loop now snap deadline timed_out m)"
proof -
  let ?p = "and_then (snap m) (\<lambda>v. and_then (read_prop v ''status'') (\<lambda>st. give (v, st)))"
  obtain ls x where p: "?p = (ls, x)" by fastforce
  with assms show ?thesis
    by (subst tiny_loop.simps) (auto simp: tiny_ended_def goes_on_def tiny_seen_def throw_def split: flow.splits)
qed

lemma tiny_ended_later:
  assumes "now m < deadline \<and> goes_on (snap m)"
    and "tiny_ended now snap deadline timed_out (Suc m) n (tiny_loop now snap deadline timed_out (Suc m))"
  shows "tiny_ended now snap deadline timed_out m (Suc n) (tiny_loop now snap deadline timed_out m)"
proof -
  let ?p = "and_then (snap m) (\<lambda>v. and_then (read_prop v ''status'') (\<lambda>st. give (v, st)))"
  obtain ls x where p: "?p = (ls, x)" by fastforce
  with assms(1) have "map_option snd (tiny_loop now snap deadline timed_out m) = map_option snd (tiny_loop now snap deadline timed_out (Suc m))"
    by (subst tiny_loop.simps) (auto simp: goes_on_def tiny_seen_def option.map_comp o_def map_option_case split: flow.splits option.splits)
  moreover have "m = i \<or> Suc m \<le> i" if "m \<le> i" for i using that by auto
  ultimately show ?thesis using assms by (fastforce simp: tiny_ended_def)
qed

lemma tiny_loop_ends:
  assumes "\<And>i. now i < now (Suc i)"
  shows "\<exists>n. tiny_ended now snap deadline timed_out m n (tiny_loop now snap deadline timed_out m)"
proof (induction "nat (deadline - now m)" arbitrary: m rule: less_induct)
  case less
  show ?case
  proof (cases "now m < deadline \<and> goes_on (snap m)")
    case True
    then have "nat (deadline - now (Suc m)) < nat (deadline - now m)" using assms [of m] by simp
    from less [OF this] tiny_ended_later [of now m deadline snap, OF True] show ?thesis by blast
  qed (use tiny_ended_now in blast)
qed

text \<open>Its requests to the in-memory host.\<close>

lemma discover_mem: "discover cfg (mem_fetch mc en (x_base cfg) h) = give (discovery_payload ''wop-host-in-memory'')"
proof -
  let ?hr = "plain_get cfg ''/.well-known/wop'' []"
  have "hr_url ?hr = x_base cfg @ ''/.well-known/wop'' @ (if [] = [] then [] else CHR ''?'' # query_string [])"
    by (simp add: plain_get_def)
  from deliver_target(1) [OF this] have "rq_path (deliver (x_base cfg) ?hr) = Some ''/.well-known/wop''" by simp
  moreover have "rq_method (deliver (x_base cfg) ?hr) = ''GET''" by (simp add: plain_get_def)
  ultimately have "mem_serve mc en (deliver (x_base cfg) ?hr) h = (h, mem_handleDiscovery)"
    by (simp add: mem_serve_def mem_route_def)
  then show ?thesis
    using json_roundtrip [OF wf_discovery [of "''wop-host-in-memory''"]]
    by (simp add: discover_def fetched_prog_def mem_fetch_def mem_handleDiscovery_def sendJSON_def sendText_def response_ok_def body_json_def)
qed

lemma ex_getRun_mem:
  assumes "h_runs h rid = Some r" and "wf_json (r_inputs r)"
    and "plain_id rid" and "plain_key (x_key cfg)" and "x_key cfg = c_api_key mc"
  shows "ex_getRun cfg (mem_fetch mc en (x_base cfg) h) rid = give (mem_snapshot r)"
proof -
  let ?hr = "plain_get cfg (''/v1/runs/'' @ encodeURIComponent rid) [auth_header cfg]"
  have "run_request ''GET'' [] rid (deliver (x_base cfg) ?hr)" by (rule plain_get_run [OF assms(3)]) simp_all
  moreover have "authorized (c_api_key mc) (deliver (x_base cfg) ?hr)" using plain_get_headers [OF assms(4)] assms(5) by simp
  ultimately have "mem_serve mc en (deliver (x_base cfg) ?hr) h = (h, sendJSON 200 (mem_snapshot r) [])"
    using assms(1) by (simp add: mem_serve_def mem_route_get mem_handleGetRun_def mem_with_run_def checkAuth_None [symmetric])
  then show ?thesis
    using json_roundtrip [OF mem_snapshot_wf [OF assms(2)]]
    by (simp add: ex_getRun_def fetched_prog_def mem_fetch_def sendJSON_def sendText_def response_ok_def body_json_def)
qed

lemma tiny_seen_snapshot: "tiny_seen (give (mem_snapshot r)) = Next (mem_snapshot r, Some (JStr (status_str (r_status r))))"
proof -
  have "mem_snapshot r \<noteq> JNull" "js_prop (mem_snapshot r) ''status'' = Some (JStr (status_str (r_status r)))"
    by (simp_all add: mem_snapshot_def)
  then show ?thesis by (simp add: tiny_seen_def read_prop_def) (simp add: prog_defs)
qed

lemma is_status_terminal: "is_status (Some (JStr (status_str st))) TERMINAL_STATUSES \<longleftrightarrow> is_terminal st"
  by (cases st) (simp_all add: is_status_def TERMINAL_STATUSES_def)

lemma tiny_finish_code:
  "snd (tiny_finish (v, st)) = (if st = Some (JStr ''completed'') then Next () else Exit 1)"
  by (simp add: tiny_finish_def Let_def) (simp add: prog_defs)

lemma tiny_start_mem:
  assumes "plain_key (x_key cfg)" and "x_key cfg = c_api_key mc" and "c_workflows mc ''conformance-noop'' \<noteq> None"
    and "fetch 0 = mem_fetch mc en0 (x_base cfg) h0" and "fetch 1 = mem_fetch mc en (x_base cfg) h1"
  shows "snd (tiny_start cfg fetch) = Next (Some (JStr (new_run_id en)))"
  using assms(4,5) discover_mem [of cfg mc en0 h0] ex_createRun_mem [OF assms(1-3), of en h1]
  by (simp add: tiny_start_def read_prop_def created_body_def discovery_payload_def Let_def) (simp add: prog_defs)

lemma tiny_main_code:
  assumes "tiny_start cfg fetch = (ls, Next (Some (JStr rid)))"
    and "tiny_poll now start (\<lambda>i. ex_getRun cfg (fetch (i + 2)) rid) rid = Some p"
  shows "\<exists>q. tiny_main cfg fetch now start = Some q \<and>
    snd (run_main q) = (case snd p of Next (v, st) \<Rightarrow> (if st = Some (JStr ''completed'') then 0 else 1) | Throw m \<Rightarrow> 1 | Exit n \<Rightarrow> n)"
  using assms tiny_finish_code
  by (auto simp: tiny_main_def show_opt_def run_main_def and_then_def say_def split: flow.splits)


end
