(* ===== verification/ExampleProps.thy ===== *)
theory ExampleProps
  imports ExampleLaws
begin

text \<open>
  Properties of the example programs, alone and against the in-memory host: what they print
  and the code they exit with.
\<close>

section \<open>The node-pack example\<close>

text \<open>C37. Canonical JSON is canonical: two JSON values have the same canonical text exactly when
  they are equal up to the order of object fields, at every level, and the text parses back
  to such a value. A signature over the canonical text is over the manifest's content.\<close>

theorem canonical_json_identifies:
  assumes "wf_json v" and "wf_json w"
  shows "(canonicalJson v = canonicalJson w \<longleftrightarrow> same_json v w) \<and>
    (\<exists>x. json_parse (canonicalJson v) = Some x \<and> same_json v x)"
proof
  have "stringify (sort_json v) = stringify (sort_json w) \<longleftrightarrow> sort_json v = sort_json w"
    using json_roundtrip [OF wf_sort_json [OF assms(1)]] json_roundtrip [OF wf_sort_json [OF assms(2)]]
    by (metis option.inject)
  then show "canonicalJson v = canonicalJson w \<longleftrightarrow> same_json v w"
    unfolding canonical_stringify
    using same_json_sorted [OF _ assms] sorted_same_json [OF _ assms] by blast
  show "\<exists>x. json_parse (canonicalJson v) = Some x \<and> same_json v x"
    using json_roundtrip [OF wf_sort_json [OF assms(1)]] sort_json_idem [OF assms(1)] by (simp add: canonical_stringify)
qed

lemma canonical_json_identifies_witness:
  "canonicalJson (JObj [(''b'', JArr [JObj [(''y'', JNull), (''x'', JBool True)]]), (''a'', JStr [])]) =
   canonicalJson (JObj [(''a'', JStr []), (''b'', JArr [JObj [(''x'', JBool True), (''y'', JNull)]])])"
proof -
  let ?v = "JObj [(''b'', JArr [JObj [(''y'', JNull), (''x'', JBool True)]]), (''a'', JStr [])]"
  let ?w = "JObj [(''a'', JStr []), (''b'', JArr [JObj [(''x'', JBool True), (''y'', JNull)]])]"
  have "same_json (JObj [(''y'', JNull), (''x'', JBool True)]) (JObj [(''x'', JBool True), (''y'', JNull)])"
    by (rule same_json.obj) (simp add: same_json.intros)
  then have "same_json ?v ?w" by (intro same_json.obj) (simp add: same_json.intros)
  then show ?thesis using canonical_json_identifies [of ?v ?w] by simp
qed

section \<open>The streaming client\<close>

definition client_line :: "run_event \<Rightarrow> line" where
  "client_line e = Out (''  ['' @ nat_str (e_seq e) @ ''] '' @ type_str (e_type e) @
     (case e_nodeId e of None \<Rightarrow> [] | Some n \<Rightarrow> if n = [] then [] else '' node='' @ n))"

text \<open>C34. The streaming client against the in-memory host: it creates a run, and of the stream of
  the finished run, in whatever chunks it arrives, it prints one line for each event of the
  run's log, in order, with the event's number, type and node; it counts all of them and
  exits with 0.\<close>

theorem streaming_client_prints_the_log:
  assumes "mem_reachable mc h" and "h_runs h rid = Some r" and "is_terminal (r_status r)"
    and "rid = new_run_id en" and "plain_id rid" and "c_workflows mc (x_workflow cfg) \<noteq> None"
    and "plain_key (x_key cfg)" and "x_key cfg = c_api_key mc" and "\<And>x. concat (chop x) = x"
  shows "run_main (streaming_main cfg (mem_fetch mc en (x_base cfg) h0) (mem_stream mc en2 (x_base cfg) chop h rid)) =
    ([Out (arrow @ ''POST /v1/runs { workflowId: '' @ [CHR 0x22] @ x_workflow cfg @ [CHR 0x22] @ '' }''),
      Out (''  runId: '' @ rid), Out (arrow @ ''Streaming /v1/runs/'' @ rid @ ''/events'')] @
     map client_line (r_events r) @
     [Out (tick @ ''Stream closed after '' @ nat_str (length (r_events r)) @ '' events'')], 0)"
proof -
  obtain w :: workflow where w: "run_ok (wf_nodes w) r" using mem_reachable_run [OF assms(1,2)] .
  note last = final_log_last [OF run_ok_final_log [OF w assms(3)]]
  have evs: "r_events r \<noteq> []" "ends_stream (e_type (last (r_events r)))"
    "list_all (\<lambda>e. \<not> ends_stream (e_type e)) (butlast (r_events r))"
    using last assms(3) by (cases "r_status r"; auto simp: shapes_def ev_shape_def last_map open_log_def list_all_iff map_butlast [symmetric])+
  have "sx_streamEvents cfg (mem_stream mc en2 (x_base cfg) chop h rid) rid =
      (map (\<lambda>e. event_line (type_str (e_type e)) (mem_event_json e)) (r_events r), Next (length (r_events r)))"
    using mem_streams.client_reads [of mc h rid cfg chop "mem_stream mc en2 (x_base cfg) chop h rid" en2] assms evs tight_object
    by (simp add: mem_finished_def mem_stream_def mem_answer_def mem_event_json_def del: stringify.simps)
  moreover have "(\<lambda>e. event_line (type_str (e_type e)) (mem_event_json e)) = client_line"
    by (rule ext) (simp add: mem_event_line client_line_def)
  ultimately show ?thesis
    using assms(4) ex_createRun_mem [OF assms(7,8,6), of en h0]
    by (simp add: streaming_main_def read_prop_def created_body_def show_opt_def) (simp add: prog_defs)
qed

definition demo_example :: ex_config where
  "demo_example = \<lparr>x_base = ''http://h'', x_key = ''key'', x_workflow = ''w'', x_syntax = ''Unexpected end of JSON input''\<rparr>"

lemma demo_example_simps [simp]: "x_base demo_example = ''http://h''" "x_key demo_example = ''key''" "x_workflow demo_example = ''w''"
  by (simp_all add: demo_example_def)

lemma streaming_client_prints_the_log_witness:
  "snd (run_main (streaming_main demo_example (mem_fetch demo_cfg (demo_env 0 ''u'') ''http://h'' init_host)
     (mem_stream demo_cfg (demo_env 1 ''v'') ''http://h'' byte_chunks (demo_host 3) demo_id))) = 0"
  using streaming_client_prints_the_log [OF demo_reachable_3 demo_host_run demo_terminal _ demo_plain(1),
      of "demo_env 0 ''u''" demo_example byte_chunks init_host "demo_env 1 ''v''"]
  by (simp add: demo_id_def)

section \<open>The idempotency demonstration\<close>

definition demo_request_of :: "ex_config \<Rightarrow> string \<Rightarrow> json \<Rightarrow> request" where
  "demo_request_of cfg key body = deliver (x_base cfg) (create_post cfg body [(''Idempotency-Key'', key)])"

text \<open>What a call prints, when it is answered with a run.\<close>

definition printed_call :: "string \<Rightarrow> string \<Rightarrow> string \<Rightarrow> line list" where
  "printed_call title rid replay =
     [Out (arrow @ title), Out ''  status:  201'', Out (''  runId:   '' @ rid), Out (''  replay:  '' @ replay)]"

lemma wf_nonce [simp]: "wf_json (nonce_body n)" "js_prop (nonce_body n) ''workflowId'' = Some (JStr ''conformance-idempotent'')"
  by (simp_all add: nonce_body_def)

lemma nonce_decide:
  assumes "plain_key (x_key cfg)" and "x_key cfg = c_api_key mc" and "c_workflows mc ''conformance-idempotent'' \<noteq> None"
  shows "mem_serve mc en (demo_request_of cfg key (nonce_body n)) h =
    (let h1 = h\<lparr>h_idem := pruneIdempotencyCache (now_ms en) (h_idem h)\<rparr>;
         hash = c_sha256 mc (stringify (nonce_body n))
     in case mem_idem.decide (now_ms en) (idem_key mc key) hash (h_idem h) of
          Fresh \<Rightarrow> mem_createRun mc en ''conformance-idempotent'' (inputs_or_empty (js_prop (nonce_body n) ''inputs'')) (Some key) hash h1
        | Replay e \<Rightarrow> (h1, sendText (i_status e) (i_contentType e) (i_body e) [(''WOP-Idempotent-Replay'', ''true'')])
        | Conflict \<Rightarrow> (h1, sendError 409 ''idempotency_key_conflict''
            ''Idempotency-Key reused with a different request body. A key MUST pin exactly one logical operation.''))"
  using mem_serve_create_decide [OF create_post_request(1) create_post_key(2) create_post_check [OF assms wf_nonce]]
  by (simp only: demo_request_of_def create_post_request(2))

lemma postRun_json:
  assumes "snd (mem_serve mc en (demo_request_of cfg key body) h) = sendText st ''application/json'' (stringify v) extra"
    and "wf_json v"
  shows "postRun cfg (mem_fetch mc en (x_base cfg) h) key body =
    give \<lparr>pa_status = st, pa_replay = get_header ''wop-idempotent-replay''
      ([(''Content-Type'', ''application/json''), (''Content-Length'', nat_str (length (stringify v)))] @ extra), pa_body = v\<rparr>"
  using assms(1) json_roundtrip [OF assms(2)]
  by (simp add: postRun_def fetched_prog_def mem_fetch_def demo_request_of_def sendText_def json_or_null_def)

lemma replay_header:
  "get_header ''wop-idempotent-replay'' ([(''Content-Type'', t), (''Content-Length'', l)] @ [(''WOP-Idempotent-Replay'', v)]) = Some v"
  "get_header ''wop-idempotent-replay'' ([(''Content-Type'', t), (''Content-Length'', l)] @ []) = None"
proof -
  have n: "ascii_lower ''wop-idempotent-replay'' = ''wop-idempotent-replay''" "ascii_lower ''Content-Length'' = ''content-length''"
    "ascii_lower ''WOP-Idempotent-Replay'' = ''wop-idempotent-replay''" by code_simp+
  show "get_header ''wop-idempotent-replay'' ([(''Content-Type'', t), (''Content-Length'', l)] @ [(''WOP-Idempotent-Replay'', v)]) = Some v"
    "get_header ''wop-idempotent-replay'' ([(''Content-Type'', t), (''Content-Length'', l)] @ []) = None"
    by (simp_all add: get_header_def n lower_names)
qed

text \<open>One of the first three calls, answered with a run's document.\<close>

lemma demo_call_created:
  assumes "snd (mem_serve mc en (demo_request_of cfg key (nonce_body ''first-attempt'')) h) =
    sendText 201 ''application/json'' (stringify (created_body rid wid t)) [(''WOP-Idempotent-Replay'', v)]"
  shows "demo_call cfg (mem_fetch mc en (x_base cfg) h) key title =
    (printed_call title rid v, Next \<lparr>pa_status = 201, pa_replay = Some v, pa_body = created_body rid wid t\<rparr>)"
proof -
  have "wf_json (created_body rid wid t)" by (simp add: created_body_def)
  from postRun_json [OF assms this] have "postRun cfg (mem_fetch mc en (x_base cfg) h) key (nonce_body ''first-attempt'') =
      give \<lparr>pa_status = 201, pa_replay = Some v, pa_body = created_body rid wid t\<rparr>"
    by (simp only: replay_header)
  moreover have "nat_str 201 = ''201''" by code_simp
  ultimately show ?thesis
    by (simp add: demo_call_def report_call_def run_of_def opt_prop_def created_body_def show_opt_def printed_call_def) (simp add: prog_defs)
qed

text \<open>The state before each call: the client's request, and any traffic after it.\<close>

definition demo_body_of :: "nat \<Rightarrow> json" where
  "demo_body_of i = nonce_body (if i = 3 then ''DIFFERENT-attempt'' else ''first-attempt'')"

lemma store_between:
  assumes "mem_trace mc h1 as1 (hs 1)"
    and "\<And>i. i \<in> {1, 2} \<Longrightarrow> mem_trace mc (hs i) (ARequest (en i) (rq i) # as i) (hs (Suc i))"
    and "list_all (served_by T) as1" and "\<And>i. i \<in> {1, 2} \<Longrightarrow> list_all (served_by T) (as i) \<and> now_ms (en i) \<le> T"
  shows "i \<in> {1, 2, 3} \<Longrightarrow> mem_idem.evolves T (h_idem h1) (h_idem (hs i))"
proof -
  have 1: "mem_idem.evolves T (h_idem h1) (h_idem (hs 1))" using mem_trace_idem [OF assms(1,3)] .
  have step: "mem_idem.evolves T (h_idem (hs i)) (h_idem (hs (Suc i)))" if "i \<in> {1, 2}" for i
    using mem_trace_idem [OF assms(2) [OF that]] assms(4) [OF that] by simp
  have 2: "mem_idem.evolves T (h_idem h1) (h_idem (hs 2))"
    using mem_idem.evolves_trans [OF 1] step [of 1] by (simp add: numeral_2_eq_2)
  have 3: "mem_idem.evolves T (h_idem h1) (h_idem (hs 3))"
    using mem_idem.evolves_trans [OF 2] step [of 2] by (simp add: numeral_3_eq_3)
  show "i \<in> {1, 2, 3} \<Longrightarrow> mem_idem.evolves T (h_idem h1) (h_idem (hs i))" using 1 2 3 by auto
qed

lemma demonstration_replies:
  assumes "plain_key (x_key cfg)" and "x_key cfg = c_api_key mc" and "c_workflows mc ''conformance-idempotent'' \<noteq> None"
    and "h_idem (hs 0) (idem_key mc key) = None"
    and "\<And>i. i < 3 \<Longrightarrow> mem_trace mc (hs i) (ARequest (en i) (demo_request_of cfg key (demo_body_of i)) # as i) (hs (Suc i))"
    and "\<And>i. i < 3 \<Longrightarrow> list_all (served_by (now_ms (en 0) + IDEMPOTENCY_TTL_MS)) (as i)"
    and "\<And>i. i \<le> 3 \<Longrightarrow> now_ms (en i) \<le> now_ms (en 0) + IDEMPOTENCY_TTL_MS"
    and "c_sha256 mc (stringify (demo_body_of 0)) \<noteq> c_sha256 mc (stringify (demo_body_of 3))"
  shows "i = 0 \<and> v = ''false'' \<or> i \<in> {1, 2} \<and> v = ''true'' \<Longrightarrow>
      snd (mem_serve mc (en i) (demo_request_of cfg key (nonce_body ''first-attempt'')) (hs i)) =
      sendText 201 ''application/json'' (stringify (created_body (new_run_id (en 0)) ''conformance-idempotent'' (iso (en 0)))) [(''WOP-Idempotent-Replay'', v)]"
    and "snd (mem_serve mc (en 3) (demo_request_of cfg key (nonce_body ''DIFFERENT-attempt'')) (hs 3)) =
      sendText 409 ''application/json'' (stringify (error_body ''idempotency_key_conflict''
        ''Idempotency-Key reused with a different request body. A key MUST pin exactly one logical operation.'')) []"
proof -
  let ?T = "now_ms (en 0) + IDEMPOTENCY_TTL_MS" and ?wid = "''conformance-idempotent''"
  let ?rq = "\<lambda>i. demo_request_of cfg key (demo_body_of i)"
  let ?doc = "created_body (new_run_id (en 0)) ?wid (iso (en 0))"
  let ?hash = "c_sha256 mc (stringify (demo_body_of 0))"
  let ?e = "\<lparr>i_status = 201, i_body = stringify ?doc, i_contentType = ''application/json'', i_bodyHash = ?hash, i_storedAt = now_ms (en 0)\<rparr>"
  note serve = nonce_decide [OF assms(1-3)]
  have body: "demo_body_of i = nonce_body ''first-attempt''" if "i < 3" for i using that by (simp add: demo_body_of_def)
  have "mem_idem.decide (now_ms (en 0)) (idem_key mc key) ?hash (h_idem (hs 0)) = Fresh"
    using assms(4) by (simp add: mem_idem.decide_def pruneIdempotencyCache_def)
  then have first: "mem_serve mc (en 0) (?rq 0) (hs 0) = mem_createRun mc (en 0) ?wid
      (inputs_or_empty (js_prop (demo_body_of 0) ''inputs'')) (Some key) ?hash
      ((hs 0)\<lparr>h_idem := pruneIdempotencyCache (now_ms (en 0)) (h_idem (hs 0))\<rparr>)"
    using serve [of "en 0" key "''first-attempt''" "hs 0"] body [of 0] by (simp add: Let_def)
  let ?h1 = "fst (mem_serve mc (en 0) (?rq 0) (hs 0))"
  have entry: "h_idem ?h1 (idem_key mc key) = Some ?e"
    unfolding first by (simp add: mem_createRun_idem idem_key_def)
  have tr1: "mem_trace mc ?h1 (as 0) (hs 1)"
    using assms(5) [of 0] by (auto simp: trace_Cons_iff mem_step_request_iff)
  have tr: "mem_trace mc (hs i) (ARequest (en i) (?rq i) # as i) (hs (Suc i))"
    "list_all (served_by ?T) (as i) \<and> now_ms (en i) \<le> ?T" if "i \<in> {1, 2}" for i
    using assms(5-7) [of i] that by auto
  have kept: "mem_idem.evolves ?T (h_idem ?h1) (h_idem (hs i))" if "i \<in> {1, 2, 3}" for i
    using store_between [OF tr1 tr(1) assms(6) tr(2) that] by simp
  have decide: "mem_idem.decide (now_ms (en i)) (idem_key mc key) hash (h_idem (hs i)) = (if ?hash = hash then Replay ?e else Conflict)"
    if "i \<in> {1, 2, 3}" for i hash
    using mem_idem.decide_kept [OF kept [OF that] entry, of "now_ms (en i)" hash] assms(7) [of i] that by auto
  have call1: "snd (mem_serve mc (en 0) (?rq 0) (hs 0)) =
      sendText 201 ''application/json'' (stringify ?doc) [(''WOP-Idempotent-Replay'', ''false'')]"
    unfolding first by (simp add: mem_createRun_def Let_def)
  have again: "snd (mem_serve mc (en i) (?rq i) (hs i)) =
      sendText 201 ''application/json'' (stringify ?doc) [(''WOP-Idempotent-Replay'', ''true'')]" if "i \<in> {1, 2}" for i
    using serve [of "en i" key "''first-attempt''" "hs i"] decide [of i ?hash] body [of i] body [of 0] that by (auto simp: Let_def)
  have last: "snd (mem_serve mc (en 3) (?rq 3) (hs 3)) = sendText 409 ''application/json''
      (stringify (error_body ''idempotency_key_conflict''
        ''Idempotency-Key reused with a different request body. A key MUST pin exactly one logical operation.'')) []"
    using serve [of "en 3" key "''DIFFERENT-attempt''" "hs 3"] decide [of 3 "c_sha256 mc (stringify (demo_body_of 3))"] assms(8)
    by (simp add: Let_def demo_body_of_def sendError_def sendJSON_def)
  show "i = 0 \<and> v = ''false'' \<or> i \<in> {1, 2} \<and> v = ''true'' \<Longrightarrow>
      snd (mem_serve mc (en i) (demo_request_of cfg key (nonce_body ''first-attempt'')) (hs i)) =
      sendText 201 ''application/json'' (stringify ?doc) [(''WOP-Idempotent-Replay'', v)]"
    using call1 again body by fastforce
  show "snd (mem_serve mc (en 3) (demo_request_of cfg key (nonce_body ''DIFFERENT-attempt'')) (hs 3)) =
      sendText 409 ''application/json'' (stringify (error_body ''idempotency_key_conflict''
        ''Idempotency-Key reused with a different request body. A key MUST pin exactly one logical operation.'')) []"
    using last by (simp add: demo_body_of_def)
qed

text \<open>C35. The idempotency demonstration against the in-memory host, with any other traffic between
  its calls: when the key is new and the last call comes within 24 hours of the first, it
  makes one run, gets its document three times, the last two marked as replays, gets
  \<^verbatim>\<open>409 idempotency_key_conflict\<close> for the changed body, and exits with 0. The hash of
  the two bodies has to differ.\<close>

theorem idempotency_demonstration_succeeds:
  assumes "plain_key (x_key cfg)" and "x_key cfg = c_api_key mc" and "c_workflows mc ''conformance-idempotent'' \<noteq> None"
    and "key = ''idempotent-example-'' @ u" and "h_idem (hs 0) (idem_key mc key) = None"
    and "\<And>i. i < 3 \<Longrightarrow> mem_trace mc (hs i) (ARequest (en i) (demo_request_of cfg key (demo_body_of i)) # as i) (hs (Suc i))"
    and "\<And>i. i < 3 \<Longrightarrow> list_all (served_by (now_ms (en 0) + IDEMPOTENCY_TTL_MS)) (as i)"
    and "\<And>i. i \<le> 3 \<Longrightarrow> now_ms (en i) \<le> now_ms (en 0) + IDEMPOTENCY_TTL_MS"
    and "c_sha256 mc (stringify (demo_body_of 0)) \<noteq> c_sha256 mc (stringify (demo_body_of 3))"
  shows "run_main (idempotent_main cfg (\<lambda>i. mem_fetch mc (en i) (x_base cfg) (hs i)) u) =
    ([Out (''Idempotency-Key: '' @ key), Out []] @
     printed_call ''Call 1 (fresh)'' (new_run_id (en 0)) ''false'' @
     printed_call (''Call 2 (same key, same body '' @ dash @ '' expect cached replay)'') (new_run_id (en 0)) ''true'' @
     printed_call (''Call 3 (same key, same body '' @ dash @ '' expect cached replay)'') (new_run_id (en 0)) ''true'' @
     [Out [], Out (tick @ ''All three responses share runId '' @ new_run_id (en 0)), Out [],
      Out (arrow @ ''Call 4 (same key, DIFFERENT body '' @ dash @ '' expect 409 conflict)''), Out ''  status: 409'',
      Out ''  error:  idempotency_key_conflict'', Out (tick @ ''Body conflict correctly rejected'')], 0)"
proof -
  let ?doc = "created_body (new_run_id (en 0)) ''conformance-idempotent'' (iso (en 0))"
  note replies = demonstration_replies [OF assms(1-3,5-9)]
  have "demo_call cfg (mem_fetch mc (en i) (x_base cfg) (hs i)) key title =
      (printed_call title (new_run_id (en 0)) v, Next \<lparr>pa_status = 201, pa_replay = Some v, pa_body = ?doc\<rparr>)"
    if "i = 0 \<and> v = ''false'' \<or> i \<in> {1, 2} \<and> v = ''true''" for i v title
    by (rule demo_call_created [OF replies(1) [OF _ _ _ that]])
  note c = this [of 0 "''false''", simplified] this [of 1 "''true''", simplified] this [of 2 "''true''", simplified]
  let ?err = "error_body ''idempotency_key_conflict''
    ''Idempotency-Key reused with a different request body. A key MUST pin exactly one logical operation.''"
  have "snd (mem_serve mc (en 3) (demo_request_of cfg key (nonce_body ''DIFFERENT-attempt'')) (hs 3)) =
      sendText 409 ''application/json'' (stringify ?err) []" by (rule replies(2))
  then have post: "postRun cfg (mem_fetch mc (en 3) (x_base cfg) (hs 3)) key (nonce_body ''DIFFERENT-attempt'') =
      give \<lparr>pa_status = 409, pa_replay = None, pa_body = ?err\<rparr>"
    using postRun_json [OF _ wf_error_body] by (simp only: replay_header)
  have "run_of \<lparr>pa_status = st, pa_replay = v, pa_body = ?doc\<rparr> = Some (JStr (new_run_id (en 0)))" for st v
    by (simp add: run_of_def opt_prop_def created_body_def)
  moreover have "nat_str 409 = ''409''" by code_simp
  moreover have "show_opt (opt_prop (error_body c m) ''error'') = c" "show_opt (Some (JStr x)) = x" for c m x
    by (simp_all add: show_opt_def opt_prop_def error_body_def)
  ultimately show ?thesis
    unfolding idempotent_main_def Let_def assms(4) [symmetric] One_nat_def c post by (simp add: prog_defs)
qed

text \<open>The demonstration alone with the host.\<close>

definition idem_cfg :: mem_config where
  "idem_cfg = demo_cfg\<lparr>c_workflows := [''conformance-idempotent'' \<mapsto> demo_workflow]\<rparr>"

definition idem_env :: "nat \<Rightarrow> env" where
  "idem_env i = demo_env 0 (replicate i CHR ''u'')"

primrec idem_host :: "nat \<Rightarrow> mem_host" where
  "idem_host 0 = init_host"
| "idem_host (Suc i) = fst (mem_serve idem_cfg (idem_env i) (demo_request_of demo_example ''idempotent-example-x'' (demo_body_of i)) (idem_host i))"

lemma idem_cfg_simps [simp]:
  "plain_key ''key''" "c_api_key idem_cfg = ''key''" "c_workflows idem_cfg ''conformance-idempotent'' = Some demo_workflow"
  "c_sha256 idem_cfg = (\<lambda>s. s)" "now_ms (idem_env i) = 0"
  by (simp_all add: idem_cfg_def idem_env_def demo_env_def)

lemma idem_host_trace:
  "mem_trace idem_cfg (idem_host i) (ARequest (idem_env i) (demo_request_of demo_example ''idempotent-example-x'' (demo_body_of i)) # [])
     (idem_host (Suc i))"
proof -
  have new: "new_run_id (idem_env i) = new_run_id (idem_env j) \<longleftrightarrow> i = j" for i j
    by (auto simp: new_run_id_def idem_env_def demo_env_def)
  have same: "h_runs (fst (mem_serve idem_cfg en (demo_request_of demo_example ''idempotent-example-x'' (demo_body_of i)) h)) x = h_runs h x"
    if "x \<noteq> new_run_id en" for en i h x
    using nonce_decide [of demo_example idem_cfg en "''idempotent-example-x''" _ h] that
    by (auto simp: demo_body_of_def Let_def mem_createRun_runs split: idem_decision.split)
  have "h_runs (idem_host i) (new_run_id (idem_env j)) = None" if "i \<le> j" for i j
    using that by (induction i) (auto simp: init_host_def same new)
  then show ?thesis by (simp add: trace_Cons_iff mem_step_request_iff trace_nil)
qed

lemma idempotency_demonstration_succeeds_witness:
  "snd (run_main (idempotent_main demo_example (\<lambda>i. mem_fetch idem_cfg (idem_env i) ''http://h'' (idem_host i)) ''x'')) = 0"
proof -
  have "stringify (demo_body_of 0) \<noteq> stringify (demo_body_of 3)" by code_simp
  then show ?thesis
    using idempotency_demonstration_succeeds [of demo_example idem_cfg "''idempotent-example-x''" "''x''" idem_host idem_env "\<lambda>i. []"]
      idem_host_trace by (simp add: init_host_def IDEMPOTENCY_TTL_MS_def)
qed

section \<open>The tiny workflow\<close>

lemma status_stays:
  assumes "mem_reachable mc (hs 0)" and "\<And>i. mem_trace mc (hs i) (as i) (hs (Suc i))" and "\<And>i. h_runs (hs i) rid = Some (r i)"
    and "is_terminal (r_status (r i))" and "i \<le> j"
  shows "r_status (r j) = r_status (r i)"
proof -
  have ok: "host_ok mc (hs i)" for i
    by (induction i) (auto intro: mem_reachable_ok [OF assms(1)] mem_sys.trace_ok [OF assms(2)])
  have step: "run_evolves (r j) (r (Suc j))" for j
    using mem_sys.trace_run [OF assms(2) [of j] ok assms(3) [of j]] assms(3) [of "Suc j"] by auto
  from assms(5) have "run_evolves (r i) (r j)"
    by (induction rule: dec_induct) (auto intro: run_evolves_trans step)
  with assms(4) have "r_status ((r j)\<lparr>r_subs := []\<rparr>) = r_status ((r i)\<lparr>r_subs := []\<rparr>)" by (simp add: run_evolves_def)
  then show ?thesis by simp
qed

text \<open>The tiny workflow against the in-memory host: it always ends, and exits with 0 exactly
  when the run it created is completed at a round of its polling loop that starts before
  the deadline of ten seconds, and with 1 otherwise: when the run fails, is cancelled or is
  still open then. Rounds are at least 250 ms apart; the host moves on between them.\<close>

theorem tiny_workflow_waits_for_the_run:
  assumes "plain_key (x_key cfg)" and "x_key cfg = c_api_key mc" and "c_workflows mc ''conformance-noop'' \<noteq> None"
    and "fetch 0 = mem_fetch mc en0 (x_base cfg) h0" and "fetch 1 = mem_fetch mc en (x_base cfg) h1"
    and "\<And>i. fetch (i + 2) = mem_fetch mc (ens i) (x_base cfg) (hs i)" and "rid = new_run_id en" and "plain_id rid"
    and "mem_reachable mc (hs 0)" and "\<And>i. mem_trace mc (hs i) (as i) (hs (Suc i))" and "\<And>i. h_runs (hs i) rid = Some (r i)"
    and "\<And>i. now i + 250 \<le> now (Suc i)"
  shows "\<exists>q. tiny_main cfg fetch now start = Some q \<and>
    snd (run_main q) = (if \<exists>i. now i < start + 10000 \<and> r_status (r i) = Completed then 0 else 1)"
proof -
  let ?snap = "\<lambda>i. ex_getRun cfg (fetch (i + 2)) rid"
  have reach: "mem_reachable mc (hs i)" for i
    by (induction i) (use assms(9) in simp, use mem_reachable_trace assms(10) in blast)
  have snap: "?snap i = give (mem_snapshot (r i))" for i
    unfolding assms(6)
    by (rule ex_getRun_mem [OF assms(11) mem_reachable_inputs [OF reach assms(11)] assms(8,1,2)])
  have seen: "tiny_seen (?snap i) = Next (mem_snapshot (r i), Some (JStr (status_str (r_status (r i)))))" for i
    unfolding snap by (rule tiny_seen_snapshot)
  then have goes: "goes_on (?snap i) \<longleftrightarrow> \<not> is_terminal (r_status (r i))" for i
    by (simp add: goes_on_def is_status_terminal)
  note stays = status_stays [OF assms(9-11)]
  have clock: "now i < now (Suc i)" for i using assms(12) [of i] by simp
  then have later: "now i \<le> now j" if "i \<le> j" for i j
    using that by (rule lift_Suc_mono_le [of now, OF less_imp_le])
  obtain n where n: "tiny_ended now ?snap (start + 10000) (''Run '' @ rid @ '' did not terminate within 10000ms'') 0 n (tiny_poll now start ?snap rid)"
    using tiny_loop_ends [of now, OF clock] unfolding tiny_poll_def by blast
  then have before: "\<not> is_terminal (r_status (r i))" if "i < n" for i
    using that goes by (auto simp: tiny_ended_def)
  from n obtain p where p: "tiny_poll now start ?snap rid = Some p" by (auto simp: tiny_ended_def split: if_splits)
  obtain ls where "tiny_start cfg fetch = (ls, Next (Some (JStr rid)))"
    using tiny_start_mem [of cfg mc fetch en0 h0 en h1] assms(1-5,7) by (metis prod.collapse)
  from tiny_main_code [OF this p] obtain q where q: "tiny_main cfg fetch now start = Some q"
    "snd (run_main q) = (case snd p of Next (v, st) \<Rightarrow> (if st = Some (JStr ''completed'') then 0 else 1) | Throw m \<Rightarrow> 1 | Exit n \<Rightarrow> n)"
    by blast
  have "(\<exists>i. now i < start + 10000 \<and> r_status (r i) = Completed) \<longleftrightarrow> now n < start + 10000 \<and> r_status (r n) = Completed"
  proof
    assume "\<exists>i. now i < start + 10000 \<and> r_status (r i) = Completed"
    then obtain i where i: "now i < start + 10000" "r_status (r i) = Completed" by blast
    with before [of i] have "n \<le> i" by (cases "i < n") auto
    with n goes [of n] later [of n i] i stays [of n i] show "now n < start + 10000 \<and> r_status (r n) = Completed"
      by (auto simp: tiny_ended_def)
  qed blast
  moreover have "snd (run_main q) = (if now n < start + 10000 \<and> r_status (r n) = Completed then 0 else 1)"
    using n q(2) p seen [of n] by (cases "r_status (r n)") (auto simp: tiny_ended_def split: if_splits)
  ultimately show ?thesis using q(1) by auto
qed

text \<open>A workflow without nodes, completed when its run is created.\<close>

definition tiny_cfg :: mem_config where
  "tiny_cfg = demo_cfg\<lparr>c_workflows := [''conformance-noop'' \<mapsto> \<lparr>wf_id = ''conformance-noop'', wf_name = ''N'', wf_version = ''1'', wf_nodes = []\<rparr>]\<rparr>"

lemma tiny_cfg_simps: "c_api_key tiny_cfg = ''key''" "c_workflows tiny_cfg ''conformance-noop'' \<noteq> None"
  by (simp_all add: tiny_cfg_def)

definition tiny_host :: mem_host where
  "tiny_host = fst (mem_serve tiny_cfg (demo_env 0 ''u'')
     (deliver ''http://h'' (create_post demo_example (JObj [(''workflowId'', JStr ''conformance-noop'')]) [])) init_host)"

lemma tiny_host_run:
  "mem_reachable tiny_cfg tiny_host"
  "h_runs tiny_host demo_id = Some (created_run tiny_cfg (demo_env 0 ''u'') ''conformance-noop'' (JObj []))"
proof -
  let ?body = "JObj [(''workflowId'', JStr ''conformance-noop'')]"
  let ?rq = "deliver ''http://h'' (create_post demo_example ?body [])"
  have step: "mem_step tiny_cfg init_host (ARequest (demo_env 0 ''u'') ?rq) tiny_host"
    unfolding tiny_host_def by (rule mem_step.request) (simp add: init_host_def)
  show "mem_reachable tiny_cfg tiny_host"
    by (rule mem_reachable_trace [OF mem_reachable_init], rule trace_single, rule step)
  have "check_create ''key'' (c_workflows tiny_cfg) ?rq = Accepts ''conformance-noop'' (JObj [])"
    using create_post_check [of demo_example tiny_cfg "''conformance-noop''" ?body "[]"]
    by (simp add: tiny_cfg_def inputs_or_empty_def del: deliver_fields)
  then show "h_runs tiny_host demo_id = Some (created_run tiny_cfg (demo_env 0 ''u'') ''conformance-noop'' (JObj []))"
    using create_post_request(1) [of demo_example ?body "[]"] create_post_key(1) [of demo_example ?body]
    by (simp add: tiny_host_def mem_serve_def mem_route_create mem_handleCreateRun_def Let_def mem_createRun_runs demo_id_def tiny_cfg_def
        del: deliver_fields)
qed

lemma tiny_workflow_waits_for_the_run_witness:
  "\<exists>q. tiny_main demo_example (\<lambda>i. mem_fetch tiny_cfg (demo_env 0 ''u'') (x_base demo_example) tiny_host) (\<lambda>i. 250 * int i) 0 = Some q \<and>
    snd (run_main q) = 0"
proof -
  let ?r = "created_run tiny_cfg (demo_env 0 ''u'') ''conformance-noop'' (JObj [])"
  have ended: "r_status ?r = Completed" by code_simp
  have key: "plain_key (x_key demo_example)" "x_key demo_example = c_api_key tiny_cfg" by (simp_all add: tiny_cfg_simps)
  have clock: "250 * int i + 250 \<le> 250 * int (Suc i)" for i by simp
  have "\<exists>i. 250 * int i < 0 + 10000 \<and> r_status ?r = Completed" by (rule exI [of _ 0]) (simp add: ended)
  moreover have "\<exists>q. tiny_main demo_example (\<lambda>i. mem_fetch tiny_cfg (demo_env 0 ''u'') (x_base demo_example) tiny_host) (\<lambda>i. 250 * int i) 0 = Some q \<and>
    snd (run_main q) = (if \<exists>i. 250 * int i < 0 + 10000 \<and> r_status ?r = Completed then 0 else 1)"
    by (rule tiny_workflow_waits_for_the_run [where hs = "\<lambda>i. tiny_host" and as = "\<lambda>i. []" and ens = "\<lambda>i. demo_env 0 ''u''"
          and fetch = "\<lambda>i. mem_fetch tiny_cfg (demo_env 0 ''u'') (x_base demo_example) tiny_host" and now = "\<lambda>i. 250 * int i"
          and start = 0 and r = "\<lambda>i. ?r" and rid = demo_id and mc = tiny_cfg and cfg = demo_example and en = "demo_env 0 ''u''"
          and ?en0.0 = "demo_env 0 ''u''" and ?h0.0 = tiny_host and ?h1.0 = tiny_host,
          OF key tiny_cfg_simps(2) refl refl refl demo_id_def demo_plain(1) tiny_host_run(1) trace_nil tiny_host_run(2) clock])
  ultimately show ?thesis by (simp only: if_True)
qed

end
