(* ===== verification/ProfileExamples.thy ===== *)
theory ProfileExamples
  imports Examples
begin

text \<open>
  The example programs for optional profiles: the approval workflow, the branch fork, the MCP
  probe (\<^verbatim>\<open>examples/approval-workflow\<close>, \<^verbatim>\<open>branch-fork\<close>,
  \<^verbatim>\<open>mcp-tool\<close>), and the rest of the node-pack example. Each first asks the host
  what it claims, and goes on only with a host that has the profile.
\<close>

section \<open>Helpers the programs have in common\<close>

text \<open>The environment of a program; \<open>px_tty\<close> is \<^verbatim>\<open>process.stdout.isTTY\<close>.\<close>

record px_config =
  px_site :: ex_config
  px_tty :: bool

definition profile_config :: "(string \<rightharpoonup> string) \<Rightarrow> string \<Rightarrow> string \<Rightarrow> bool \<Rightarrow> px_config" where
  "profile_config env workflow syntax tty =
     \<lparr>px_site = \<lparr>x_base = (case env ''WOP_MYNDHYVE_BASE_URL'' of None \<Rightarrow> [] | Some s \<Rightarrow> s),
                 x_key = (case env ''WOP_MYNDHYVE_API_KEY'' of None \<Rightarrow> [] | Some s \<Rightarrow> s),
                 x_workflow = (case env ''WOP_WORKFLOW_ID'' of None \<Rightarrow> workflow | Some s \<Rightarrow> s),
                 x_syntax = syntax\<rparr>,
      px_tty = tty\<rparr>"

definition paint :: "px_config \<Rightarrow> string \<Rightarrow> string \<Rightarrow> string" where
  "paint cfg code msg = (if px_tty cfg then CHR 0x1B # ''['' @ code @ ''m'' @ msg @ CHR 0x1B # ''[0m'' else msg)"

definition skip_line :: "px_config \<Rightarrow> string \<Rightarrow> line" where
  "skip_line cfg msg = Out (paint cfg ''2'' msg)"

definition fail_line :: "px_config \<Rightarrow> string \<Rightarrow> line" where
  "fail_line cfg msg = Err (paint cfg ''31'' msg)"

definition ok_line :: "px_config \<Rightarrow> string \<Rightarrow> line" where
  "ok_line cfg msg = Out (paint cfg ''32'' msg)"

definition slashed :: string where
  "slashed = [CHR 0xE2, CHR 0x8A, CHR 0x98, CHR '' '']"

definition stop_with :: "line list \<Rightarrow> nat \<Rightarrow> 'a prog" where
  "stop_with ls n = and_then (say ls) (\<lambda>_. exit_with n)"

text \<open>The end of a program, with the colored handler of what \<^verbatim>\<open>main\<close> throws.\<close>

definition run_colored :: "px_config \<Rightarrow> unit prog \<Rightarrow> line list \<times> nat" where
  "run_colored cfg p =
     (case snd p of
        Next x \<Rightarrow> (fst p, 0)
      | Throw m \<Rightarrow> (fst p @ [fail_line cfg (cross @ m)], 1)
      | Exit n \<Rightarrow> (fst p, n))"

text \<open>A program that may not end, followed by another.\<close>

definition and_loop :: "'a prog option \<Rightarrow> ('a \<Rightarrow> 'b prog option) \<Rightarrow> 'b prog option" where
  "and_loop p f =
     (case p of
        None \<Rightarrow> None
      | Some (ls, Next x) \<Rightarrow> map_option (\<lambda>q. (ls @ fst q, snd q)) (f x)
      | Some (ls, Throw m) \<Rightarrow> Some (ls, Throw m)
      | Some (ls, Exit n) \<Rightarrow> Some (ls, Exit n))"

section \<open>Requests and polling\<close>

record http_answer =
  ha_status :: nat
  ha_json :: json
  ha_headers :: "(string \<times> string) list"

definition px_request :: "px_config \<Rightarrow> string \<Rightarrow> string \<Rightarrow> json option \<Rightarrow> string option \<Rightarrow> http_request" where
  "px_request cfg meth path body key =
     \<lparr>hr_method = meth, hr_url = x_base (px_site cfg) @ path,
      hr_headers = [(''Authorization'', ''Bearer '' @ x_key (px_site cfg)), (''Content-Type'', ''application/json'')] @
        (case key of None \<Rightarrow> [] | Some k \<Rightarrow> if k = [] then [] else [(''Idempotency-Key'', k)]),
      hr_body = map_option stringify body\<rparr>"

definition http :: "px_config \<Rightarrow> (http_request \<Rightarrow> fetched) \<Rightarrow> string \<Rightarrow> string \<Rightarrow> json option \<Rightarrow> string option \<Rightarrow> http_answer prog" where
  "http cfg fetch meth path body key =
     and_then (fetched_prog (fetch (px_request cfg meth path body key))) (\<lambda>res.
       give \<lparr>ha_status = rs_status res, ha_json = json_or_null (rs_body res), ha_headers = rs_headers res\<rparr>)"

definition px_path :: "json option \<Rightarrow> string" where
  "px_path runId = ''/v1/runs/'' @ encodeURIComponent (show_opt runId)"

definition workflow_body :: "px_config \<Rightarrow> json" where
  "workflow_body cfg = JObj [(''workflowId'', JStr (x_workflow (px_site cfg)))]"

text \<open>
  \<^verbatim>\<open>pollUntil\<close>: round \<open>i\<close> reads the clock as \<open>pe_now i\<close> and asks
  \<open>pe_fetch i\<close>. A good answer that does not satisfy the predicate becomes \<open>lst\<close>.
\<close>

record poll_env =
  pe_start :: int
  pe_now :: "nat \<Rightarrow> int"
  pe_fetch :: "nat \<Rightarrow> http_request \<Rightarrow> fetched"

definition good_answer :: "http_answer \<Rightarrow> bool" where
  "good_answer a \<longleftrightarrow> ha_status a = 200 \<and> js_truthy (Some (ha_json a))"

partial_function (option) px_loop ::
  "(nat \<Rightarrow> int) \<Rightarrow> (nat \<Rightarrow> http_answer prog) \<Rightarrow> (json \<Rightarrow> bool) \<Rightarrow> int \<Rightarrow> (json option \<Rightarrow> string) \<Rightarrow> nat \<Rightarrow> json option \<Rightarrow> json prog option" where
  "px_loop now ask pred deadline timed_out i lst =
     (if now i < deadline then
        (case ask i of
           (ls, Next a) \<Rightarrow>
             if good_answer a \<and> pred (ha_json a) then Some (ls, Next (ha_json a))
             else Option.bind (px_loop now ask pred deadline timed_out (Suc i) (if good_answer a then Some (ha_json a) else lst))
                    (\<lambda>p. Some (ls @ fst p, snd p))
         | (ls, Throw m) \<Rightarrow> Some (ls, Throw m)
         | (ls, Exit n) \<Rightarrow> Some (ls, Exit n))
      else Some (throw (timed_out lst)))"

definition px_timed_out :: "nat \<Rightarrow> json option \<Rightarrow> string" where
  "px_timed_out timeoutMs lst =
     ''pollUntil timed out at '' @ nat_str timeoutMs @ ''ms; last status: '' @
     show_opt (case lst of None \<Rightarrow> None | Some v \<Rightarrow> js_prop v ''status'')"

definition px_pollUntil :: "px_config \<Rightarrow> poll_env \<Rightarrow> json option \<Rightarrow> (json \<Rightarrow> bool) \<Rightarrow> nat \<Rightarrow> json prog option" where
  "px_pollUntil cfg pe runId pred timeoutMs =
     px_loop (pe_now pe) (\<lambda>i. http cfg (pe_fetch pe i) ''GET'' (px_path runId) None None) pred
       (pe_start pe + int timeoutMs) (px_timed_out timeoutMs) 0 None"

definition is_over :: "json \<Rightarrow> bool" where
  "is_over s \<longleftrightarrow> is_status (js_prop s ''status'') TERMINAL_STATUSES"

section \<open>Values of unknown shape\<close>

definition or_else :: "json option \<Rightarrow> json \<Rightarrow> json" where
  "or_else v d = (case v of None \<Rightarrow> d | Some j \<Rightarrow> if j = JNull then d else j)"

definition js_includes :: "string \<Rightarrow> json \<Rightarrow> string \<Rightarrow> bool prog" where
  "js_includes name v s =
     (case v of
        JArr xs \<Rightarrow> give (JStr s \<in> set xs)
      | JStr t \<Rightarrow> give (index_of s t \<noteq> None)
      | _ \<Rightarrow> throw (name @ ''.includes is not a function''))"

definition join_elems :: "json list \<Rightarrow> string" where
  "join_elems xs = join_with '', '' (map (\<lambda>x. if x = JNull then [] else js_String x) xs)"

definition js_join :: "string \<Rightarrow> json \<Rightarrow> string prog" where
  "js_join name v = (case v of JArr xs \<Rightarrow> give (join_elems xs) | _ \<Rightarrow> throw (name @ ''.join is not a function''))"

definition destructured :: "json \<Rightarrow> json option prog" where
  "destructured v =
     (if v = JNull then throw (''Cannot destructure property '' @ [CHR 0x27] @ ''runId'' @ [CHR 0x27] @ '' of '' @
        [CHR 0x27] @ ''create.json'' @ [CHR 0x27] @ '' as it is null.'')
      else give (js_prop v ''runId''))"

definition quoted :: "string \<Rightarrow> string" where
  "quoted s = [CHR 0x22] @ s @ [CHR 0x22]"

definition apos :: "string \<Rightarrow> string" where
  "apos s = [CHR 0x27] @ s @ [CHR 0x27]"

section \<open>approval-workflow\<close>

definition px_discover :: "px_config \<Rightarrow> (http_request \<Rightarrow> fetched) \<Rightarrow> json prog" where
  "px_discover cfg fetch =
     and_then (fetched_prog (fetch (plain_get (px_site cfg) ''/.well-known/wop'' []))) (\<lambda>res.
       if \<not> response_ok (rs_status res) then throw (''discovery failed: '' @ nat_str (rs_status res))
       else body_json (px_site cfg) res)"

definition require_interrupts :: "px_config \<Rightarrow> (http_request \<Rightarrow> fetched) \<Rightarrow> unit prog" where
  "require_interrupts cfg fetch =
     and_then (say [Out (arrow @ ''Discovery: '' @ x_base (px_site cfg) @ ''/.well-known/wop'')]) (\<lambda>_.
     and_then (px_discover cfg fetch) (\<lambda>caps.
     and_then (read_prop caps ''supportedEnvelopes'') (\<lambda>se.
     let envelopes = or_else se (JArr [])
     in and_then (js_includes ''envelopes'' envelopes ''clarification.request'') (\<lambda>b.
        if b then say [Out (''  '' @ tick @ ''Host claims wop-interrupts'')]
        else
        and_then (say [Err (cross @ ''Host doesn'' @ [CHR 0x27] @ ''t claim wop-interrupts (no '' @ apos ''clarification.request'' @ '' in supportedEnvelopes).'')]) (\<lambda>_.
        and_then (js_join ''envelopes'' envelopes) (\<lambda>es.
        stop_with [Err (''  Advertised envelopes: ['' @ es @ '']''),
                   Err ''  This example requires a host that claims the wop-interrupts profile.''] 1))))))"

definition approval_create :: "px_config \<Rightarrow> (http_request \<Rightarrow> fetched) \<Rightarrow> string \<Rightarrow> json option prog" where
  "approval_create cfg fetch ident =
     and_then (say [Out (arrow @ ''POST /v1/runs { workflowId: '' @ quoted (x_workflow (px_site cfg)) @ '' }'')]) (\<lambda>_.
     and_then (http cfg fetch ''POST'' ''/v1/runs'' (Some (workflow_body cfg)) (Some (''wop-example-approval-'' @ ident))) (\<lambda>create.
     if ha_status create = 404 then
       stop_with [skip_line cfg (slashed @ ''Workflow '' @ quoted (x_workflow (px_site cfg)) @ '' not found on this host.''),
                  skip_line cfg ''  Set WOP_WORKFLOW_ID to a workflow with an approval gate.''] 0
     else if ha_status create \<noteq> 201 then
       stop_with [fail_line cfg (cross @ ''run creation failed: '' @ nat_str (ha_status create) @ '' '' @ stringify (ha_json create))] 1
     else
     and_then (destructured (ha_json create)) (\<lambda>runId.
     and_then (say ([Out (''  runId: '' @ show_opt runId)] @
         (if get_header ''wop-idempotent-replay'' (ha_headers create) = Some ''true''
          then [Out (''  (replay '' @ dash @ '' this run was created by a prior CI invocation)'')] else []) @
         [Out (arrow @ ''Polling until waiting-approval...'')])) (\<lambda>_.
     give runId))))"

text \<open>From the snapshot that ended the first polling to the accepted approval.\<close>

definition approval_resolve :: "px_config \<Rightarrow> (http_request \<Rightarrow> fetched) \<Rightarrow> json option \<Rightarrow> json \<Rightarrow> unit prog" where
  "approval_resolve cfg fetch runId suspended =
     (if is_over suspended then
        stop_with [ok_line cfg (''  '' @ tick @ ''Run already terminal: '' @ show_opt (js_prop suspended ''status'') @ '' (idempotent replay path)'')] 0
      else case js_prop suspended ''currentNodeId'' of
        Some (JStr nodeId) \<Rightarrow>
          if nodeId = [] then stop_with [fail_line cfg (cross @ ''Suspended snapshot missing currentNodeId; cannot drive approval.'')] 1
          else
          and_then (say [Out (''  '' @ tick @ ''Suspended at node '' @ nodeId),
              Out (arrow @ ''POST /v1/runs/'' @ show_opt runId @ ''/approvals/'' @ nodeId @ '' { action: '' @ apos ''accept'' @ '' }'')]) (\<lambda>_.
          and_then (http cfg fetch ''POST'' (px_path runId @ ''/approvals/'' @ encodeURIComponent nodeId)
              (Some (JObj [(''action'', JStr ''accept'')])) None) (\<lambda>resolve.
          if ha_status resolve \<noteq> 200 \<and> ha_status resolve \<noteq> 202 then
            stop_with [fail_line cfg (cross @ ''approval resolve failed: '' @ nat_str (ha_status resolve) @ '' '' @ stringify (ha_json resolve))] 1
          else say [Out (''  '' @ tick @ ''accept dispatched''), Out (arrow @ ''Polling until terminal...'')]))
      | _ \<Rightarrow> stop_with [fail_line cfg (cross @ ''Suspended snapshot missing currentNodeId; cannot drive approval.'')] 1)"

definition approval_finish :: "px_config \<Rightarrow> json \<Rightarrow> unit prog" where
  "approval_finish cfg terminal =
     (let st = js_prop terminal ''status''
      in and_then (say [Out (''  '' @ tick @ ''status: '' @ show_opt st)]) (\<lambda>_.
         if st \<noteq> Some (JStr ''completed'') then stop_with [fail_line cfg (cross @ ''Expected completed, got '' @ show_opt st)] 1
         else say [Out [], ok_line cfg (tick @ ''Approval workflow round-trip complete'')]))"

text \<open>
  \<open>fetch\<close> answers the requests outside the two pollings, in order; \<open>ident\<close> is
  \<^verbatim>\<open>process.env.GITHUB_RUN_ID ?? randomUUID()\<close>.
\<close>

definition approval_main :: "px_config \<Rightarrow> (nat \<Rightarrow> http_request \<Rightarrow> fetched) \<Rightarrow> poll_env \<Rightarrow> poll_env \<Rightarrow> string \<Rightarrow> unit prog option" where
  "approval_main cfg fetch pe1 pe2 ident =
     and_loop (Some (require_interrupts cfg (fetch 0))) (\<lambda>_.
     and_loop (Some (approval_create cfg (fetch 1) ident)) (\<lambda>runId.
     and_loop (px_pollUntil cfg pe1 runId (\<lambda>s. is_status (js_prop s ''status'') {''waiting-approval''} \<or> is_over s) 30000) (\<lambda>suspended.
     and_loop (Some (approval_resolve cfg (fetch 2) runId suspended)) (\<lambda>_.
     and_loop (px_pollUntil cfg pe2 runId is_over 60000) (\<lambda>terminal.
     Some (approval_finish cfg terminal))))))"

text \<open>The checks of the configuration before \<^verbatim>\<open>main\<close>.\<close>

definition configured :: "px_config \<Rightarrow> line list \<Rightarrow> string \<Rightarrow> unit prog option \<Rightarrow> unit prog option" where
  "configured cfg unset missing_key main =
     (if x_base (px_site cfg) = [] then Some (stop_with unset 0)
      else if x_key (px_site cfg) = [] then Some (stop_with [fail_line cfg (cross @ missing_key)] 1)
      else main)"

definition approval_program :: "px_config \<Rightarrow> (nat \<Rightarrow> http_request \<Rightarrow> fetched) \<Rightarrow> poll_env \<Rightarrow> poll_env \<Rightarrow> string \<Rightarrow> (line list \<times> nat) option" where
  "approval_program cfg fetch pe1 pe2 ident =
     map_option (run_colored cfg) (configured cfg
       [skip_line cfg (slashed @ ''approval-workflow: WOP_MYNDHYVE_BASE_URL unset '' @ dash @ '' skip-equivalent.''),
        skip_line cfg ''  Run `WOP_MYNDHYVE_BASE_URL=<url> WOP_MYNDHYVE_API_KEY=<key> npm start` to exercise.'']
       ''approval-workflow: WOP_MYNDHYVE_API_KEY required when WOP_MYNDHYVE_BASE_URL is set.''
       (approval_main cfg fetch pe1 pe2 ident))"

section \<open>branch-fork\<close>

definition branch_probe :: "px_config \<Rightarrow> (http_request \<Rightarrow> fetched) \<Rightarrow> json prog" where
  "branch_probe cfg fetch =
     and_then (say [Out (arrow @ ''Discovery: '' @ x_base (px_site cfg) @ ''/.well-known/wop'')]) (\<lambda>_.
     and_then (fetched_prog (fetch (plain_get (px_site cfg) ''/.well-known/wop'' []))) (\<lambda>res.
     if \<not> response_ok (rs_status res) then stop_with [fail_line cfg (cross @ ''discovery failed: '' @ nat_str (rs_status res))] 1
     else body_json (px_site cfg) res))"

definition require_branch :: "px_config \<Rightarrow> json \<Rightarrow> unit prog" where
  "require_branch cfg caps =
     and_then (read_prop caps ''replay'') (\<lambda>rp.
     let replay = or_else rp (JObj []);
         modes = (case js_prop replay ''modes'' of Some (JArr xs) \<Rightarrow> xs | _ \<Rightarrow> [])
     in if js_prop replay ''supported'' \<noteq> Some (JBool True) then
          stop_with [skip_line cfg (slashed @ ''Host doesn'' @ [CHR 0x27] @ ''t claim wop-replay-fork (replay.supported is '' @
                       show_opt (js_prop replay ''supported'') @ '').''),
                     skip_line cfg ''  This example requires a host claiming the profile.''] 0
        else if JStr ''branch'' \<notin> set modes then
          stop_with [skip_line cfg (slashed @ ''Host doesn'' @ [CHR 0x27] @ ''t advertise '' @ apos ''branch'' @ '' mode (advertises: ['' @
                       join_elems modes @ '']).'')] 0
        else say [Out (''  '' @ tick @ ''Host claims wop-replay-fork; modes: ['' @ join_elems modes @ '']'')])"

definition branch_parent :: "px_config \<Rightarrow> (http_request \<Rightarrow> fetched) \<Rightarrow> string \<Rightarrow> json option prog" where
  "branch_parent cfg fetch idemKey =
     and_then (say [Out (arrow @ ''POST /v1/runs (parent) '' @ dash @ '' workflowId: '' @ quoted (x_workflow (px_site cfg)))]) (\<lambda>_.
     and_then (http cfg fetch ''POST'' ''/v1/runs'' (Some (workflow_body cfg)) (Some idemKey)) (\<lambda>parent.
     if ha_status parent = 404 then
       stop_with [skip_line cfg (slashed @ ''Workflow '' @ quoted (x_workflow (px_site cfg)) @ '' not seeded on host; skip-equivalent.'')] 0
     else if ha_status parent \<noteq> 201 then
       stop_with [fail_line cfg (cross @ ''parent run failed: '' @ nat_str (ha_status parent))] 1
     else
     and_then (read_prop (ha_json parent) ''runId'') (\<lambda>runId.
     and_then (say [Out (''  parentRunId: '' @ show_opt runId)]) (\<lambda>_. give runId))))"

text \<open>The fork, and the check that it is a run of its own.\<close>

definition branch_fork :: "px_config \<Rightarrow> (http_request \<Rightarrow> fetched) \<Rightarrow> string \<Rightarrow> json option \<Rightarrow> json option prog" where
  "branch_fork cfg fetch idemKey parentRunId =
     and_then (say [Out (''  '' @ tick @ ''parent reached terminal''),
                    Out (arrow @ ''POST /v1/runs/'' @ show_opt parentRunId @ '':fork { mode: '' @ apos ''branch'' @ '', fromSeq: 0 }'')]) (\<lambda>_.
     and_then (http cfg fetch ''POST'' (px_path parentRunId @ '':fork'')
         (Some (JObj [(''mode'', JStr ''branch''), (''fromSeq'', JNum (num_of_nat 0))])) (Some (idemKey @ ''-fork''))) (\<lambda>fork.
     if ha_status fork = 501 then
       stop_with [skip_line cfg (slashed @ ''Fork mode=branch returned 501 '' @ dash @ '' host has the route stubbed; skip-equivalent.'')] 0
     else if ha_status fork \<noteq> 200 \<and> ha_status fork \<noteq> 201 then
       stop_with [fail_line cfg (cross @ ''fork failed: '' @ nat_str (ha_status fork) @ '' '' @ stringify (ha_json fork))] 1
     else
     and_then (read_prop (ha_json fork) ''runId'') (\<lambda>forkRunId.
     and_then (say [Out (''  forkRunId: '' @ show_opt forkRunId)]) (\<lambda>_.
     if strict_eq forkRunId parentRunId then
       stop_with [fail_line cfg (cross @ ''fork returned same runId as parent '' @ dash @ '' fork MUST mint a new runId'')] 1
     else give forkRunId))))"

definition branch_finish :: "px_config \<Rightarrow> json \<Rightarrow> unit prog" where
  "branch_finish cfg forkSnap =
     (let st = js_prop forkSnap ''status''
      in and_then (say [Out (''  '' @ tick @ ''fork reached terminal: '' @ show_opt st)]) (\<lambda>_.
         if st \<noteq> Some (JStr ''completed'') then stop_with [fail_line cfg (cross @ ''Expected fork to complete, got '' @ show_opt st)] 1
         else say [Out [], ok_line cfg (tick @ ''Branch fork lifecycle complete''), Out [],
                   Out ''Note: branch mode permits divergent execution by design.'',
                   Out ''For deterministic replay, see spec/v1/replay.md mode=replay'',
                   Out ''and the conformance scenario replayDeterminism.test.ts.'']))"

definition branch_main :: "px_config \<Rightarrow> (nat \<Rightarrow> http_request \<Rightarrow> fetched) \<Rightarrow> poll_env \<Rightarrow> poll_env \<Rightarrow> string \<Rightarrow> unit prog option" where
  "branch_main cfg fetch pe1 pe2 ident =
     (let idemKey = ''wop-example-branch-fork-'' @ ident
      in and_loop (Some (and_then (branch_probe cfg (fetch 0)) (require_branch cfg))) (\<lambda>_.
         and_loop (Some (branch_parent cfg (fetch 1) idemKey)) (\<lambda>parentRunId.
         and_loop (px_pollUntil cfg pe1 parentRunId is_over 30000) (\<lambda>_.
         and_loop (Some (branch_fork cfg (fetch 2) idemKey parentRunId)) (\<lambda>forkRunId.
         and_loop (px_pollUntil cfg pe2 forkRunId is_over 30000) (\<lambda>forkSnap.
         Some (branch_finish cfg forkSnap)))))))"

definition branch_program :: "px_config \<Rightarrow> (nat \<Rightarrow> http_request \<Rightarrow> fetched) \<Rightarrow> poll_env \<Rightarrow> poll_env \<Rightarrow> string \<Rightarrow> (line list \<times> nat) option" where
  "branch_program cfg fetch pe1 pe2 ident =
     map_option (run_colored cfg) (configured cfg
       [skip_line cfg (slashed @ ''branch-fork: WOP_MYNDHYVE_BASE_URL unset '' @ dash @ '' skip-equivalent.'')]
       ''branch-fork: WOP_MYNDHYVE_API_KEY required.''
       (branch_main cfg fetch pe1 pe2 ident))"

section \<open>mcp-tool\<close>

text \<open>\<^verbatim>\<open>Object.entries\<close> of a JSON value that is not \<^verbatim>\<open>null\<close>.\<close>

definition js_entries :: "json \<Rightarrow> (string \<times> json) list" where
  "js_entries v =
     (case v of
        JObj fs \<Rightarrow> fs
      | JArr xs \<Rightarrow> zip (map nat_str [0..<length xs]) xs
      | JStr s \<Rightarrow> zip (map nat_str [0..<length s]) (map (\<lambda>c. JStr [c]) s)
      | _ \<Rightarrow> [])"

definition mcp_of :: "string \<times> json \<Rightarrow> (string \<times> json) list" where
  "mcp_of e = (case e of (k, JObj fs) \<Rightarrow> (case map_of fs ''mcp'' of None \<Rightarrow> [] | Some v \<Rightarrow> [(k @ ''.mcp'', v)]) | _ \<Rightarrow> [])"

definition detectMcpExtension :: "json \<Rightarrow> (string \<times> json) list" where
  "detectMcpExtension caps =
     (case js_prop caps ''mcp'' of None \<Rightarrow> [] | Some v \<Rightarrow> if v = JNull then [] else [(''mcp'', v)]) @
     concat (map mcp_of (js_entries caps))"

text \<open>
  \<^verbatim>\<open>length\<close> and \<^verbatim>\<open>slice(0, n)\<close> count UTF-16 units: one for each character of the
  byte string, two for those of four bytes. A slice that would cut such a character in two
  leaves it out here.
\<close>

definition continues :: "char \<Rightarrow> bool" where
  "continues c \<longleftrightarrow> of_char c div (64::nat) = 2"

definition units :: "char \<Rightarrow> nat" where
  "units c = (if continues c then 0 else if of_char c \<ge> (240::nat) then 2 else 1)"

definition utf16_length :: "string \<Rightarrow> nat" where
  "utf16_length s = sum_list (map units s)"

fun utf16_take :: "nat \<Rightarrow> string \<Rightarrow> string" where
  "utf16_take n [] = []"
| "utf16_take n (c # s) = (if n < units c then [] else c # utf16_take (n - units c) s)"

definition shown :: "nat \<Rightarrow> string \<Rightarrow> string" where
  "shown n s = (if utf16_length s > n then utf16_take n s @ ''...'' else s)"

definition mcp_probe :: "px_config \<Rightarrow> (http_request \<Rightarrow> fetched) \<Rightarrow> unit prog" where
  "mcp_probe cfg fetch =
     and_then (branch_probe cfg fetch) (\<lambda>caps.
     and_then (read_prop caps ''implementation'') (\<lambda>impl.
     let name = (case impl of None \<Rightarrow> None | Some j \<Rightarrow> opt_prop j ''name'');
         candidates = detectMcpExtension caps
     in and_then (say [Out (''  Host: '' @ (if js_nullish name then ''unknown'' else show_opt name))]) (\<lambda>_.
        if candidates = [] then
          stop_with [skip_line cfg (slashed @ ''Host doesn'' @ [CHR 0x27] @ ''t advertise MCP support under any vendor prefix.''),
                     skip_line cfg ''  Looked under: capabilities.mcp + capabilities.<vendor>.mcp'',
                     skip_line cfg ''  This example targets hosts with MCP extensions wired.''] 0
        else
        and_then (say (Out (''  '' @ tick @ ''MCP advertisement found:'') #
            map (\<lambda>(k, v). Out (''    capabilities.'' @ k @ '': '' @ shown 100 (stringify v))) candidates)) (\<lambda>_.
        if x_workflow (px_site cfg) = [] then
          stop_with [Out [], Out (''No WOP_WORKFLOW_ID set '' @ dash @ '' discovery probe complete.''),
                     Out ''To exercise the full lifecycle, set WOP_WORKFLOW_ID to a'',
                     Out ''workflow that uses MCP tools and re-run.''] 0
        else give ()))))"

definition mcp_create :: "px_config \<Rightarrow> (http_request \<Rightarrow> fetched) \<Rightarrow> string \<Rightarrow> json option prog" where
  "mcp_create cfg fetch idemKey =
     and_then (say [Out (arrow @ ''POST /v1/runs { workflowId: '' @ quoted (x_workflow (px_site cfg)) @ '' }'')]) (\<lambda>_.
     and_then (http cfg fetch ''POST'' ''/v1/runs'' (Some (workflow_body cfg)) (Some idemKey)) (\<lambda>create.
     if ha_status create = 404 then
       stop_with [skip_line cfg (slashed @ ''Workflow '' @ quoted (x_workflow (px_site cfg)) @ '' not seeded; skip-equivalent.'')] 0
     else if ha_status create \<noteq> 201 then
       stop_with [fail_line cfg (cross @ ''run failed: '' @ nat_str (ha_status create) @ '' '' @ stringify (ha_json create))] 1
     else
     and_then (destructured (ha_json create)) (\<lambda>runId.
     and_then (say [Out (''  runId: '' @ show_opt runId),
                    Out (arrow @ ''Polling /v1/runs/'' @ show_opt runId @ ''/events/poll for tool-call observability...'')]) (\<lambda>_.
     give runId))))"

text \<open>The number of events of a type that names a tool.\<close>

fun count_tools :: "json list \<Rightarrow> nat prog" where
  "count_tools [] = give 0"
| "count_tools (e # es) =
     and_then (read_prop e ''type'') (\<lambda>ty.
     and_then (count_tools es) (\<lambda>n.
       give (case ty of Some (JStr t) \<Rightarrow> if index_of ''tool'' t \<noteq> None \<or> index_of ''mcp'' t \<noteq> None then Suc n else n | _ \<Rightarrow> n)))"

definition tool_calls :: "http_answer \<Rightarrow> nat \<Rightarrow> nat prog" where
  "tool_calls res old =
     (if good_answer res then
        (case or_else (js_prop (ha_json res) ''events'') (JArr []) of
           JArr es \<Rightarrow> count_tools es
         | _ \<Rightarrow> throw ''events.filter is not a function'')
      else give old)"

definition status_seen :: "http_answer \<Rightarrow> string option" where
  "status_seen snap =
     (if good_answer snap then (case js_prop (ha_json snap) ''status'' of Some (JStr s) \<Rightarrow> Some s | _ \<Rightarrow> None) else None)"

text \<open>One round: the events, then the snapshot; the count, and the status if one was seen.\<close>

definition mcp_round :: "px_config \<Rightarrow> (http_request \<Rightarrow> fetched) \<Rightarrow> (http_request \<Rightarrow> fetched) \<Rightarrow> json option \<Rightarrow> nat \<Rightarrow> (nat \<times> string option) prog" where
  "mcp_round cfg fetch_events fetch_run runId toolCallCount =
     and_then (http cfg fetch_events ''GET'' (px_path runId @ ''/events/poll'') None None) (\<lambda>res.
     and_then (tool_calls res toolCallCount) (\<lambda>n.
     and_then (http cfg fetch_run ''GET'' (px_path runId) None None) (\<lambda>snap.
     give (n, status_seen snap))))"

partial_function (option) mcp_loop ::
  "(nat \<Rightarrow> int) \<Rightarrow> (nat \<Rightarrow> nat \<Rightarrow> (nat \<times> string option) prog) \<Rightarrow> int \<Rightarrow> nat \<Rightarrow> nat \<Rightarrow> string \<Rightarrow> (nat \<times> string \<times> nat) prog option" where
  "mcp_loop now ask deadline i toolCallCount lastStatus =
     (if now i < deadline then
        (case ask i toolCallCount of
           (ls, Next (n, st)) \<Rightarrow>
             if (case st of None \<Rightarrow> False | Some s \<Rightarrow> s \<in> TERMINAL_STATUSES) then Some (ls, Next (n, the st, Suc i))
             else Option.bind (mcp_loop now ask deadline (Suc i) n (case st of None \<Rightarrow> lastStatus | Some s \<Rightarrow> s))
                    (\<lambda>p. Some (ls @ fst p, snd p))
         | (ls, Throw m) \<Rightarrow> Some (ls, Throw m)
         | (ls, Exit n) \<Rightarrow> Some (ls, Exit n))
      else Some (give (toolCallCount, lastStatus, i)))"

definition mcp_finish :: "px_config \<Rightarrow> json option \<Rightarrow> nat \<Rightarrow> string \<Rightarrow> nat \<Rightarrow> unit prog" where
  "mcp_finish cfg runId toolCallCount lastStatus pollCount =
     and_then (say [Out (''  '' @ nat_str toolCallCount @ '' tool-related event(s) observed across '' @ nat_str pollCount @ '' polls'')]) (\<lambda>_.
     if lastStatus \<notin> TERMINAL_STATUSES then
       stop_with [fail_line cfg (cross @ ''Run '' @ show_opt runId @ '' did not reach terminal within 30s; last status: '' @ lastStatus)] 1
     else if lastStatus \<noteq> ''completed'' then
       stop_with [fail_line cfg (cross @ ''Expected completed, got '' @ lastStatus)] 1
     else say ((if toolCallCount = 0 then
                  [Out ''  Note: workflow completed without observable tool-call events.'',
                   Out ''        Host may emit tool events under non-standard type names.''] else []) @
               [Out [], ok_line cfg (tick @ ''MCP probe + observation complete'')]))"

definition mcp_main :: "px_config \<Rightarrow> (nat \<Rightarrow> http_request \<Rightarrow> fetched) \<Rightarrow> poll_env \<Rightarrow> (nat \<Rightarrow> http_request \<Rightarrow> fetched) \<Rightarrow> string \<Rightarrow> unit prog option" where
  "mcp_main cfg fetch pe events ident =
     and_loop (Some (mcp_probe cfg (fetch 0))) (\<lambda>_.
     and_loop (Some (mcp_create cfg (fetch 1) (''wop-example-mcp-tool-'' @ ident))) (\<lambda>runId.
     and_loop (mcp_loop (pe_now pe) (\<lambda>i n. mcp_round cfg (events i) (pe_fetch pe i) runId n) (pe_start pe + 30000) 0 0 ''pending'')
       (\<lambda>(n, st, polls). Some (mcp_finish cfg runId n st polls))))"

definition mcp_program :: "px_config \<Rightarrow> (nat \<Rightarrow> http_request \<Rightarrow> fetched) \<Rightarrow> poll_env \<Rightarrow> (nat \<Rightarrow> http_request \<Rightarrow> fetched) \<Rightarrow> string \<Rightarrow> (line list \<times> nat) option" where
  "mcp_program cfg fetch pe events ident =
     map_option (run_colored cfg) (configured cfg
       [skip_line cfg (slashed @ ''mcp-tool: WOP_MYNDHYVE_BASE_URL unset '' @ dash @ '' skip-equivalent.'')]
       ''mcp-tool: WOP_MYNDHYVE_API_KEY required.''
       (mcp_main cfg fetch pe events ident))"

section \<open>node-pack-publishing: the program\<close>

text \<open>\<open>x_base\<close> is the registry's URL and \<open>x_key\<close> the key to publish with.\<close>

definition pack_config :: "(string \<rightharpoonup> string) \<Rightarrow> string \<Rightarrow> bool \<Rightarrow> px_config" where
  "pack_config env syntax tty =
     \<lparr>px_site = \<lparr>x_base = (case env ''WOP_PACK_REGISTRY_URL'' of None \<Rightarrow> [] | Some s \<Rightarrow> s),
                 x_key = (case env ''WOP_PACK_PUBLISH_KEY'' of None \<Rightarrow> [] | Some s \<Rightarrow> s),
                 x_workflow = [], x_syntax = syntax\<rparr>,
      px_tty = tty\<rparr>"

definition LIVE :: "string list \<Rightarrow> bool" where
  "LIVE args \<longleftrightarrow> ''--print-publish-cmd'' \<in> set args \<or> ''--live'' \<in> set args"

definition manifest_text :: "json \<Rightarrow> string \<Rightarrow> string" where
  "manifest_text manifest k = show_opt (js_prop manifest k)"

definition signing_text :: "json \<Rightarrow> string \<Rightarrow> string prog" where
  "signing_text manifest k =
     (case js_prop manifest ''signing'' of
        None \<Rightarrow> throw (''Cannot read properties of undefined (reading '' @ apos k @ '')'')
      | Some j \<Rightarrow> and_then (read_prop j k) (\<lambda>v. give (show_opt v)))"

definition curl_text :: "json \<Rightarrow> string" where
  "curl_text manifest =
     ''       curl -X PUT '' @ [CHR 0x5C, CHR 0x0A] @
     ''         '' @ quoted (''$WOP_PACK_REGISTRY_URL/v1/packs/'' @ manifest_text manifest ''name'' @ ''/-/'' @ manifest_text manifest ''version'') @
     '' '' @ [CHR 0x5C, CHR 0x0A] @
     ''         -H '' @ quoted ''Authorization: Bearer $WOP_PACK_PUBLISH_KEY'' @ '' '' @ [CHR 0x5C, CHR 0x0A] @
     ''         -H '' @ quoted ''Content-Type: application/gzip'' @ '' '' @ [CHR 0x5C, CHR 0x0A] @
     ''         --data-binary @pack.tgz''"

text \<open>\<open>spki\<close> is the exported public key in base64.\<close>

definition dryRun :: "px_config \<Rightarrow> json \<Rightarrow> signed_pack \<Rightarrow> string \<Rightarrow> unit prog" where
  "dryRun cfg manifest signed spki =
     and_then (say [Out (arrow @ ''Built manifest:''), Out (''  name:     '' @ manifest_text manifest ''name''),
                    Out (''  version:  '' @ manifest_text manifest ''version''),
                    Out (''  scope:    private.local-example (won'' @ [CHR 0x27] @ ''t accept on public registries)'')]) (\<lambda>_.
     and_then (signing_text manifest ''algorithm'') (\<lambda>alg.
     and_then (signing_text manifest ''signatureRef'') (\<lambda>sref.
     say [Out (''  signing:  '' @ alg @ '' / '' @ sref), Out [],
          Out (arrow @ ''Canonical JSON ('' @ nat_str (utf16_length (sg_canonical signed)) @ '' bytes):''),
          Out (''  '' @ shown 120 (sg_canonical signed)), Out [],
          Out (arrow @ ''Ed25519 signature (base64): '' @ utf16_take 40 (sg_signatureBase64 signed) @ ''...''), Out [],
          Out (arrow @ ''Public key (DER, base64):  '' @ utf16_take 40 spki @ ''...''), Out [],
          Out ''To publish to a real registry:'',
          Out ''  1. Pre-register your public key with the registry operator'',
          Out ''     (super-admin action; out of scope for this example).'',
          Out ''  2. Build the actual pack tarball:'',
          Out ''       cd your-pack-source && tar czf pack.tgz manifest.json dist/'',
          Out ''  3. PUT the tarball:'',
          Out (curl_text manifest),
          Out ''  4. Re-run this example with --print-publish-cmd to print'',
          Out ''     the populated curl above; the example does not run the PUT itself.'', Out [],
          ok_line cfg (tick @ ''Dry-run complete (no network calls made).'')])))"

definition liveRun :: "px_config \<Rightarrow> (http_request \<Rightarrow> fetched) \<Rightarrow> unit prog" where
  "liveRun cfg fetch =
     (if x_base (px_site cfg) = [] then stop_with [fail_line cfg (cross @ ''--print-publish-cmd requires WOP_PACK_REGISTRY_URL'')] 1
      else if x_key (px_site cfg) = [] then
        stop_with [fail_line cfg (cross @ ''--print-publish-cmd requires WOP_PACK_PUBLISH_KEY (super-admin Bearer)'')] 1
      else
      and_then (say [Out (arrow @ ''Probing registry: '' @ x_base (px_site cfg) @ ''/.well-known/wop'')]) (\<lambda>_.
      and_then (fetched_prog (fetch (plain_get (px_site cfg) ''/.well-known/wop'' []))) (\<lambda>discovery.
      if \<not> response_ok (rs_status discovery) then
        stop_with [fail_line cfg (cross @ ''discovery failed: '' @ nat_str (rs_status discovery))] 1
      else
      and_then (body_json (px_site cfg) discovery) (\<lambda>caps.
      and_then (read_prop caps ''implementation'') (\<lambda>impl.
      let name = (case impl of None \<Rightarrow> None | Some j \<Rightarrow> opt_prop j ''name'')
      in stop_with
          [Out (''  Host: '' @ (if js_nullish name then ''unknown'' else show_opt name)), Out [],
           skip_line cfg (slashed @ ''--print-publish-cmd mode requires a built pack tarball '' @ dash @ '' the example doesn'' @ [CHR 0x27] @ ''t''),
           skip_line cfg ''  ship a buildable pack source. To complete live publish:'',
           skip_line cfg ''  1. Build a tarball from your pack source dir.'',
           skip_line cfg ''  2. PUT it via the curl command printed in --dry-run mode.'', Out [],
           Out ''  This split is intentional: the example demonstrates manifest'',
           Out ''  + signing flow safely; the actual build + PUT is a per-pack'',
           Out ''  operation, not a single canonical example.''] 0)))))"

text \<open>\<open>generateKeyPairSync\<close> is Node's: the pair of the private key and the exported public key.\<close>

definition pack_main :: "px_config \<Rightarrow> string list \<Rightarrow> (http_request \<Rightarrow> fetched) \<Rightarrow> ('k \<Rightarrow> string \<Rightarrow> string) \<Rightarrow> (string \<Rightarrow> string) \<Rightarrow> 'k \<times> string \<Rightarrow> unit prog" where
  "pack_main cfg args fetch ed25519Sign base64 keys =
     and_then (say [Out ''=== WOP node-pack publishing example ==='',
                    Out (''Mode: '' @ (if LIVE args then ''print-publish-cmd'' else ''dry-run (default)'')), Out [],
                    Out (arrow @ ''Generating Ed25519 keypair...''), Out (''  '' @ tick @ ''keypair generated'')]) (\<lambda>_.
     let signed = buildSignature ed25519Sign base64 buildManifest (fst keys)
     in if \<not> LIVE args then dryRun cfg buildManifest signed (snd keys) else liveRun cfg fetch)"

end
