(* ===== verification/ProfileProps.thy ===== *)
theory ProfileProps
  imports ProfileExamples ExampleLaws
begin

text \<open>
  Properties of the examples for optional profiles: that they always end, that they report
  success only when there was one, and what they do with a host that lacks the profile.
\<close>

section \<open>Programs in sequence\<close>

lemma and_then_next: "snd (and_then p f) = Next y \<longleftrightarrow> (\<exists>x. snd p = Next x \<and> snd (f x) = Next y)"
  by (auto simp: and_then_def split: flow.split)

lemma and_loop_next: "map_option snd (and_loop p f) = Some (Next y) \<longleftrightarrow>
    (\<exists>x. map_option snd p = Some (Next x) \<and> map_option snd (f x) = Some (Next y))"
  by (cases p) (auto simp: and_loop_def split: prod.split flow.split, (metis not_None_eq option.map_disc_iff option.map_sel snd_conv)?)

lemma plain_next [simp]:
  "snd (give x) = Next y \<longleftrightarrow> x = y" "snd (say ls) = Next u \<longleftrightarrow> True" "snd (throw m) = Next z \<longleftrightarrow> False"
  "snd (stop_with ls n) = Next w \<longleftrightarrow> False"
  by (auto simp: stop_with_def prog_defs)

section \<open>The polling loops\<close>

text \<open>A result of the loop comes from a round before the deadline, whose answer was good and satisfied the predicate.\<close>

lemma px_loop_found:
  "map_option snd (px_loop now ask pred deadline timed_out i lst) = Some (Next v) \<Longrightarrow>
    \<exists>j a. i \<le> j \<and> now j < deadline \<and> snd (ask j) = Next a \<and> good_answer a \<and> pred (ha_json a) \<and> v = ha_json a"
proof -
  have "snd p = Next v \<longrightarrow>
    (\<exists>j a. i \<le> j \<and> now j < deadline \<and> snd (ask j) = Next a \<and> good_answer a \<and> pred (ha_json a) \<and> v = ha_json a)"
  if eq: "px_loop now ask pred deadline timed_out i lst = Some p" for p
  proof (rule px_loop.raw_induct [OF _ eq, where P = "\<lambda>now ask pred deadline timed_out i lst p. snd p = Next v \<longrightarrow>
      (\<exists>j a. i \<le> j \<and> now j < deadline \<and> snd (ask j) = Next a \<and> good_answer a \<and> pred (ha_json a) \<and> v = ha_json a)"], goal_cases)
    case (1 loop now ask pred deadline timed_out i lst p)
    show ?case
    proof (cases "now i < deadline \<and> (\<exists>ls a. ask i = (ls, Next a))")
      case True
      then obtain ls a where a: "now i < deadline" "ask i = (ls, Next a)" by blast
      show ?thesis
      proof (cases "good_answer a \<and> pred (ha_json a)")
        case good: True
        with 1(2) a show ?thesis by (intro impI exI [of _ i] exI [of _ a]) auto
      next
        case False
        with 1(2) a obtain q where "loop now ask pred deadline timed_out (Suc i) (if good_answer a then Some (ha_json a) else lst) = Some q"
          and q: "snd p = snd q" by (auto simp: bind_eq_Some_conv split: if_splits)
        from 1(1) [OF this(1)] q show ?thesis by (auto intro: Suc_leD)
      qed
    next
      case False
      with 1(2) show ?thesis by (cases "ask i") (auto simp: throw_def split: flow.splits if_splits)
    qed
  qed
  then show "map_option snd (px_loop now ask pred deadline timed_out i lst) = Some (Next v) \<Longrightarrow>
    \<exists>j a. i \<le> j \<and> now j < deadline \<and> snd (ask j) = Next a \<and> good_answer a \<and> pred (ha_json a) \<and> v = ha_json a"
    by auto
qed

section \<open>Ending\<close>

definition exits_01 :: "'a prog \<Rightarrow> bool" where
  "exits_01 p \<longleftrightarrow> (case snd p of Exit n \<Rightarrow> n \<le> 1 | _ \<Rightarrow> True)"

lemma exits_01_plain [simp]:
  "exits_01 (give x)" "exits_01 (say ls)" "exits_01 (throw m)" "exits_01 (stop_with ls n) \<longleftrightarrow> n \<le> 1"
  by (simp_all add: exits_01_def stop_with_def prog_defs)

lemma exits_01_and_then [intro!]: "exits_01 p \<Longrightarrow> (\<And>x. exits_01 (f x)) \<Longrightarrow> exits_01 (and_then p f)"
  by (cases "snd p") (simp_all add: exits_01_def and_then_def)

lemma exits_01_if [intro!]: "(b \<Longrightarrow> exits_01 p) \<Longrightarrow> (\<not> b \<Longrightarrow> exits_01 q) \<Longrightarrow> exits_01 (if b then p else q)"
  by simp

lemma exits_01_requests [simp, intro!]:
  "exits_01 (fetched_prog a)" "exits_01 (body_json c r)" "exits_01 (read_prop v k)" "exits_01 (http cfg fetch m p b ik)"
  "exits_01 (js_includes n v s)" "exits_01 (js_join n v)" "exits_01 (destructured v)" "exits_01 (px_discover cfg fetch)"
proof -
  show base: "exits_01 (fetched_prog a)" "exits_01 (body_json c r)" "exits_01 (read_prop v k)"
    "exits_01 (js_includes n v s)" "exits_01 (js_join n v)" "exits_01 (destructured v)" for a c r v k n s
    by (simp_all add: fetched_prog_def body_json_def read_prop_def js_includes_def js_join_def destructured_def
        split: fetched.split option.split json.split)
  show "exits_01 (http cfg fetch m p b ik)" unfolding http_def by (auto simp: base)
  show "exits_01 (px_discover cfg fetch)" unfolding px_discover_def by (auto simp: base)
qed

lemma exits_01_approval:
  "exits_01 (require_interrupts cfg fetch)" "exits_01 (approval_create cfg fetch ident)"
  "exits_01 (approval_resolve cfg fetch runId v)" "exits_01 (approval_finish cfg v)"
proof -
  show "exits_01 (require_interrupts cfg fetch)" unfolding require_interrupts_def Let_def by (intro exits_01_and_then exits_01_if) simp_all
  show "exits_01 (approval_create cfg fetch ident)" unfolding approval_create_def by (intro exits_01_and_then exits_01_if) simp_all
  show "exits_01 (approval_resolve cfg fetch runId v)"
    by (simp add: approval_resolve_def split: option.split json.split) (auto intro!: exits_01_and_then exits_01_if)
  show "exits_01 (approval_finish cfg v)" unfolding approval_finish_def Let_def by (intro exits_01_and_then exits_01_if) simp_all
qed

lemma exits_01_branch:
  "exits_01 (branch_probe cfg fetch)" "exits_01 (require_branch cfg v)" "exits_01 (branch_parent cfg fetch key)"
  "exits_01 (branch_fork cfg fetch key runId)" "exits_01 (branch_finish cfg v)"
  unfolding branch_probe_def require_branch_def branch_parent_def branch_fork_def branch_finish_def Let_def
  by (intro exits_01_and_then exits_01_if; simp)+

lemma exits_01_count: "exits_01 (count_tools es)"
  by (induction es) (auto intro!: exits_01_and_then)

lemma exits_01_mcp:
  "exits_01 (mcp_probe cfg fetch)" "exits_01 (mcp_create cfg fetch key)" "exits_01 (mcp_round cfg f g runId n)"
  "exits_01 (mcp_finish cfg runId n st k)"
proof -
  have "exits_01 (tool_calls a n)" for a n
    unfolding tool_calls_def by (simp add: exits_01_count split: json.split)
  then show "exits_01 (mcp_round cfg f g runId n)" unfolding mcp_round_def by (intro exits_01_and_then) simp_all
  show "exits_01 (mcp_probe cfg fetch)" "exits_01 (mcp_create cfg fetch key)" "exits_01 (mcp_finish cfg runId n st k)"
    unfolding mcp_probe_def mcp_create_def mcp_finish_def Let_def
    by (intro exits_01_and_then exits_01_if exits_01_branch; simp)+
qed

text \<open>The same of programs that may not end.\<close>

definition returns_01 :: "'a prog option \<Rightarrow> bool" where
  "returns_01 p \<longleftrightarrow> (\<exists>q. p = Some q \<and> exits_01 q)"

lemma returns_01_Some [intro!]: "exits_01 p \<Longrightarrow> returns_01 (Some p)"
  by (simp add: returns_01_def)

lemma returns_01_and_loop:
  assumes "returns_01 p" and "\<And>x. returns_01 (f x)"
  shows "returns_01 (and_loop p f)"
proof -
  obtain ls x where p: "p = Some (ls, x)" "exits_01 (ls, x)" using assms(1) by (auto simp: returns_01_def)
  show ?thesis
  proof (cases x)
    case (Next y)
    obtain q where "f y = Some q" "exits_01 q" using assms(2) [of y] by (auto simp: returns_01_def)
    with p Next show ?thesis by (simp add: and_loop_def returns_01_def exits_01_def)
  qed (use p in \<open>simp_all add: and_loop_def returns_01_def exits_01_def\<close>)
qed

lemma returns_01_later: "returns_01 p \<Longrightarrow> returns_01 (Option.bind p (\<lambda>p. Some (ls @ fst p, snd p)))"
  by (auto simp: returns_01_def exits_01_def)

lemma returns_01_px_loop:
  assumes "\<And>i. now i < now (Suc i)" and "\<And>i. exits_01 (ask i)"
  shows "returns_01 (px_loop now ask pred deadline timed_out i lst)"
proof (induction "nat (deadline - now i)" arbitrary: i lst rule: less_induct)
  case less
  show ?case
  proof (cases "now i < deadline")
    case True
    with assms(1) [of i] have "nat (deadline - now (Suc i)) < nat (deadline - now i)" by simp
    note again = less [OF this]
    obtain ls x where a: "ask i = (ls, x)" by fastforce
    with assms(2) [of i] have x: "exits_01 (ls, x)" by simp
    show ?thesis
      using a x True again by (subst px_loop.simps; cases x) (auto intro!: returns_01_later simp: exits_01_def)
  qed (simp add: px_loop.simps returns_01_Some)
qed

lemma returns_01_mcp_loop:
  assumes "\<And>i. now i < now (Suc i)" and "\<And>i n. exits_01 (ask i n)"
  shows "returns_01 (mcp_loop now ask deadline i n st)"
proof (induction "nat (deadline - now i)" arbitrary: i n st rule: less_induct)
  case less
  show ?case
  proof (cases "now i < deadline")
    case True
    with assms(1) [of i] have "nat (deadline - now (Suc i)) < nat (deadline - now i)" by simp
    note again = less [OF this]
    obtain ls x where a: "ask i n = (ls, x)" by fastforce
    with assms(2) [of i n] have x: "exits_01 (ls, x)" by simp
    show ?thesis
      using a x True again by (subst mcp_loop.simps; cases x) (auto intro!: returns_01_later simp: exits_01_def)
  qed (simp add: mcp_loop.simps returns_01_Some)
qed

lemma returns_01_poll:
  "(\<And>i. pe_now pe i < pe_now pe (Suc i)) \<Longrightarrow> returns_01 (px_pollUntil cfg pe runId pred ms)"
  unfolding px_pollUntil_def by (rule returns_01_px_loop) simp_all

lemma program_returns:
  assumes "returns_01 main"
  shows "\<exists>ls n. map_option (run_colored cfg) (configured cfg unset mk main) = Some (ls, n) \<and> n \<le> 1"
proof -
  have "returns_01 (configured cfg unset mk main)" using assms by (auto simp: configured_def)
  then obtain ls x where "configured cfg unset mk main = Some (ls, x)" "exits_01 (ls, x)" by (auto simp: returns_01_def)
  then show ?thesis by (cases x) (simp_all add: exits_01_def run_colored_def)
qed

text \<open>The examples for optional profiles always end, with exit code 0 or 1, whatever the host
  answers and however long it withholds the status they wait for: all that is needed is a
  clock that moves on from one round of a polling loop to the next.\<close>

theorem profile_examples_end:
  assumes "\<And>i. pe_now pe1 i < pe_now pe1 (Suc i)" and "\<And>i. pe_now pe2 i < pe_now pe2 (Suc i)"
  shows "(\<exists>ls n. approval_program cfg fetch pe1 pe2 ident = Some (ls, n) \<and> n \<le> 1) \<and>
    (\<exists>ls n. branch_program cfg fetch pe1 pe2 ident = Some (ls, n) \<and> n \<le> 1) \<and>
    (\<exists>ls n. mcp_program cfg fetch pe1 events ident = Some (ls, n) \<and> n \<le> 1)"
proof (intro conjI)
  note poll = returns_01_poll [of pe1, OF assms(1)] returns_01_poll [of pe2, OF assms(2)]
  have "returns_01 (approval_main cfg fetch pe1 pe2 ident)"
    unfolding approval_main_def by (intro returns_01_and_loop returns_01_Some poll exits_01_approval)
  then show "\<exists>ls n. approval_program cfg fetch pe1 pe2 ident = Some (ls, n) \<and> n \<le> 1"
    unfolding approval_program_def by (rule program_returns)
  have "returns_01 (branch_main cfg fetch pe1 pe2 ident)"
    unfolding branch_main_def Let_def by (intro returns_01_and_loop returns_01_Some poll exits_01_branch exits_01_and_then)
  then show "\<exists>ls n. branch_program cfg fetch pe1 pe2 ident = Some (ls, n) \<and> n \<le> 1"
    unfolding branch_program_def by (rule program_returns)
  have "returns_01 (mcp_main cfg fetch pe1 events ident)"
    unfolding mcp_main_def
    by (intro returns_01_and_loop returns_01_Some returns_01_mcp_loop assms(1) exits_01_mcp)
       (simp add: returns_01_Some exits_01_mcp split: prod.split)
  then show "\<exists>ls n. mcp_program cfg fetch pe1 events ident = Some (ls, n) \<and> n \<le> 1"
    unfolding mcp_program_def by (rule program_returns)
qed

lemma profile_examples_end_witness:
  "\<exists>ls n. branch_program \<lparr>px_site = example_config Map.empty [], px_tty = False\<rparr> (\<lambda>i r. NetworkError ''ECONNREFUSED'')
     \<lparr>pe_start = 0, pe_now = int, pe_fetch = \<lambda>i r. NetworkError ''ECONNREFUSED''\<rparr>
     \<lparr>pe_start = 0, pe_now = int, pe_fetch = \<lambda>i r. NetworkError ''ECONNREFUSED''\<rparr> ''7'' = Some (ls, n) \<and> n \<le> 1"
  using profile_examples_end [of "\<lparr>pe_start = 0, pe_now = int, pe_fetch = \<lambda>i r. NetworkError ''ECONNREFUSED''\<rparr>"
      "\<lparr>pe_start = 0, pe_now = int, pe_fetch = \<lambda>i r. NetworkError ''ECONNREFUSED''\<rparr>"] by simp

section \<open>Success\<close>

lemma stop_case: "snd (if b then stop_with ls n else p) = Next x \<longleftrightarrow> \<not> b \<and> snd p = Next x"
  by simp

text \<open>A round of a polling before its deadline at which a run is shown in a good answer.\<close>

definition shown_at :: "px_config \<Rightarrow> poll_env \<Rightarrow> nat \<Rightarrow> json option \<Rightarrow> (json \<Rightarrow> bool) \<Rightarrow> bool" where
  "shown_at cfg pe timeoutMs runId P \<longleftrightarrow>
     (\<exists>j a. pe_now pe j < pe_start pe + int timeoutMs \<and> snd (http cfg (pe_fetch pe j) ''GET'' (px_path runId) None None) = Next a \<and>
        ha_status a = 200 \<and> P (ha_json a))"

definition has_field :: "string \<Rightarrow> string \<Rightarrow> json \<Rightarrow> bool" where
  "has_field k s v \<longleftrightarrow> js_prop v k = Some (JStr s)"

lemma poll_found:
  assumes "map_option snd (px_pollUntil cfg pe runId pred ms) = Some (Next v)"
  shows "\<exists>j a. pe_now pe j < pe_start pe + int ms \<and> snd (http cfg (pe_fetch pe j) ''GET'' (px_path runId) None None) = Next a \<and>
    ha_status a = 200 \<and> pred (ha_json a) \<and> v = ha_json a"
  using px_loop_found [OF assms [unfolded px_pollUntil_def]] by (auto simp: good_answer_def)

lemma poll_shown:
  "map_option snd (px_pollUntil cfg pe runId pred ms) = Some (Next v) \<Longrightarrow> P v \<Longrightarrow> shown_at cfg pe ms runId P"
  using poll_found [of cfg pe runId pred ms v] by (auto simp: shown_at_def)

lemma is_status_singleton: "is_status v {s} \<longleftrightarrow> v = Some (JStr s)"
  by (auto simp: is_status_def split: option.split json.split)

text \<open>Programs that exit with code 0 before their end.\<close>

definition quits :: "'a prog \<Rightarrow> bool" where
  "quits p \<longleftrightarrow> snd p = Exit 0"

lemma quits_plain [simp]:
  "\<not> quits (give x)" "\<not> quits (say ls)" "\<not> quits (throw m)" "quits (stop_with ls n) \<longleftrightarrow> n = 0"
  by (simp_all add: quits_def stop_with_def prog_defs)

lemma quits_and_then: "quits (and_then p f) \<longleftrightarrow> quits p \<or> (\<exists>x. snd p = Next x \<and> quits (f x))"
  by (auto simp: quits_def and_then_def split: flow.split)

lemma quits_and_loop: "map_option snd (and_loop p f) = Some (Exit 0) \<longleftrightarrow>
    map_option snd p = Some (Exit 0) \<or> (\<exists>x. map_option snd p = Some (Next x) \<and> map_option snd (f x) = Some (Exit 0))"
  by (cases p) (auto simp: and_loop_def split: prod.split flow.split, (metis not_None_eq option.map_disc_iff option.map_sel snd_conv)?)

lemma quits_requests [simp]:
  "\<not> quits (fetched_prog a)" "\<not> quits (body_json c r)" "\<not> quits (read_prop v k)" "\<not> quits (http cfg fetch m p b ik)"
  "\<not> quits (js_includes n v s)" "\<not> quits (js_join n v)" "\<not> quits (destructured v)" "\<not> quits (px_discover cfg fetch)"
proof -
  show base: "\<not> quits (fetched_prog a)" "\<not> quits (body_json c r)" "\<not> quits (read_prop v k)"
    "\<not> quits (js_includes n v s)" "\<not> quits (js_join n v)" "\<not> quits (destructured v)" for a c r v k n s
    by (simp_all add: fetched_prog_def body_json_def read_prop_def js_includes_def js_join_def destructured_def
        split: fetched.split option.split json.split)
  show "\<not> quits (http cfg fetch m p b ik)" by (simp add: http_def quits_and_then base)
  show "\<not> quits (px_discover cfg fetch)" by (simp add: px_discover_def quits_and_then base)
qed

lemma quits_if: "quits (if b then p else q) \<longleftrightarrow> (if b then quits p else quits q)"
  by simp

lemma quits_none:
  "\<not> quits (require_interrupts cfg fetch)" "\<not> quits (approval_finish cfg v)" "\<not> quits (branch_probe cfg fetch)"
  "\<not> quits (branch_finish cfg v)"
  by (simp_all add: require_interrupts_def approval_finish_def branch_probe_def branch_finish_def Let_def quits_and_then)

lemma px_loop_never_quits:
  assumes "\<And>i. \<not> quits (ask i)"
  shows "map_option snd (px_loop now ask pred deadline timed_out i lst) \<noteq> Some (Exit 0)"
proof -
  have "(\<forall>i. \<not> quits (ask i)) \<longrightarrow> \<not> quits p" if eq: "px_loop now ask pred deadline timed_out i lst = Some p" for p
  proof (rule px_loop.raw_induct [OF _ eq, where P = "\<lambda>now ask pred deadline timed_out i lst p. (\<forall>i. \<not> quits (ask i)) \<longrightarrow> \<not> quits p"],
      goal_cases)
    case (1 loop now ask pred deadline timed_out i lst p)
    obtain ls x where a: "ask i = (ls, x)" by fastforce
    show ?case
    proof
      assume none: "\<forall>i. \<not> quits (ask i)"
      then have "x \<noteq> Exit 0" using a by (metis quits_def snd_conv)
      then show "\<not> quits p"
        using 1 a none by (auto simp: quits_def throw_def bind_eq_Some_conv split: flow.splits if_splits)
    qed
  qed
  with assms show ?thesis by (auto simp: quits_def)
qed

lemma poll_never_quits: "map_option snd (px_pollUntil cfg pe runId pred ms) \<noteq> Some (Exit 0)"
  unfolding px_pollUntil_def by (rule px_loop_never_quits) simp

lemma program_exit_0:
  assumes "map_option (run_colored cfg) (configured cfg unset mk main) = Some (ls, 0)"
  shows "x_base (px_site cfg) = [] \<or> map_option snd main = Some (Next ()) \<or> map_option snd main = Some (Exit 0)"
proof -
  from assms obtain p where p: "configured cfg unset mk main = Some p" "run_colored cfg p = (ls, 0)" by auto
  then have "snd p = Next () \<or> snd p = Exit 0" by (auto simp: run_colored_def split: flow.splits)
  with p(1) show ?thesis by (cases p) (auto simp: configured_def stop_with_def prog_defs split: if_splits)
qed

text \<open>What a host claims that lets a run be branched.\<close>

definition claims_branch :: "json \<Rightarrow> bool" where
  "claims_branch caps \<longleftrightarrow>
     (\<exists>r xs. js_prop caps ''replay'' = Some r \<and> js_prop r ''supported'' = Some (JBool True) \<and>
        js_prop r ''modes'' = Some (JArr xs) \<and> JStr ''branch'' \<in> set xs)"

lemma require_branch_outcome:
  "snd (require_branch cfg caps) = Next u \<Longrightarrow> claims_branch caps"
  "quits (require_branch cfg caps) \<Longrightarrow> \<not> claims_branch caps"
proof -
  let ?r = "or_else (js_prop caps ''replay'') (JObj [])"
  let ?m = "case js_prop ?r ''modes'' of Some (JArr xs) \<Rightarrow> xs | _ \<Rightarrow> []"
  let ?claims = "js_prop ?r ''supported'' = Some (JBool True) \<and> JStr ''branch'' \<in> set ?m"
  have "claims_branch caps \<longleftrightarrow> ?claims"
    by (auto simp: claims_branch_def or_else_def split: option.splits json.splits if_splits; metis)
  moreover have "snd (require_branch cfg caps) = Next u \<Longrightarrow> ?claims" "quits (require_branch cfg caps) \<Longrightarrow> \<not> ?claims"
    by (auto simp: require_branch_def Let_def and_then_next quits_and_then read_prop_def split: if_splits)
  ultimately show "snd (require_branch cfg caps) = Next u \<Longrightarrow> claims_branch caps"
    "quits (require_branch cfg caps) \<Longrightarrow> \<not> claims_branch caps" by blast+
qed

text \<open>The steps of the branch fork, when they go on.\<close>

lemma branch_parent_next:
  assumes "snd (branch_parent cfg fetch key) = Next runId"
  shows "\<exists>a. snd (http cfg fetch ''POST'' ''/v1/runs'' (Some (workflow_body cfg)) (Some key)) = Next a \<and>
    ha_status a = 201 \<and> js_prop (ha_json a) ''runId'' = runId"
  using assms unfolding branch_parent_def and_then_next stop_case
  by (auto simp: read_prop_def split: if_splits)

lemma branch_fork_next:
  assumes "snd (branch_fork cfg fetch key parentRunId) = Next runId"
  shows "\<not> strict_eq runId parentRunId \<and>
    (\<exists>a. snd (http cfg fetch ''POST'' (px_path parentRunId @ '':fork'')
         (Some (JObj [(''mode'', JStr ''branch''), (''fromSeq'', JNum (num_of_nat 0))])) (Some (key @ ''-fork''))) = Next a \<and>
       ha_status a \<in> {200, 201} \<and> js_prop (ha_json a) ''runId'' = runId)"
  using assms unfolding branch_fork_def and_then_next stop_case
  by (auto simp: read_prop_def split: if_splits)

lemma branch_finish_next: "snd (branch_finish cfg v) = Next u \<Longrightarrow> has_field ''status'' ''completed'' v"
  unfolding branch_finish_def Let_def and_then_next stop_case has_field_def by simp

lemma approval_create_next:
  assumes "snd (approval_create cfg fetch ident) = Next runId"
  shows "\<exists>a. snd (http cfg fetch ''POST'' ''/v1/runs'' (Some (workflow_body cfg)) (Some (''wop-example-approval-'' @ ident))) = Next a \<and>
    ha_status a = 201 \<and> js_prop (ha_json a) ''runId'' = runId"
  using assms unfolding approval_create_def and_then_next stop_case
  by (auto simp: destructured_def split: if_splits)

lemma approval_resolve_next:
  assumes "snd (approval_resolve cfg fetch runId v) = Next u"
  shows "\<not> is_over v \<and> (\<exists>nodeId a. has_field ''currentNodeId'' nodeId v \<and> nodeId \<noteq> [] \<and>
    snd (http cfg fetch ''POST'' (px_path runId @ ''/approvals/'' @ encodeURIComponent nodeId)
      (Some (JObj [(''action'', JStr ''accept'')])) None) = Next a \<and> ha_status a \<in> {200, 202})"
proof -
  from assms have over: "\<not> is_over v" by (simp add: approval_resolve_def split: if_splits)
  with assms obtain nodeId where "js_prop v ''currentNodeId'' = Some (JStr nodeId)"
    by (simp add: approval_resolve_def split: option.splits json.splits)
  with assms over show ?thesis unfolding approval_resolve_def has_field_def
    by (simp only: if_False option.case json.case stop_case and_then_next) (auto split: if_splits)
qed

text \<open>And where they exit with code 0.\<close>

lemma branch_parent_quits:
  "quits (branch_parent cfg fetch key) \<Longrightarrow>
     \<exists>a. snd (http cfg fetch ''POST'' ''/v1/runs'' (Some (workflow_body cfg)) (Some key)) = Next a \<and> ha_status a = 404"
  by (auto simp: branch_parent_def quits_and_then quits_if split: if_splits)

lemma branch_fork_quits:
  "quits (branch_fork cfg fetch key parentRunId) \<Longrightarrow>
     \<exists>a. snd (http cfg fetch ''POST'' (px_path parentRunId @ '':fork'')
       (Some (JObj [(''mode'', JStr ''branch''), (''fromSeq'', JNum (num_of_nat 0))])) (Some (key @ ''-fork''))) = Next a \<and> ha_status a = 501"
  by (auto simp: branch_fork_def quits_and_then quits_if split: if_splits)

lemma approval_create_quits:
  "quits (approval_create cfg fetch ident) \<Longrightarrow>
     \<exists>a. snd (http cfg fetch ''POST'' ''/v1/runs'' (Some (workflow_body cfg)) (Some (''wop-example-approval-'' @ ident))) = Next a \<and>
       ha_status a = 404"
  by (auto simp: approval_create_def quits_and_then quits_if split: if_splits)

lemma approval_resolve_quits: "quits (approval_resolve cfg fetch runId v) \<Longrightarrow> is_over v"
  by (auto simp: approval_resolve_def quits_and_then quits_if split: if_splits option.splits json.splits)

lemma approval_finish_next: "snd (approval_finish cfg v) = Next u \<Longrightarrow> has_field ''status'' ''completed'' v"
  unfolding approval_finish_def Let_def and_then_next stop_case has_field_def by simp

text \<open>The two programs, from their exit code back.\<close>

lemma branch_success:
  assumes "branch_program cfg fetch pe1 pe2 ident = Some (ls, 0)" and "x_base (px_site cfg) \<noteq> []"
    and claims: "\<And>caps. snd (branch_probe cfg (fetch 0)) = Next caps \<Longrightarrow> claims_branch caps"
  shows "\<exists>parent. snd (http cfg (fetch 1) ''POST'' ''/v1/runs'' (Some (workflow_body cfg)) (Some (''wop-example-branch-fork-'' @ ident))) = Next parent \<and>
      (ha_status parent = 404 \<or>
       ha_status parent = 201 \<and> shown_at cfg pe1 30000 (js_prop (ha_json parent) ''runId'') is_over \<and>
       (\<exists>fork. snd (http cfg (fetch 2) ''POST'' (px_path (js_prop (ha_json parent) ''runId'') @ '':fork'')
            (Some (JObj [(''mode'', JStr ''branch''), (''fromSeq'', JNum (num_of_nat 0))]))
            (Some (''wop-example-branch-fork-'' @ ident @ ''-fork''))) = Next fork \<and>
          (ha_status fork = 501 \<or>
           ha_status fork \<in> {200, 201} \<and>
           \<not> strict_eq (js_prop (ha_json fork) ''runId'') (js_prop (ha_json parent) ''runId'') \<and>
           shown_at cfg pe2 30000 (js_prop (ha_json fork) ''runId'') (has_field ''status'' ''completed''))))"
proof -
  let ?key = "''wop-example-branch-fork-'' @ ident"
  let ?probe = "and_then (branch_probe cfg (fetch 0)) (require_branch cfg)"
  have probe: "\<not> quits ?probe" using claims by (auto simp: quits_and_then quits_none dest: require_branch_outcome(2))
  from program_exit_0 [OF assms(1) [unfolded branch_program_def]] assms(2)
  consider "map_option snd (branch_main cfg fetch pe1 pe2 ident) = Some (Next ())"
    | "map_option snd (branch_main cfg fetch pe1 pe2 ident) = Some (Exit 0)" by blast
  then show ?thesis
  proof cases
    case 1
    then obtain pid fid over snap where
      p: "snd (branch_parent cfg (fetch 1) ?key) = Next pid"
      and o: "map_option snd (px_pollUntil cfg pe1 pid is_over 30000) = Some (Next over)"
      and f: "snd (branch_fork cfg (fetch 2) ?key pid) = Next fid"
      and s: "map_option snd (px_pollUntil cfg pe2 fid is_over 30000) = Some (Next snap)"
      and c: "snd (branch_finish cfg snap) = Next ()"
      by (simp only: branch_main_def Let_def and_loop_next option.map option.inject) blast
    have over: "shown_at cfg pe1 30000 pid is_over" using poll_found [OF o] poll_shown [OF o] by blast
    from branch_parent_next [OF p] branch_fork_next [OF f] poll_shown [OF s, of "has_field ''status'' ''completed''"] branch_finish_next [OF c] over
    show ?thesis unfolding append_assoc by blast
  next
    case 2
    then consider "quits (branch_parent cfg (fetch 1) ?key)"
      | pid over where "snd (branch_parent cfg (fetch 1) ?key) = Next pid"
        "map_option snd (px_pollUntil cfg pe1 pid is_over 30000) = Some (Next over)" "quits (branch_fork cfg (fetch 2) ?key pid)"
      using probe unfolding branch_main_def Let_def quits_and_loop option.map option.inject quits_def [symmetric]
      by (simp only: quits_none poll_never_quits simp_thms) blast
    then show ?thesis
    proof cases
      case 1
      with branch_parent_quits [OF 1] show ?thesis by blast
    next
      case 2
      have "shown_at cfg pe1 30000 pid is_over" using poll_found [OF 2(2)] poll_shown [OF 2(2)] by blast
      with branch_parent_next [OF 2(1)] branch_fork_quits [OF 2(3)] show ?thesis unfolding append_assoc by blast
    qed
  qed
qed

lemma approval_success:
  assumes "approval_program cfg fetch pe1 pe2 ident = Some (ls, 0)" and "x_base (px_site cfg) \<noteq> []"
  shows "\<exists>created. snd (http cfg (fetch 1) ''POST'' ''/v1/runs'' (Some (workflow_body cfg)) (Some (''wop-example-approval-'' @ ident))) = Next created \<and>
      (ha_status created = 404 \<or>
       ha_status created = 201 \<and>
       (shown_at cfg pe1 30000 (js_prop (ha_json created) ''runId'') is_over \<or>
        (\<exists>nodeId resolve.
          shown_at cfg pe1 30000 (js_prop (ha_json created) ''runId'')
            (\<lambda>s. has_field ''status'' ''waiting-approval'' s \<and> has_field ''currentNodeId'' nodeId s) \<and>
          snd (http cfg (fetch 2) ''POST'' (px_path (js_prop (ha_json created) ''runId'') @ ''/approvals/'' @ encodeURIComponent nodeId)
            (Some (JObj [(''action'', JStr ''accept'')])) None) = Next resolve \<and>
          ha_status resolve \<in> {200, 202} \<and>
          shown_at cfg pe2 60000 (js_prop (ha_json created) ''runId'') (has_field ''status'' ''completed''))))"
proof -
  let ?wait = "\<lambda>s. is_status (js_prop s ''status'') {''waiting-approval''} \<or> is_over s"
  from program_exit_0 [OF assms(1) [unfolded approval_program_def]] assms(2)
  consider "map_option snd (approval_main cfg fetch pe1 pe2 ident) = Some (Next ())"
    | "map_option snd (approval_main cfg fetch pe1 pe2 ident) = Some (Exit 0)" by blast
  then show ?thesis
  proof cases
    case 1
    then obtain runId v snap u where
      n: "snd (approval_create cfg (fetch 1) ident) = Next runId"
      and w: "map_option snd (px_pollUntil cfg pe1 runId ?wait 30000) = Some (Next v)"
      and r: "snd (approval_resolve cfg (fetch 2) runId v) = Next u"
      and s: "map_option snd (px_pollUntil cfg pe2 runId is_over 60000) = Some (Next snap)"
      and c: "snd (approval_finish cfg snap) = Next ()"
      by (simp only: approval_main_def and_loop_next option.map option.inject) blast
    from approval_resolve_next [OF r] obtain nodeId a where a: "\<not> is_over v" "has_field ''currentNodeId'' nodeId v"
      "snd (http cfg (fetch 2) ''POST'' (px_path runId @ ''/approvals/'' @ encodeURIComponent nodeId)
        (Some (JObj [(''action'', JStr ''accept'')])) None) = Next a" "ha_status a \<in> {200, 202}" by blast
    then have "has_field ''status'' ''waiting-approval'' v" using poll_found [OF w] by (auto simp: is_status_singleton has_field_def)
    with a(2) have "shown_at cfg pe1 30000 runId (\<lambda>s. has_field ''status'' ''waiting-approval'' s \<and> has_field ''currentNodeId'' nodeId s)"
      by (intro poll_shown [OF w]) simp
    with approval_create_next [OF n] poll_shown [OF s, of "has_field ''status'' ''completed''"] approval_finish_next [OF c] a(3,4) show ?thesis by blast
  next
    case 2
    then consider "quits (approval_create cfg (fetch 1) ident)"
      | runId v where "snd (approval_create cfg (fetch 1) ident) = Next runId"
        "map_option snd (px_pollUntil cfg pe1 runId ?wait 30000) = Some (Next v)" "quits (approval_resolve cfg (fetch 2) runId v)"
      unfolding approval_main_def quits_and_loop option.map option.inject quits_def [symmetric]
      by (simp only: quits_none poll_never_quits simp_thms) blast
    then show ?thesis
    proof cases
      case 1
      with approval_create_quits [OF 1] show ?thesis by blast
    next
      case 2
      from poll_shown [OF 2(2), of is_over] approval_resolve_quits [OF 2(3)] approval_create_next [OF 2(1)] show ?thesis by blast
    qed
  qed
qed

text \<open>C36. The two examples exit with code 0 only for what they say. The branch fork: when it is
  not configured, the host does not claim the profile, has no such workflow or answers the
  fork with 501; and else only after the parent was created and shown over, the fork of it in
  mode \<^verbatim>\<open>branch\<close> from event 0 was accepted under a run id of its own, and that run was
  shown completed, each before its deadline. The approval workflow: when it is not configured
  or the host has no such workflow, when the run is shown over already (with whatever status,
  also failed); and else only after the run was shown waiting at a node, the action
  \<^verbatim>\<open>accept\<close> posted to this very node was accepted, and the run was shown completed.\<close>

theorem example_success_is_real:
  "(branch_program cfg fetch pe1 pe2 ident = Some (ls1, 0) \<longrightarrow>
    x_base (px_site cfg) = [] \<or>
    (\<exists>caps. snd (branch_probe cfg (fetch 0)) = Next caps \<and> \<not> claims_branch caps) \<or>
    (\<exists>parent. snd (http cfg (fetch 1) ''POST'' ''/v1/runs'' (Some (workflow_body cfg)) (Some (''wop-example-branch-fork-'' @ ident))) = Next parent \<and>
      (ha_status parent = 404 \<or>
       ha_status parent = 201 \<and> shown_at cfg pe1 30000 (js_prop (ha_json parent) ''runId'') is_over \<and>
       (\<exists>fork. snd (http cfg (fetch 2) ''POST'' (px_path (js_prop (ha_json parent) ''runId'') @ '':fork'')
            (Some (JObj [(''mode'', JStr ''branch''), (''fromSeq'', JNum (num_of_nat 0))]))
            (Some (''wop-example-branch-fork-'' @ ident @ ''-fork''))) = Next fork \<and>
          (ha_status fork = 501 \<or>
           ha_status fork \<in> {200, 201} \<and>
           \<not> strict_eq (js_prop (ha_json fork) ''runId'') (js_prop (ha_json parent) ''runId'') \<and>
           shown_at cfg pe2 30000 (js_prop (ha_json fork) ''runId'') (has_field ''status'' ''completed'')))))) \<and>
   (approval_program cfg fetch pe1 pe2 ident = Some (ls2, 0) \<longrightarrow>
    x_base (px_site cfg) = [] \<or>
    (\<exists>created. snd (http cfg (fetch 1) ''POST'' ''/v1/runs'' (Some (workflow_body cfg)) (Some (''wop-example-approval-'' @ ident))) = Next created \<and>
      (ha_status created = 404 \<or>
       ha_status created = 201 \<and>
       (shown_at cfg pe1 30000 (js_prop (ha_json created) ''runId'') is_over \<or>
        (\<exists>nodeId resolve.
          shown_at cfg pe1 30000 (js_prop (ha_json created) ''runId'')
            (\<lambda>s. has_field ''status'' ''waiting-approval'' s \<and> has_field ''currentNodeId'' nodeId s) \<and>
          snd (http cfg (fetch 2) ''POST'' (px_path (js_prop (ha_json created) ''runId'') @ ''/approvals/'' @ encodeURIComponent nodeId)
            (Some (JObj [(''action'', JStr ''accept'')])) None) = Next resolve \<and>
          ha_status resolve \<in> {200, 202} \<and>
          shown_at cfg pe2 60000 (js_prop (ha_json created) ''runId'') (has_field ''status'' ''completed''))))))"
  using branch_success [of cfg fetch pe1 pe2 ident ls1] approval_success [of cfg fetch pe1 pe2 ident ls2] by blast

text \<open>A host with interrupts: the run waits at a node until it is approved.\<close>

definition answer_json :: "nat \<Rightarrow> json \<Rightarrow> http_request \<Rightarrow> fetched" where
  "answer_json st v rq = Fetched \<lparr>rs_status = st, rs_headers = [], rs_body = stringify v\<rparr>"

definition approving :: "nat \<Rightarrow> http_request \<Rightarrow> fetched" where
  "approving i =
     (if i = 0 then answer_json 200 (JObj [(''supportedEnvelopes'', JArr [JStr ''clarification.request''])])
      else if i = 1 then answer_json 201 (JObj [(''runId'', JStr ''r'')])
      else answer_json 202 (JObj []))"

definition showing :: "(string \<times> json) list \<Rightarrow> poll_env" where
  "showing fs = \<lparr>pe_start = 0, pe_now = int, pe_fetch = \<lambda>i. answer_json 200 (JObj fs)\<rparr>"

definition approval_site :: px_config where
  "approval_site = profile_config [''WOP_MYNDHYVE_BASE_URL'' \<mapsto> ''http://h'', ''WOP_MYNDHYVE_API_KEY'' \<mapsto> ''key''] ''conformance-approval'' [] False"

lemma poll_at_once:
  assumes "pe_now pe 0 < pe_start pe + int ms" and "http cfg (pe_fetch pe 0) ''GET'' (px_path runId) None None = give a"
    and "good_answer a" and "pred (ha_json a)"
  shows "map_option snd (px_pollUntil cfg pe runId pred ms) = Some (Next (ha_json a))"
  unfolding px_pollUntil_def using assms by (subst px_loop.simps) (simp add: give_def)

lemma showing_http:
  assumes "wf_json (JObj fs)"
  shows "http cfg (pe_fetch (showing fs) j) ''GET'' (px_path runId) None None = give \<lparr>ha_status = 200, ha_json = JObj fs, ha_headers = []\<rparr>"
  using json_roundtrip [OF assms] by (simp add: http_def showing_def answer_json_def fetched_prog_def json_or_null_def)

lemma showing_poll:
  assumes "wf_json (JObj fs)" and "pred (JObj fs)" and "0 < ms"
  shows "map_option snd (px_pollUntil cfg (showing fs) runId pred ms) = Some (Next (JObj fs))"
proof -
  from poll_at_once [OF _ showing_http [OF assms(1)]] assms(2,3) show ?thesis by (simp add: showing_def good_answer_def)
qed

lemma example_success_is_real_witness:
  "\<exists>runId. shown_at approval_site (showing [(''status'', JStr ''completed'')]) 60000 runId (has_field ''status'' ''completed'')"
proof -
  let ?v1 = "[(''status'', JStr ''waiting-approval''), (''currentNodeId'', JStr ''n'')]" and ?v2 = "[(''status'', JStr ''completed'')]"
  have "snd (require_interrupts approval_site (approving 0)) = Next ()"
    "snd (approval_create approval_site (approving 1) ''7'') = Next (Some (JStr ''r''))"
    "snd (approval_resolve approval_site (approving 2) (Some (JStr ''r'')) (JObj ?v1)) = Next ()"
    "snd (approval_finish approval_site (JObj ?v2)) = Next ()" by code_simp+
  moreover have "map_option snd (px_pollUntil approval_site (showing ?v1) (Some (JStr ''r''))
      (\<lambda>s. is_status (js_prop s ''status'') {''waiting-approval''} \<or> is_over s) 30000) = Some (Next (JObj ?v1))"
    by (rule showing_poll) (simp_all add: is_status_def)
  moreover have "map_option snd (px_pollUntil approval_site (showing ?v2) (Some (JStr ''r'')) is_over 60000) = Some (Next (JObj ?v2))"
    by (rule showing_poll) (simp_all add: is_over_def is_status_def TERMINAL_STATUSES_def)
  ultimately have "map_option snd (approval_main approval_site approving (showing ?v1) (showing ?v2) ''7'') = Some (Next ())"
    by (simp only: approval_main_def and_loop_next option.map option.inject) blast
  then obtain ls where "approval_program approval_site approving (showing ?v1) (showing ?v2) ''7'' = Some (ls, 0)"
    by (auto simp: approval_program_def configured_def run_colored_def approval_site_def profile_config_def)
  moreover have "x_base (px_site approval_site) \<noteq> []" by (simp add: approval_site_def profile_config_def)
  moreover have "\<not> shown_at approval_site (showing ?v1) 30000 runId is_over" for runId
  proof -
    have "wf_json (JObj ?v1)" "\<not> is_over (JObj ?v1)" by (simp_all add: is_over_def is_status_def TERMINAL_STATUSES_def)
    then show ?thesis by (simp add: shown_at_def showing_http give_def)
  qed
  moreover have "ha_status a = 201" if "snd (http approval_site (approving (Suc 0)) m p b k) = Next a" for a m p b k
    using that by (auto simp: http_def approving_def answer_json_def fetched_prog_def and_then_next give_def)
  ultimately show ?thesis
    using example_success_is_real [of approval_site approving "showing ?v1" "showing ?v2" "''7''" _ ls] by fastforce
qed

section \<open>Hosts without the profiles\<close>

lemma http_discovery:
  "and_then (fetched_prog (mem_fetch mc en (x_base c) h (plain_get c ''/.well-known/wop'' [])))
     (\<lambda>res. if \<not> response_ok (rs_status res) then f res else body_json c res) = give (discovery_payload ''wop-host-in-memory'')"
proof -
  obtain r where r: "fetched_prog (mem_fetch mc en (x_base c) h (plain_get c ''/.well-known/wop'' [])) = give r"
    "response_ok (rs_status r)" "body_json c r = give (discovery_payload ''wop-host-in-memory'')"
    using discover_mem [of c mc en h] unfolding discover_def
    by (cases "mem_fetch mc en (x_base c) h (plain_get c ''/.well-known/wop'' [])")
       (auto simp: fetched_prog_def throw_def give_def and_then_def split: if_splits flow.splits)
  then show ?thesis by simp
qed

lemma and_loop_exit: "snd p = Exit n \<Longrightarrow> and_loop (Some p) f = Some (fst p, Exit n)"
  by (cases p) (simp add: and_loop_def)

lemma refused_code:
  assumes "x_base (px_site cfg) \<noteq> []" and "x_key (px_site cfg) \<noteq> []" and "main = and_loop (Some p) f" and "snd p = Exit n"
  shows "map_option snd (map_option (run_colored cfg) (configured cfg unset mk main)) = Some n"
  using assms by (simp add: configured_def and_loop_exit run_colored_def)

text \<open>Against the in-memory host, which has none of the optional profiles, each of the three
  examples stops after discovery without having sent another request: the branch fork and
  the MCP probe report a skip and exit with 0, the approval workflow reports a failure and
  exits with 1.\<close>

theorem optional_profiles_are_refused:
  assumes "x_base (px_site cfg) \<noteq> []" and "x_key (px_site cfg) \<noteq> []" and "fetch 0 = mem_fetch mc en (x_base (px_site cfg)) h"
  shows "map_option snd (approval_program cfg fetch pe1 pe2 ident) = Some 1 \<and>
    map_option snd (branch_program cfg fetch pe1 pe2 ident) = Some 0 \<and>
    map_option snd (mcp_program cfg fetch pe1 events ident) = Some 0"
proof (intro conjI)
  let ?caps = "discovery_payload ''wop-host-in-memory''"
  let ?go = "say [Out (arrow @ ''Discovery: '' @ x_base (px_site cfg) @ ''/.well-known/wop'')]"
  have caps: "?caps \<noteq> JNull" "js_prop ?caps ''supportedEnvelopes'' = Some (JArr [])" "js_prop ?caps ''replay'' = None"
    "detectMcpExtension ?caps = []" by code_simp+
  have "snd (require_interrupts cfg (fetch 0)) = Exit 1"
    unfolding require_interrupts_def px_discover_def assms(3) http_discovery
    using caps by (simp add: read_prop_def or_else_def js_includes_def js_join_def stop_with_def) (simp add: prog_defs)
  then show "map_option snd (approval_program cfg fetch pe1 pe2 ident) = Some 1"
    unfolding approval_program_def by (rule refused_code [OF assms(1,2) approval_main_def])
  have probe: "branch_probe cfg (fetch 0) = and_then ?go (\<lambda>_. give ?caps)"
    unfolding branch_probe_def assms(3) http_discovery ..
  have "snd (and_then (branch_probe cfg (fetch 0)) (require_branch cfg)) = Exit 0"
    unfolding probe and_then_assoc using caps
    by (simp add: require_branch_def read_prop_def or_else_def stop_with_def) (simp add: prog_defs)
  then show "map_option snd (branch_program cfg fetch pe1 pe2 ident) = Some 0"
    unfolding branch_program_def by (rule refused_code [OF assms(1,2) branch_main_def [unfolded Let_def]])
  have "snd (mcp_probe cfg (fetch 0)) = Exit 0"
    unfolding mcp_probe_def probe using caps by (simp add: read_prop_def Let_def) (simp add: stop_with_def prog_defs)
  then show "map_option snd (mcp_program cfg fetch pe1 events ident) = Some 0"
    unfolding mcp_program_def by (rule refused_code [OF assms(1,2) mcp_main_def])
qed

lemma optional_profiles_are_refused_witness:
  "map_option snd (branch_program approval_site (\<lambda>i. mem_fetch demo_cfg (demo_env 0 ''u'') ''http://h'' init_host)
     (showing []) (showing []) ''7'') = Some 0"
proof -
  have "x_base (px_site approval_site) = ''http://h''" "x_key (px_site approval_site) = ''key''" by code_simp+
  then show ?thesis
    using optional_profiles_are_refused [of approval_site "\<lambda>i. mem_fetch demo_cfg (demo_env 0 ''u'') ''http://h'' init_host" demo_cfg "demo_env 0 ''u''" init_host]
    by simp
qed

section \<open>The node-pack program\<close>

lemma and_then_exit: "snd (and_then p f) = Exit n \<longleftrightarrow> snd p = Exit n \<or> (\<exists>x. snd p = Next x \<and> snd (f x) = Exit n)"
  by (cases "snd p") (simp_all add: and_then_def)

lemma ends [simp]:
  "snd (say ls) = Exit n \<longleftrightarrow> False" "snd (stop_with ls m) = Exit n \<longleftrightarrow> m = n"
  "snd (fetched_prog a) = Exit n \<longleftrightarrow> False" "snd (fetched_prog a) = Next r \<longleftrightarrow> a = Fetched r"
  "snd (body_json c r) = Exit n \<longleftrightarrow> False" "snd (body_json c r) = Next v \<longleftrightarrow> json_parse (rs_body r) = Some v"
  "snd (read_prop v k) = Exit n \<longleftrightarrow> False" "snd (read_prop v k) = Next x \<longleftrightarrow> v \<noteq> JNull \<and> js_prop v k = x"
  by (auto simp: stop_with_def prog_defs fetched_prog_def body_json_def read_prop_def split: fetched.split option.split)

text \<open>How the program ends: the dry run always with 0; the other mode with 0 exactly when the
  registry and the key are given and the registry's discovery is answered with JSON other
  than \<^verbatim>\<open>null\<close>. What it signs is the manifest's canonical text, whose length it reports
  in UTF-16 units under the name of bytes.\<close>

lemma if_exit: "snd (if b then p else q) = x \<longleftrightarrow> (b \<and> snd p = x) \<or> (\<not> b \<and> snd q = x)"
  by simp

lemma liveRun_code:
  "snd (run_colored cfg (liveRun cfg fetch)) = 0 \<longleftrightarrow> x_base (px_site cfg) \<noteq> [] \<and> x_key (px_site cfg) \<noteq> [] \<and>
    (\<exists>r v. fetch (plain_get (px_site cfg) ''/.well-known/wop'' []) = Fetched r \<and> response_ok (rs_status r) \<and>
      json_parse (rs_body r) = Some v \<and> v \<noteq> JNull)"
proof -
  have "snd (liveRun cfg fetch) \<noteq> Next ()"
    unfolding liveRun_def Let_def by (simp add: and_then_next)
  then have "snd (run_colored cfg (liveRun cfg fetch)) = 0 \<longleftrightarrow> snd (liveRun cfg fetch) = Exit 0"
    by (simp add: run_colored_def split: flow.split)
  also have "\<dots> \<longleftrightarrow> x_base (px_site cfg) \<noteq> [] \<and> x_key (px_site cfg) \<noteq> [] \<and>
    (\<exists>r v. fetch (plain_get (px_site cfg) ''/.well-known/wop'' []) = Fetched r \<and> response_ok (rs_status r) \<and>
      json_parse (rs_body r) = Some v \<and> v \<noteq> JNull)"
    unfolding liveRun_def Let_def and_then_exit and_then_next if_exit by auto
  finally show ?thesis .
qed

lemma dryRun_ends:
  "snd (dryRun cfg buildManifest signed spki) = Next () \<and> fst (dryRun cfg buildManifest signed spki) \<noteq> [] \<and>
   last (fst (dryRun cfg buildManifest signed spki)) = ok_line cfg (tick @ ''Dry-run complete (no network calls made).'')"
proof -
  have "signing_text buildManifest ''algorithm'' = give ''ed25519''" "signing_text buildManifest ''signatureRef'' = give ''detached''"
    by code_simp+
  then show ?thesis by (simp add: dryRun_def) (simp add: prog_defs)
qed

theorem pack_program_ends:
  "snd (run_colored cfg (pack_main cfg args fetch sign_with base64 keys)) = 0 \<longleftrightarrow>
     (if LIVE args then x_base (px_site cfg) \<noteq> [] \<and> x_key (px_site cfg) \<noteq> [] \<and>
        (\<exists>r v. fetch (plain_get (px_site cfg) ''/.well-known/wop'' []) = Fetched r \<and> response_ok (rs_status r) \<and>
          json_parse (rs_body r) = Some v \<and> v \<noteq> JNull) else True)"
proof -
  have "snd (run_colored cfg (and_then (say ls) (\<lambda>_. p))) = snd (run_colored cfg p)" for ls p
    by (simp add: run_colored_def prog_defs split: flow.split)
  then have "snd (run_colored cfg (pack_main cfg args fetch sign_with base64 keys)) =
      snd (run_colored cfg (if \<not> LIVE args then dryRun cfg buildManifest (buildSignature sign_with base64 buildManifest (fst keys)) (snd keys)
        else liveRun cfg fetch))" by (simp add: pack_main_def Let_def)
  then show ?thesis using liveRun_code [of cfg fetch] dryRun_ends by (simp add: run_colored_def)
qed

lemma reported_length: "utf16_length (canonicalJson buildManifest) + 2 = length (canonicalJson buildManifest)"
  by code_simp

end
