(* ===== verification/Spawn.thy ===== *)
theory Spawn
  imports Suite
begin

text \<open>
  The orchestrator of host processes (\<^verbatim>\<open>conformance/src/lib/multiProcess.ts\<close>) and the
  settings that the SQLite host reads from its environment. Spawning and signalling are the
  operating system's: what is modelled is the command and the environment, the waiting for
  the host, and which signal is sent and when the promise of a stop is resolved.
\<close>

section \<open>Paths\<close>

text \<open>POSIX \<^verbatim>\<open>path.join\<close>. The kept segments are stacked last first; a \<^verbatim>\<open>..\<close> that finds
  nothing to drop is kept in a relative path only.\<close>

fun norm_segs :: "bool \<Rightarrow> string list \<Rightarrow> string list \<Rightarrow> string list" where
  "norm_segs is_abs kept [] = rev kept"
| "norm_segs is_abs kept (s # ss) =
     (if s = [] \<or> s = ''.'' then norm_segs is_abs kept ss
      else if s = ''..'' then
        (if kept \<noteq> [] \<and> hd kept \<noteq> ''..'' then norm_segs is_abs (tl kept) ss
         else if is_abs then norm_segs is_abs kept ss
         else norm_segs is_abs (s # kept) ss)
      else norm_segs is_abs (s # kept) ss)"

definition path_normalize :: "string \<Rightarrow> string" where
  "path_normalize p =
     (let is_abs = p \<noteq> [] \<and> hd p = CHR ''/'';
          body = join_with ''/'' (norm_segs is_abs [] (split_on (CHR ''/'') p));
          slash = p \<noteq> [] \<and> last p = CHR ''/''
      in if body = [] then (if is_abs then ''/'' else if slash then ''./'' else ''.'')
         else (if is_abs then ''/'' else []) @ body @ (if slash then ''/'' else []))"

definition path_join :: "string list \<Rightarrow> string" where
  "path_join ps = (let joined = join_with ''/'' (filter (\<lambda>p. p \<noteq> []) ps)
                   in if joined = [] then ''.'' else path_normalize joined)"

lemma path_join_examples:
  "path_join [''/repo/conformance/src/lib/'', ''..''] = ''/repo/conformance/src''"
  "path_join [''/repo/'', ''spec'', ''v1''] = ''/repo/spec/v1''"
  "path_join [''/'', ''..''] = ''/''"
  "path_join [''a'', ''../..'', ''b''] = ''../b''"
  by (code_simp)+

section \<open>The settings of the SQLite host\<close>

record host_settings =
  st_HOST :: string
  st_PORT :: num
  st_API_KEY :: string
  st_DB_PATH :: string
  st_PROCESS_ID :: string
  st_CLAIM_TTL_MS :: num
  st_HEARTBEAT_INTERVAL_MS :: num

definition number_or :: "num \<Rightarrow> string option \<Rightarrow> num" where
  "number_or dflt v = (case v of None \<Rightarrow> dflt | Some s \<Rightarrow> js_Number s)"

definition host_settings_of :: "(string \<rightharpoonup> string) \<Rightarrow> string \<Rightarrow> string \<Rightarrow> host_settings" where
  "host_settings_of env dirname randomUUID =
     \<lparr>st_HOST = (case env ''WOP_HOST'' of None \<Rightarrow> ''127.0.0.1'' | Some s \<Rightarrow> s),
      st_PORT = number_or (num_of_nat 3838) (env ''WOP_PORT''),
      st_API_KEY = (case env ''WOP_API_KEY'' of None \<Rightarrow> ''wop-sqlite-dev-key'' | Some s \<Rightarrow> s),
      st_DB_PATH = (case env ''WOP_SQLITE_PATH'' of None \<Rightarrow> path_join [dirname, ''..'', ''data'', ''wop-host.sqlite''] | Some s \<Rightarrow> s),
      st_PROCESS_ID = ''host-'' @ take 8 randomUUID,
      st_CLAIM_TTL_MS = number_or (num_of_nat 30000) (env ''WOP_CLAIM_TTL_MS''),
      st_HEARTBEAT_INTERVAL_MS = number_or (num_of_nat 10000) (env ''WOP_HEARTBEAT_INTERVAL_MS'')\<rparr>"

section \<open>Spawning a host\<close>

text \<open>Ports and times are natural numbers here, below the \<open>10 ^ 21\<close> from which JavaScript writes an exponent.\<close>

record spawn_config =
  sc_packageDir :: string
  sc_port :: nat
  sc_apiKey :: string
  sc_dbPath :: string
  sc_claimTtlMs :: nat
  sc_heartbeatIntervalMs :: nat

definition dir_above :: "string \<Rightarrow> string" where
  "dir_above probe = path_join [probe, ''..'']"

text \<open>The walk up to a directory with \<^verbatim>\<open>spec/v1\<close>: ten directories are looked at.\<close>

fun find_root :: "(string \<Rightarrow> bool) \<Rightarrow> nat \<Rightarrow> string \<Rightarrow> string option" where
  "find_root existsSync 0 probe = None"
| "find_root existsSync (Suc i) probe =
     (if existsSync (path_join [probe, ''spec'', ''v1'']) then Some probe else find_root existsSync i (dir_above probe))"

definition findRepoRoot :: "(string \<Rightarrow> bool) \<Rightarrow> string \<Rightarrow> string + string" where
  "findRepoRoot existsSync start =
     (case find_root existsSync 10 start of
        None \<Rightarrow> Inl ''Could not locate repo root from conformance/src/lib/multiProcess.ts''
      | Some root \<Rightarrow> Inr root)"

definition host_env :: "spawn_config \<Rightarrow> (string \<rightharpoonup> string) \<Rightarrow> (string \<rightharpoonup> string)" where
  "host_env cfg penv = penv(
     ''WOP_HOST'' \<mapsto> ''127.0.0.1'',
     ''WOP_PORT'' \<mapsto> nat_str (sc_port cfg),
     ''WOP_API_KEY'' \<mapsto> sc_apiKey cfg,
     ''WOP_SQLITE_PATH'' \<mapsto> sc_dbPath cfg,
     ''WOP_CLAIM_TTL_MS'' \<mapsto> nat_str (sc_claimTtlMs cfg),
     ''WOP_HEARTBEAT_INTERVAL_MS'' \<mapsto> nat_str (sc_heartbeatIntervalMs cfg))"

record spawned_host =
  sh_command :: string
  sh_args :: "string list"
  sh_cwd :: string
  sh_env :: "string \<rightharpoonup> string"
  sh_baseUrl :: string
  sh_apiKey :: string

definition spawnHost :: "(string \<Rightarrow> bool) \<Rightarrow> string \<Rightarrow> (string \<rightharpoonup> string) \<Rightarrow> spawn_config \<Rightarrow> string + spawned_host" where
  "spawnHost existsSync start penv cfg =
     (case findRepoRoot existsSync start of
        Inl m \<Rightarrow> Inl m
      | Inr repoRoot \<Rightarrow> Inr
          \<lparr>sh_command = ''npx'', sh_args = [''tsx'', ''src/server.ts''],
           sh_cwd = path_join [repoRoot, sc_packageDir cfg], sh_env = host_env cfg penv,
           sh_baseUrl = ''http://127.0.0.1:'' @ nat_str (sc_port cfg), sh_apiKey = sc_apiKey cfg\<rparr>)"

section \<open>Waiting for it\<close>

text \<open>
  Round \<open>i\<close> reads the clock as \<open>now i\<close>, the exit code as \<open>exitCode i\<close> (\<open>None\<close> while the
  process runs, and also when a signal ended it), and asks \<open>fetch i\<close>; a request that
  never settles is not modelled.
\<close>

definition health_get :: "spawned_host \<Rightarrow> http_request" where
  "health_get host = \<lparr>hr_method = ''GET'', hr_url = sh_baseUrl host @ ''/.well-known/wop'', hr_headers = [], hr_body = None\<rparr>"

definition healthy :: "fetched \<Rightarrow> bool" where
  "healthy a \<longleftrightarrow> (case a of NetworkError m \<Rightarrow> False | Fetched r \<Rightarrow> response_ok (rs_status r))"

partial_function (option) ready_loop ::
  "(nat \<Rightarrow> int) \<Rightarrow> (nat \<Rightarrow> nat option) \<Rightarrow> (nat \<Rightarrow> http_request \<Rightarrow> fetched) \<Rightarrow> spawned_host \<Rightarrow> int \<Rightarrow> nat \<Rightarrow> (string + unit) option" where
  "ready_loop now exitCode fetch host deadline i =
     (if now i < deadline then
        (case exitCode i of
           Some c \<Rightarrow> Some (Inl (''Host exited before ready (code '' @ nat_str c @ '')''))
         | None \<Rightarrow> if healthy (fetch i (health_get host)) then Some (Inr ())
                   else ready_loop now exitCode fetch host deadline (Suc i))
      else Some (Inl (''Host at '' @ sh_baseUrl host @ '' did not become ready within 10s'')))"

definition ready :: "(nat \<Rightarrow> int) \<Rightarrow> int \<Rightarrow> (nat \<Rightarrow> nat option) \<Rightarrow> (nat \<Rightarrow> http_request \<Rightarrow> fetched) \<Rightarrow> spawned_host \<Rightarrow> (string + unit) option" where
  "ready now start exitCode fetch host = ready_loop now exitCode fetch host (start + 10000) 0"

section \<open>Stopping it\<close>

record child =
  ch_pid :: "nat option"
  ch_exitCode :: "nat option"

text \<open>
  The signal that is sent, if one is, and how many milliseconds later the promise resolves:
  \<open>exits\<close> is when the process's exit event comes, if it comes at all after the call.
\<close>

definition stop_child :: "string \<Rightarrow> nat \<Rightarrow> child \<Rightarrow> nat option \<Rightarrow> string option \<times> nat" where
  "stop_child sig backstop p exits =
     (if ch_pid p \<noteq> None \<and> ch_exitCode p = None then Some sig else None,
      if ch_exitCode p \<noteq> None then 0 else (case exits of None \<Rightarrow> backstop | Some t \<Rightarrow> min t backstop))"

definition kill_host :: "child \<Rightarrow> nat option \<Rightarrow> string option \<times> nat" where
  "kill_host p exits = stop_child ''SIGKILL'' 1000 p exits"

definition shutdown_host :: "child \<Rightarrow> nat option \<Rightarrow> string option \<times> nat" where
  "shutdown_host p exits = stop_child ''SIGTERM'' 5000 p exits"

section \<open>Properties\<close>

text \<open>C40. A spawned host runs with the configuration it was spawned with: whatever the parent's
  environment holds, the SQLite host reads back the port, key, database and times that were
  written into its environment, and it listens where the suite will look for it. Spawning
  fails only when none of the ten directories looked at is the root.\<close>

theorem spawned_host_has_its_configuration:
  "(case spawnHost existsSync start penv cfg of
      Inl m \<Rightarrow> {i. i < 10 \<and> existsSync (path_join [(dir_above ^^ i) start, ''spec'', ''v1''])} = {}
    | Inr host \<Rightarrow>
        host_settings_of (sh_env host) dir u =
          \<lparr>st_HOST = ''127.0.0.1'', st_PORT = num_of_nat (sc_port cfg), st_API_KEY = sh_apiKey host,
           st_DB_PATH = sc_dbPath cfg, st_PROCESS_ID = ''host-'' @ take 8 u,
           st_CLAIM_TTL_MS = num_of_nat (sc_claimTtlMs cfg), st_HEARTBEAT_INTERVAL_MS = num_of_nat (sc_heartbeatIntervalMs cfg)\<rparr> \<and>
        sh_baseUrl host = ''http://'' @ st_HOST (host_settings_of (sh_env host) dir u) @ '':'' @ nat_str (sc_port cfg) \<and>
        (\<exists>i < 10. sh_cwd host = path_join [(dir_above ^^ i) start, sc_packageDir cfg] \<and> existsSync (path_join [(dir_above ^^ i) start, ''spec'', ''v1''])))"
proof -
  have root: "case find_root existsSync n probe of
      None \<Rightarrow> \<forall>i < n. \<not> existsSync (path_join [(dir_above ^^ i) probe, ''spec'', ''v1''])
    | Some r \<Rightarrow> \<exists>i < n. r = (dir_above ^^ i) probe \<and> existsSync (path_join [r, ''spec'', ''v1''])" for n probe
  proof (induction n arbitrary: probe)
    case (Suc n)
    show ?case
    proof (cases "existsSync (path_join [probe, ''spec'', ''v1''])")
      case True
      then show ?thesis by (auto intro: exI [of _ 0])
    next
      case False
      then show ?thesis using Suc [of "dir_above probe"]
        by (auto simp: funpow_swap1 less_Suc_eq_0_disj split: option.splits)
    qed
  qed simp
  show ?thesis
    using root [of 10 start]
    by (auto simp: spawnHost_def findRepoRoot_def host_settings_of_def host_env_def number_or_def split: option.splits)
qed

text \<open>The loop from round \<open>m\<close>, after \<open>n\<close> rounds that decide nothing.\<close>

definition decides :: "(nat \<Rightarrow> int) \<Rightarrow> (nat \<Rightarrow> nat option) \<Rightarrow> (nat \<Rightarrow> http_request \<Rightarrow> fetched) \<Rightarrow> spawned_host \<Rightarrow> int \<Rightarrow> nat \<Rightarrow> bool" where
  "decides now exitCode fetch host deadline i \<longleftrightarrow> deadline \<le> now i \<or> exitCode i \<noteq> None \<or> healthy (fetch i (health_get host))"

definition waited :: "(nat \<Rightarrow> int) \<Rightarrow> (nat \<Rightarrow> nat option) \<Rightarrow> (nat \<Rightarrow> http_request \<Rightarrow> fetched) \<Rightarrow> spawned_host \<Rightarrow> int \<Rightarrow> nat \<Rightarrow> nat \<Rightarrow> (string + unit) option \<Rightarrow> bool" where
  "waited now exitCode fetch host deadline m n res \<longleftrightarrow>
     {i. m \<le> i \<and> i < m + n \<and> decides now exitCode fetch host deadline i} = {} \<and>
     (if now (m + n) < deadline \<and> exitCode (m + n) = None then healthy (fetch (m + n) (health_get host)) \<and> res = Some (Inr ())
      else \<exists>e. res = Some (Inl e))"

lemma waited_now:
  "decides now exitCode fetch host deadline m \<Longrightarrow>
    waited now exitCode fetch host deadline m 0 (ready_loop now exitCode fetch host deadline m)"
  by (subst ready_loop.simps) (auto simp: waited_def decides_def split: option.split)

lemma waited_later:
  assumes "\<not> decides now exitCode fetch host deadline m"
    and "waited now exitCode fetch host deadline (Suc m) n (ready_loop now exitCode fetch host deadline (Suc m))"
  shows "waited now exitCode fetch host deadline m (Suc n) (ready_loop now exitCode fetch host deadline m)"
proof -
  have "ready_loop now exitCode fetch host deadline m = ready_loop now exitCode fetch host deadline (Suc m)"
    using assms(1) by (subst ready_loop.simps) (auto simp: decides_def split: option.split)
  moreover have "m = i \<or> Suc m \<le> i" if "m \<le> i" for i using that by auto
  ultimately show ?thesis using assms by (fastforce simp: waited_def)
qed

lemma ready_loop_ends:
  assumes "\<And>i. now i < now (Suc i)"
  shows "\<exists>n. waited now exitCode fetch host deadline m n (ready_loop now exitCode fetch host deadline m)"
proof (induction "nat (deadline - now m)" arbitrary: m rule: less_induct)
  case less
  show ?case
  proof (cases "decides now exitCode fetch host deadline m")
    case False
    then have "nat (deadline - now (Suc m)) < nat (deadline - now m)" using assms [of m] by (simp add: decides_def)
    from less [OF this] waited_later [of now exitCode fetch host deadline m, OF False] show ?thesis by blast
  qed (use waited_now in blast)
qed

text \<open>Waiting always ends: with the first answered health check before the deadline if the
  process had not exited by then, and with an error otherwise.\<close>

theorem ready_ends:
  assumes "\<And>i. now i + 200 \<le> now (Suc i)"
  shows "\<exists>n. {i. i < n \<and> (start + 10000 \<le> now i \<or> exitCode i \<noteq> None \<or> healthy (fetch i (health_get host)))} = {} \<and>
    (if now n < start + 10000 \<and> exitCode n = None then healthy (fetch n (health_get host)) \<and> ready now start exitCode fetch host = Some (Inr ())
     else \<exists>m. ready now start exitCode fetch host = Some (Inl m))"
proof -
  have "now i < now (Suc i)" for i using assms [of i] by simp
  from ready_loop_ends [of now, OF this, of exitCode fetch host "start + 10000" 0] show ?thesis
    by (auto simp: waited_def decides_def ready_def)
qed

text \<open>A stop takes at most one second, an orderly one five, whether or not the process has
  ended by then.\<close>

lemma stop_times: "snd (kill_host p exits) \<le> 1000" "snd (shutdown_host p exits) \<le> 5000"
  by (auto simp: kill_host_def shutdown_host_def stop_child_def split: option.split)

end
