(* ===== verification/Cluster.thy ===== *)
theory Cluster
  imports SqlDemo
begin

text \<open>
  Several processes of the SQLite host on one database file. A process takes a stretch of its
  code at a time on the shared database, or dies after some of its statements; stretches of
  different processes are taken one after the other, in any order. The start of a process is
  several stretches: \<^verbatim>\<open>resumeOrphans\<close> first selects the runs whose claim is free or has
  expired, and then tries to claim them one by one, while the other processes, which may be
  starting too, go on. A run it has found may thus be taken when its turn comes, and only the
  \<^verbatim>\<open>WHERE\<close> clause of \<^verbatim>\<open>acquireClaim\<close> decides.

  An expired claim can be taken from a process that is alive and executes the run. That this does
  not happen is what \<^verbatim>\<open>startHeartbeat\<close> is for: \<open>claims_renewed\<close> says it of a step,
  and the theorems that need it speak of \<open>renewed_reachable\<close> states and \<open>renewed_trace\<close>s. What
  happens otherwise is \<open>stale_executor_writes_on\<close>.

  What a process does to the runs of the others is the relation \<open>spares\<close>, and what the others
  know of their runs is stable under it.
\<close>

section \<open>Steps\<close>

text \<open>
  The host of a live process is kept with the database as it last saw it, and with the orphans it
  has found at its start and has not tried yet: none when it is listening.
\<close>

record cluster =
  c_db :: sql_db
  c_up :: "string \<rightharpoonup> sql_host"
  c_todo :: "string \<Rightarrow> string list"

datatype cluster_action =
  CAct string sql_action
| CTorn string sql_action nat \<comment> \<open>after how many of its statements\<close>
| CStart string int
| CResume string int string
| CTornResume string int string nat
| CCrash string
| CShutdown string

definition view_of :: "cluster \<Rightarrow> sql_host \<Rightarrow> sql_host" where
  "view_of c h = h\<lparr>g_db := c_db c, g_commits := []\<rparr>"

definition carries_on :: "string \<Rightarrow> sql_host \<Rightarrow> cluster \<Rightarrow> cluster" where
  "carries_on pid h c = c\<lparr>c_db := g_db h, c_up := (c_up c)(pid := (if g_crashed h then None else Some h))\<rparr>"

definition dies :: "string \<Rightarrow> sql_db \<Rightarrow> cluster \<Rightarrow> cluster" where
  "dies pid db c = c\<lparr>c_db := db, c_up := (c_up c)(pid := None), c_todo := (c_todo c)(pid := [])\<rparr>"

text \<open>\<^verbatim>\<open>resumeOrphans\<close>: the query, and one round of its loop.\<close>

definition finds_orphans :: "string \<Rightarrow> int \<Rightarrow> cluster \<Rightarrow> cluster" where
  "finds_orphans pid now c = c\<lparr>c_todo := (c_todo c)(pid := findOrphansStmt now (c_db c))\<rparr>"

definition has_tried :: "string \<Rightarrow> cluster \<Rightarrow> cluster" where
  "has_tried pid c = c\<lparr>c_todo := (c_todo c)(pid := tl (c_todo c pid))\<rparr>"

definition resume_next :: "sql_config \<Rightarrow> string \<Rightarrow> int \<Rightarrow> string \<Rightarrow> cluster \<Rightarrow> sql_host option" where
  "resume_next cfg pid now t c =
     (case (c_up c pid, c_todo c pid) of
        (Some h, rid # rids) \<Rightarrow> Some (resume_one (as_process cfg pid) now t rid (view_of c h))
      | _ \<Rightarrow> None)"

inductive cluster_step :: "sql_config \<Rightarrow> cluster \<Rightarrow> cluster_action \<Rightarrow> cluster \<Rightarrow> bool" for cfg where
  cluster_act: "c_up c pid = Some h \<Longrightarrow> c_todo c pid = [] \<Longrightarrow> sql_act (as_process cfg pid) (view_of c h) a h' \<Longrightarrow>
     cluster_step cfg c (CAct pid a) (carries_on pid h' c)"
| cluster_torn: "c_up c pid = Some h \<Longrightarrow> c_todo c pid = [] \<Longrightarrow> sql_act (as_process cfg pid) (view_of c h) a h' \<Longrightarrow>
     n < length (g_commits h') \<Longrightarrow> cluster_step cfg c (CTorn pid a n) (dies pid (g_commits h' ! n) c)"
| cluster_start: "c_up c pid = None \<Longrightarrow>
     cluster_step cfg c (CStart pid now) (carries_on pid (new_process (c_db c)) (finds_orphans pid now c))"
| cluster_resume: "resume_next cfg pid now t c = Some h \<Longrightarrow>
     cluster_step cfg c (CResume pid now t) (carries_on pid h (has_tried pid c))"
| cluster_torn_resume: "resume_next cfg pid now t c = Some h \<Longrightarrow> n < length (g_commits h) \<Longrightarrow>
     cluster_step cfg c (CTornResume pid now t n) (dies pid (g_commits h ! n) c)"
| cluster_crash: "c_up c pid = Some h \<Longrightarrow> cluster_step cfg c (CCrash pid) (dies pid (c_db c) c)"
| cluster_shutdown: "c_up c pid = Some h \<Longrightarrow> c_todo c pid = [] \<Longrightarrow>
     cluster_step cfg c (CShutdown pid) (dies pid (shutdown (as_process cfg pid) (view_of c h)) c)"

text \<open>The same as a function, to run the cluster.\<close>

fun cluster_next :: "sql_config \<Rightarrow> cluster_action \<Rightarrow> cluster \<Rightarrow> cluster option" where
  "cluster_next cfg (CAct pid a) c =
     Option.bind (c_up c pid) (\<lambda>h. if c_todo c pid = [] then
       map_option (\<lambda>h'. carries_on pid h' c) (sql_do (as_process cfg pid) a (view_of c h)) else None)"
| "cluster_next cfg (CTorn pid a n) c =
     Option.bind (c_up c pid) (\<lambda>h. if c_todo c pid = [] then Option.bind (sql_do (as_process cfg pid) a (view_of c h))
       (\<lambda>h'. if n < length (g_commits h') then Some (dies pid (g_commits h' ! n) c) else None) else None)"
| "cluster_next cfg (CStart pid now) c =
     (if Option.is_none (c_up c pid) then Some (carries_on pid (new_process (c_db c)) (finds_orphans pid now c)) else None)"
| "cluster_next cfg (CResume pid now t) c = map_option (\<lambda>h. carries_on pid h (has_tried pid c)) (resume_next cfg pid now t c)"
| "cluster_next cfg (CTornResume pid now t n) c =
     Option.bind (resume_next cfg pid now t c)
       (\<lambda>h. if n < length (g_commits h) then Some (dies pid (g_commits h ! n) c) else None)"
| "cluster_next cfg (CCrash pid) c = map_option (\<lambda>h. dies pid (c_db c) c) (c_up c pid)"
| "cluster_next cfg (CShutdown pid) c =
     Option.bind (c_up c pid) (\<lambda>h. if c_todo c pid = [] then
       Some (dies pid (shutdown (as_process cfg pid) (view_of c h)) c) else None)"

lemma cluster_next_step: "cluster_next cfg a c = Some c' \<Longrightarrow> cluster_step cfg c a c'"
  by (cases "(cfg, a, c)" rule: cluster_next.cases)
     (auto simp: sql_act_do [symmetric] bind_eq_Some_conv Option.is_none_def intro: cluster_step.intros split: if_splits)

text \<open>
  The run a starting process tries next is not executed by a live process whose claim on it
  has expired.
\<close>

definition takes_from_live :: "int \<Rightarrow> string \<Rightarrow> cluster \<Rightarrow> bool" where
  "takes_from_live now rid c \<longleftrightarrow>
     (case getRun rid (c_db c) of
        None \<Rightarrow> False
      | Some r \<Rightarrow> claim_free now r \<and>
          (case q_claim_holder r of
             None \<Rightarrow> False
           | Some p \<Rightarrow> (case c_up c p of None \<Rightarrow> False | Some h \<Rightarrow> \<not> Option.is_none (g_exec h rid))))"

definition claims_renewed :: "cluster \<Rightarrow> cluster_action \<Rightarrow> bool" where
  "claims_renewed c a \<longleftrightarrow>
     (case a of
        CResume pid now t \<Rightarrow> (case c_todo c pid of [] \<Rightarrow> True | rid # rids \<Rightarrow> \<not> takes_from_live now rid c)
      | CTornResume pid now t n \<Rightarrow> (case c_todo c pid of [] \<Rightarrow> True | rid # rids \<Rightarrow> \<not> takes_from_live now rid c)
      | _ \<Rightarrow> True)"

definition renewed_step :: "sql_config \<Rightarrow> cluster \<Rightarrow> cluster_action \<Rightarrow> cluster \<Rightarrow> bool" where
  "renewed_step cfg c a c' \<longleftrightarrow> cluster_step cfg c a c' \<and> claims_renewed c a"

fun cluster_run :: "sql_config \<Rightarrow> cluster_action list \<Rightarrow> cluster \<Rightarrow> cluster option" where
  "cluster_run cfg [] c = Some c"
| "cluster_run cfg (a # as) c =
     (if claims_renewed c a then (case cluster_next cfg a c of None \<Rightarrow> None | Some c' \<Rightarrow> cluster_run cfg as c') else None)"

abbreviation cluster_trace :: "sql_config \<Rightarrow> cluster \<Rightarrow> cluster_action list \<Rightarrow> cluster \<Rightarrow> bool" where
  "cluster_trace cfg \<equiv> trace (cluster_step cfg)"

abbreviation renewed_trace :: "sql_config \<Rightarrow> cluster \<Rightarrow> cluster_action list \<Rightarrow> cluster \<Rightarrow> bool" where
  "renewed_trace cfg \<equiv> trace (renewed_step cfg)"

definition no_cluster :: cluster where
  "no_cluster = \<lparr>c_db = empty_db, c_up = Map.empty, c_todo = (\<lambda>_. [])\<rparr>"

definition renewed_reachable :: "sql_config \<Rightarrow> cluster \<Rightarrow> bool" where
  "renewed_reachable cfg c \<longleftrightarrow> (\<exists>as. renewed_trace cfg no_cluster as c)"

lemma cluster_run_trace: "cluster_run cfg as c = Some c' \<Longrightarrow> renewed_trace cfg c as c'"
proof (induction as arbitrary: c)
  case (Cons a as)
  then obtain c1 where "claims_renewed c a" "cluster_next cfg a c = Some c1" "cluster_run cfg as c1 = Some c'"
    by (auto split: option.splits if_splits)
  moreover from this cluster_next_step have "renewed_step cfg c a c1" by (simp add: renewed_step_def)
  ultimately show ?case using Cons.IH trace_cons [where step = "renewed_step cfg"] by blast
qed (simp add: trace_nil)

lemma renewed_trace_cluster: "renewed_trace cfg c as c' \<Longrightarrow> cluster_trace cfg c as c'"
  by (induction rule: trace.induct) (auto intro: trace.intros simp: renewed_step_def)

lemma cluster_fields [simp]:
  "g_db (view_of c h) = c_db c" "g_commits (view_of c h) = []" "g_exec (view_of c h) = g_exec h"
  "c_db (carries_on pid h c) = g_db h" "c_db (dies pid db c) = db"
  "c_up (dies pid db c) = (c_up c)(pid := None)" "c_todo (dies pid db c) = (c_todo c)(pid := [])"
  "c_up (carries_on pid h c) = (c_up c)(pid := (if g_crashed h then None else Some h))"
  "c_todo (carries_on pid h c) = c_todo c"
  "view_of (carries_on pid h c) h = h\<lparr>g_commits := []\<rparr>"
  by (simp_all add: view_of_def carries_on_def dies_def)

lemma cluster_todo [simp]:
  "c_db (finds_orphans pid now c) = c_db c" "c_up (finds_orphans pid now c) = c_up c"
  "c_todo (finds_orphans pid now c) = (c_todo c)(pid := findOrphansStmt now (c_db c))"
  "c_db (has_tried pid c) = c_db c" "c_up (has_tried pid c) = c_up c"
  "c_todo (has_tried pid c) = (c_todo c)(pid := tl (c_todo c pid))"
  by (simp_all add: finds_orphans_def has_tried_def)

section \<open>What a process guarantees the others\<close>

text \<open>A run of another process may be asked to cancel, and is left alone otherwise.\<close>

definition spares :: "string \<Rightarrow> sql_db \<Rightarrow> sql_db \<Rightarrow> bool" where
  "spares rid db db' \<longleftrightarrow>
     shapes_of rid db' = shapes_of rid db \<and>
     (getRun rid db' = getRun rid db \<or> getRun rid db' = getRun rid (setCancelRequested rid db))"

lemma spares_refl [simp]: "spares rid db db"
  by (simp add: spares_def)

lemma spares_trans:
  assumes "spares rid a b" and "spares rid b c"
  shows "spares rid a c"
proof -
  define f :: "run_row option \<Rightarrow> run_row option" where "f = map_option (\<lambda>r. r\<lparr>q_status := (if is_terminal (q_status r) then q_status r else Cancelling)\<rparr>)"
  have "f (f x) = f x" for x by (cases x) (simp_all add: f_def)
  moreover have "getRun rid (setCancelRequested rid db) = f (getRun rid db)" for db
    by (simp add: sql_simps f_def)
  ultimately show ?thesis using assms by (auto simp: spares_def)
qed

lemma spares_same: "getRun rid db' = getRun rid db \<Longrightarrow> t_events db' = t_events db \<Longrightarrow> spares rid db db'"
  unfolding spares_def using shapes_of_events [of db' db] by blast

lemma spares_owned:
  assumes "owned cfg rid x ls l db" and "spares rid db db'"
  shows "owned cfg rid x ls l db'"
proof -
  from assms(1) obtain r where r: "getRun rid db = Some r" "\<not> is_terminal (q_status r)"
    by (auto simp: owned_def)
  then have c: "getRun rid (setCancelRequested rid db) = Some (r\<lparr>q_status := Cancelling\<rparr>)"
    by (simp add: sql_simps)
  from assms(2) consider "getRun rid db' = Some r" | "getRun rid db' = Some (r\<lparr>q_status := Cancelling\<rparr>)"
    using r(1) c by (auto simp: spares_def)
  then show ?thesis using assms r(1) by cases (simp_all add: owned_def spares_def)
qed

lemma spares_exec_ok: "exec_ok cfg rid x db \<Longrightarrow> spares rid db db' \<Longrightarrow> exec_ok cfg rid x db'"
  unfolding exec_ok_def using spares_owned by blast

definition sparing :: "string \<Rightarrow> sql_host \<Rightarrow> sql_host \<Rightarrow> bool" where
  "sparing rid h h' \<longleftrightarrow>
     spares rid (g_db h) (g_db h') \<and>
     (\<exists>dbs. g_commits h' = g_commits h @ dbs \<and> (\<forall>db \<in> set dbs. spares rid (g_db h) db))"

lemma sparing_refl [simp]: "sparing rid h h"
  by (simp add: sparing_def)

lemma sparing_trans:
  assumes "sparing rid h1 h2" and "sparing rid h2 h3"
  shows "sparing rid h1 h3"
proof -
  from assms obtain a b where ab: "g_commits h2 = g_commits h1 @ a" "g_commits h3 = g_commits h2 @ b"
    "\<forall>db \<in> set a. spares rid (g_db h1) db" "\<forall>db \<in> set b. spares rid (g_db h2) db"
    and s: "spares rid (g_db h1) (g_db h2)" "spares rid (g_db h2) (g_db h3)"
    unfolding sparing_def by blast
  moreover from ab(4) have "\<forall>db \<in> set b. spares rid (g_db h1) db" using spares_trans [OF s(1)] by blast
  ultimately show ?thesis unfolding sparing_def using spares_trans [OF s] by (intro conjI exI [of _ "a @ b"]) auto
qed

lemma sparing_commit: "spares rid (g_db h) db \<Longrightarrow> sparing rid h (commit db h)"
  by (simp add: sparing_def commit_def)

lemma sparing_local: "g_db h' = g_db h \<Longrightarrow> g_commits h' = g_commits h \<Longrightarrow> sparing rid h h'"
  by (simp add: sparing_def)

interpretation sparing_frame: executor_frame rid "\<lambda>h h'. \<forall>rid'. rid' \<noteq> rid \<longrightarrow> sparing rid' h h'" for rid
proof unfold_locales
  show "\<forall>rid'. rid' \<noteq> rid \<longrightarrow> sparing rid' h (snd (sql_appendEvent rid ty nid d t h))" for h ty nid d t
    by (auto simp: sql_appendEvent_def Let_def sparing_def spares_def insertEvent_def row_of_event_def commit_def
        split: sum.split)
  show "\<forall>rid'. rid' \<noteq> rid \<longrightarrow> sparing rid' h (h\<lparr>g_exec := (g_exec h)(rid := y)\<rparr>)" for h y
    by (simp add: sparing_local)
  show "\<forall>rid'. rid' \<noteq> rid \<longrightarrow> sparing rid' h (h\<lparr>g_crashed := True\<rparr>)" for h
    by (simp add: sparing_local)
qed (auto intro: sparing_trans sparing_commit spares_same)

text \<open>Every action of a process spares a run that another process has claimed.\<close>

lemma sparing_abort [simp]: "sparing rid h (abort_exec rid' h') = sparing rid h h'"
  by (simp add: abort_exec_def set_exec_def sparing_def split: option.split)

lemma sparing_cancel: "sparing rid h (commit (setCancelRequested rid' (g_db h)) h)"
proof -
  have "spares rid (g_db h) (setCancelRequested rid' (g_db h))"
    using shapes_of_events [of "setCancelRequested rid' (g_db h)" "g_db h" rid]
    by (cases "rid' = rid") (auto simp: spares_def sql_simps)
  then show ?thesis by (simp add: sparing_commit)
qed

lemma with_run_sparing:
  "(\<And>r. sparing rid h (snd (k r))) \<Longrightarrow> sparing rid h (snd (sql_with_run cfg rq h rid' k))"
  by (simp add: sql_with_run_def split: option.split)

lemma handlers_sparing:
  "sparing rid h (snd (sql_handleGetRun cfg rq rid' h))" "sparing rid h (snd (sql_handleEventsPoll cfg rq rid' h))"
  "sparing rid h (snd (sql_handleDebugBundle cfg en rq rid' h))" "sparing rid h (snd (sql_handleEventsSse cfg rq rid' h))"
  "sparing rid h (snd (sql_handleCancelRun cfg rq rid' h))"
  unfolding sql_handleGetRun_def sql_handleEventsPoll_def sql_handleDebugBundle_def sql_handleEventsSse_def
    sql_handleCancelRun_def
  by (rule with_run_sparing; simp add: Let_def sparing_local sparing_cancel split: option.split)+

lemma sparing_idem: "sparing rid h (commit ((g_db h)\<lparr>t_idem := rows\<rparr>) h)"
  by (rule sparing_commit) (simp add: spares_same)

lemma resume_sparing: "rid' \<noteq> rid \<Longrightarrow> sparing rid h (resume_one cfg now t rid' h)"
  using sparing_frame.R_resume_one [of rid' h cfg now t] by simp

lemma createRun_sparing:
  assumes "new_run_id en \<noteq> rid"
  shows "sparing rid h (snd (sql_createRun cfg en wid inputs key hash h))"
proof (cases "insertRun (new_run_id en) wid Pending (stringify inputs) (iso en) (g_db h)")
  case (Inl m)
  then show ?thesis by (simp add: sql_createRun_def Let_def)
next
  case (Inr db)
  from insertRun_others [OF this, of rid] assms have "sparing rid h (commit db h)"
    by (intro sparing_commit) (simp add: spares_def)
  moreover have "sparing rid (commit db h) (resume_one cfg (now_ms en) (iso en) (new_run_id en) h2)"
    if "sparing rid (commit db h) h2" for h2
    using sparing_trans [OF that resume_sparing [OF assms]] .
  moreover have "sparing rid (commit db h) (commit (db\<lparr>t_idem := rows\<rparr>) (commit db h))" for rows
    using sparing_idem [of rid "commit db h"] by simp
  ultimately have "sparing rid h (commit db h)"
    "sparing rid h (resume_one cfg (now_ms en) (iso en) (new_run_id en) (commit db h))"
    "sparing rid h (resume_one cfg (now_ms en) (iso en) (new_run_id en) (commit (db\<lparr>t_idem := rows\<rparr>) (commit db h)))" for rows
    using sparing_trans sparing_refl by blast+
  with Inr show ?thesis
    by (simp add: sql_createRun_def Let_def split: option.split sum.split)
qed

lemma serve_sparing:
  assumes "getRun (new_run_id en) (g_db h) = None" and "getRun rid (g_db h) \<noteq> None"
  shows "sparing rid h (snd (sql_serve cfg en rq h))"
proof -
  from assms have new: "new_run_id en \<noteq> rid" by auto
  have create: "sparing rid h (snd (sql_handleCreateRun cfg en rq h))"
  proof -
    have "sparing rid h (snd (sql_createRun cfg en wid inputs key hash (commit ((g_db h)\<lparr>t_idem := rows\<rparr>) h)))"
      for wid inputs key hash rows
      by (rule sparing_trans [OF sparing_idem createRun_sparing [OF new]])
    then show ?thesis
      using createRun_sparing [OF new] sparing_idem
      by (simp add: sql_handleCreateRun_def Let_def split: option.split create_check.split)
  qed
  have "sparing rid h (snd (sql_route cfg en rq h))"
    by (rule sql_route_cases; (rule create handlers_sparing | simp))
  then show ?thesis
    by (cases "sql_route cfg en rq h") (auto simp: sql_serve_def split: sum.split)
qed

text \<open>The run of a live process, as another process sees it.\<close>

definition foreign :: "string \<Rightarrow> string \<Rightarrow> sql_db \<Rightarrow> bool" where
  "foreign pid rid db \<longleftrightarrow> (\<exists>r p. getRun rid db = Some r \<and> q_claim_holder r = Some p \<and> p \<noteq> pid)"

lemma foreign_exec: "host_inv cfg db0 h \<Longrightarrow> foreign (s_pid cfg) rid (g_db h) \<Longrightarrow> g_exec h rid = None"
  using host_inv_exec [of cfg db0 h rid] by (cases "g_exec h rid") (auto simp: foreign_def exec_ok_def owned_def)

lemma act_sparing:
  assumes "sql_act cfg h a h'" and "host_inv cfg db0 h" and "foreign (s_pid cfg) rid (g_db h)"
  shows "sparing rid h h'"
proof -
  note none = foreign_exec [OF assms(2,3)]
  from assms(1) show ?thesis
  proof cases
    case (act_request en rq)
    with assms(3) show ?thesis by (auto simp: foreign_def intro: serve_sparing)
  next
    case (act_segment rid' t)
    with none have "rid' \<noteq> rid" by (auto simp: sql_segment_def)
    then show ?thesis using sparing_frame.R_segment [OF act_segment(2)] by simp
  next
    case (act_timer rid')
    with none have "rid' \<noteq> rid" by (auto simp: sql_timer_def)
    then show ?thesis using sparing_frame.R_timer [OF act_timer(2)] by simp
  next
    case (act_heartbeat rid' now)
    with none have "rid' \<noteq> rid" by (auto simp: heartbeat_def)
    then show ?thesis using sparing_frame.R_heartbeat [OF act_heartbeat(2)] by simp
  qed (simp add: sql_client_closes_def sparing_local)
qed

text \<open>A try that loses changes nothing of the run.\<close>

lemma resume_loses:
  assumes "keys_ok (g_db h)" and "getRun rid (g_db h) = Some r" and "\<not> claimable now r"
  shows "sparing rid h (resume_one cfg now t rid h)"
proof -
  let ?sql = "acquireClaim (s_pid cfg) (now + s_claim_ttl cfg) rid now (g_db h)"
  have "snd ?sql = 0" using assms by (simp add: acquireClaim_changes)
  then have "resume_one cfg now t rid h = commit (fst ?sql) h"
    by (cases ?sql) (simp add: resume_one_def tryClaim_def)
  moreover have "sparing rid h (commit (fst ?sql) h)"
    by (intro sparing_commit spares_same) (use assms in \<open>simp_all add: sql_simps\<close>)
  ultimately show ?thesis by simp
qed

lemma shutdown_spares: "foreign (s_pid cfg) rid (g_db h) \<Longrightarrow> spares rid (g_db h) (shutdown cfg h)"
  by (auto simp: foreign_def shutdown_def getRun_releaseAll sql_simps intro!: spares_same)

end
