(* ===== verification/ClusterLaws.thy ===== *)
theory ClusterLaws
  imports Cluster SqlRaces
begin

text \<open>
  The invariant of a cluster, and what follows for one run: that no two processes execute it,
  that its executor's own steps end it, and that a cancellation any process accepted stays.
\<close>

section \<open>The invariant\<close>

text \<open>The orphans a starting process has still to try: it executes none of them.\<close>

definition todo_ok :: "string list \<Rightarrow> sql_host \<Rightarrow> bool" where
  "todo_ok rids h \<longleftrightarrow> distinct rids \<and> (\<forall>rid \<in> set rids. g_exec h rid = None)"

lemma todo_ok_Nil [simp]: "todo_ok [] h"
  by (simp add: todo_ok_def)

definition cluster_ok :: "sql_config \<Rightarrow> cluster \<Rightarrow> bool" where
  "cluster_ok cfg c \<longleftrightarrow>
     db_ok (s_workflows cfg) (c_db c) \<and>
     (\<forall>pid h. c_up c pid = Some h \<longrightarrow> host_inv (as_process cfg pid) (c_db c) (view_of c h) \<and> todo_ok (c_todo c pid) h)"

lemma cluster_ok_host: "cluster_ok cfg c \<Longrightarrow> c_up c pid = Some h \<Longrightarrow> host_inv (as_process cfg pid) (c_db c) (view_of c h)"
  by (simp add: cluster_ok_def)

lemma cluster_ok_todo: "cluster_ok cfg c \<Longrightarrow> c_up c pid = Some h \<Longrightarrow> todo_ok (c_todo c pid) h"
  by (simp add: cluster_ok_def)

lemma cluster_exec:
  assumes "cluster_ok cfg c" and "c_up c pid = Some h" and "g_exec h rid = Some x"
  shows "exec_ok (as_process cfg pid) rid x (c_db c)"
  using host_inv_exec [OF cluster_ok_host [OF assms(1,2)], of rid x] assms(3) by simp

lemma cluster_holder:
  assumes "cluster_ok cfg c" and "c_up c pid = Some h" and "g_exec h rid \<noteq> None"
  obtains r where "getRun rid (c_db c) = Some r" and "q_claim_holder r = Some pid" and "\<not> is_terminal (q_status r)"
proof -
  from assms(3) obtain x where "g_exec h rid = Some x" by auto
  from cluster_exec [OF assms(1,2) this] that show thesis by (auto simp: exec_ok_def owned_def)
qed

lemma cluster_foreign:
  assumes "cluster_ok cfg c" and "c_up c pid = Some h" and "g_exec h rid \<noteq> None" and "pid \<noteq> pid'"
  shows "foreign pid' rid (c_db c)"
  using cluster_holder [OF assms(1-3)] assms(4) unfolding foreign_def by metis

text \<open>A process that did nothing, after another one has changed the database.\<close>

lemma host_inv_rely:
  assumes "cluster_ok cfg c" and "c_up c pid = Some h" and "db_ok (s_workflows cfg) db"
    and "\<And>rid. g_exec h rid \<noteq> None \<Longrightarrow> spares rid (c_db c) db"
  shows "host_inv (as_process cfg pid) db (h\<lparr>g_db := db, g_commits := []\<rparr>)"
proof -
  have "exec_ok (as_process cfg pid) rid x db" if "g_exec h rid = Some x" for rid x
    using cluster_exec [OF assms(1,2) that] assms(4) [of rid] that by (auto intro: spares_exec_ok)
  moreover have "\<not> g_crashed h"
    using cluster_ok_host [OF assms(1,2)] by (simp add: host_inv_def tracked_def view_of_def)
  ultimately show ?thesis using assms(3) by (simp add: host_inv_def tracked_def)
qed

lemma cluster_ok_change:
  assumes "cluster_ok cfg c" and "db_ok (s_workflows cfg) (c_db c')"
    and "\<And>p. p \<noteq> pid \<Longrightarrow> c_up c' p = c_up c p \<and> c_todo c' p = c_todo c p"
    and "\<And>rid. (\<exists>p h. c_up c p = Some h \<and> p \<noteq> pid \<and> g_exec h rid \<noteq> None) \<Longrightarrow> spares rid (c_db c) (c_db c')"
    and "\<And>h. c_up c' pid = Some h \<Longrightarrow> host_inv (as_process cfg pid) (c_db c') (view_of c' h) \<and> todo_ok (c_todo c' pid) h"
  shows "cluster_ok cfg c'"
proof -
  have "host_inv (as_process cfg p) (c_db c') (view_of c' h) \<and> todo_ok (c_todo c' p) h" if "c_up c' p = Some h" for p h
  proof (cases "p = pid")
    case False
    with that assms(3) have h: "c_up c p = Some h" by simp
    have "spares rid (c_db c) (c_db c')" if "g_exec h rid \<noteq> None" for rid
      using assms(4) h that False by blast
    from host_inv_rely [OF assms(1) h assms(2) this] cluster_ok_todo [OF assms(1) h] assms(3) [OF False]
    show ?thesis by (simp add: view_of_def)
  qed (use that assms(5) in simp)
  with assms(2) show ?thesis by (simp add: cluster_ok_def)
qed

lemma cluster_ok_carries_on:
  assumes "cluster_ok cfg c" and "host_inv (as_process cfg pid) (c_db c) h" and "todo_ok (c_todo c1 pid) h"
    and "c_up c1 = c_up c" and "\<And>p. p \<noteq> pid \<Longrightarrow> c_todo c1 p = c_todo c p"
    and "\<And>rid. (\<exists>p h. c_up c p = Some h \<and> p \<noteq> pid \<and> g_exec h rid \<noteq> None) \<Longrightarrow> spares rid (c_db c) (g_db h)"
  shows "cluster_ok cfg (carries_on pid h c1)"
proof (rule cluster_ok_change [where pid = pid, OF assms(1)])
  show "db_ok (s_workflows cfg) (c_db (carries_on pid h c1))" using host_inv_db [OF assms(2)] by simp
  show "host_inv (as_process cfg pid) (c_db (carries_on pid h c1)) (view_of (carries_on pid h c1) h') \<and>
      todo_ok (c_todo (carries_on pid h c1) pid) h'"
    if "c_up (carries_on pid h c1) pid = Some h'" for h'
    using that host_inv_rebase [OF assms(2)] assms(3) by (auto split: if_splits)
qed (use assms(4-6) in simp_all)

lemma cluster_ok_dies:
  assumes "cluster_ok cfg c" and "db_ok (s_workflows cfg) db"
    and "\<And>rid. (\<exists>p h. c_up c p = Some h \<and> p \<noteq> pid \<and> g_exec h rid \<noteq> None) \<Longrightarrow> spares rid (c_db c) db"
  shows "cluster_ok cfg (dies pid db c)"
  by (rule cluster_ok_change [where pid = pid, OF assms(1)]) (use assms(2,3) in simp_all)

lemma foreign_spares:
  assumes "cluster_ok cfg c" and "\<And>rid. foreign pid rid (c_db c) \<Longrightarrow> spares rid (c_db c) db"
    and "\<exists>p h. c_up c p = Some h \<and> p \<noteq> pid \<and> g_exec h rid \<noteq> None"
  shows "spares rid (c_db c) db"
  using assms(3) cluster_foreign [OF assms(1)] assms(2) by blast

text \<open>
  A round of \<^verbatim>\<open>resumeOrphans\<close>. When the run is not executed by another process, it may be
  claimed and started; when it is, its claim is not free, and the try loses.
\<close>

lemma resume_next_Some:
  assumes "resume_next cfg pid now t c = Some h'"
  obtains h rid rids where "c_up c pid = Some h" and "c_todo c pid = rid # rids"
    and "h' = resume_one (as_process cfg pid) now t rid (view_of c h)"
  using assms by (auto simp: resume_next_def split: option.splits list.splits)

lemma resume_next_keeps:
  assumes "host_inv (as_process cfg pid) (c_db c) (view_of c h)" and "todo_ok (rid # rids) h"
  shows "host_inv (as_process cfg pid) (c_db c) (resume_one (as_process cfg pid) now t rid (view_of c h))"
    and "todo_ok rids (resume_one (as_process cfg pid) now t rid (view_of c h))"
proof -
  show "host_inv (as_process cfg pid) (c_db c) (resume_one (as_process cfg pid) now t rid (view_of c h))"
    using assms by (intro resume_one_inv) (simp_all add: todo_ok_def)
  have "g_exec (resume_one (as_process cfg pid) now t rid (view_of c h)) x = g_exec h x" if "x \<noteq> rid" for x
    using agree_resume_one [OF that, of "view_of c h"] by (simp add: agree_def)
  with assms(2) show "todo_ok rids (resume_one (as_process cfg pid) now t rid (view_of c h))"
    unfolding todo_ok_def by (metis distinct.simps(2) list.set_intros(2))
qed

lemma renewed_not_claimable:
  assumes "cluster_ok cfg c" and "\<not> takes_from_live now rid c" and "c_up c p = Some h" and "g_exec h rid \<noteq> None"
  shows "\<exists>r. getRun rid (c_db c) = Some r \<and> \<not> claimable now r"
proof -
  obtain r where r: "getRun rid (c_db c) = Some r" "q_claim_holder r = Some p"
    using cluster_holder [OF assms(1,3,4)] by blast
  with assms(2-4) show ?thesis by (auto simp: takes_from_live_def claimable_def)
qed

lemma resume_next_sparing:
  assumes "cluster_ok cfg c" and "\<not> takes_from_live now rid c"
    and "\<exists>p h. c_up c p = Some h \<and> g_exec h rid' \<noteq> None"
  shows "sparing rid' (view_of c h) (resume_one (as_process cfg pid) now t rid (view_of c h))"
proof (cases "rid' = rid")
  case True
  with assms obtain r where "getRun rid (c_db c) = Some r" "\<not> claimable now r"
    using renewed_not_claimable by blast
  moreover have "keys_ok (c_db c)" using assms(1) by (simp add: cluster_ok_def db_ok_def)
  ultimately show ?thesis unfolding True by (intro resume_loses) simp_all
qed (auto intro: resume_sparing)

lemma renewed_resume:
  assumes "cluster_ok cfg c" and "resume_next cfg pid now t c = Some h'"
    and "case c_todo c pid of [] \<Rightarrow> True | rid # rids \<Rightarrow> \<not> takes_from_live now rid c"
  obtains h where "c_up c pid = Some h" and "host_inv (as_process cfg pid) (c_db c) h'" and "todo_ok (tl (c_todo c pid)) h'"
    and "\<And>rid. \<exists>p h. c_up c p = Some h \<and> g_exec h rid \<noteq> None \<Longrightarrow> sparing rid (view_of c h) h'"
proof -
  from assms(2) obtain h rid rids where h: "c_up c pid = Some h" "c_todo c pid = rid # rids"
    "h' = resume_one (as_process cfg pid) now t rid (view_of c h)" by (rule resume_next_Some)
  note todo = cluster_ok_todo [OF assms(1) h(1), unfolded h(2)]
  show thesis
  proof (rule that [OF h(1)])
    show "host_inv (as_process cfg pid) (c_db c) h'" "todo_ok (tl (c_todo c pid)) h'"
      using resume_next_keeps [OF cluster_ok_host [OF assms(1) h(1)] todo] h by simp_all
    show "sparing rid' (view_of c h) h'" if "\<exists>p h. c_up c p = Some h \<and> g_exec h rid' \<noteq> None" for rid'
      using resume_next_sparing [OF assms(1) _ that] assms(3) h by simp
  qed
qed

lemma sparing_db: "sparing rid h h' \<Longrightarrow> spares rid (g_db h) (g_db h')"
  by (simp add: sparing_def)

lemma sparing_torn: "sparing rid h h' \<Longrightarrow> g_commits h = [] \<Longrightarrow> n < length (g_commits h') \<Longrightarrow> spares rid (g_db h) (g_commits h' ! n)"
  by (auto simp: sparing_def)

text \<open>An action of a process, for the others.\<close>

lemma act_spares:
  assumes "cluster_ok cfg c" and "c_up c pid = Some h" and "sql_act (as_process cfg pid) (view_of c h) a h'"
    and "foreign pid rid (c_db c)"
  shows "spares rid (c_db c) (g_db h')" and "n < length (g_commits h') \<Longrightarrow> spares rid (c_db c) (g_commits h' ! n)"
proof -
  have "sparing rid (view_of c h) h'"
    using act_sparing [OF assms(3) cluster_ok_host [OF assms(1,2)], of rid] assms(4) by simp
  from sparing_db [OF this] sparing_torn [OF this, of n]
  show "spares rid (c_db c) (g_db h')" "n < length (g_commits h') \<Longrightarrow> spares rid (c_db c) (g_commits h' ! n)" by simp_all
qed

lemma act_host_inv:
  assumes "cluster_ok cfg c" and "c_up c pid = Some h" and "sql_act (as_process cfg pid) (view_of c h) a h'"
  shows "host_inv (as_process cfg pid) (c_db c) h'"
  by (rule sql_act_inv [OF assms(3) cluster_ok_host [OF assms(1,2)]])

lemma cluster_step_ok:
  assumes "renewed_step cfg c a c'" and "cluster_ok cfg c"
  shows "cluster_ok cfg c' \<and> db_evolves (c_db c) (c_db c')"
proof -
  note ok = assms(2)
  note fs = foreign_spares [OF ok]
  have db: "db_ok (s_workflows cfg) (c_db c)" using ok by (simp add: cluster_ok_def)
  from assms(1) have step: "cluster_step cfg c a c'" and ren: "claims_renewed c a" by (simp_all add: renewed_step_def)
  from step show ?thesis
  proof cases
    case (cluster_act pid h a h')
    note inv = act_host_inv [OF ok cluster_act(3,5)]
    have "cluster_ok cfg (carries_on pid h' c)"
      by (rule cluster_ok_carries_on [OF ok inv _ refl refl fs [OF act_spares(1) [OF ok cluster_act(3,5)]]])
         (simp_all add: cluster_act(4))
    with host_inv_facts(2) [OF inv] cluster_act(2) show ?thesis by simp
  next
    case (cluster_torn pid h a h' n)
    note facts = host_inv_facts(3) [OF act_host_inv [OF ok cluster_torn(3,5)] nth_mem [OF cluster_torn(6)]]
    have "cluster_ok cfg (dies pid (g_commits h' ! n) c)"
      by (rule cluster_ok_dies [OF ok _ fs [OF act_spares(2) [OF ok cluster_torn(3,5) _ cluster_torn(6)]]])
         (use facts in simp_all)
    with facts cluster_torn(2) show ?thesis by simp
  next
    case (cluster_start pid now)
    have "host_inv (as_process cfg pid) (c_db c) (new_process (c_db c))"
      using db by (simp add: host_inv_def tracked_def new_process_def)
    moreover have "todo_ok (findOrphansStmt now (c_db c)) (new_process (c_db c))"
      using db distinct_findOrphans by (simp add: todo_ok_def new_process_def db_ok_def)
    ultimately have "cluster_ok cfg (carries_on pid (new_process (c_db c)) (finds_orphans pid now c))"
      by (intro cluster_ok_carries_on [OF ok]) (simp_all add: new_process_def)
    with cluster_start(2) show ?thesis by (simp add: new_process_def)
  next
    case (cluster_resume pid now t h')
    from ren cluster_resume(1) have head: "case c_todo c pid of [] \<Rightarrow> True | rid # rids \<Rightarrow> \<not> takes_from_live now rid c"
      by (simp add: claims_renewed_def)
    obtain h where h: "host_inv (as_process cfg pid) (c_db c) h'" "todo_ok (tl (c_todo c pid)) h'"
      "\<And>rid. \<exists>p h. c_up c p = Some h \<and> g_exec h rid \<noteq> None \<Longrightarrow> sparing rid (view_of c h) h'"
      using renewed_resume [OF ok cluster_resume(3) head] by metis
    have "cluster_ok cfg (carries_on pid h' (has_tried pid c))"
    proof (rule cluster_ok_carries_on [OF ok h(1)])
      show "spares rid (c_db c) (g_db h')" if "\<exists>p h. c_up c p = Some h \<and> p \<noteq> pid \<and> g_exec h rid \<noteq> None" for rid
        using sparing_db [OF h(3) [of rid]] that by auto
    qed (use h(2) in simp_all)
    with host_inv_facts(2) [OF h(1)] cluster_resume(2) show ?thesis by simp
  next
    case (cluster_torn_resume pid now t h' n)
    from ren cluster_torn_resume(1) have head: "case c_todo c pid of [] \<Rightarrow> True | rid # rids \<Rightarrow> \<not> takes_from_live now rid c"
      by (simp add: claims_renewed_def)
    obtain h where h: "host_inv (as_process cfg pid) (c_db c) h'"
      "\<And>rid. \<exists>p h. c_up c p = Some h \<and> g_exec h rid \<noteq> None \<Longrightarrow> sparing rid (view_of c h) h'"
      using renewed_resume [OF ok cluster_torn_resume(3) head] by metis
    note facts = host_inv_facts(3) [OF h(1) nth_mem [OF cluster_torn_resume(4)]]
    have "cluster_ok cfg (dies pid (g_commits h' ! n) c)"
    proof (rule cluster_ok_dies [OF ok])
      show "spares rid (c_db c) (g_commits h' ! n)" if "\<exists>p h. c_up c p = Some h \<and> p \<noteq> pid \<and> g_exec h rid \<noteq> None" for rid
        using sparing_torn [OF h(2) [of rid] _ cluster_torn_resume(4)] that by auto
    qed (use facts in simp)
    with facts cluster_torn_resume(2) show ?thesis by simp
  next
    case (cluster_crash pid h)
    have "cluster_ok cfg (dies pid (c_db c) c)" by (rule cluster_ok_dies [OF ok db]) simp
    with cluster_crash(2) show ?thesis by simp
  next
    case (cluster_shutdown pid h)
    let ?db = "shutdown (as_process cfg pid) (view_of c h)"
    have okd: "db_ok (s_workflows cfg) ?db" using db by (simp add: shutdown_def db_ok_releaseAll)
    have "spares rid (c_db c) ?db" if "foreign pid rid (c_db c)" for rid
      using shutdown_spares [of "as_process cfg pid" rid "view_of c h"] that by simp
    from cluster_ok_dies [OF ok okd fs [OF this]] cluster_shutdown(2) show ?thesis
      by (simp add: shutdown_def db_evolves_releaseAll)
  qed
qed

interpretation cluster_sys: run_system "renewed_step cfg" "cluster_ok cfg" "\<lambda>c rid. run_view rid (c_db c)" row_evolves for cfg
proof unfold_locales
  show "row_evolves r1 r3" if "row_evolves r1 r2" "row_evolves r2 r3" for r1 r2 r3
    using that by (rule row_evolves_trans)
  show "cluster_ok cfg c'" if "renewed_step cfg c a c'" "cluster_ok cfg c" for c a c'
    using cluster_step_ok [OF that] by simp
  show "\<exists>r'. run_view rid (c_db c') = Some r' \<and> row_evolves r r'"
    if "renewed_step cfg c a c'" "cluster_ok cfg c" "run_view rid (c_db c) = Some r" for c a c' rid r
    using cluster_step_ok [OF that(1,2)] that(3) unfolding db_evolves_def by blast
qed simp

lemma renewed_reachable_ok: "renewed_reachable cfg c \<Longrightarrow> cluster_ok cfg c"
proof -
  have "cluster_ok cfg no_cluster" by (simp add: cluster_ok_def no_cluster_def)
  then show "renewed_reachable cfg c \<Longrightarrow> cluster_ok cfg c"
    unfolding renewed_reachable_def using cluster_sys.trace_ok by blast
qed

section \<open>One process of the cluster\<close>

text \<open>Process \<open>pid\<close> of the cluster is listening, where the single process \<open>h\<close> is.\<close>

definition follows :: "string \<Rightarrow> cluster \<Rightarrow> sql_host \<Rightarrow> bool" where
  "follows pid c h \<longleftrightarrow> c_todo c pid = [] \<and> (\<exists>h0. c_up c pid = Some h0 \<and> view_of c h0 = h\<lparr>g_commits := []\<rparr>)"

lemma follows_db: "follows pid c h \<Longrightarrow> c_db c = g_db h"
  unfolding follows_def by (metis cluster_fields(1) sql_host.select_convs(1) sql_host.surjective sql_host.update_convs(2))

lemma follows_view: "c_up c pid = Some h \<Longrightarrow> c_todo c pid = [] \<Longrightarrow> follows pid c (view_of c h)"
  by (simp add: follows_def view_of_def)

lemma world_view: "host_inv (as_process cfg pid) (c_db c) (view_of c h) \<Longrightarrow> world_ok cfg (Up pid (view_of c h))"
  by (simp add: world_ok_def view_of_def)

text \<open>The other processes, as they were.\<close>

definition others_same :: "string \<Rightarrow> cluster \<Rightarrow> cluster \<Rightarrow> bool" where
  "others_same pid c c' \<longleftrightarrow> (\<forall>p. p \<noteq> pid \<longrightarrow> c_up c' p = c_up c p \<and> c_todo c' p = c_todo c p)"

lemma others_same_trans: "others_same pid c1 c2 \<Longrightarrow> others_same pid c2 c3 \<Longrightarrow> others_same pid c1 c3"
  by (simp add: others_same_def)

lemma cluster_acts:
  assumes "sql_acts cfg (Up pid h) as w'" and "world_ok cfg (Up pid h)" and "follows pid c h"
  shows "\<exists>h' c'. w' = Up pid h' \<and> renewed_trace cfg c (map (CAct pid) as) c' \<and> follows pid c' h' \<and> others_same pid c c'"
  using assms
proof (induction as arbitrary: h c)
  case Nil
  then show ?case by (auto intro: trace_nil simp: others_same_def)
next
  case (Cons a as)
  from Cons.prems(1) obtain w1 where s: "sql_step cfg (Up pid h) (WAct a) w1" "sql_acts cfg w1 as w'"
    by (auto simp: trace_Cons_iff)
  obtain h1 where h1: "w1 = Up pid h1" "sql_act (as_process cfg pid) (h\<lparr>g_commits := []\<rparr>) a h1"
    "host_inv (as_process cfg pid) (g_db h) h1"
    using world_act [OF s(1) Cons.prems(2)] by blast
  have ok1: "world_ok cfg (Up pid h1)" using sql_step_ok [OF s(1) Cons.prems(2)] h1(1) by simp
  from Cons.prems(3) obtain h0 where h0: "c_todo c pid = []" "c_up c pid = Some h0" "view_of c h0 = h\<lparr>g_commits := []\<rparr>"
    by (auto simp: follows_def)
  from h1(2) have "sql_act (as_process cfg pid) (view_of c h0) a h1" unfolding h0(3) .
  from cluster_act [OF h0(2,1) this] have step: "renewed_step cfg c (CAct pid a) (carries_on pid h1 c)"
    by (simp add: renewed_step_def claims_renewed_def)
  have "follows pid (carries_on pid h1 c) h1"
    using host_inv_facts(1) [OF h1(3)] h0(1) by (simp add: follows_def)
  from Cons.IH [OF _ ok1 this] s(2) h1(1) obtain h' c' where
    "w' = Up pid h'" "renewed_trace cfg (carries_on pid h1 c) (map (CAct pid) as) c'" "follows pid c' h'"
    "others_same pid (carries_on pid h1 c) c'" by blast
  with trace_cons [where step = "renewed_step cfg", OF step] show ?case
    by (intro exI [of _ h'] exI [of _ c']) (simp add: others_same_def)
qed

section \<open>A start\<close>

text \<open>
  A process that tries its orphans without a pause claims every run that can be claimed, and its
  own steps end it: also when a live process executed the run. What \<open>Q\<close> says of a run at its
  launch and is kept when other runs are launched holds when the process listens.
\<close>

lemma resume_all:
  assumes "c_up c pid = Some h" and "c_todo c pid = rids" and "host_inv (as_process cfg pid) (c_db c) (view_of c h)"
    and "todo_ok rids h"
    and launch: "\<And>db0 h1. host_inv (as_process cfg pid) db0 h1 \<Longrightarrow> claimed (as_process cfg pid) rid h1 \<Longrightarrow>
      Q (sql_launch (as_process cfg pid) rid t h1)"
    and keep: "\<And>h1 h2. agree rid h1 h2 \<Longrightarrow> Q h1 \<Longrightarrow> Q h2"
  shows "\<exists>c' h'. cluster_trace cfg c (replicate (length rids) (CResume pid now t)) c' \<and> c_up c' pid = Some h' \<and>
    c_todo c' pid = [] \<and> host_inv (as_process cfg pid) (c_db c') (view_of c' h') \<and> others_same pid c c' \<and>
    (rid \<notin> set rids \<longrightarrow> agree rid (view_of c h) (view_of c' h')) \<and>
    (\<forall>r. rid \<in> set rids \<and> getRun rid (c_db c) = Some r \<and> claimable now r \<longrightarrow> Q (view_of c' h'))"
  using assms(1-4)
proof (induction rids arbitrary: c h)
  case Nil
  then show ?case by (auto intro: trace_nil simp: others_same_def)
next
  case (Cons x rids)
  let ?C = "as_process cfg pid"
  let ?h1 = "resume_one ?C now t x (view_of c h)"
  let ?c1 = "carries_on pid ?h1 (has_tried pid c)"
  have inv: "host_inv ?C (c_db c) ?h1" and todo: "todo_ok rids ?h1"
    using resume_next_keeps [OF Cons.prems(3,4)] by simp_all
  note up = host_inv_facts(1) [OF inv]
  have step: "cluster_step cfg c (CResume pid now t) ?c1"
    using Cons.prems(1,2) by (intro cluster_resume) (simp add: resume_next_def)
  have c1: "c_up ?c1 pid = Some ?h1" "c_todo ?c1 pid = rids" "view_of ?c1 ?h1 = ?h1\<lparr>g_commits := []\<rparr>" "c_db ?c1 = g_db ?h1"
    using Cons.prems(2) up by (simp_all add: view_of_def)
  have inv1: "host_inv ?C (c_db ?c1) (view_of ?c1 ?h1)" using host_inv_rebase [OF inv] c1 by simp
  from Cons.IH [OF c1(1,2) inv1 todo] obtain c' h' where
    c': "cluster_trace cfg ?c1 (replicate (length rids) (CResume pid now t)) c'" "c_up c' pid = Some h'"
      "c_todo c' pid = []" "host_inv ?C (c_db c') (view_of c' h')" "others_same pid ?c1 c'"
      "rid \<notin> set rids \<Longrightarrow> agree rid (view_of ?c1 ?h1) (view_of c' h')"
      "\<And>r. rid \<in> set rids \<Longrightarrow> getRun rid (c_db ?c1) = Some r \<Longrightarrow> claimable now r \<Longrightarrow> Q (view_of c' h')"
    by blast
  have same: "agree rid (view_of c h) (view_of ?c1 ?h1)" if "rid \<noteq> x"
    using agree_resume_one [OF that, of "view_of c h" ?C now t] c1(3) by (simp add: agree_def)
  have Q: "Q (view_of c' h')" if r: "rid \<in> set (x # rids)" "getRun rid (c_db c) = Some r" "claimable now r" for r
  proof (cases "rid = x")
    case True
    have none: "g_exec (view_of c h) rid = None" using Cons.prems(4) True by (simp add: todo_ok_def)
    obtain h2 where "?h1 = sql_launch ?C rid t h2" "host_inv ?C (c_db c) h2" "claimed ?C rid h2"
      using resume_one_claims [OF Cons.prems(3) none _ r(3), of t] r(2) True by auto
    then have "Q ?h1" using launch by simp
    moreover have "agree rid ?h1 (view_of ?c1 ?h1)" using c1(3) by (simp add: agree_def)
    moreover have "rid \<notin> set rids" using Cons.prems(4) True by (simp add: todo_ok_def)
    ultimately show ?thesis using c'(6) keep by blast
  next
    case False
    with same r c'(7) show ?thesis by (simp add: agree_def)
  qed
  have "others_same pid c c'" using c'(5) by (simp add: others_same_def)
  moreover have "agree rid (view_of c h) (view_of c' h')" if "rid \<notin> set (x # rids)"
    using agree_trans [OF same c'(6)] that by simp
  ultimately show ?case
    using trace_cons [where step = "cluster_step cfg", OF step c'(1)] c'(2-4) Q
    by (intro exI [of _ c'] exI [of _ h']) simp
qed

lemma start_claims:
  assumes "db_ok (s_workflows cfg) (c_db c)" and "c_up c pid = None" and "getRun rid (c_db c) = Some r" and "claimable now r"
  shows "\<exists>n c' h. cluster_trace cfg c (CStart pid now # replicate n (CResume pid now t)) c' \<and>
    world_ok cfg (Up pid h) \<and> follows pid c' h \<and> attended rid h \<and> uncancelled rid h \<and> others_same pid c c'"
proof -
  let ?C = "as_process cfg pid" and ?rids = "findOrphansStmt now (c_db c)" and ?h = "new_process (c_db c)"
  let ?c1 = "carries_on pid ?h (finds_orphans pid now c)"
  have inv: "host_inv ?C (c_db ?c1) (view_of ?c1 ?h)"
    using assms(1) by (simp add: host_inv_def tracked_def new_process_def view_of_def)
  have k: "keys_ok (c_db c)" using assms(1) by (simp add: db_ok_def)
  then have todo: "todo_ok ?rids ?h" using distinct_findOrphans by (simp add: todo_ok_def new_process_def)
  have "q_status r \<noteq> WaitingApproval" using assms(1,3) by (auto simp: db_ok_def run_row_ok_def)
  with assms(4) have "q_status r = Pending \<or> q_status r = Running \<or> q_status r = Cancelling"
    by (cases "q_status r") (simp_all add: is_terminal_def claimable_def)
  with assms(3,4) k have orphan: "rid \<in> set ?rids" by (simp add: findOrphans_iff claimable_def)
  have up: "c_up ?c1 pid = Some ?h" "c_todo ?c1 pid = ?rids" by (simp_all add: new_process_def)
  have "\<exists>c' h'. cluster_trace cfg ?c1 (replicate (length ?rids) (CResume pid now t)) c' \<and> c_up c' pid = Some h' \<and>
    c_todo c' pid = [] \<and> host_inv ?C (c_db c') (view_of c' h') \<and> others_same pid ?c1 c' \<and>
    (rid \<notin> set ?rids \<longrightarrow> agree rid (view_of ?c1 ?h) (view_of c' h')) \<and>
    (\<forall>r. rid \<in> set ?rids \<and> getRun rid (c_db ?c1) = Some r \<and> claimable now r \<longrightarrow>
      attended rid (view_of c' h') \<and> uncancelled rid (view_of c' h'))"
  proof (rule resume_all [OF up inv todo])
    show "attended rid (sql_launch ?C rid t h1) \<and> uncancelled rid (sql_launch ?C rid t h1)"
      if "host_inv ?C db0 h1" "claimed ?C rid h1" for db0 h1
      using sql_launch_over [OF that, of t] uncancelled_launch [OF that] by (auto simp: over_def)
    show "attended rid h2 \<and> uncancelled rid h2" if "agree rid h1 h2" "attended rid h1 \<and> uncancelled rid h1" for h1 h2
      using that by (simp add: agree_attended) (auto simp: uncancelled_def agree_def sql_status_def)
  qed
  then obtain c' h' where c': "cluster_trace cfg ?c1 (replicate (length ?rids) (CResume pid now t)) c'" "c_up c' pid = Some h'"
    "c_todo c' pid = []" "host_inv ?C (c_db c') (view_of c' h')" "others_same pid ?c1 c'"
    "attended rid (view_of c' h')" "uncancelled rid (view_of c' h')"
    using orphan assms(3,4) by (auto simp: new_process_def)
  have "others_same pid c c'" using c'(5) by (simp add: others_same_def)
  with trace_cons [where step = "cluster_step cfg", OF cluster_start [OF assms(2)] c'(1)] c'(6,7)
    world_view [OF c'(4)] follows_view [OF c'(2,3)]
  show ?thesis by (intro exI conjI)
qed

text \<open>The steps of its executor end a run, when no other process interferes.\<close>

lemma start_runs_on:
  assumes "db_ok (s_workflows cfg) (c_db c)" and "c_up c pid = None" and "getRun rid (c_db c) = Some r" and "claimable now r"
  shows "\<exists>n as c' r' wf. cluster_trace cfg c ((CStart pid now # replicate n (CResume pid now t)) @ map (CAct pid) as) c' \<and>
    list_all (own_act rid) as \<and> getRun rid (c_db c') = Some r' \<and> s_workflows cfg (q_workflow_id r') = Some wf \<and>
    q_status r' = natural_end (wf_nodes wf) \<and> db_ok (s_workflows cfg) (c_db c') \<and> others_same pid c c'"
proof -
  obtain n c1 h where
    c1: "cluster_trace cfg c (CStart pid now # replicate n (CResume pid now t)) c1" "world_ok cfg (Up pid h)"
      "follows pid c1 h" "attended rid h" "uncancelled rid h" "others_same pid c c1"
    using start_claims [OF assms, of t] by (elim exE conjE)
  from uncancelled_ends [OF c1(2,4,5)] obtain as w' r' wf where as: "sql_acts cfg (Up pid h) as w'" "list_all (own_act rid) as"
    "getRun rid (world_db w') = Some r'" "s_workflows cfg (q_workflow_id r') = Some wf" "q_status r' = natural_end (wf_nodes wf)"
    by blast
  from cluster_acts [OF as(1) c1(2,3)] obtain h' c' where
    c': "w' = Up pid h'" "renewed_trace cfg c1 (map (CAct pid) as) c'" "follows pid c' h'" "others_same pid c1 c'" by blast
  have "db_ok (s_workflows cfg) (c_db c')"
    using world_ok_db [OF sql_sys.trace_ok [OF as(1) c1(2)]] c'(1) follows_db [OF c'(3)] by simp
  moreover have "cluster_trace cfg c ((CStart pid now # replicate n (CResume pid now t)) @ map (CAct pid) as) c'"
    by (rule trace_append [OF c1(1) renewed_trace_cluster [OF c'(2)]])
  ultimately show ?thesis
    using as c'(1) follows_db [OF c'(3)] others_same_trans [OF c1(6) c'(4)]
    by (intro exI [of _ n] exI [of _ as] exI [of _ c'] exI [of _ r'] exI [of _ wf]) simp
qed

section \<open>Cancellation\<close>

text \<open>The statuses a run with an accepted cancellation can have.\<close>

definition doomed :: "string \<Rightarrow> sql_host \<Rightarrow> bool" where
  "doomed rid h \<longleftrightarrow> (\<exists>st \<in> {Cancelling, Cancelled, Failed}. sql_status rid h = Some st)"

definition cancelling :: "string \<Rightarrow> sql_host \<Rightarrow> bool" where
  "cancelling rid h \<longleftrightarrow> sql_status rid h = Some Cancelling"

lemma cancelling_doomed: "cancelling rid h \<Longrightarrow> doomed rid h"
  by (simp add: cancelling_def doomed_def)

lemma status_local [simp]:
  "cancelling rid (set_pc rid' p h) = cancelling rid h" "doomed rid (set_pc rid' p h) = doomed rid h"
  "doomed rid (drop_exec rid' h) = doomed rid h"
  by (simp_all add: cancelling_def doomed_def sql_status_def set_pc_def drop_exec_def)

lemma doomed_append: "doomed rid h \<Longrightarrow> doomed rid (snd (sql_appendEvent rid ty n d t h))"
  using sql_appendEvent_row [of rid rid ty n d t h] by (simp add: doomed_def sql_status_def)

lemma doomed_terminal:
  assumes "doomed rid h" and "st \<in> {Cancelled, Failed}"
  shows "doomed rid (setRunTerminal cfg rid st e t h)"
proof -
  from assms(1) obtain r where "getRun rid (g_db h) = Some r" by (auto simp: doomed_def sql_status_def)
  then have "sql_status rid (setRunTerminal cfg rid st e t h) = Some st"
    by (simp add: sql_status_def setRunTerminal_def Let_def sql_simps)
  with assms(2) show ?thesis by (auto simp: doomed_def)
qed

lemma doomed_then_append:
  assumes "doomed rid h" and "\<And>h1. doomed rid h1 \<Longrightarrow> doomed rid (snd (g h1))"
  shows "doomed rid (snd (then_do (sql_appendEvent rid ty n d t) g h))"
  using doomed_append [OF assms(1), of ty n d t] assms(2)
  by (cases "sql_appendEvent rid ty n d t h") (auto simp: then_do_def split: option.split)

lemma doomed_finish:
  "doomed rid h \<Longrightarrow> st \<in> {Cancelled, Failed} \<Longrightarrow> doomed rid (snd (sql_finish cfg rid st ty e t h))"
  unfolding sql_finish_def by (rule doomed_then_append) (simp_all add: doomed_terminal)

lemma doomed_fail: "doomed rid h \<Longrightarrow> doomed rid (snd (fail_internal cfg rid m t h))"
  unfolding fail_internal_def Let_def by (rule doomed_then_append) (simp_all add: doomed_terminal)

lemma doomed_outcome: "cancelling rid h \<Longrightarrow> doomed rid (snd (sql_outcome cfg rid x i oc t h))"
  using cancelling_doomed by (cases oc) (auto simp: sql_outcome_def sql_loop_def cancelling_def intro!: doomed_finish)

lemma doomed_try: "doomed rid (snd (body h)) \<Longrightarrow> doomed rid (snd (sql_try cfg rid t body h))"
  using doomed_fail [of rid "snd (body h)" cfg _ t]
  by (cases "body h") (auto simp: sql_try_def split: option.split prod.split, metis snd_conv)

lemma doomed_catch: "doomed rid (snd res) \<Longrightarrow> doomed rid (sql_catch cfg rid t res)"
proof (cases res)
  case (Pair r h)
  assume "doomed rid (snd res)"
  with Pair have d: "doomed rid (snd (fail_internal cfg rid m t h))" for m by (simp add: doomed_fail)
  have "doomed rid (h1\<lparr>g_crashed := True\<rparr>) = doomed rid h1" for h1 by (simp add: doomed_def sql_status_def)
  with d Pair \<open>doomed rid (snd res)\<close> show ?thesis
    by (auto simp: sql_catch_def split: option.split prod.split) (metis snd_conv)+
qed

lemma doomed_segment:
  assumes "sql_segment cfg rid t h = Some h'" and "cancelling rid h"
  shows "doomed rid h'"
proof -
  have pc: "doomed rid (snd (then_do (sql_appendEvent rid ty n d t) (\<lambda>h. (None, set_pc rid p h)) h))" for ty n d p
    by (rule doomed_then_append [OF cancelling_doomed [OF assms(2)]]) simp
  from assms show ?thesis
    by (auto simp: sql_segment_def Let_def split: option.splits pc.splits intro: doomed_catch doomed_try doomed_outcome pc)
qed

lemma cancelling_agree: "agree rid h h' \<Longrightarrow> cancelling rid h' = cancelling rid h"
  by (simp add: agree_def cancelling_def sql_status_def)

lemma cancelling_cancelled:
  assumes "cancelling rid h"
  shows "cancelling rid (cancelled_host rid h)"
proof -
  from assms obtain r where r: "getRun rid (g_db h) = Some r" "q_status r = Cancelling"
    by (auto simp: cancelling_def sql_status_def)
  then have "getRun rid (setCancelRequested rid (g_db h)) = Some (r\<lparr>q_status := Cancelling\<rparr>)"
    by (simp add: sql_simps)
  then show ?thesis
    by (simp add: cancelling_def sql_status_def cancelled_host_def abort_exec_def split: option.split)
qed

lemma doomed_act:
  assumes "sql_act cfg h a h'" and "cancelling rid h"
  shows "doomed rid h'"
  using assms(1)
proof cases
  case (act_request en rq)
  from assms(2) act_request have "new_run_id en \<noteq> rid" by (auto simp: cancelling_def sql_status_def)
  from sql_serve_effect [OF this, of h cfg rq] act_request show ?thesis
    using assms(2) cancelling_agree cancelling_cancelled cancelling_doomed by (auto simp: request_effect_def)
next
  case (act_segment rid' t)
  show ?thesis
  proof (cases "rid' = rid")
    case True
    with act_segment assms(2) show ?thesis by (auto intro: doomed_segment)
  next
    case False
    with other_runs.R_segment [OF act_segment(2)] have "agree rid h h'" by simp
    with assms(2) show ?thesis by (simp add: cancelling_doomed cancelling_agree)
  qed
next
  case (act_timer rid')
  then show ?thesis
    using assms(2) cancelling_doomed by (auto simp: sql_timer_def split: option.splits pc.splits)
next
  case (act_heartbeat rid' now)
  then show ?thesis
    using assms(2) cancelling_doomed
    by (auto simp: heartbeat_def doomed_def cancelling_def sql_status_def sql_simps split: if_splits)
next
  case (act_close rid' j)
  then show ?thesis
    using assms(2) by (simp add: sql_client_closes_def doomed_def cancelling_def sql_status_def)
qed

text \<open>The process an action belongs to, and the actions that end it.\<close>

fun actor :: "cluster_action \<Rightarrow> string" where
  "actor (CAct p a) = p"
| "actor (CTorn p a n) = p"
| "actor (CStart p now) = p"
| "actor (CResume p now t) = p"
| "actor (CTornResume p now t n) = p"
| "actor (CCrash p) = p"
| "actor (CShutdown p) = p"

fun is_act :: "cluster_action \<Rightarrow> bool" where
  "is_act (CAct p a) \<longleftrightarrow> True"
| "is_act _ \<longleftrightarrow> False"

lemma others_step:
  assumes "renewed_step cfg c a c'" and "cluster_ok cfg c" and "actor a \<noteq> pid"
    and "c_up c pid = Some h" and "g_exec h rid \<noteq> None"
  shows "spares rid (c_db c) (c_db c') \<and> c_up c' pid = Some h"
proof -
  have f: "foreign (actor a) rid (c_db c)"
    by (rule cluster_foreign [OF assms(2,4,5)]) (use assms(3) in simp)
  have live: "\<exists>p h. c_up c p = Some h \<and> g_exec h rid \<noteq> None" using assms(4,5) by blast
  from assms(1) have step: "cluster_step cfg c a c'" and ren: "claims_renewed c a" by (simp_all add: renewed_step_def)
  from step show ?thesis
  proof cases
    case (cluster_act p h1 a1 h')
    with act_spares(1) [OF assms(2) cluster_act(3,5)] f assms(3,4) show ?thesis by simp
  next
    case (cluster_torn p h1 a1 h' n)
    with act_spares(2) [OF assms(2) cluster_torn(3,5) _ cluster_torn(6)] f assms(3,4) show ?thesis by simp
  next
    case (cluster_start p now)
    with assms(3,4) show ?thesis by (simp add: new_process_def)
  next
    case (cluster_resume p now t h')
    from ren cluster_resume(1) have head: "case c_todo c p of [] \<Rightarrow> True | rid # rids \<Rightarrow> \<not> takes_from_live now rid c"
      by (simp add: claims_renewed_def)
    from renewed_resume [OF assms(2) cluster_resume(3) head] sparing_db live
    have "spares rid (c_db c) (g_db h')" by (metis cluster_fields(1))
    with cluster_resume assms(3,4) show ?thesis by simp
  next
    case (cluster_torn_resume p now t h' n)
    from ren cluster_torn_resume(1) have head: "case c_todo c p of [] \<Rightarrow> True | rid # rids \<Rightarrow> \<not> takes_from_live now rid c"
      by (simp add: claims_renewed_def)
    from renewed_resume [OF assms(2) cluster_torn_resume(3) head] sparing_torn cluster_torn_resume(4) live
    have "spares rid (c_db c) (g_commits h' ! n)" by (metis cluster_fields(1,2))
    with cluster_torn_resume assms(3,4) show ?thesis by simp
  next
    case (cluster_crash p h1)
    with assms(3,4) show ?thesis by simp
  next
    case (cluster_shutdown p h1)
    with shutdown_spares [of "as_process cfg p" rid "view_of c h1"] f assms(3,4) show ?thesis by simp
  qed
qed

text \<open>A cancelled run: over, but not completed, or about to end in process \<open>pid\<close>.\<close>

definition cancel_kept :: "string \<Rightarrow> string \<Rightarrow> cluster \<Rightarrow> bool" where
  "cancel_kept pid rid c \<longleftrightarrow>
     (\<exists>r. getRun rid (c_db c) = Some r \<and>
        (q_status r = Cancelled \<or> q_status r = Failed \<or>
         q_status r = Cancelling \<and> (\<exists>h. c_up c pid = Some h \<and> g_exec h rid \<noteq> None)))"

lemma q_status_unclaimed: "q_status (unclaimed r) = q_status r"
  by (simp add: unclaimed_def)

lemma cancel_kept_step:
  assumes "renewed_step cfg c a c'" and "cluster_ok cfg c" and "cancel_kept pid rid c" and "actor a = pid \<longrightarrow> is_act a"
  shows "cancel_kept pid rid c'"
proof -
  from assms(3) obtain r where r: "getRun rid (c_db c) = Some r"
    "q_status r = Cancelled \<or> q_status r = Failed \<or>
     q_status r = Cancelling \<and> (\<exists>h. c_up c pid = Some h \<and> g_exec h rid \<noteq> None)"
    by (auto simp: cancel_kept_def)
  show ?thesis
  proof (cases "q_status r = Cancelling")
    case False
    from cluster_step_ok [OF assms(1,2)] r(1) obtain r' where r': "getRun rid (c_db c') = Some r'"
      "row_evolves (r, rows_of rid (c_db c)) (r', rows_of rid (c_db c'))"
      by (fastforce simp: db_evolves_def run_view_def)
    with r(2) False have "unclaimed r' = unclaimed r" by (auto simp: row_evolves_def)
    then have "q_status r' = q_status r" by (metis q_status_unclaimed)
    with r' r(2) False show ?thesis by (auto simp: cancel_kept_def)
  next
    case True
    with r(2) obtain h where h: "c_up c pid = Some h" "g_exec h rid \<noteq> None" by auto
    show ?thesis
    proof (cases "actor a = pid")
      case False
      from others_step [OF assms(1,2) False h] r(1) True h show ?thesis
        by (auto simp: cancel_kept_def spares_def sql_simps)
    next
      case own: True
      with assms(4) obtain b where b: "a = CAct pid b" by (cases a) auto
      from assms(1) h b obtain h' where h': "sql_act (as_process cfg pid) (view_of c h) b h'" "c' = carries_on pid h' c"
        by (auto simp: renewed_step_def elim: cluster_step.cases)
      have "cancelling rid (view_of c h)" using r(1) True by (simp add: cancelling_def sql_status_def)
      note d = doomed_act [OF h'(1) this]
      have inv: "host_inv (as_process cfg pid) (c_db c) h'" by (rule act_host_inv [OF assms(2) h(1) h'(1)])
      have "attended rid h'"
        using sql_act_on_run [OF h'(1) cluster_ok_host [OF assms(2) h(1)], of rid] r(1) h(2)
        by (auto simp: acts_on_run_def attended_def)
      with d host_inv_facts(1) [OF inv] h'(2) show ?thesis
        by (auto simp: cancel_kept_def doomed_def sql_status_def attended_def)
    qed
  qed
qed

end
