(* ===== verification/ClusterProps.thy ===== *)
theory ClusterProps
  imports ClusterLaws
begin

text \<open>
  The properties of several SQLite processes on one database, with a history of two and three
  processes as witness.
\<close>

section \<open>A history\<close>

text \<open>
  Two processes start; the first makes a run and executes it. Or the first is killed then, and
  two others start at the same time: both find its run, both try to claim it.
\<close>

definition two_processes :: "cluster_action list" where
  "two_processes = [CStart ''p1'' 0, CStart ''p2'' 0, CAct ''p1'' (QRequest (demo_env 0 ''u'') demo_create)]"

definition two_starters :: "cluster_action list" where
  "two_starters = [CStart ''p1'' 0, CAct ''p1'' (QRequest (demo_env 0 ''u'') demo_create), CCrash ''p1'',
     CStart ''p2'' 40000, CStart ''p3'' 40000, CResume ''p3'' 40001 ''T'', CResume ''p2'' 40002 ''T'']"

definition cdemo :: "cluster_action list \<Rightarrow> cluster" where
  "cdemo as = the (cluster_run sdemo_cfg as no_cluster)"

definition cdemo_host :: "cluster_action list \<Rightarrow> string \<Rightarrow> sql_host" where
  "cdemo_host as p = the (c_up (cdemo as) p)"

definition cdemo_row :: "cluster_action list \<Rightarrow> run_row" where
  "cdemo_row as = the (getRun demo_id (c_db (cdemo as)))"

definition cdemo_runs :: "cluster_action list \<Rightarrow> string list \<Rightarrow> bool" where
  "cdemo_runs as ps \<longleftrightarrow>
     (case cluster_run sdemo_cfg as no_cluster of
        None \<Rightarrow> False
      | Some c \<Rightarrow> \<not> Option.is_none (getRun demo_id (c_db c)) \<and> list_all (\<lambda>p. \<not> Option.is_none (c_up c p)) ps)"

lemma cdemo_run:
  assumes "cdemo_runs as ps"
  shows "renewed_reachable sdemo_cfg (cdemo as)" and "getRun demo_id (c_db (cdemo as)) = Some (cdemo_row as)"
    and "p \<in> set ps \<Longrightarrow> c_up (cdemo as) p = Some (cdemo_host as p)"
proof -
  from assms obtain c where c: "cluster_run sdemo_cfg as no_cluster = Some c"
    "getRun demo_id (c_db c) \<noteq> None" "\<forall>p \<in> set ps. c_up c p \<noteq> None"
    by (auto simp: cdemo_runs_def Option.is_none_def list_all_iff split: option.splits)
  then have "cdemo as = c" by (simp add: cdemo_def)
  with c show "getRun demo_id (c_db (cdemo as)) = Some (cdemo_row as)" "p \<in> set ps \<Longrightarrow> c_up (cdemo as) p = Some (cdemo_host as p)"
    by (auto simp: cdemo_row_def cdemo_host_def)
  from cluster_run_trace [OF c(1)] \<open>cdemo as = c\<close> show "renewed_reachable sdemo_cfg (cdemo as)"
    unfolding renewed_reachable_def by blast
qed

lemma two_processes_run: "cdemo_runs two_processes [''p1'', ''p2'']"
  by code_simp

lemma two_processes_exec: "g_exec (cdemo_host two_processes ''p1'') demo_id \<noteq> None"
proof -
  have "\<not> Option.is_none (g_exec (cdemo_host two_processes ''p1'') demo_id)" by code_simp
  then show ?thesis by (simp add: Option.is_none_def)
qed

section \<open>Exclusion\<close>

text \<open>C20. Several processes on one database file keep apart, as long as the claims of live
  executors are renewed: no process, in its start, tries a run that a live process executes under
  an expired claim. Stretches of code of one process are atomic for the others, but processes
  may start at the same time and find the same orphans, one of which then loses the claim of a
  run it has found. Whatever requests, crashes between any two statements, shutdowns and starts
  happened, in any order, a run is executed by the holder of its claim and by no other process,
  by none when it is terminal, and its log is a sequence of sessions as with one process, the
  last complete for the status of a terminal run.\<close>

theorem processes_keep_apart:
  assumes "renewed_reachable cfg c" and "getRun rid (c_db c) = Some r"
  shows "{p. \<exists>h. c_up c p = Some h \<and> g_exec h rid \<noteq> None} \<subseteq>
      (if is_terminal (q_status r) then {} else set_option (q_claim_holder r)) \<and>
    (\<exists>wf ls. s_workflows cfg (q_workflow_id r) = Some wf \<and>
      map ev_shape (sql_log rid (c_db c)) = joined ls \<and> list_all (session_ok (wf_nodes wf)) ls \<and>
      (is_terminal (q_status r) \<longrightarrow> ls \<noteq> [] \<and> final_log (wf_nodes wf) (q_status r) (last ls)))"
proof
  note ok = renewed_reachable_ok [OF assms(1)]
  show "{p. \<exists>h. c_up c p = Some h \<and> g_exec h rid \<noteq> None} \<subseteq>
      (if is_terminal (q_status r) then {} else set_option (q_claim_holder r))"
    using cluster_holder [OF ok, of _ _ rid] assms(2) by fastforce
  have db: "db_ok (s_workflows cfg) (c_db c)" using ok by (simp add: cluster_ok_def)
  then have "map ev_shape (sql_log rid (c_db c)) = shapes_of rid (c_db c)"
    by (intro sql_log_shapes) (simp add: db_ok_def parsable_def)
  with db_ok_run [OF db assms(2)]
  show "\<exists>wf ls. s_workflows cfg (q_workflow_id r) = Some wf \<and>
      map ev_shape (sql_log rid (c_db c)) = joined ls \<and> list_all (session_ok (wf_nodes wf)) ls \<and>
      (is_terminal (q_status r) \<longrightarrow> ls \<noteq> [] \<and> final_log (wf_nodes wf) (q_status r) (last ls))"
    unfolding run_row_ok_def by metis
qed

lemma two_starters_run: "cdemo_runs two_starters [''p2'', ''p3'']"
  by code_simp

lemma processes_keep_apart_witness:
  "{p. \<exists>h. c_up (cdemo two_starters) p = Some h \<and> g_exec h demo_id \<noteq> None} = {''p3''}"
proof -
  have "\<not> is_terminal (q_status (cdemo_row two_starters)) \<and> q_claim_holder (cdemo_row two_starters) = Some ''p3''"
    by code_simp
  moreover have "\<not> Option.is_none (g_exec (cdemo_host two_starters ''p3'') demo_id)" by code_simp
  ultimately show ?thesis
    using processes_keep_apart [OF cdemo_run(1) [OF two_starters_run] cdemo_run(2) [OF two_starters_run]]
      cdemo_run(3) [OF two_starters_run, of "''p3''"] by (auto simp: Option.is_none_def)
qed

section \<open>Taking over\<close>



section \<open>An executor without its claim\<close>

text \<open>The next steps of an executor that nobody stops write to the log, on any database.\<close>

lemma executor_writes:
  assumes "c_up c p = Some h" and "c_todo c p = []" and "g_exec h rid = Some x" and "x_pc x \<noteq> Halted" and "\<not> g_crashed h"
    and "keys_ok (c_db c)" and "getRun rid (c_db c) \<noteq> None"
  shows "\<exists>bs c'. list_all (own_act rid) bs \<and> length bs \<le> 2 \<and> cluster_trace cfg c (map (CAct p) bs) c' \<and>
    length (rows_of rid (c_db c)) < length (rows_of rid (c_db c'))"
proof -
  have seg: "\<exists>c'. cluster_step cfg c (CAct p (QSegment rid [])) c' \<and> length (rows_of rid (c_db c)) < length (rows_of rid (c_db c'))"
    if up: "c_up c p = Some h" "c_todo c p = []" "g_exec h rid = Some x" "at_segment (x_pc x)"
      and db: "keys_ok (c_db c)" "getRun rid (c_db c) \<noteq> None" for c h x
  proof -
    obtain h' where h': "sql_segment (as_process cfg p) rid [] (view_of c h) = Some h'" "writes rid (view_of c h) h'"
      using segment_writes [of "view_of c h" rid x "as_process cfg p" "[]"] up(3,4) db by auto
    from cluster_act [OF up(1,2) act_segment [OF h'(1)]] h'(2) show ?thesis
      by (intro exI [of _ "carries_on p h' c"]) (simp add: writes_def)
  qed
  have one: ?thesis if at: "at_segment (x_pc x)"
  proof -
    obtain c' where "cluster_step cfg c (CAct p (QSegment rid [])) c'" "length (rows_of rid (c_db c)) < length (rows_of rid (c_db c'))"
      using seg [OF assms(1-3) at assms(6,7)] by blast
    then show ?thesis by (intro exI [of _ "[QSegment rid []]"] exI [of _ c']) (simp add: trace_single)
  qed
  show ?thesis
  proof (cases "x_pc x")
    case (Sleeping i ms)
    let ?h1 = "set_pc rid (Woken i) (view_of c h)"
    have "sql_timer rid (view_of c h) = Some ?h1" using assms(3) Sleeping by (simp add: sql_timer_def)
    from cluster_act [OF assms(1,2) act_timer [OF this]]
    have s1: "cluster_step cfg c (CAct p (QTimer rid)) (carries_on p ?h1 c)" .
    have same: "c_db (carries_on p ?h1 c) = c_db c" by simp
    have "\<not> g_crashed ?h1" using assms(5) by (simp add: set_pc_def view_of_def)
    then obtain c' where c': "cluster_step cfg (carries_on p ?h1 c) (CAct p (QSegment rid [])) c'"
      "length (rows_of rid (c_db c)) < length (rows_of rid (c_db c'))"
      using seg [of "carries_on p ?h1 c" ?h1 "x\<lparr>x_pc := Woken i\<rparr>"] assms(2,3,6,7) same
      by (auto simp: at_segment_def set_pc_def)
    then have "cluster_trace cfg (carries_on p ?h1 c) [CAct p (QSegment rid [])] c'" by (simp add: trace_single)
    with trace_cons [where step = "cluster_step cfg", OF s1] c'(2) show ?thesis
      by (intro exI [of _ "[QTimer rid, QSegment rid []]"] exI [of _ c']) simp
  next
    case Halted
    with assms(4) show ?thesis by simp
  qed (rule one, simp add: at_segment_def)+
qed



section \<open>Cancelling at another process\<close>

lemma sql_serve_cancel:
  assumes "getRun rid (g_db h) = Some r" and "\<not> is_terminal (q_status r)"
    and "run_request ''POST'' [''cancel''] rid rq" and "authorized (s_api_key cfg) rq"
  shows "sql_serve cfg en rq h =
    (sendJSON 200 (JObj [(''runId'', JStr rid), (''status'', JStr ''cancelling'')]) [], cancelled_host rid h)"
proof -
  have "sql_route cfg en rq h = sql_handleCancelRun cfg rq rid h"
    using assms(3) by (simp add: run_request_def sql_route_def patterns_path_of)
  moreover have "checkAuth (s_api_key cfg) rq = None" using assms(4) by (simp add: checkAuth_None)
  ultimately show ?thesis
    using assms(1,2) by (simp add: sql_serve_def sql_handleCancelRun_def sql_with_run_def cancelled_host_def)
qed



end
