(* ===== verification/SqlStreams.thy ===== *)
theory SqlStreams
  imports SqlDemo
begin

text \<open>
  The event streams of the SQLite host. A response is fed from the event bus of its process:
  every event appended to the run goes to the listeners. The invariant \<open>streams_ok\<close> says of
  every response what \<open>sub_ok\<close> says of those of the in-memory host, with the log read from
  the database; the executor keeps it because each append goes to both.
\<close>

section \<open>The invariant\<close>

definition stream_ok :: "string \<Rightarrow> sql_host \<Rightarrow> bool" where
  "stream_ok rid h \<longleftrightarrow>
     (getRun rid (g_db h) = None \<longrightarrow> g_subs h rid = []) \<and>
     (\<forall>r s. getRun rid (g_db h) = Some r \<longrightarrow> s \<in> set (g_subs h rid) \<longrightarrow>
        sub_ok (sql_log rid (g_db h)) (is_terminal (q_status r)) s)"

definition streams_ok :: "sql_host \<Rightarrow> bool" where
  "streams_ok h \<longleftrightarrow> (\<forall>rid. stream_ok rid h)"

lemma sql_log_rows_of: "rows_of rid db' = rows_of rid db \<Longrightarrow> sql_log rid db' = sql_log rid db"
  by (simp add: sql_log_def)

lemma stream_ok_same:
  assumes "stream_ok rid h" and "g_subs h' rid = g_subs h rid" and "rows_of rid (g_db h') = rows_of rid (g_db h)"
    and "map_option (\<lambda>r. is_terminal (q_status r)) (getRun rid (g_db h')) =
      map_option (\<lambda>r. is_terminal (q_status r)) (getRun rid (g_db h))"
  shows "stream_ok rid h'"
  using assms(1,2,4) sql_log_rows_of [OF assms(3)] by (auto simp: stream_ok_def)

lemma streams_ok_commit:
  assumes "streams_ok h" and "t_events db = t_events (g_db h)"
    and "\<And>rid. map_option (\<lambda>r. is_terminal (q_status r)) (getRun rid db) =
      map_option (\<lambda>r. is_terminal (q_status r)) (getRun rid (g_db h))"
  shows "streams_ok (commit db h)"
  unfolding streams_ok_def
proof
  fix rid
  have "stream_ok rid h" using assms(1) by (simp add: streams_ok_def)
  then show "stream_ok rid (commit db h)"
    by (rule stream_ok_same) (simp_all only: host_fields rows_of_events [OF assms(2)] assms(3))
qed

lemma streams_ok_local: "streams_ok h \<Longrightarrow> g_db h' = g_db h \<Longrightarrow> g_subs h' = g_subs h \<Longrightarrow> streams_ok h'"
  by (simp add: streams_ok_def stream_ok_def)

lemma no_subs_ok: "g_subs h rid = [] \<Longrightarrow> stream_ok rid h"
  by (simp add: stream_ok_def)

text \<open>The executor of a run feeds the streams of no other run, and opens none.\<close>

interpretation other_streams: executor_frame rid "\<lambda>h h'. \<forall>rid'. rid' \<noteq> rid \<longrightarrow> g_subs h' rid' = g_subs h rid'" for rid
proof unfold_locales
  show "\<forall>rid'. rid' \<noteq> rid \<longrightarrow> g_subs (snd (sql_appendEvent rid ty nid d t h)) rid' = g_subs h rid'" for h ty nid d t
    by (simp add: sql_appendEvent_def Let_def split: sum.split)
qed simp_all

interpretation no_streams: executor_frame rid "\<lambda>h h'. \<forall>rid'. g_subs h rid' = [] \<longrightarrow> g_subs h' rid' = []" for rid
proof unfold_locales
  show "\<forall>rid'. g_subs h rid' = [] \<longrightarrow> g_subs (snd (sql_appendEvent rid ty nid d t h)) rid' = []" for h ty nid d t
    by (simp add: sql_appendEvent_def Let_def split: sum.split)
qed simp_all

lemma stream_ok_agree:
  assumes "stream_ok rid h" and "agree rid h h'" and "g_subs h' rid = g_subs h rid"
  shows "stream_ok rid h'"
  using assms by (intro stream_ok_same [OF assms(1)]) (simp_all add: agree_def)

section \<open>The executor\<close>

definition served :: "bool \<Rightarrow> string \<Rightarrow> sql_host \<Rightarrow> bool" where
  "served b rid h \<longleftrightarrow> log_inv rid (g_db h) \<and> (\<forall>s \<in> set (g_subs h rid). sub_ok (sql_log rid (g_db h)) b s)"

definition live :: "string \<Rightarrow> sql_host \<Rightarrow> bool" where
  "live rid h \<longleftrightarrow> served False rid h \<and> (\<exists>st. sql_status rid h = Some st \<and> \<not> is_terminal st)"

lemma live_ok: "live rid h \<Longrightarrow> stream_ok rid h"
  by (auto simp: live_def served_def stream_ok_def sql_status_def)

lemma local_streams [simp]:
  "live rid (set_pc rid' p h) = live rid h" "stream_ok rid (set_pc rid' p h) = stream_ok rid h"
  "stream_ok rid (drop_exec rid' h) = stream_ok rid h" "served b rid (set_pc rid' p h) = served b rid h"
  by (simp_all add: live_def served_def stream_ok_def sql_status_def set_pc_def drop_exec_def)

lemma served_append:
  assumes "served False rid h" and "data_ok d" and "null_as_none d = d"
  shows "ends_in (\<lambda>h'. served (ends_stream ty) rid h' \<and> sql_status rid h' = sql_status rid h) (sql_appendEvent rid ty nid d t h)"
proof -
  let ?e = "\<lparr>e_seq = countEvents rid (g_db h), e_runId = rid, e_type = ty, e_nodeId = nid, e_data = d, e_timestamp = t\<rparr>"
  let ?db = "(g_db h)\<lparr>t_events := t_events (g_db h) @ [row_of_event ?e]\<rparr>"
  from assms(1) have inv: "log_inv rid (g_db h)" by (simp add: served_def)
  then have ins: "insertEvent (row_of_event ?e) (g_db h) = Inr ?db"
    by (intro insertEvent_next) (simp_all add: log_inv_def row_of_event_def)
  then have app: "sql_appendEvent rid ty nid d t h =
      (None, (commit ?db h)\<lparr>g_subs := (g_subs h)(rid := map (onEvent ?e) (g_subs h rid))\<rparr>)"
    using assms(3) by (simp add: sql_appendEvent_def Let_def)
  have sql: "sql_append rid (g_db h) ty nid d t = ?db"
    using ins assms(3) by (simp add: sql_append_def sql_appendEvent_def Let_def new_process_def)
  have num: "countEvents rid (g_db h) = length (sql_log rid (g_db h))"
    using inv by (simp add: log_inv_def sql_log_rows countEvents_def)
  note laws = sql_log.log_append [of rid "g_db h" d ty nid t] sql_log.inv_append [of rid "g_db h" d ty nid t]
  have log: "sql_log rid ?db = sql_log rid (g_db h) @ [?e]" "log_inv rid ?db"
    using laws inv assms(2,3) unfolding sql num by simp_all
  have "sub_ok (sql_log rid ?db) (ends_stream ty) (onEvent ?e s)" if "s \<in> set (g_subs h rid)" for s
    using sub_ok_onEvent [of "sql_log rid (g_db h)" s ?e] assms(1) that by (simp add: log(1) served_def)
  with log(2) show ?thesis by (simp add: app served_def ends_in_def sql_status_def)
qed

lemma append_live:
  assumes "live rid h" and "data_ok d" and "null_as_none d = d" and "\<not> ends_stream ty"
  shows "ends_in (live rid) (sql_appendEvent rid ty nid d t h)"
  using served_append [of rid h d ty nid t] assms by (auto simp: ends_in_def live_def)

lemma terminal_ok:
  assumes "served True rid h" and "is_terminal st"
  shows "stream_ok rid (setRunTerminal cfg rid st e t h)"
proof -
  let ?h = "setRunTerminal cfg rid st e t h"
  have rows: "rows_of rid (g_db ?h) = rows_of rid (g_db h)"
    by (rule rows_of_events) (simp add: setRunTerminal_def Let_def sql_simps)
  have subs: "g_subs ?h = g_subs h" by (simp add: setRunTerminal_def Let_def)
  from assms(1) obtain r where "getRun rid (g_db h) = Some r" by (auto simp: served_def log_inv_def)
  then have "\<exists>r'. getRun rid (g_db ?h) = Some r' \<and> q_status r' = st"
    by (simp add: setRunTerminal_def Let_def sql_simps)
  then obtain r' where "getRun rid (g_db ?h) = Some r'" "q_status r' = st" by blast
  with assms show ?thesis
    unfolding stream_ok_def subs served_def sql_log_rows_of [OF rows] by simp
qed

lemma null_as_none_error [simp]: "null_as_none (map_option error_json e) = map_option error_json e"
  by (cases e) (simp_all add: null_as_none_def error_json_def)

lemma finish_ok:
  assumes "live rid h" and "ends_stream ty" and "is_terminal st"
  shows "ends_in (stream_ok rid) (sql_finish cfg rid st ty err t h)"
  unfolding sql_finish_def
proof (rule ends_in_then [where P = "served True rid"])
  show "ends_in (served True rid) (sql_appendEvent rid ty None (map_option error_json err) t h)"
    using served_append [of rid h "map_option error_json err" ty None t] assms(1,2)
    by (simp add: live_def ends_in_def)
qed (simp add: terminal_ok assms(3))

lemma null_as_none_simps [simp]: "null_as_none None = None" "null_as_none (Some (JObj fs)) = Some (JObj fs)"
  by (simp_all add: null_as_none_def)

lemma append_pc_ok:
  assumes "live rid h" and "data_ok d" and "null_as_none d = d" and "\<not> ends_stream ty"
  shows "ends_in (stream_ok rid) (then_do (sql_appendEvent rid ty nid d t) (\<lambda>h. (None, set_pc rid p h)) h)"
  by (rule ends_in_then_pc [where P = "live rid"]) (simp_all add: append_live assms live_ok)

lemma executeNode_ok:
  assumes "live rid h"
  shows "ends_in (stream_ok rid) (sql_executeNode rid n inputs a i t h)"
proof -
  have more: "ends_in (stream_ok rid) (then_do (sql_appendEvent rid ty nid d t) (\<lambda>h. (None, set_pc rid p h)) h1)"
    if "live rid h1" "data_ok d" "null_as_none d = d" "\<not> ends_stream ty" for h1 ty nid d p
    using that by (rule append_pc_ok)
  have start: "ends_in (stream_ok rid) (then_do (sql_appendEvent rid NodeStarted nid None t) k h)"
    if "\<And>h1. live rid h1 \<Longrightarrow> ends_in (stream_ok rid) (k h1)" for nid k
    by (rule ends_in_then [where P = "live rid"]) (simp_all add: append_live assms that)
  show ?thesis
    using assms by (auto simp: sql_executeNode_def live_ok intro!: more start)
qed

lemma stream_loop_ok: "live rid h \<Longrightarrow> ends_in (stream_ok rid) (sql_loop cfg rid x i t h)"
  by (simp add: sql_loop_def finish_ok executeNode_ok)

lemma outcome_ok: "live rid h \<Longrightarrow> ends_in (stream_ok rid) (sql_outcome cfg rid x i oc t h)"
  by (cases oc) (simp_all add: sql_outcome_def finish_ok stream_loop_ok)

lemma try_ok: "ends_in (stream_ok rid) (body h) \<Longrightarrow> ends_in (stream_ok rid) (sql_try cfg rid t body h)"
  by (cases "body h") (auto simp: sql_try_def ends_in_def)

lemma exec_live:
  assumes "host_inv cfg db0 h" and "g_exec h rid = Some x" and "streams_ok h"
  shows "live rid h"
proof -
  from host_inv_exec [OF assms(1,2)] obtain r where r: "getRun rid (g_db h) = Some r" "\<not> is_terminal (q_status r)"
    by (auto simp: exec_ok_def owned_def)
  with host_inv_db [OF assms(1)] have "log_inv rid (g_db h)" by (simp add: log_inv_def db_ok_def parsable_def)
  with r assms(3) show ?thesis
    by (fastforce simp: live_def served_def sql_status_def streams_ok_def stream_ok_def)
qed

lemma segment_ok:
  assumes "sql_segment cfg rid t h = Some h'" and "host_inv cfg db0 h" and "streams_ok h"
  shows "streams_ok h'"
  unfolding streams_ok_def
proof
  fix rid'
  show "stream_ok rid' h'"
  proof (cases "rid' = rid")
    case False
    with other_runs.R_segment [OF assms(1)] other_streams.R_segment [OF assms(1)] assms(3) show ?thesis
      by (auto simp: streams_ok_def intro: stream_ok_agree)
  next
    case True
    from assms(1) obtain x where x: "g_exec h rid = Some x" by (auto simp: sql_segment_def split: option.splits)
    have live: "live rid h" by (rule exec_live [OF assms(2) x assms(3)])
    have go: "stream_ok rid (sql_catch cfg rid t (sql_try cfg rid t body h))"
      if "ends_in (stream_ok rid) (body h)" for body
      using ends_in_catch [OF try_ok [where body = body, OF that]] .
    have "stream_ok rid h'"
      using assms(1) x by (auto simp: sql_segment_def Let_def split: pc.splits
          intro!: go append_pc_ok outcome_ok live)
    with True show ?thesis by simp
  qed
qed

section \<open>Starts and requests\<close>

lemma resume_streams:
  assumes "streams_ok h" and "g_subs h rid = []"
  shows "streams_ok (resume_one cfg now t rid h)"
  unfolding streams_ok_def
proof
  fix rid'
  show "stream_ok rid' (resume_one cfg now t rid h)"
  proof (cases "rid' = rid")
    case True
    with assms(2) no_streams.R_resume_one [where h = h and cfg = cfg and now = now and t = t and rid = rid] show ?thesis by (simp add: no_subs_ok)
  next
    case False
    then have "g_subs (resume_one cfg now t rid h) rid' = g_subs h rid'"
      using other_streams.R_resume_one [where rid = rid and h = h and cfg = cfg and now = now and t = t] by blast
    moreover have "stream_ok rid' h" using assms(1) by (simp add: streams_ok_def)
    ultimately show ?thesis using agree_resume_one [OF False] by (blast intro: stream_ok_agree)
  qed
qed

lemma boot_streams: "streams_ok (sql_boot cfg now t db)"
proof -
  have "g_subs (fold (resume_one cfg now t) rids h) = (\<lambda>_. [])" if "g_subs h = (\<lambda>_. [])" for rids h
    using that
  proof (induction rids arbitrary: h)
    case (Cons rid rids)
    have "g_subs (resume_one cfg now t rid h) = (\<lambda>_. [])"
      using no_streams.R_resume_one [where h = h and cfg = cfg and now = now and t = t and rid = rid] Cons.prems by (simp add: fun_eq_iff)
    with Cons.IH show ?case by simp
  qed simp
  from this [of "new_process db" "findOrphansStmt now db"] show ?thesis
    by (simp add: sql_boot_fold streams_ok_def no_subs_ok new_process_def)
qed

lemma streams_ok_idem: "streams_ok h \<Longrightarrow> streams_ok (commit ((g_db h)\<lparr>t_idem := rows\<rparr>) h)"
  by (rule streams_ok_commit) simp_all

lemma streams_ok_insert:
  assumes "streams_ok h" and "insertRun rid wid st inputs t (g_db h) = Inr db"
  shows "streams_ok (commit db h)" and "g_subs h rid = []"
proof -
  from assms(2) have new: "getRun rid (g_db h) = None" by (auto simp: insertRun_def getRun_def split: if_splits)
  with assms(1) show subs: "g_subs h rid = []" by (simp add: streams_ok_def stream_ok_def)
  show "streams_ok (commit db h)"
    unfolding streams_ok_def
  proof
    fix rid'
    have rows: "rows_of rid' db = rows_of rid' (g_db h)"
      using assms(2) by (intro rows_of_events) (auto simp: insertRun_def split: if_splits)
    show "stream_ok rid' (commit db h)"
    proof (cases "rid' = rid")
      case False
      then have row: "getRun rid' db = getRun rid' (g_db h)" using insertRun_others [OF assms(2)] by blast
      have "stream_ok rid' h" using assms(1) by (simp add: streams_ok_def)
      then show ?thesis by (rule stream_ok_same) (simp_all only: host_fields rows row)
    qed (simp add: subs no_subs_ok)
  qed
qed

lemma createRun_streams:
  assumes "streams_ok h"
  shows "streams_ok (snd (sql_createRun cfg en wid inputs key hash h))"
proof (cases "insertRun (new_run_id en) wid Pending (stringify inputs) (iso en) (g_db h)")
  case (Inr db)
  note ins = streams_ok_insert [OF assms Inr]
  let ?resume = "resume_one cfg (now_ms en) (iso en) (new_run_id en)"
  have "streams_ok (commit (db\<lparr>t_idem := rows\<rparr>) (commit db h))" for rows
    using streams_ok_idem [OF ins(1)] by simp
  then have ok: "streams_ok (?resume (commit db h))" "streams_ok (?resume (commit (db\<lparr>t_idem := rows\<rparr>) (commit db h)))" for rows
    using ins by (simp_all add: resume_streams)
  show ?thesis
  proof (cases key)
    case None
    with Inr ok(1) show ?thesis by (simp add: sql_createRun_def Let_def)
  next
    case (Some k)
    let ?e = "\<lparr>d_status = 201, d_body = stringify (created_body (new_run_id en) wid (iso en)), d_body_hash = hash, d_stored_at = now_ms en\<rparr>"
    show ?thesis
      using Inr Some ok(2) ins(1)
      by (cases "insertIdempotency (buildIdempotencyCacheKey (s_sha256 cfg) ''POST /v1/runs'' k) ?e (t_idem db)")
         (simp_all add: sql_createRun_def Let_def)
  qed
qed (simp add: sql_createRun_def Let_def assms)

lemma handleCreateRun_streams: "streams_ok h \<Longrightarrow> streams_ok (snd (sql_handleCreateRun cfg en rq h))"
  using createRun_streams streams_ok_idem
  by (simp add: sql_handleCreateRun_def Let_def split: option.split create_check.split)

lemma with_run_streams:
  assumes "streams_ok h" and "\<And>r. getRun rid (g_db h) = Some r \<Longrightarrow> streams_ok (snd (k r))"
  shows "streams_ok (snd (sql_with_run cfg rq h rid k))"
  using assms by (simp add: sql_with_run_def split: option.split)

lemma cancel_streams: "streams_ok h \<Longrightarrow> streams_ok (abort_exec rid (commit (setCancelRequested rid (g_db h)) h))"
proof -
  assume ok: "streams_ok h"
  have "map_option (\<lambda>r. is_terminal (q_status r)) (getRun rid' (setCancelRequested rid (g_db h))) =
      map_option (\<lambda>r. is_terminal (q_status r)) (getRun rid' (g_db h))" for rid'
    by (cases "rid' = rid"; cases "getRun rid' (g_db h)") (simp_all add: sql_simps)
  then have "streams_ok (commit (setCancelRequested rid (g_db h)) h)"
    by (intro streams_ok_commit [OF ok]) (simp_all add: sql_simps)
  then show ?thesis
    by (rule streams_ok_local) (simp_all add: abort_exec_def set_exec_def split: option.split)
qed

text \<open>A new response holds the events after its resume point.\<close>

lemma page_of_log:
  assumes "log_inv rid db"
  shows "events_of_rows (getEventsAfter rid x db) = Some (events_after x (sql_log rid db))"
proof -
  have "\<forall>v \<in> set (getEventsAfter rid x db). event_of_row v \<noteq> None"
    using assms by (auto simp: log_inv_def parsable_def getEventsAfter_def rows_of_def)
  then have "events_of_rows (getEventsAfter rid x db) \<noteq> None" by (simp add: events_of_rows_map)
  then show ?thesis using sql_log.read_after [OF assms, of x] by (auto simp: sql_read_after_def)
qed

lemma sse_streams:
  assumes "streams_ok h" and "db_ok ws (g_db h)"
  shows "streams_ok (snd (sql_handleEventsSse cfg rq rid h))"
  unfolding sql_handleEventsSse_def
proof (rule with_run_streams [OF assms(1)])
  fix r
  assume r: "getRun rid (g_db h) = Some r"
  with assms(2) have "log_inv rid (g_db h)" by (simp add: log_inv_def db_ok_def parsable_def)
  note page = page_of_log [OF this, of "resume_after rq"]
  let ?s = "subscribe (resume_after rq) (is_terminal (q_status r)) (sql_log rid (g_db h))"
  let ?h = "h\<lparr>g_subs := (g_subs h)(rid := g_subs h rid @ [?s])\<rparr>"
  have "stream_ok rid' ?h" for rid'
    using assms(1) r sub_ok_subscribe by (auto simp: streams_ok_def stream_ok_def)
  then have "streams_ok ?h" by (simp add: streams_ok_def)
  then show "streams_ok (snd (case events_of_rows (getEventsAfter rid (resume_after rq) (g_db h)) of
      None \<Rightarrow> (Inr (Stream sse_headers), h)
    | Some backlog \<Rightarrow> (Inr (Stream sse_headers), h\<lparr>g_subs := (g_subs h)(rid := g_subs h rid @
         [\<lparr>s_after = resume_after rq, s_out = backlog, s_ended = is_terminal (q_status r),
           s_listening = \<not> is_terminal (q_status r)\<rparr>])\<rparr>)))"
    by (simp add: page subscribe_def)
qed

lemma handlers_streams:
  assumes "streams_ok h"
  shows "streams_ok (snd (sql_handleGetRun cfg rq rid h))" "streams_ok (snd (sql_handleEventsPoll cfg rq rid h))"
    "streams_ok (snd (sql_handleDebugBundle cfg en rq rid h))" "streams_ok (snd (sql_handleCancelRun cfg rq rid h))"
  unfolding sql_handleGetRun_def sql_handleEventsPoll_def sql_handleDebugBundle_def sql_handleCancelRun_def
  by (rule with_run_streams [OF assms]; simp add: assms cancel_streams Let_def split: option.split)+

lemma serve_streams:
  assumes "streams_ok h" and "db_ok ws (g_db h)"
  shows "streams_ok (snd (sql_serve cfg en rq h))"
proof -
  have "streams_ok (snd (sql_route cfg en rq h))"
    by (rule sql_route_cases;
        (rule handleCreateRun_streams [OF assms(1)] handlers_streams [OF assms(1)] sse_streams [OF assms] | simp add: assms(1)))
  then show ?thesis by (cases "sql_route cfg en rq h") (auto simp: sql_serve_def split: sum.split)
qed

section \<open>Every step\<close>

lemma act_streams:
  assumes "sql_act cfg h a h'" and "host_inv cfg db0 h" and "streams_ok h"
  shows "streams_ok h'"
  using assms(1)
proof cases
  case (act_request en rq)
  with serve_streams [OF assms(3) host_inv_db [OF assms(2)]] show ?thesis by simp
next
  case (act_segment rid t)
  with segment_ok assms(2,3) show ?thesis by blast
next
  case (act_timer rid)
  then have "g_db h' = g_db h" "g_subs h' = g_subs h"
    by (auto simp: sql_timer_def set_pc_def split: option.splits pc.splits)
  with streams_ok_local [OF assms(3)] show ?thesis by blast
next
  case (act_heartbeat rid now)
  let ?db = "renewClaimStmt (now + s_claim_ttl cfg) rid (s_pid cfg) (g_db h)"
  have "map_option (\<lambda>r. is_terminal (q_status r)) (getRun rid' ?db) =
      map_option (\<lambda>r. is_terminal (q_status r)) (getRun rid' (g_db h))" for rid'
    by (cases "rid' = rid"; cases "getRun rid' (g_db h)") (simp_all add: sql_simps)
  then have "streams_ok (commit ?db h)" by (intro streams_ok_commit [OF assms(3)]) (simp_all add: sql_simps)
  with act_heartbeat show ?thesis by (auto simp: heartbeat_def split: if_splits)
next
  case (act_close rid j)
  have "sub_ok l b s" if "s \<in> set (ss[j := (ss ! j)\<lparr>s_listening := False\<rparr>])" "\<forall>s \<in> set ss. sub_ok l b s" "j < length ss" for l b s ss
    using that set_update_subset_insert [of ss j] sub_ok_closed nth_mem [of j ss] by blast
  with act_close assms(3) show ?thesis
    by (auto simp: sql_client_closes_def streams_ok_def stream_ok_def)
qed

definition world_streams :: "sql_world \<Rightarrow> bool" where
  "world_streams w \<longleftrightarrow> (case w of Down db \<Rightarrow> True | Up pid h \<Rightarrow> streams_ok h)"

lemma step_streams:
  assumes "sql_step cfg w a w'" and "world_ok cfg w" and "world_streams w"
  shows "world_streams w'"
  using assms
proof (induction rule: sql_step.induct)
  case (step_act pid h a h')
  have "streams_ok (h\<lparr>g_commits := []\<rparr>)" using step_act.prems(2) by (simp add: world_streams_def streams_ok_def stream_ok_def)
  with act_streams [OF step_act.hyps] step_act.prems(1) have "streams_ok h'" by (auto simp: world_ok_def)
  then show ?case by (simp add: after_act_def world_streams_def)
qed (auto simp: world_streams_def after_act_def boot_streams)

lemma sql_reachable_streams:
  assumes "sql_reachable cfg (Up pid h)"
  shows "streams_ok h"
proof -
  have "world_streams w'" if "sql_trace cfg w as w'" "world_ok cfg w" "world_streams w" for w as w'
    using that
  proof (induction rule: trace.induct)
    case (trace_cons w a w1 as w2)
    from trace_cons.IH sql_step_ok [OF trace_cons.hyps(1) trace_cons.prems(1)] step_streams [OF trace_cons.hyps(1) trace_cons.prems]
    show ?case by blast
  qed
  from this [of "Down empty_db"] assms show ?thesis
    by (fastforce simp: sql_reachable_def world_ok_empty world_streams_def)
qed

end
