(* ===== verification/StreamProps.thy ===== *)
theory StreamProps
  imports SqlStreams ClusterProps
begin

text \<open>
  The properties of the SQLite host's event streams: complete in the process that executes the
  run, and cut off from the run in any other.
\<close>

section \<open>In one process\<close>

text \<open>C23. Every event stream of the SQLite host is faithful at every moment, over crashes and
  restarts: what it was sent is a subsequence of the run's log in the database, in order and
  without repetition; while it is served, and when the host has ended it, it holds every event
  after its resume point (the whole log when there was none); it is ended only when the run
  is terminal, and served only while it is not.\<close>

theorem sqlite_streams_are_complete:
  assumes "sql_reachable cfg (Up pid h)" and "getRun rid (g_db h) = Some r" and "s \<in> set (g_subs h rid)"
  shows "subseq (s_out s) (sql_log rid (g_db h)) \<and>
    (s_listening s \<or> s_ended s \<longrightarrow> events_after (s_after s) (s_out s) = events_after (s_after s) (sql_log rid (g_db h))) \<and>
    (s_listening s \<or> s_ended s \<longrightarrow> s_after s = num_of_int (- 1) \<longrightarrow> s_out s = sql_log rid (g_db h)) \<and>
    (s_ended s \<longrightarrow> is_terminal (q_status r)) \<and> (s_listening s \<longrightarrow> \<not> is_terminal (q_status r))"
proof -
  have "sub_ok (sql_log rid (g_db h)) (is_terminal (q_status r)) s"
    using sql_reachable_streams [OF assms(1)] assms(2,3) by (simp add: streams_ok_def stream_ok_def)
  from sub_ok_complete [OF this] show ?thesis by blast
qed

definition sdemo_stream :: "world_action list" where
  "sdemo_stream = sdemo_create @ [WAct (QRequest (demo_env 1 ''v'') (demo_request ''GET'' [''events''] demo_id))] @ sdemo_end"

lemma sdemo_streamed: "sdemo_runs sdemo_stream (Some ''p1'')"
  by code_simp

lemma sqlite_streams_are_complete_witness:
  "let h = sdemo_host sdemo_stream; s = hd (g_subs h demo_id) in
   s_ended s \<and> length (s_out s) = 4 \<and> s_out s = sql_log demo_id (g_db h) \<and> is_terminal (q_status (sdemo_row sdemo_stream))"
proof -
  let ?h = "sdemo_host sdemo_stream"
  let ?s = "hd (g_subs ?h demo_id)"
  have s: "s_ended ?s" "s_after ?s = num_of_int (- 1)" "length (s_out ?s) = 4" by code_simp+
  have "length (g_subs ?h demo_id) = 1" by code_simp
  then have "?s \<in> set (g_subs ?h demo_id)" by (cases "g_subs ?h demo_id") simp_all
  moreover have "sql_reachable sdemo_cfg (Up ''p1'' ?h)" "getRun demo_id (g_db ?h) = Some (sdemo_row sdemo_stream)"
    using sdemo_run(2,3,4) [OF sdemo_streamed] by simp_all
  ultimately show ?thesis using sqlite_streams_are_complete s unfolding Let_def by blast
qed

section \<open>In another process\<close>

text \<open>Responses that get nothing: each is as long as it was, and as open.\<close>

definition not_fed :: "sub list \<Rightarrow> sub list \<Rightarrow> bool" where
  "not_fed ss ss' \<longleftrightarrow>
     length ss \<le> length ss' \<and> (\<forall>j < length ss. s_out (ss' ! j) = s_out (ss ! j) \<and> s_ended (ss' ! j) = s_ended (ss ! j))"

lemma not_fed_refl [simp]: "not_fed ss ss"
  by (simp add: not_fed_def)

lemma not_fed_trans: "not_fed a b \<Longrightarrow> not_fed b c \<Longrightarrow> not_fed a c"
  by (simp add: not_fed_def)

lemma not_fed_more [simp]: "not_fed ss (ss @ [s])"
  by (simp add: not_fed_def nth_append)

lemma with_run_subs:
  "(\<And>r. g_subs (snd (k r)) = g_subs h) \<Longrightarrow> g_subs (snd (sql_with_run cfg rq h rid' k)) = g_subs h"
  by (simp add: sql_with_run_def split: option.split)

lemma handlers_subs:
  "g_subs (snd (sql_handleGetRun cfg rq rid' h)) = g_subs h" "g_subs (snd (sql_handleEventsPoll cfg rq rid' h)) = g_subs h"
  "g_subs (snd (sql_handleDebugBundle cfg en rq rid' h)) = g_subs h" "g_subs (snd (sql_handleCancelRun cfg rq rid' h)) = g_subs h"
  unfolding sql_handleGetRun_def sql_handleEventsPoll_def sql_handleDebugBundle_def sql_handleCancelRun_def
  by (rule with_run_subs; simp add: Let_def abort_exec_def set_exec_def split: option.split)+

lemma sse_fed: "not_fed (g_subs h rid) (g_subs (snd (sql_handleEventsSse cfg rq rid' h)) rid)"
  by (simp add: sql_handleEventsSse_def sql_with_run_def split: option.split)

lemma resume_subs:
  assumes "rid' \<noteq> rid"
  shows "g_subs (resume_one cfg now t rid' h) rid = g_subs h rid"
proof -
  note other_streams.R_resume_one [where rid = rid' and h = h and cfg = cfg and now = now and t = t, rule_format, of rid]
  then show ?thesis using assms by simp
qed

lemma create_fed:
  assumes "new_run_id en \<noteq> rid"
  shows "g_subs (snd (sql_handleCreateRun cfg en rq h)) rid = g_subs h rid"
proof -
  have "g_subs (snd (sql_createRun cfg en wid inputs key hash h1)) rid = g_subs h1 rid" for wid inputs key hash h1
    by (simp add: sql_createRun_def Let_def resume_subs [OF assms] split: sum.split option.split)
  then show ?thesis
    by (simp add: sql_handleCreateRun_def Let_def split: option.split create_check.split)
qed

lemma act_not_fed:
  assumes "sql_act cfg h a h'" and "getRun rid (g_db h) \<noteq> None" and none: "g_exec h rid = None"
  shows "not_fed (g_subs h rid) (g_subs h' rid)"
  using assms(1)
proof cases
  case (act_request en rq)
  with assms(2) have new: "new_run_id en \<noteq> rid" by auto
  have "not_fed (g_subs h rid) (g_subs (snd (sql_route cfg en rq h)) rid)"
    by (rule sql_route_cases; (rule sse_fed | simp add: handlers_subs create_fed [OF new]))
  with act_request show ?thesis by (cases "sql_route cfg en rq h") (auto simp: sql_serve_def split: sum.split)
next
  case (act_segment rid' t)
  with none have "rid' \<noteq> rid" by (auto simp: sql_segment_def)
  then show ?thesis using other_streams.R_segment [OF act_segment(2)] by simp
next
  case (act_timer rid')
  then have "g_subs h' = g_subs h" by (auto simp: sql_timer_def set_pc_def split: option.splits pc.splits)
  then show ?thesis by simp
next
  case (act_heartbeat rid' now)
  then have "g_subs h' = g_subs h" by (auto simp: heartbeat_def split: if_splits)
  then show ?thesis by simp
next
  case (act_close rid' j)
  then show ?thesis by (auto simp: sql_client_closes_def not_fed_def nth_list_update)
qed

lemma step_other_up:
  assumes "renewed_step cfg c a c'" and "actor a \<noteq> p"
  shows "c_up c' p = c_up c p"
proof -
  from assms(1) have "cluster_step cfg c a c'" by (simp add: renewed_step_def)
  then show ?thesis using assms(2) by (induction rule: cluster_step.induct) simp_all
qed

lemma view_subs [simp]: "g_subs (view_of c h) = g_subs h"
  by (simp add: view_of_def)

text \<open>C24. An event stream is fed by the process it was opened at only: opened at a process that
  does not execute the run, it gets nothing after its backlog and is never ended, whatever
  happens to the run, as long as that process lives and the claims of live executors are
  renewed.\<close>

theorem streams_elsewhere_stall:
  assumes "renewed_reachable cfg c" and "c_up c p = Some h" and "getRun rid (c_db c) \<noteq> None" and "g_exec h rid = None"
    and "renewed_trace cfg c as c'" and "list_all (\<lambda>a. actor a = p \<longrightarrow> is_act a) as"
  shows "\<exists>h'. c_up c' p = Some h' \<and> g_exec h' rid = None \<and> length (g_subs h rid) \<le> length (g_subs h' rid) \<and>
    (\<forall>j < length (g_subs h rid). s_out (g_subs h' rid ! j) = s_out (g_subs h rid ! j) \<and>
       s_ended (g_subs h' rid ! j) = s_ended (g_subs h rid ! j))"
proof -
  have "\<exists>h'. c_up c' p = Some h' \<and> g_exec h' rid = None \<and> not_fed (g_subs h rid) (g_subs h' rid)"
    if "renewed_trace cfg c as c'" "cluster_ok cfg c" "list_all (\<lambda>a. actor a = p \<longrightarrow> is_act a) as"
      "getRun rid (c_db c) \<noteq> None" "c_up c p = Some h1" "g_exec h1 rid = None" "not_fed (g_subs h rid) (g_subs h1 rid)"
    for c as c' h1
    using that
  proof (induction arbitrary: h1 rule: trace.induct)
    case (trace_cons c a c1 as c')
    note ok = cluster_step_ok [OF trace_cons.hyps(1) trace_cons.prems(1)]
    with trace_cons.prems(3) have row: "getRun rid (c_db c1) \<noteq> None" by (fastforce simp: db_evolves_def run_view_def)
    have "\<exists>h2. c_up c1 p = Some h2 \<and> g_exec h2 rid = None \<and> not_fed (g_subs h rid) (g_subs h2 rid)"
    proof (cases "actor a = p")
      case False
      with step_other_up [OF trace_cons.hyps(1) False] trace_cons.prems show ?thesis by simp
    next
      case True
      with trace_cons.prems(2) obtain b where b: "a = CAct p b" by (cases a) auto
      from trace_cons.hyps(1) trace_cons.prems(4) b obtain h2
        where h2: "sql_act (as_process cfg p) (view_of c h1) b h2" "c1 = carries_on p h2 c"
        by (auto simp: renewed_step_def elim: cluster_step.cases)
      note inv = cluster_ok_host [OF trace_cons.prems(1,4)]
      have "g_exec h2 rid = None"
        using sql_act_on_run [OF h2(1) inv, of rid] trace_cons.prems(3,5) by (simp add: acts_on_run_def)
      moreover have "not_fed (g_subs h1 rid) (g_subs h2 rid)"
        using act_not_fed [OF h2(1), of rid] trace_cons.prems(3,5) by simp
      moreover have "\<not> g_crashed h2"
        by (rule host_inv_facts(1) [OF act_host_inv [OF trace_cons.prems(1,4) h2(1)]])
      ultimately show ?thesis using h2(2) not_fed_trans [OF trace_cons.prems(6)] by simp
    qed
    with trace_cons.IH [OF _ _ row] ok trace_cons.prems(2) show ?case by auto
  qed auto
  from this [OF assms(5) renewed_reachable_ok [OF assms(1)] assms(6,3,2,4)] show ?thesis
    by (auto simp: not_fed_def)
qed

definition stream_at_p2 :: "cluster_action list" where
  "stream_at_p2 = two_processes @ [CAct ''p2'' (QRequest (demo_env 1 ''v'') (demo_request ''GET'' [''events''] demo_id))]"

definition p1_ends :: "cluster_action list" where
  "p1_ends = [CAct ''p1'' (QTimer demo_id), CAct ''p1'' (QSegment demo_id ''T''), CAct ''p1'' (QSegment demo_id ''T'')]"

lemma cluster_run_append:
  "cluster_run cfg (as @ bs) c = (case cluster_run cfg as c of None \<Rightarrow> None | Some c' \<Rightarrow> cluster_run cfg bs c')"
  by (induction as arbitrary: c) (auto split: option.split)

lemma cdemo_trace:
  assumes "cdemo_runs as ps" and "cdemo_runs (as @ bs) qs"
  shows "renewed_trace sdemo_cfg (cdemo as) bs (cdemo (as @ bs))"
proof -
  from assms obtain c c' where "cluster_run sdemo_cfg as no_cluster = Some c" "cluster_run sdemo_cfg (as @ bs) no_cluster = Some c'"
    by (auto simp: cdemo_runs_def split: option.splits)
  then show ?thesis by (intro cluster_run_trace) (simp add: cdemo_def cluster_run_append)
qed

lemma stream_at_p2_run: "cdemo_runs stream_at_p2 [''p2'']"
  by code_simp

lemma stream_at_p2_ended: "cdemo_runs (stream_at_p2 @ p1_ends) [''p2'']"
  by code_simp

lemma streams_elsewhere_stall_witness:
  "let s = hd (g_subs (cdemo_host (stream_at_p2 @ p1_ends) ''p2'') demo_id) in
   q_status (cdemo_row (stream_at_p2 @ p1_ends)) = Completed \<and> \<not> s_ended s \<and>
   length (s_out s) < length (rows_of demo_id (c_db (cdemo (stream_at_p2 @ p1_ends))))"
proof -
  let ?h = "cdemo_host stream_at_p2 ''p2''" and ?h' = "cdemo_host (stream_at_p2 @ p1_ends) ''p2''"
  have up: "c_up (cdemo stream_at_p2) ''p2'' = Some ?h" by (rule cdemo_run(3) [OF stream_at_p2_run]) simp
  have up': "c_up (cdemo (stream_at_p2 @ p1_ends)) ''p2'' = Some ?h'" by (rule cdemo_run(3) [OF stream_at_p2_ended]) simp
  have "Option.is_none (g_exec ?h demo_id)" by code_simp
  then have none: "g_exec ?h demo_id = None" by (simp add: Option.is_none_def)
  have acts: "list_all (\<lambda>a. actor a = ''p2'' \<longrightarrow> is_act a) p1_ends" by (simp add: p1_ends_def)
  have row: "getRun demo_id (c_db (cdemo stream_at_p2)) \<noteq> None" using cdemo_run(2) [OF stream_at_p2_run] by simp
  have s: "length (g_subs ?h demo_id) = 1" "length (s_out (g_subs ?h demo_id ! 0)) = 2" "\<not> s_ended (g_subs ?h demo_id ! 0)"
    by code_simp+
  from streams_elsewhere_stall [OF cdemo_run(1) [OF stream_at_p2_run] up row none cdemo_trace [OF stream_at_p2_run stream_at_p2_ended] acts]
    up' s have "g_subs ?h' demo_id \<noteq> []" "length (s_out (g_subs ?h' demo_id ! 0)) = 2" "\<not> s_ended (g_subs ?h' demo_id ! 0)" by auto
  moreover have "q_status (cdemo_row (stream_at_p2 @ p1_ends)) = Completed" by code_simp
  moreover have "2 < length (rows_of demo_id (c_db (cdemo (stream_at_p2 @ p1_ends))))" by code_simp
  ultimately show ?thesis by (simp add: Let_def hd_conv_nth)
qed

end
