(* ===== verification/Spec2Isabelle.thy ===== *)
theory Spec2Isabelle
  imports SqlProps SqlHttpProps SqlRaces MemStreams MemRefine NetProps TypeProps SuiteProps ExampleProps ProfileProps Spawn ClusterProps StreamProps
begin

text \<open>
  A model of the TypeScript code of the WOP repository: the two reference hosts, the client SDK,
  the library of the conformance suite and the example clients, with the theorems that make
  them correct.

  \<^bold>\<open>The program.\<close> A host runs workflows. A client creates a run over HTTP
  (\<^verbatim>\<open>POST /v1/runs\<close>), may cancel it, and follows its event log by polling or as a
  stream of server-sent events. \<^verbatim>\<open>examples/hosts/in-memory/src/server.ts\<close> keeps runs
  in a \<^verbatim>\<open>Map\<close>; \<^verbatim>\<open>examples/hosts/sqlite/src/server.ts\<close> keeps them in a
  database that outlives the process, with a claim on each run and recovery at startup.
  \<^verbatim>\<open>sdk/typescript/src\<close> is the client, \<^verbatim>\<open>conformance/src\<close> the suite that
  tests a host, \<^verbatim>\<open>examples\<close> has programs that use one.

  \<^bold>\<open>Foundations.\<close> \<open>Prelude\<close>: JavaScript's string operations. \<open>JsNumber\<close>:
  numbers as exact decimals with NaN and the infinities, \<^verbatim>\<open>Number(s)\<close>.
  \<open>Json\<close>: \<^verbatim>\<open>JSON.stringify\<close> and \<^verbatim>\<open>JSON.parse\<close>;
  \<open>JsonLaws\<close>: parsing gives back what was printed, and the parser's fuel (one more than the
  length of the text) is enough: more gives the same result. Strings are byte strings, the
  UTF-8 form of the texts of the program.

  \<^bold>\<open>What the hosts share.\<close> \<open>RunCore\<close>: statuses, events, workflows, fixtures,
  requests and replies, authentication, the validation of a create, path patterns, and the
  specification of event logs (\<open>open_log\<close>, \<open>final_log\<close>: the log a workflow
  prescribes, up to any point, and for each final status). \<open>Interfaces\<close>: the locales
  \<open>event_log\<close> (an append-only numbered log and its readers), \<open>idem_store\<close> (a store of
  idempotency entries with expiry) and \<open>run_system\<close> (a transition system that keeps an
  invariant and lets a run only evolve); each host interprets all three.

  \<^bold>\<open>The in-memory host.\<close> \<open>MemHost\<close>: the executor, cut at its \<^verbatim>\<open>await\<close>s into
  segments (\<open>runWorkflow\<close>, \<open>executeNode\<close>, \<open>workflow_loop\<close>,
  \<open>runWorkflow_outcome\<close>, timers, \<open>request_cancel\<close>), and the event bus (\<open>appendEvent\<close>,
  \<open>onEvent\<close>). \<open>MemHttp\<close>: state, every handler, router and server. \<open>MemExec\<close>: the invariant
  \<open>run_ok\<close> of one run. \<open>MemSafety\<close>: the step relation \<open>mem_step\<close> (a request, a segment,
  a timer, a client that closes), reachability, the invariant of the host, the
  interpretations. \<open>MemLaws\<close>: routing, idempotency over traces, steps left.
  \<open>MemProps\<close>: the properties. \<open>MemStreams\<close>: what one event stream is sent from its
  request on. \<open>MemRefine\<close>: an abstract machine of one run, which knows no
  promises, timers or signals, and the refinement: the host as a second instance of
  \<open>run_system\<close>, in which a run moves by steps of the machine; bounds on logs.

  \<^bold>\<open>The SQLite host.\<close> \<open>SqlDb\<close>: the tables and each prepared statement, with the
  constraints that make it fail. \<open>SqlHost\<close>: claims, the executor with its
  \<^verbatim>\<open>try/catch/finally\<close>, startup, shutdown, handlers, router. A throw is a value;
  \<open>g_commits\<close> records the database after each statement, so that a crash can fall between
  any two. \<open>SqlSpec\<close>: what a log over several processes may look like, and the invariant of
  the database. \<open>SqlExec\<close>: the executor keeps it. \<open>SqlFrame\<close>: an executor touches
  nothing but its run, as a locale. \<open>SqlSafety\<close>: the world (process up or down, database),
  its step relation with crashes (\<open>WTorn\<close>, \<open>WCrash\<close>), reachability. \<open>SqlLaws\<close>: what one
  step does to one run, termination of an executor, recovery, pages of the log.
  \<open>SqlDemo\<close>: concrete histories. \<open>SqlRestart\<close>: how a run ends that a start has taken up.
  \<open>SqlProps\<close>, \<open>SqlHttpProps\<close>: the properties. \<open>SqlRaces\<close>: a crash in the middle of a
  create, and that an executor writes on whatever its claim.
  \<open>Cluster\<close>: several processes on one database, a stretch of code of one of them at a time.
  A start is one stretch for the query for orphans and one for each orphan it tries
  (\<open>finds_orphans\<close>, \<open>resume_next\<close>), so processes that start together compete for claims.
  \<open>cluster_step\<close> allows every order; \<open>renewed_step\<close> excludes that a start tries a run which
  a live process executes under an expired claim, and the theorems that need this say so. What a
  process guarantees the runs of the others then is \<open>spares\<close>; \<open>ClusterLaws\<close>: the
  invariant, a third instance of \<open>run_system\<close>, and starts without that restriction;
  \<open>ClusterProps\<close>: the properties.
  \<open>SqlStreams\<close>: the event streams, fed from the bus of their process, with the invariant
  that they hold what the database holds; \<open>StreamProps\<close>: that they are complete in the process
  that executes the run and cut off from it in any other.

  \<^bold>\<open>Clients.\<close> \<open>Wire\<close>: requests, URL encoding, and how a request is delivered to a
  handler. \<open>Sse\<close>: the event-stream readers of the SDK (\<^verbatim>\<open>sse.ts\<close>) and of the suite
  (\<^verbatim>\<open>lib/sse.ts\<close>); \<open>SseLaws\<close>: the locale \<open>sse_reader\<close> and its two instances, how
  frames are read back. \<open>SseFormat\<close>: the format on its own, as blocks of lines and the event
  each stands for, and that both readers read it. \<open>Sdk\<close>: the client (\<^verbatim>\<open>client.ts\<close>) and its error class.
  \<open>Network\<close>: a host as the \<^verbatim>\<open>fetch\<close> of a client. \<open>SdkCalls\<close>: what each call
  returns against a host. \<open>SdkTypes\<close>: the interfaces of \<^verbatim>\<open>types.ts\<close> as types of JSON
  values (\<open>has_type\<close>). \<open>SseProps\<close>, \<open>NetProps\<close>, \<open>TypeProps\<close>: the properties of the
  readers, of client and host together (the locale \<open>stream_host\<close> is a host of finished runs,
  with both hosts as instances), and which answers have their declared types.

  \<^bold>\<open>The suite.\<close> \<open>Profiles\<close> (\<^verbatim>\<open>profiles.ts\<close>), \<open>Canaries\<close>
  (\<^verbatim>\<open>canaries.ts\<close>, with the laws of the detector), \<open>Suite\<close> (\<^verbatim>\<open>env.ts\<close>,
  \<^verbatim>\<open>driver.ts\<close>, \<^verbatim>\<open>polling.ts\<close>), \<open>Cli\<close> (\<^verbatim>\<open>cli.ts\<close>); \<open>SuiteProps\<close>: their
  properties. \<open>Spawn\<close> (\<^verbatim>\<open>multiProcess.ts\<close>): how the suite starts, awaits and stops
  a SQLite host, and the settings that host reads.

  \<^bold>\<open>The examples.\<close> \<open>Examples\<close>: programs as the lines they print and how they end
  (\<open>prog\<close>, \<open>flow\<close>, \<open>run_main\<close>), and \<^verbatim>\<open>idempotent-runs\<close>,
  \<^verbatim>\<open>streaming-client\<close> with its own frame parser, \<^verbatim>\<open>tiny-workflow\<close> with its
  polling loop, and the canonical JSON, manifest and signature of
  \<^verbatim>\<open>node-pack-publishing\<close>. \<open>ProfileExamples\<close>: the programs for optional profiles
  (\<^verbatim>\<open>approval-workflow\<close>, \<^verbatim>\<open>branch-fork\<close>, \<^verbatim>\<open>mcp-tool\<close>), with
  \<open>and_loop\<close> for programs that may not end, and the rest of the node-pack program;
  \<open>ProfileProps\<close>: their properties. \<open>ExampleLaws\<close>: canonical JSON as the text of a sorted
  value, frames and chunks, the requests on the host's side; \<open>ExampleProps\<close>: the properties.

  \<^bold>\<open>What the theorems show.\<close> For the hosts: invariants of the logs and rows in every
  reachable state, that runs only grow and end once, termination and recovery, that an
  accepted cancellation is final (and, for the SQLite host, that a crash loses it),
  completeness of streams and polls, idempotent creation and the crash it does not survive, the
  error answers, that nothing leaks past authentication or into a debug bundle, that several
  processes keep apart while claims are renewed and take over from each other, and what the
  claims do not do: a stalled executor writes on after its run was taken over and has ended. For the clients: independence of chunking,
  that both readers follow the format, that a finished run is read back exactly, errors as the host
  sent them, safe retries; which answers have the SDK's types and which never do; and that the
  SDK's poll and the hosts disagree on a parameter. For the examples: what each prints
  against the in-memory host and when it exits with 0; that canonical JSON is canonical; that
  all of them end, and what must have happened when they exit with 0.

  \<^bold>\<open>Bounds.\<close> The only fuel is that of the JSON parser, above. The recursion of the
  readers, the scan and the argument parser has termination proofs; the polling loops are partial
  functions that are shown to return. A run takes at most three steps for each node.

  \<^bold>\<open>Parameters.\<close> The digest function, the fixtures' directory listing and file contents,
  the readings of clock and random source, the network and its chunks, the process
  environment, running the tests, the message of a JSON syntax error, signing and base64.

  \<^bold>\<open>Not modelled.\<close> Statements of two SQLite processes within each other's
  stretches of code (a stretch, or its first statements when it is killed, is one step); the
  decoding of bytes into text (a chunk is what the incremental decoder gives);
  sockets and HTTP parsing; rounding of numbers beyond 53 bits and exponent forms; the processes a spawned host runs in; the suite's scenarios and the Python
  and Go SDKs, which call what is modelled here or are other programs.
\<close>

end
